(* ===== verification/Vinculum_Prelude.thy ===== *)
theory Vinculum_Prelude
  imports Main "HOL-Library.Multiset"
begin

text \<open>
  Shared vocabulary of the development: time and durations, the edges a watchable value
  reports to its watchers, running a list of operations, and the two interfaces every
  component is measured against. The interface \<open>notifying\<close> is the contract of a component
  whose operations report output changes; the interface \<open>invariant_machine\<close> is the contract
  of a machine whose operations keep an invariant. Each component interprets them on its own
  operations.
\<close>

section \<open>Types\<close>

text \<open>Go's \<open>time.Time\<close> and \<open>time.Duration\<close> are counts of nanoseconds; the zero
  \<open>time.Time\<close>, which the code tests with \<open>IsZero\<close>, is \<open>None\<close> where it can occur.\<close>

type_synonym time = int
type_synonym duration = int

text \<open>Go's \<open>int64\<close> is \<open>int\<close>, with its wrap-around where it matters.\<close>

definition wrap64 :: "int \<Rightarrow> int" where
  "wrap64 x = (x + 2 ^ 63) mod 2 ^ 64 - 2 ^ 63"

definition int64 :: "int \<Rightarrow> bool" where
  "int64 x \<longleftrightarrow> - (2 ^ 63) \<le> x \<and> x < 2 ^ 63"

lemma wrap64_id: "int64 x \<Longrightarrow> wrap64 x = x"
  by (simp add: wrap64_def int64_def)

text \<open>An edge is the pair (old value, new value) a watcher receives.\<close>

type_synonym edge = "bool \<times> bool"

named_theorems edge_simps \<open>equations about chains of edges\<close>

section \<open>Chains of edges\<close>

fun edge_chain :: "bool \<Rightarrow> edge list \<Rightarrow> bool \<Rightarrow> bool" where
  "edge_chain a [] b = (a = b)"
| "edge_chain a ((x, y) # es) b = (x = a \<and> y \<noteq> x \<and> edge_chain y es b)"

fun run_ops :: "('op \<Rightarrow> 's \<Rightarrow> 's \<times> 'e list) \<Rightarrow> 'op list \<Rightarrow> 's \<Rightarrow> 's \<times> 'e list" where
  "run_ops f [] s = (s, [])"
| "run_ops f (x # xs) s =
     (let (s1, es1) = f x s; (s2, es2) = run_ops f xs s1 in (s2, es1 @ es2))"

lemma edge_chain_append [edge_simps]:
  "edge_chain a (es @ fs) c \<longleftrightarrow> (\<exists>b. edge_chain a es b \<and> edge_chain b fs c)"
  by (induction a es c rule: edge_chain.induct) auto

lemma edge_chain_appendI: "edge_chain a es b \<Longrightarrow> edge_chain b fs c \<Longrightarrow> edge_chain a (es @ fs) c"
  by (auto simp: edge_chain_append)

lemma edge_chain_nth:
  "edge_chain a es b \<Longrightarrow> i < length es \<Longrightarrow>
     es ! i = (if even i then (a, \<not> a) else (\<not> a, a))"
proof (induction a es b arbitrary: i rule: edge_chain.induct)
  case (1 a b)
  then show ?case by simp
next
  case (2 a x y es b)
  then show ?case by (cases i) auto
qed

lemma edge_chain_parity: "edge_chain a es b \<Longrightarrow> (a \<noteq> b) = odd (length es)"
  by (induction a es b rule: edge_chain.induct) auto

lemma run_ops_Cons_fst [simp]:
  "fst (run_ops f (x # xs) s) = fst (run_ops f xs (fst (f x s)))"
  by (simp add: case_prod_beta)

lemma run_ops_Cons_snd [simp]:
  "snd (run_ops f (x # xs) s) = snd (f x s) @ snd (run_ops f xs (fst (f x s)))"
  by (simp add: case_prod_beta)

declare run_ops.simps(2) [simp del]

lemma run_ops_append_fst:
  "fst (run_ops f (xs @ ys) s) = fst (run_ops f ys (fst (run_ops f xs s)))"
  by (induction xs arbitrary: s) auto

lemma run_ops_append_snd:
  "snd (run_ops f (xs @ ys) s) = snd (run_ops f xs s) @ snd (run_ops f ys (fst (run_ops f xs s)))"
  by (induction xs arbitrary: s) auto

lemma run_ops_appendI:
  assumes "run_ops f xs s = (s1, es)" and "run_ops f ys s1 = (s2, fs)"
  shows "run_ops f (xs @ ys) s = (s2, es @ fs)"
  using assms by (intro prod_eqI) (simp_all add: run_ops_append_fst run_ops_append_snd)

section \<open>Diagnostics\<close>

text \<open>HCL diagnostics by severity and summary; processing stops when one is an error.\<close>

datatype diag = DiagError string | DiagWarning string

fun is_error :: "diag \<Rightarrow> bool" where
  "is_error (DiagError _) = True"
| "is_error (DiagWarning _) = False"

definition HasErrors :: "diag list \<Rightarrow> bool" where
  "HasErrors ds = list_ex is_error ds"

lemma HasErrors_simps [simp]:
  "\<not> HasErrors []"
  "HasErrors (d # ds) = (is_error d \<or> HasErrors ds)"
  "HasErrors (ds @ es) = (HasErrors ds \<or> HasErrors es)"
  by (simp_all add: HasErrors_def)

section \<open>Sorted lists\<close>

lemma sorted_dropWhile_filter:
  "sorted xs \<Longrightarrow> dropWhile (\<lambda>x. x \<le> k) xs = filter (\<lambda>x. k < x) (xs :: 'a::linorder list)"
proof (induction xs)
  case (Cons x xs)
  show ?case
  proof (cases "x \<le> k")
    case False
    then have "\<forall>y \<in> set (x # xs). k < y" using Cons.prems by auto
    then show ?thesis using False by (simp add: filter_True)
  qed (use Cons in auto)
qed simp

section \<open>Interfaces\<close>

text \<open>
  A component that reports edges once it is live: one operation of a live component reports a chain
  from the output it found to the output it left. Every run of operations then reports one chain, in
  which activations and deactivations alternate and no watcher sees the same value twice in a row.
\<close>

locale notifying_when =
  fixes exec :: "'op \<Rightarrow> 's \<Rightarrow> 's \<times> edge list"
    and out :: "'s \<Rightarrow> bool"
    and live :: "'s \<Rightarrow> bool"
  assumes exec_live: "live s \<Longrightarrow> live (fst (exec x s))"
    and exec_chain: "live s \<Longrightarrow> edge_chain (out s) (snd (exec x s)) (out (fst (exec x s)))"
begin

lemma run_chain:
  "live s \<Longrightarrow> edge_chain (out s) (snd (run_ops exec xs s)) (out (fst (run_ops exec xs s)))"
proof (induction xs arbitrary: s)
  case Nil
  then show ?case by simp
next
  case (Cons x xs)
  show ?case
    using exec_chain[of s x] Cons.IH[of "fst (exec x s)"] exec_live[of s x] Cons.prems
    by (auto simp: edge_simps)
qed

lemma run_alternates:
  assumes "live s" and "i < length (snd (run_ops exec xs s))"
  shows "snd (run_ops exec xs s) ! i = (if even i then (out s, \<not> out s) else (\<not> out s, out s))"
  using run_chain[OF assms(1)] assms(2) by (rule edge_chain_nth)

text \<open>Before it is live it reports nothing: a run from there reports a chain as well, from the output
  it had when it became live.\<close>

lemma run_chain_baseline:
  assumes "\<And>s x. \<not> live s \<Longrightarrow> snd (exec x s) = []"
  shows "\<exists>b. edge_chain b (snd (run_ops exec xs s)) (out (fst (run_ops exec xs s)))"
proof (induction xs arbitrary: s)
  case Nil
  then show ?case by simp
next
  case (Cons x xs)
  show ?case
  proof (cases "live s")
    case True
    then show ?thesis using run_chain by blast
  next
    case False
    then show ?thesis using Cons.IH assms by simp
  qed
qed

end

text \<open>A component that is always live.\<close>

locale notifying =
  fixes exec :: "'op \<Rightarrow> 's \<Rightarrow> 's \<times> edge list"
    and out :: "'s \<Rightarrow> bool"
  assumes exec_chain: "edge_chain (out s) (snd (exec x s)) (out (fst (exec x s)))"

sublocale notifying \<subseteq> always: notifying_when exec out "\<lambda>_. True"
  by unfold_locales (simp_all add: exec_chain)

context notifying
begin

lemmas run_chain = always.run_chain[OF TrueI]

lemmas run_alternates = always.run_alternates[OF TrueI]

lemma run_final_output:
  "out (fst (run_ops exec xs s)) = (out s \<noteq> odd (length (snd (run_ops exec xs s))))"
  using edge_chain_parity[OF run_chain[of s xs]] by auto

end

text \<open>A machine all of whose operations keep an invariant keeps it over every run.\<close>

locale invariant_machine =
  fixes exec :: "'op \<Rightarrow> 's \<Rightarrow> 's \<times> 'e list"
    and inv :: "'s \<Rightarrow> bool"
    and ok :: "'op \<Rightarrow> bool"
  assumes exec_inv: "inv s \<Longrightarrow> ok x \<Longrightarrow> inv (fst (exec x s))"
begin

lemma run_inv: "inv s \<Longrightarrow> \<forall>x \<in> set xs. ok x \<Longrightarrow> inv (fst (run_ops exec xs s))"
  by (induction xs arbitrary: s) (auto simp: exec_inv)

lemma run_inv_list_all: "inv s \<Longrightarrow> list_all ok xs \<Longrightarrow> inv (fst (run_ops exec xs s))"
  by (rule run_inv) (auto simp: list_all_iff)

end

text \<open>
  A component that implements a specification: its states include the representations of the states of
  the specification, and on these an operation does and answers what the specification says. Every
  run of operations then answers as the specification does.
\<close>

locale implements =
  fixes exec :: "'op \<Rightarrow> 's \<Rightarrow> 's \<times> 'e list"
    and spec :: "'op \<Rightarrow> 'a \<Rightarrow> 'a \<times> 'e list"
    and rep :: "'a \<Rightarrow> 's"
  assumes exec_rep: "exec x (rep a) = (rep (fst (spec x a)), snd (spec x a))"
begin

lemma run_rep: "run_ops exec xs (rep a) = (rep (fst (run_ops spec xs a)), snd (run_ops spec xs a))"
proof (induction xs arbitrary: a)
  case (Cons x xs)
  then show ?case by (simp add: exec_rep prod_eq_iff)
qed simp

lemma run_answers: "snd (run_ops exec xs (rep a)) = snd (run_ops spec xs a)"
  by (simp add: run_rep)

end

end
