(* ===== verification/Cond_State.thy ===== *)
theory Cond_State
  imports Vinculum_Prelude
begin

text \<open>
  The four-state machine shared by every condition subtype (\<open>conditions/state.go\<close>), its
  behaviour attributes (\<open>conditions/common.go\<close>) and the clock it runs on. The clock keeps
  the callbacks scheduled by \<open>AfterFunc\<close>; a callback whose deadline has passed is first
  taken out of the schedule (from then on \<open>Stop\<close> has no effect on it) and runs later, so
  operations that happen between expiry and execution are part of the model.
\<close>

section \<open>Clock\<close>

datatype callback =
    CbActivate | CbDeactivate | CbTimeout | CbCooldown
  | CbDebounce | CbExpiry

record Clock =
  clk_now :: time
  clk_next :: nat
  clk_sched :: "(nat \<times> time \<times> callback) list"

definition AfterFunc :: "duration \<Rightarrow> callback \<Rightarrow> Clock \<Rightarrow> Clock" where
  "AfterFunc d cb c =
     c\<lparr>clk_next := Suc (clk_next c),
       clk_sched := clk_sched c @ [(clk_next c, clk_now c + d, cb)]\<rparr>"

definition StopTimer :: "nat \<Rightarrow> Clock \<Rightarrow> Clock" where
  "StopTimer h c = c\<lparr>clk_sched := filter (\<lambda>e. fst e \<noteq> h) (clk_sched c)\<rparr>"

section \<open>Behaviour and machine state\<close>

datatype State =
    StateInactive | StatePendingActivation | StateActive | StatePendingDeactivation

fun State_String :: "State \<Rightarrow> string" where
  "State_String StateInactive = ''inactive''"
| "State_String StatePendingActivation = ''pending_activation''"
| "State_String StateActive = ''active''"
| "State_String StatePendingDeactivation = ''pending_deactivation''"

record Behavior =
  ActivateAfter :: duration
  DeactivateAfter :: duration
  Timeout :: duration
  Cooldown :: duration
  Latch :: bool
  Invert :: bool
  Retentive :: bool
  StartActive :: bool

record StateMachine =
  behavior :: Behavior
  clock :: Clock
  sm_state :: State
  rawInput :: bool
  latched :: bool
  inhibited :: bool
  cooldownUntil :: "time option"
  pendingTimer :: "nat option"
  timeoutTimer :: "nat option"
  cooldownTimer :: "nat option"
  retAccumulated :: duration
  retStartedAt :: "time option"

definition NewStateMachine :: "Behavior \<Rightarrow> Clock \<Rightarrow> StateMachine" where
  "NewStateMachine b c =
     \<lparr>behavior = b, clock = c, sm_state = StateInactive, rawInput = False, latched = False,
      inhibited = False, cooldownUntil = None, pendingTimer = None, timeoutTimer = None,
      cooldownTimer = None, retAccumulated = 0, retStartedAt = None\<rparr>"

section \<open>Timer slots\<close>

definition now :: "StateMachine \<Rightarrow> time" where
  "now sm = clk_now (clock sm)"

definition stop_slot :: "nat option \<Rightarrow> StateMachine \<Rightarrow> StateMachine" where
  "stop_slot slot sm =
     (case slot of None \<Rightarrow> sm | Some h \<Rightarrow> sm\<lparr>clock := StopTimer h (clock sm)\<rparr>)"

definition start_pending :: "duration \<Rightarrow> callback \<Rightarrow> StateMachine \<Rightarrow> StateMachine" where
  "start_pending d cb sm =
     sm\<lparr>clock := AfterFunc d cb (clock sm), pendingTimer := Some (clk_next (clock sm))\<rparr>"

definition start_timeout :: "duration \<Rightarrow> StateMachine \<Rightarrow> StateMachine" where
  "start_timeout d sm =
     sm\<lparr>clock := AfterFunc d CbTimeout (clock sm), timeoutTimer := Some (clk_next (clock sm))\<rparr>"

definition start_cooldown :: "duration \<Rightarrow> StateMachine \<Rightarrow> StateMachine" where
  "start_cooldown d sm =
     sm\<lparr>clock := AfterFunc d CbCooldown (clock sm), cooldownTimer := Some (clk_next (clock sm))\<rparr>"

definition cancelPendingLocked :: "StateMachine \<Rightarrow> StateMachine" where
  "cancelPendingLocked sm = (stop_slot (pendingTimer sm) sm)\<lparr>pendingTimer := None\<rparr>"

definition cancelTimeoutLocked :: "StateMachine \<Rightarrow> StateMachine" where
  "cancelTimeoutLocked sm = (stop_slot (timeoutTimer sm) sm)\<lparr>timeoutTimer := None\<rparr>"

definition cooldownActiveLocked :: "StateMachine \<Rightarrow> bool" where
  "cooldownActiveLocked sm =
     (case cooldownUntil sm of None \<Rightarrow> False | Some u \<Rightarrow> now sm < u)"

definition restartTimeoutLocked :: "StateMachine \<Rightarrow> StateMachine" where
  "restartTimeoutLocked sm =
     (let sm1 = cancelTimeoutLocked sm
      in if latched sm1 \<or> Timeout (behavior sm1) \<le> 0 then sm1
         else start_timeout (Timeout (behavior sm1)) sm1)"

section \<open>Transitions\<close>

definition becomeActiveLocked :: "StateMachine \<Rightarrow> StateMachine" where
  "becomeActiveLocked sm =
     (let sm1 = sm\<lparr>sm_state := StateActive, retAccumulated := 0, retStartedAt := None\<rparr>;
          sm2 = (if Latch (behavior sm1) then sm1\<lparr>latched := True\<rparr> else sm1)
      in restartTimeoutLocked sm2)"

definition becomeInactiveLocked :: "StateMachine \<Rightarrow> StateMachine" where
  "becomeInactiveLocked sm =
     (let sm1 = cancelTimeoutLocked (sm\<lparr>sm_state := StateInactive\<rparr>)
      in if Cooldown (behavior sm1) > 0
         then let sm2 = sm1\<lparr>cooldownUntil := Some (now sm1 + Cooldown (behavior sm1))\<rparr>;
                  sm3 = stop_slot (cooldownTimer sm2) sm2
              in start_cooldown (Cooldown (behavior sm3)) sm3
         else sm1)"

definition tryActivateLocked :: "StateMachine \<Rightarrow> StateMachine" where
  "tryActivateLocked sm =
     (if cooldownActiveLocked sm \<or> inhibited sm then sm
      else if ActivateAfter (behavior sm) \<le> 0 then becomeActiveLocked sm
      else let remaining = ActivateAfter (behavior sm) - retAccumulated sm
           in if remaining \<le> 0 then becomeActiveLocked sm
              else start_pending remaining CbActivate
                     (sm\<lparr>sm_state := StatePendingActivation, retStartedAt := Some (now sm)\<rparr>))"

definition pauseRetentiveLocked :: "StateMachine \<Rightarrow> StateMachine" where
  "pauseRetentiveLocked sm =
     (let sm1 = cancelPendingLocked sm
      in case retStartedAt sm1 of
           None \<Rightarrow> sm1
         | Some t0 \<Rightarrow> sm1\<lparr>retAccumulated := retAccumulated sm1 + (now sm1 - t0),
                         retStartedAt := None\<rparr>)"

definition resumeRetentiveLocked :: "StateMachine \<Rightarrow> StateMachine" where
  "resumeRetentiveLocked sm =
     (let remaining = ActivateAfter (behavior sm) - retAccumulated sm
      in if remaining \<le> 0 then becomeActiveLocked sm
         else start_pending remaining CbActivate (sm\<lparr>retStartedAt := Some (now sm)\<rparr>))"

definition onInputChangeLocked :: "bool \<Rightarrow> StateMachine \<Rightarrow> StateMachine" where
  "onInputChangeLocked value sm =
     (case sm_state sm of
        StateInactive \<Rightarrow> (if value then tryActivateLocked sm else sm)
      | StatePendingActivation \<Rightarrow>
          (if \<not> value
           then if Retentive (behavior sm) then pauseRetentiveLocked sm
                else (cancelPendingLocked sm)\<lparr>sm_state := StateInactive\<rparr>
           else if Retentive (behavior sm) \<and> pendingTimer sm = None
                then resumeRetentiveLocked sm else sm)
      | StateActive \<Rightarrow>
          (if value then restartTimeoutLocked sm
           else if latched sm then sm
           else if DeactivateAfter (behavior sm) > 0
                then start_pending (DeactivateAfter (behavior sm)) CbDeactivate
                       (sm\<lparr>sm_state := StatePendingDeactivation\<rparr>)
                else becomeInactiveLocked sm)
      | StatePendingDeactivation \<Rightarrow>
          (if value
           then restartTimeoutLocked ((cancelPendingLocked sm)\<lparr>sm_state := StateActive\<rparr>)
           else sm))"

section \<open>Output and notification\<close>

definition outputLocked :: "StateMachine \<Rightarrow> bool" where
  "outputLocked sm =
     (case sm_state sm of
        StateActive \<Rightarrow> True | StatePendingDeactivation \<Rightarrow> True | _ \<Rightarrow> False)"

definition Output :: "StateMachine \<Rightarrow> bool" where
  "Output sm =
     (let out = outputLocked sm in if Invert (behavior sm) then \<not> out else out)"

definition notifyAll :: "StateMachine \<Rightarrow> bool \<Rightarrow> bool \<Rightarrow> edge" where
  "notifyAll sm before after =
     (if Invert (behavior sm) then (\<not> before, \<not> after) else (before, after))"

definition report :: "bool \<Rightarrow> StateMachine \<Rightarrow> StateMachine \<times> edge list" where
  "report before sm =
     (let after = outputLocked sm
      in (sm, if before \<noteq> after then [notifyAll sm before after] else []))"

section \<open>Operations\<close>

definition Bootstrap :: "StateMachine \<Rightarrow> StateMachine" where
  "Bootstrap sm =
     (if \<not> StartActive (behavior sm) then sm
      else let sm1 = sm\<lparr>sm_state := StateActive, rawInput := True\<rparr>
           in if Latch (behavior sm1) then sm1\<lparr>latched := True\<rparr>
              else if Timeout (behavior sm1) > 0
                   then start_timeout (Timeout (behavior sm1)) sm1
                   else sm1)"

definition SetRawInput :: "bool \<Rightarrow> StateMachine \<Rightarrow> StateMachine \<times> edge list" where
  "SetRawInput value sm =
     (if rawInput sm = value then (sm, [])
      else let sm1 = sm\<lparr>rawInput := value\<rparr>
           in report (outputLocked sm1) (onInputChangeLocked value sm1))"

definition SetInhibited :: "bool \<Rightarrow> StateMachine \<Rightarrow> StateMachine \<times> edge list" where
  "SetInhibited v sm =
     (if inhibited sm = v then (sm, [])
      else let sm1 = sm\<lparr>inhibited := v\<rparr>; before = outputLocked sm1
           in report before
                (if v
                 then if sm_state sm1 = StatePendingActivation
                      then (cancelPendingLocked sm1)
                             \<lparr>retAccumulated := 0, retStartedAt := None, sm_state := StateInactive\<rparr>
                      else sm1
                 else if sm_state sm1 = StateInactive \<and> rawInput sm1
                      then tryActivateLocked sm1 else sm1))"

definition Clear :: "StateMachine \<Rightarrow> StateMachine \<times> edge list" where
  "Clear sm =
     (let before = outputLocked sm;
          sm1 = cancelTimeoutLocked (cancelPendingLocked sm)
      in report before
           (sm1\<lparr>latched := False, retAccumulated := 0, retStartedAt := None,
                rawInput := False, sm_state := StateInactive\<rparr>))"

definition onActivateTimer :: "StateMachine \<Rightarrow> StateMachine \<times> edge list" where
  "onActivateTimer sm =
     (if sm_state sm \<noteq> StatePendingActivation then (sm, [])
      else let sm1 = sm\<lparr>pendingTimer := None\<rparr>
           in report (outputLocked sm1) (becomeActiveLocked sm1))"

definition onDeactivateTimer :: "StateMachine \<Rightarrow> StateMachine \<times> edge list" where
  "onDeactivateTimer sm =
     (if sm_state sm \<noteq> StatePendingDeactivation then (sm, [])
      else let sm1 = sm\<lparr>pendingTimer := None\<rparr>
           in report (outputLocked sm1) (becomeInactiveLocked sm1))"

definition onTimeoutTimer :: "StateMachine \<Rightarrow> StateMachine \<times> edge list" where
  "onTimeoutTimer sm =
     (if sm_state sm \<noteq> StateActive then (sm, [])
      else let sm1 = sm\<lparr>timeoutTimer := None\<rparr>
           in report (outputLocked sm1) ((becomeInactiveLocked sm1)\<lparr>rawInput := False\<rparr>))"

definition onCooldownTimer :: "StateMachine \<Rightarrow> StateMachine \<times> edge list" where
  "onCooldownTimer sm =
     (let sm1 = sm\<lparr>cooldownTimer := None, cooldownUntil := None\<rparr>
      in if sm_state sm1 \<noteq> StateInactive \<or> \<not> rawInput sm1 then (sm1, [])
         else report (outputLocked sm1) (tryActivateLocked sm1))"

end
