(* ===== verification/Cond_Machine.thy ===== *)
theory Cond_Machine
  imports Cond_State
begin

text \<open>
  Executions of the condition state machine. A configuration pairs the machine with the
  callbacks that have expired but not yet run; an operation is an input edge, an inhibit
  change, a clear, the passage of time, the expiry of a scheduled callback, or the execution
  of an expired one. The list of operations is the interleaving. The invariant says that
  every waiting state has the callback that will end it, that a latched machine is active,
  and that timer handles are never confused.
\<close>

section \<open>Executions\<close>

record Config =
  mach :: StateMachine
  inflight :: "callback list"

datatype sm_op =
    OpInput bool | OpInhibit bool | OpClear
  | OpTick nat | OpExpire nat | OpRun nat

definition run_callback :: "callback \<Rightarrow> StateMachine \<Rightarrow> StateMachine \<times> edge list" where
  "run_callback cb sm =
     (case cb of
        CbActivate \<Rightarrow> onActivateTimer sm
      | CbDeactivate \<Rightarrow> onDeactivateTimer sm
      | CbTimeout \<Rightarrow> onTimeoutTimer sm
      | CbCooldown \<Rightarrow> onCooldownTimer sm
      | _ \<Rightarrow> (sm, []))"

definition due :: "nat \<Rightarrow> Clock \<Rightarrow> callback option" where
  "due h c =
     (case find (\<lambda>e. fst e = h \<and> fst (snd e) \<le> clk_now c) (clk_sched c) of
        None \<Rightarrow> None | Some e \<Rightarrow> Some (snd (snd e)))"

definition tick :: "nat \<Rightarrow> StateMachine \<Rightarrow> StateMachine" where
  "tick d sm = sm\<lparr>clock := (clock sm)\<lparr>clk_now := clk_now (clock sm) + int d\<rparr>\<rparr>"

definition drop_nth :: "nat \<Rightarrow> 'a list \<Rightarrow> 'a list" where
  "drop_nth i xs = take i xs @ drop (Suc i) xs"

definition on_mach ::
  "(StateMachine \<Rightarrow> StateMachine \<times> edge list) \<Rightarrow> Config \<Rightarrow> Config \<times> edge list" where
  "on_mach f c = (let (sm, es) = f (mach c) in (c\<lparr>mach := sm\<rparr>, es))"

fun sm_exec :: "sm_op \<Rightarrow> Config \<Rightarrow> Config \<times> edge list" where
  "sm_exec (OpInput v) c = on_mach (SetRawInput v) c"
| "sm_exec (OpInhibit v) c = on_mach (SetInhibited v) c"
| "sm_exec OpClear c = on_mach Clear c"
| "sm_exec (OpTick d) c = (c\<lparr>mach := tick d (mach c)\<rparr>, [])"
| "sm_exec (OpExpire h) c =
     (case due h (clock (mach c)) of
        None \<Rightarrow> (c, [])
      | Some cb \<Rightarrow>
          (c\<lparr>mach := (mach c)\<lparr>clock := StopTimer h (clock (mach c))\<rparr>,
             inflight := inflight c @ [cb]\<rparr>, []))"
| "sm_exec (OpRun i) c =
     (if i < length (inflight c)
      then on_mach (run_callback (inflight c ! i)) (c\<lparr>inflight := drop_nth i (inflight c)\<rparr>)
      else (c, []))"

definition start_config :: "Behavior \<Rightarrow> time \<Rightarrow> Config" where
  "start_config b t =
     \<lparr>mach = Bootstrap (NewStateMachine b \<lparr>clk_now = t, clk_next = 0, clk_sched = []\<rparr>),
      inflight = []\<rparr>"

definition run_from :: "Behavior \<Rightarrow> time \<Rightarrow> sm_op list \<Rightarrow> Config" where
  "run_from b t ops = fst (run_ops sm_exec ops (start_config b t))"

section \<open>Notification\<close>

lemmas sm_transition_defs =
  becomeActiveLocked_def becomeInactiveLocked_def restartTimeoutLocked_def
  cancelTimeoutLocked_def cancelPendingLocked_def stop_slot_def start_pending_def
  start_timeout_def start_cooldown_def tryActivateLocked_def pauseRetentiveLocked_def
  resumeRetentiveLocked_def onInputChangeLocked_def Let_def

lemma stop_slot_simps [simp]:
  "behavior (stop_slot s sm) = behavior sm"
  "sm_state (stop_slot s sm) = sm_state sm"
  "rawInput (stop_slot s sm) = rawInput sm"
  "latched (stop_slot s sm) = latched sm"
  "inhibited (stop_slot s sm) = inhibited sm"
  "cooldownUntil (stop_slot s sm) = cooldownUntil sm"
  "pendingTimer (stop_slot s sm) = pendingTimer sm"
  "timeoutTimer (stop_slot s sm) = timeoutTimer sm"
  "cooldownTimer (stop_slot s sm) = cooldownTimer sm"
  "retAccumulated (stop_slot s sm) = retAccumulated sm"
  "retStartedAt (stop_slot s sm) = retStartedAt sm"
  "now (stop_slot s sm) = now sm"
  "clk_now (clock (stop_slot s sm)) = clk_now (clock sm)"
  "clk_next (clock (stop_slot s sm)) = clk_next (clock sm)"
  by (simp_all add: stop_slot_def now_def StopTimer_def split: option.splits)

lemma start_simps [simp]:
  "behavior (start_pending d cb sm) = behavior sm"
  "behavior (start_timeout d sm) = behavior sm"
  "behavior (start_cooldown d sm) = behavior sm"
  "behavior (cancelPendingLocked sm) = behavior sm"
  "behavior (cancelTimeoutLocked sm) = behavior sm"
  by (simp_all add: start_pending_def start_timeout_def start_cooldown_def
      cancelPendingLocked_def cancelTimeoutLocked_def)

lemma behavior_restartTimeout [simp]: "behavior (restartTimeoutLocked sm) = behavior sm"
  by (simp add: restartTimeoutLocked_def Let_def)

lemma behavior_becomeActive [simp]: "behavior (becomeActiveLocked sm) = behavior sm"
  by (simp add: becomeActiveLocked_def Let_def)

lemma behavior_becomeInactive [simp]: "behavior (becomeInactiveLocked sm) = behavior sm"
  by (simp add: becomeInactiveLocked_def Let_def)

lemma behavior_tryActivate [simp]: "behavior (tryActivateLocked sm) = behavior sm"
  by (simp add: tryActivateLocked_def Let_def)

lemma behavior_retentive [simp]:
  "behavior (pauseRetentiveLocked sm) = behavior sm"
  "behavior (resumeRetentiveLocked sm) = behavior sm"
  by (simp_all add: pauseRetentiveLocked_def resumeRetentiveLocked_def Let_def split: option.split)

lemma behavior_onInputChange [simp]: "behavior (onInputChangeLocked v sm) = behavior sm"
  by (simp add: onInputChangeLocked_def split: State.split)

section \<open>Effects of the helpers\<close>

lemma start_pending_fields [simp]:
  "sm_state (start_pending d cb sm) = sm_state sm"
  "rawInput (start_pending d cb sm) = rawInput sm"
  "latched (start_pending d cb sm) = latched sm"
  "inhibited (start_pending d cb sm) = inhibited sm"
  "cooldownUntil (start_pending d cb sm) = cooldownUntil sm"
  "timeoutTimer (start_pending d cb sm) = timeoutTimer sm"
  "cooldownTimer (start_pending d cb sm) = cooldownTimer sm"
  "retAccumulated (start_pending d cb sm) = retAccumulated sm"
  "retStartedAt (start_pending d cb sm) = retStartedAt sm"
  "now (start_pending d cb sm) = now sm"
  by (simp_all add: start_pending_def now_def AfterFunc_def)

lemma start_timeout_fields [simp]:
  "sm_state (start_timeout d sm) = sm_state sm"
  "rawInput (start_timeout d sm) = rawInput sm"
  "latched (start_timeout d sm) = latched sm"
  "inhibited (start_timeout d sm) = inhibited sm"
  "cooldownUntil (start_timeout d sm) = cooldownUntil sm"
  "pendingTimer (start_timeout d sm) = pendingTimer sm"
  "cooldownTimer (start_timeout d sm) = cooldownTimer sm"
  "retAccumulated (start_timeout d sm) = retAccumulated sm"
  "retStartedAt (start_timeout d sm) = retStartedAt sm"
  "now (start_timeout d sm) = now sm"
  by (simp_all add: start_timeout_def now_def AfterFunc_def)

lemma start_cooldown_fields [simp]:
  "sm_state (start_cooldown d sm) = sm_state sm"
  "rawInput (start_cooldown d sm) = rawInput sm"
  "latched (start_cooldown d sm) = latched sm"
  "inhibited (start_cooldown d sm) = inhibited sm"
  "cooldownUntil (start_cooldown d sm) = cooldownUntil sm"
  "pendingTimer (start_cooldown d sm) = pendingTimer sm"
  "timeoutTimer (start_cooldown d sm) = timeoutTimer sm"
  "retAccumulated (start_cooldown d sm) = retAccumulated sm"
  "retStartedAt (start_cooldown d sm) = retStartedAt sm"
  "now (start_cooldown d sm) = now sm"
  by (simp_all add: start_cooldown_def now_def AfterFunc_def)

lemma cancelPending_fields [simp]:
  "sm_state (cancelPendingLocked sm) = sm_state sm"
  "rawInput (cancelPendingLocked sm) = rawInput sm"
  "latched (cancelPendingLocked sm) = latched sm"
  "inhibited (cancelPendingLocked sm) = inhibited sm"
  "cooldownUntil (cancelPendingLocked sm) = cooldownUntil sm"
  "timeoutTimer (cancelPendingLocked sm) = timeoutTimer sm"
  "cooldownTimer (cancelPendingLocked sm) = cooldownTimer sm"
  "retAccumulated (cancelPendingLocked sm) = retAccumulated sm"
  "retStartedAt (cancelPendingLocked sm) = retStartedAt sm"
  by (simp_all add: cancelPendingLocked_def)

lemma cancelTimeout_fields [simp]:
  "sm_state (cancelTimeoutLocked sm) = sm_state sm"
  "rawInput (cancelTimeoutLocked sm) = rawInput sm"
  "latched (cancelTimeoutLocked sm) = latched sm"
  "inhibited (cancelTimeoutLocked sm) = inhibited sm"
  "cooldownUntil (cancelTimeoutLocked sm) = cooldownUntil sm"
  "pendingTimer (cancelTimeoutLocked sm) = pendingTimer sm"
  "cooldownTimer (cancelTimeoutLocked sm) = cooldownTimer sm"
  "retAccumulated (cancelTimeoutLocked sm) = retAccumulated sm"
  "retStartedAt (cancelTimeoutLocked sm) = retStartedAt sm"
  by (simp_all add: cancelTimeoutLocked_def)

lemma now_upd [simp]:
  "now (sm\<lparr>rawInput := v\<rparr>) = now sm"
  "now (sm\<lparr>latched := v\<rparr>) = now sm"
  "now (sm\<lparr>inhibited := v\<rparr>) = now sm"
  "now (sm\<lparr>sm_state := st\<rparr>) = now sm"
  "now (sm\<lparr>pendingTimer := h\<rparr>) = now sm"
  "now (sm\<lparr>timeoutTimer := h\<rparr>) = now sm"
  "now (sm\<lparr>cooldownTimer := h\<rparr>) = now sm"
  "now (sm\<lparr>cooldownUntil := u\<rparr>) = now sm"
  "now (sm\<lparr>retAccumulated := d\<rparr>) = now sm"
  "now (sm\<lparr>retStartedAt := u\<rparr>) = now sm"
  by (simp_all add: now_def)

lemma cancel_now [simp]:
  "now (cancelPendingLocked sm) = now sm"
  "now (cancelTimeoutLocked sm) = now sm"
  by (simp_all add: cancelPendingLocked_def cancelTimeoutLocked_def)

lemma slot_cleared [simp]:
  "pendingTimer (cancelPendingLocked sm) = None"
  "timeoutTimer (cancelTimeoutLocked sm) = None"
  "pendingTimer (start_pending d cb sm) = Some (clk_next (clock sm))"
  by (simp_all add: cancelPendingLocked_def cancelTimeoutLocked_def start_pending_def)

lemma restartTimeout_fields [simp]:
  "sm_state (restartTimeoutLocked sm) = sm_state sm"
  "rawInput (restartTimeoutLocked sm) = rawInput sm"
  "latched (restartTimeoutLocked sm) = latched sm"
  "inhibited (restartTimeoutLocked sm) = inhibited sm"
  "cooldownUntil (restartTimeoutLocked sm) = cooldownUntil sm"
  "pendingTimer (restartTimeoutLocked sm) = pendingTimer sm"
  "cooldownTimer (restartTimeoutLocked sm) = cooldownTimer sm"
  "retAccumulated (restartTimeoutLocked sm) = retAccumulated sm"
  "retStartedAt (restartTimeoutLocked sm) = retStartedAt sm"
  "now (restartTimeoutLocked sm) = now sm"
  by (simp_all add: restartTimeoutLocked_def Let_def)

text \<open>Callbacks in the schedule, and how the helpers change them.\<close>

definition cbs :: "StateMachine \<Rightarrow> callback set" where
  "cbs sm = (snd \<circ> snd) ` set (clk_sched (clock sm))"

lemma cbs_upd [simp]:
  "cbs (sm\<lparr>rawInput := v\<rparr>) = cbs sm"
  "cbs (sm\<lparr>latched := v\<rparr>) = cbs sm"
  "cbs (sm\<lparr>inhibited := v\<rparr>) = cbs sm"
  "cbs (sm\<lparr>sm_state := st\<rparr>) = cbs sm"
  "cbs (sm\<lparr>pendingTimer := h\<rparr>) = cbs sm"
  "cbs (sm\<lparr>timeoutTimer := h\<rparr>) = cbs sm"
  "cbs (sm\<lparr>cooldownTimer := h\<rparr>) = cbs sm"
  "cbs (sm\<lparr>cooldownUntil := u\<rparr>) = cbs sm"
  "cbs (sm\<lparr>retAccumulated := d\<rparr>) = cbs sm"
  "cbs (sm\<lparr>retStartedAt := u\<rparr>) = cbs sm"
  by (simp_all add: cbs_def)

lemma cbs_start [simp]:
  "cbs (start_pending d cb sm) = insert cb (cbs sm)"
  "cbs (start_timeout d sm) = insert CbTimeout (cbs sm)"
  "cbs (start_cooldown d sm) = insert CbCooldown (cbs sm)"
  by (simp_all add: cbs_def start_pending_def start_timeout_def start_cooldown_def AfterFunc_def)

lemma outputLocked_upd [simp]:
  "outputLocked (sm\<lparr>rawInput := v\<rparr>) = outputLocked sm"
  "outputLocked (sm\<lparr>inhibited := v\<rparr>) = outputLocked sm"
  "outputLocked (sm\<lparr>pendingTimer := h\<rparr>) = outputLocked sm"
  "outputLocked (sm\<lparr>timeoutTimer := h\<rparr>) = outputLocked sm"
  "outputLocked (sm\<lparr>cooldownTimer := h\<rparr>) = outputLocked sm"
  "outputLocked (sm\<lparr>cooldownUntil := u\<rparr>) = outputLocked sm"
  "outputLocked (sm\<lparr>clock := c\<rparr>) = outputLocked sm"
  by (simp_all add: outputLocked_def)

lemma Output_upd [simp]:
  "Output (sm\<lparr>cooldownTimer := h, cooldownUntil := u\<rparr>) = Output sm"
  "Output (sm\<lparr>clock := c\<rparr>) = Output sm"
  by (simp_all add: Output_def)

lemma report_chain:
  "behavior sm' = behavior sm \<Longrightarrow> before = outputLocked sm \<Longrightarrow>
     edge_chain (Output sm) (snd (report before sm')) (Output (fst (report before sm')))"
  by (auto simp: report_def Output_def notifyAll_def Let_def)

lemma SetRawInput_chain:
  "edge_chain (Output sm) (snd (SetRawInput v sm)) (Output (fst (SetRawInput v sm)))"
  unfolding SetRawInput_def Let_def by (auto intro!: report_chain)

lemma SetInhibited_chain:
  "edge_chain (Output sm) (snd (SetInhibited v sm)) (Output (fst (SetInhibited v sm)))"
  unfolding SetInhibited_def Let_def
  by (auto intro!: report_chain simp: cancelPendingLocked_def)

lemma Clear_chain:
  "edge_chain (Output sm) (snd (Clear sm)) (Output (fst (Clear sm)))"
  unfolding Clear_def Let_def
  by (rule report_chain)
     (simp_all add: cancelPendingLocked_def cancelTimeoutLocked_def)

lemma run_callback_chain:
  "edge_chain (Output sm) (snd (run_callback cb sm)) (Output (fst (run_callback cb sm)))"
  unfolding run_callback_def onActivateTimer_def onDeactivateTimer_def onTimeoutTimer_def
    onCooldownTimer_def Let_def
  by (cases cb) (auto intro!: report_chain)

lemma on_mach_simps [simp]:
  "mach (fst (on_mach f c)) = fst (f (mach c))"
  "inflight (fst (on_mach f c)) = inflight c"
  "snd (on_mach f c) = snd (f (mach c))"
  by (simp_all add: on_mach_def case_prod_beta Let_def)

lemma sm_exec_chain:
  "edge_chain (Output (mach c)) (snd (sm_exec x c)) (Output (mach (fst (sm_exec x c))))"
  by (cases x)
     (auto simp: SetRawInput_chain SetInhibited_chain Clear_chain run_callback_chain tick_def
           split: option.splits)

interpretation sm_notify: notifying sm_exec "\<lambda>c. Output (mach c)"
  by unfold_locales (rule sm_exec_chain)

section \<open>The invariant\<close>

text \<open>Timer handles: entries of the schedule have handles below the next one, and a handle
  held in a slot refers to a callback of that slot's kind.\<close>

definition handles_ok :: "StateMachine \<Rightarrow> bool" where
  "handles_ok sm \<longleftrightarrow>
     distinct (map fst (clk_sched (clock sm))) \<and>
     (\<forall>e \<in> set (clk_sched (clock sm)). fst e < clk_next (clock sm) \<and>
        (pendingTimer sm = Some (fst e) \<longrightarrow> snd (snd e) \<in> {CbActivate, CbDeactivate}) \<and>
        (timeoutTimer sm = Some (fst e) \<longrightarrow> snd (snd e) = CbTimeout) \<and>
        (cooldownTimer sm = Some (fst e) \<longrightarrow> snd (snd e) = CbCooldown)) \<and>
     (\<forall>n. pendingTimer sm = Some n \<or> timeoutTimer sm = Some n \<or> cooldownTimer sm = Some n \<longrightarrow>
        n < clk_next (clock sm))"

text \<open>A latched machine is active and has no timeout pending; without \<open>latch\<close> it is never
  latched. The set \<open>F\<close> is the set of callbacks in flight.\<close>

definition latch_ok :: "callback set \<Rightarrow> StateMachine \<Rightarrow> bool" where
  "latch_ok F sm \<longleftrightarrow>
     (if Latch (behavior sm)
      then (sm_state sm = StateActive \<longleftrightarrow> latched sm) \<and>
           sm_state sm \<noteq> StatePendingDeactivation \<and> CbTimeout \<notin> F \<union> cbs sm
      else \<not> latched sm)"

text \<open>Every waiting state has the callback that ends it, scheduled or in flight.\<close>

definition waiting_ok :: "callback set \<Rightarrow> StateMachine \<Rightarrow> bool" where
  "waiting_ok F sm \<longleftrightarrow>
     (let b = behavior sm in
      (cooldownUntil sm \<noteq> None \<longrightarrow> CbCooldown \<in> F \<union> cbs sm) \<and>
      (case sm_state sm of
         StateInactive \<Rightarrow> rawInput sm \<and> \<not> inhibited sm \<longrightarrow> CbCooldown \<in> F \<union> cbs sm
       | StatePendingActivation \<Rightarrow>
           \<not> inhibited sm \<and> ActivateAfter b > 0 \<and>
           (if rawInput sm then pendingTimer sm \<noteq> None \<and> CbActivate \<in> F \<union> cbs sm
            else Retentive b \<and> pendingTimer sm = None)
       | StateActive \<Rightarrow>
           (\<not> latched sm \<and> Timeout b > 0 \<longrightarrow> CbTimeout \<in> F \<union> cbs sm) \<and>
           (\<not> latched sm \<and> \<not> Retentive b \<longrightarrow> rawInput sm)
       | StatePendingDeactivation \<Rightarrow>
           \<not> rawInput sm \<and> DeactivateAfter b > 0 \<and> CbDeactivate \<in> F \<union> cbs sm))"

definition started_past :: "time option \<Rightarrow> time \<Rightarrow> bool" where
  "started_past t0 t \<longleftrightarrow> (case t0 of None \<Rightarrow> True | Some u \<Rightarrow> u \<le> t)"

lemma started_past_simps [simp]:
  "started_past None t"
  "started_past (Some u) t = (u \<le> t)"
  by (simp_all add: started_past_def)

definition ret_ok :: "StateMachine \<Rightarrow> bool" where
  "ret_ok sm \<longleftrightarrow>
     0 \<le> retAccumulated sm \<and>
     started_past (retStartedAt sm) (now sm) \<and>
     (sm_state sm \<noteq> StatePendingActivation \<or> \<not> Retentive (behavior sm) \<longrightarrow> retAccumulated sm = 0)"

definition sm_inv :: "callback set \<Rightarrow> StateMachine \<Rightarrow> bool" where
  "sm_inv F sm \<longleftrightarrow> handles_ok sm \<and> latch_ok F sm \<and> waiting_ok F sm \<and> ret_ok sm"

subsection \<open>Handles\<close>

lemma handles_ok_upd [simp]:
  "handles_ok (sm\<lparr>rawInput := v\<rparr>) = handles_ok sm"
  "handles_ok (sm\<lparr>latched := v\<rparr>) = handles_ok sm"
  "handles_ok (sm\<lparr>inhibited := v\<rparr>) = handles_ok sm"
  "handles_ok (sm\<lparr>sm_state := st\<rparr>) = handles_ok sm"
  "handles_ok (sm\<lparr>cooldownUntil := u\<rparr>) = handles_ok sm"
  "handles_ok (sm\<lparr>retAccumulated := d\<rparr>) = handles_ok sm"
  "handles_ok (sm\<lparr>retStartedAt := u\<rparr>) = handles_ok sm"
  by (simp_all add: handles_ok_def)

lemma handles_ok_clear [simp]:
  "handles_ok sm \<Longrightarrow> handles_ok (sm\<lparr>pendingTimer := None\<rparr>)"
  "handles_ok sm \<Longrightarrow> handles_ok (sm\<lparr>timeoutTimer := None\<rparr>)"
  "handles_ok sm \<Longrightarrow> handles_ok (sm\<lparr>cooldownTimer := None\<rparr>)"
  by (simp_all add: handles_ok_def)

lemma handles_ok_stop_slot [simp]: "handles_ok sm \<Longrightarrow> handles_ok (stop_slot s sm)"
  by (auto simp: handles_ok_def stop_slot_def StopTimer_def distinct_map_filter split: option.splits)

lemma handles_ok_cancel [simp]:
  "handles_ok sm \<Longrightarrow> handles_ok (cancelPendingLocked sm)"
  "handles_ok sm \<Longrightarrow> handles_ok (cancelTimeoutLocked sm)"
  by (simp_all add: cancelPendingLocked_def cancelTimeoutLocked_def)

lemma handles_ok_start [simp]:
  "handles_ok sm \<Longrightarrow> cb \<in> {CbActivate, CbDeactivate} \<Longrightarrow> handles_ok (start_pending d cb sm)"
  "handles_ok sm \<Longrightarrow> handles_ok (start_timeout d sm)"
  "handles_ok sm \<Longrightarrow> handles_ok (start_cooldown d sm)"
  by (fastforce simp: handles_ok_def start_pending_def start_timeout_def start_cooldown_def
      AfterFunc_def)+

lemma cbs_stop_subset: "cbs (stop_slot s sm) \<subseteq> cbs sm"
  by (auto simp: cbs_def stop_slot_def StopTimer_def split: option.splits)

lemma cbs_stop_pending [simp]:
  "handles_ok sm \<Longrightarrow> cb \<noteq> CbActivate \<Longrightarrow> cb \<noteq> CbDeactivate \<Longrightarrow>
     cb \<in> cbs (cancelPendingLocked sm) \<longleftrightarrow> cb \<in> cbs sm"
  by (force simp: cbs_def cancelPendingLocked_def stop_slot_def StopTimer_def handles_ok_def
      split: option.splits)

lemma cbs_stop_timeout [simp]:
  "handles_ok sm \<Longrightarrow> cb \<noteq> CbTimeout \<Longrightarrow> cb \<in> cbs (cancelTimeoutLocked sm) \<longleftrightarrow> cb \<in> cbs sm"
  by (force simp: cbs_def cancelTimeoutLocked_def stop_slot_def StopTimer_def handles_ok_def
      split: option.splits)

lemma cbs_stop_cooldown [simp]:
  "handles_ok sm \<Longrightarrow> cb \<noteq> CbCooldown \<Longrightarrow>
     cb \<in> cbs (stop_slot (cooldownTimer sm) sm) \<longleftrightarrow> cb \<in> cbs sm"
  by (force simp: cbs_def stop_slot_def StopTimer_def handles_ok_def split: option.splits)

lemma cbs_cancel_subset: "cbs (cancelTimeoutLocked sm) \<subseteq> cbs sm" "cbs (cancelPendingLocked sm) \<subseteq> cbs sm"
  using cbs_stop_subset by (auto simp: cancelTimeoutLocked_def cancelPendingLocked_def)

subsection \<open>Transitions\<close>

text \<open>The part of the invariant that does not depend on the state.\<close>

definition core_ok :: "callback set \<Rightarrow> StateMachine \<Rightarrow> bool" where
  "core_ok F sm \<longleftrightarrow>
     handles_ok sm \<and>
     (cooldownUntil sm \<noteq> None \<longrightarrow> CbCooldown \<in> F \<union> cbs sm) \<and>
     (Latch (behavior sm) \<longrightarrow> CbTimeout \<notin> F \<union> cbs sm) \<and>
     (\<not> Latch (behavior sm) \<longrightarrow> \<not> latched sm)"

lemma sm_inv_core: "sm_inv F sm \<Longrightarrow> core_ok F sm"
  by (auto simp: sm_inv_def core_ok_def latch_ok_def waiting_ok_def Let_def split: if_splits)

lemma core_ok_upd [simp]:
  "core_ok F (sm\<lparr>rawInput := v\<rparr>) = core_ok F sm"
  "core_ok F (sm\<lparr>inhibited := v\<rparr>) = core_ok F sm"
  "core_ok F (sm\<lparr>sm_state := st\<rparr>) = core_ok F sm"
  "core_ok F (sm\<lparr>retAccumulated := d\<rparr>) = core_ok F sm"
  "core_ok F (sm\<lparr>retStartedAt := u\<rparr>) = core_ok F sm"
  by (simp_all add: core_ok_def)

lemma core_ok_slots [simp]:
  "core_ok F sm \<Longrightarrow> core_ok F (sm\<lparr>pendingTimer := None\<rparr>)"
  "core_ok F sm \<Longrightarrow> core_ok F (sm\<lparr>timeoutTimer := None\<rparr>)"
  "core_ok F sm \<Longrightarrow> core_ok F (sm\<lparr>latched := False\<rparr>)"
  "core_ok F sm \<Longrightarrow> core_ok F (cancelPendingLocked sm)"
  by (simp_all add: core_ok_def)

lemma core_ok_cancelTimeout [simp]: "core_ok F sm \<Longrightarrow> core_ok F (cancelTimeoutLocked sm)"
  using cbs_cancel_subset(1)[of sm] by (auto simp: core_ok_def)

lemma inv_restartTimeout:
  assumes "core_ok F sm" and "sm_state sm = StateActive" and "Latch (behavior sm) \<longrightarrow> latched sm"
    and "retAccumulated sm = 0" and "\<not> Latch (behavior sm) \<and> \<not> Retentive (behavior sm) \<longrightarrow> rawInput sm"
    and "started_past (retStartedAt sm) (now sm)"
  shows "sm_inv F (restartTimeoutLocked sm)"
  using assms core_ok_cancelTimeout[OF assms(1)]
  by (auto simp: sm_inv_def core_ok_def latch_ok_def waiting_ok_def ret_ok_def
      restartTimeoutLocked_def Let_def)

lemma inv_becomeActive:
  assumes "core_ok F sm" and "\<not> Latch (behavior sm) \<and> \<not> Retentive (behavior sm) \<longrightarrow> rawInput sm"
  shows "sm_inv F (becomeActiveLocked sm)"
  using assms unfolding becomeActiveLocked_def Let_def
  by (auto intro!: inv_restartTimeout simp: core_ok_def)

lemma cbs_cancel_upd [simp]:
  "cbs (cancelTimeoutLocked (sm\<lparr>sm_state := st\<rparr>)) = cbs (cancelTimeoutLocked sm)"
  "cbs (stop_slot s (sm\<lparr>cooldownUntil := u\<rparr>)) = cbs (stop_slot s sm)"
  by (simp_all add: cbs_def cancelTimeoutLocked_def stop_slot_def split: option.splits)

lemmas cbs_subsets = subsetD[OF cbs_stop_subset] subsetD[OF cbs_cancel_subset(1)]
  subsetD[OF cbs_cancel_subset(2)]

lemma inv_becomeInactive:
  assumes "core_ok F sm" and "\<not> latched sm" and "retAccumulated sm = 0"
    and "rawInput sm \<and> \<not> inhibited sm \<longrightarrow> CbCooldown \<in> F \<union> cbs sm"
    and "started_past (retStartedAt sm) (now sm)"
  shows "sm_inv F (becomeInactiveLocked sm)"
  using assms
  by (auto simp: sm_inv_def core_ok_def latch_ok_def waiting_ok_def ret_ok_def
      becomeInactiveLocked_def Let_def dest!: cbs_subsets)

lemma inv_tryActivate:
  assumes "core_ok F sm" and "sm_state sm = StateInactive" and "rawInput sm"
    and "retAccumulated sm = 0" and "\<not> latched sm" and "started_past (retStartedAt sm) (now sm)"
  shows "sm_inv F (tryActivateLocked sm)"
proof (cases "cooldownActiveLocked sm \<or> inhibited sm")
  case True
  then show ?thesis
    using assms
    by (auto simp: tryActivateLocked_def sm_inv_def core_ok_def latch_ok_def waiting_ok_def
        ret_ok_def cooldownActiveLocked_def split: option.splits)
next
  case False
  show ?thesis
  proof (cases "ActivateAfter (behavior sm) \<le> 0")
    case True
    with False assms show ?thesis
      by (auto simp: tryActivateLocked_def intro: inv_becomeActive)
  next
    case False
    with \<open>\<not> (cooldownActiveLocked sm \<or> inhibited sm)\<close> assms show ?thesis
      by (auto simp: tryActivateLocked_def sm_inv_def core_ok_def latch_ok_def waiting_ok_def
          ret_ok_def Let_def split: if_splits)
  qed
qed

subsection \<open>Operations\<close>

lemma fst_report [simp]: "fst (report b sm) = sm"
  by (simp add: report_def Let_def)

lemma cbs_pending_upd [simp]:
  "cbs (cancelPendingLocked (sm\<lparr>rawInput := v\<rparr>)) = cbs (cancelPendingLocked sm)"
  "cbs (cancelPendingLocked (sm\<lparr>inhibited := v\<rparr>)) = cbs (cancelPendingLocked sm)"
  by (simp_all add: cbs_def cancelPendingLocked_def stop_slot_def split: option.splits)

lemmas inv_parts = sm_inv_def core_ok_def latch_ok_def waiting_ok_def ret_ok_def Let_def

lemma inv_facts:
  assumes "sm_inv F sm"
  shows inv_ret_zero: "sm_state sm \<noteq> StatePendingActivation \<Longrightarrow> retAccumulated sm = 0"
    and inv_started: "started_past (retStartedAt sm) (now sm)"
    and inv_latched: "latched sm = (Latch (behavior sm) \<and> sm_state sm = StateActive)"
    and inv_pd_unlatched: "sm_state sm = StatePendingDeactivation \<Longrightarrow> \<not> Latch (behavior sm)"
    and inv_active_raw: "sm_state sm = StateActive \<Longrightarrow> \<not> Latch (behavior sm) \<Longrightarrow>
      \<not> Retentive (behavior sm) \<Longrightarrow> rawInput sm"
  using assms by (auto simp: inv_parts split: if_splits)

lemma inv_input_inactive:
  assumes "sm_inv F sm" and "sm_state sm = StateInactive" and "rawInput sm \<noteq> v"
  shows "sm_inv F (onInputChangeLocked v (sm\<lparr>rawInput := v\<rparr>))"
proof (cases v)
  case True
  have "core_ok F sm" using assms(1) by (rule sm_inv_core)
  with True assms show ?thesis
    using inv_facts[OF assms(1)]
    by (auto simp: onInputChangeLocked_def intro!: inv_tryActivate)
next
  case False
  with assms show ?thesis by (auto simp: onInputChangeLocked_def inv_parts)
qed

lemma inv_input_pending_activation:
  assumes "sm_inv F sm" and "sm_state sm = StatePendingActivation" and "rawInput sm \<noteq> v"
  shows "sm_inv F (onInputChangeLocked v (sm\<lparr>rawInput := v\<rparr>))"
proof -
  have core: "core_ok F sm" using assms(1) by (rule sm_inv_core)
  consider "v" | "\<not> v" "Retentive (behavior sm)" | "\<not> v" "\<not> Retentive (behavior sm)" by blast
  then show ?thesis
  proof cases
    case 1
    then have r: "Retentive (behavior sm)" "pendingTimer sm = None"
      using assms by (auto simp: inv_parts)
    show ?thesis
    proof (cases "ActivateAfter (behavior sm) \<le> retAccumulated sm")
      case True
      with 1 r core assms show ?thesis
        by (auto simp: onInputChangeLocked_def resumeRetentiveLocked_def Let_def
            intro!: inv_becomeActive)
    next
      case False
      with 1 r assms show ?thesis
        by (auto simp: onInputChangeLocked_def resumeRetentiveLocked_def inv_parts)
    qed
  next
    case 2
    with assms show ?thesis
      by (auto simp: onInputChangeLocked_def pauseRetentiveLocked_def inv_parts
          dest!: cbs_subsets split: option.splits)
  next
    case 3
    with assms show ?thesis
      by (auto simp: onInputChangeLocked_def inv_parts dest!: cbs_subsets)
  qed
qed

lemma inv_input_active:
  assumes "sm_inv F sm" and "sm_state sm = StateActive" and "rawInput sm \<noteq> v"
  shows "sm_inv F (onInputChangeLocked v (sm\<lparr>rawInput := v\<rparr>))"
proof -
  have core: "core_ok F sm" using assms(1) by (rule sm_inv_core)
  consider "v" | "\<not> v" "latched sm" | "\<not> v" "\<not> latched sm" "DeactivateAfter (behavior sm) > 0"
    | "\<not> v" "\<not> latched sm" "\<not> DeactivateAfter (behavior sm) > 0" by blast
  then show ?thesis
  proof cases
    case 1
    with core assms(2) show ?thesis
      using inv_facts[OF assms(1)]
      by (auto simp: onInputChangeLocked_def intro!: inv_restartTimeout)
  next
    case 2
    with assms show ?thesis
      by (auto simp: onInputChangeLocked_def inv_parts split: if_splits)
  next
    case 3
    with assms show ?thesis
      by (auto simp: onInputChangeLocked_def inv_parts split: if_splits)
  next
    case 4
    with core assms(2) show ?thesis
      using inv_facts[OF assms(1)]
      by (auto simp: onInputChangeLocked_def intro!: inv_becomeInactive)
  qed
qed

lemma inv_input_pending_deactivation:
  assumes "sm_inv F sm" and "sm_state sm = StatePendingDeactivation" and "rawInput sm \<noteq> v"
  shows "sm_inv F (onInputChangeLocked v (sm\<lparr>rawInput := v\<rparr>))"
proof -
  have v: "v" using assms by (auto simp: inv_parts)
  have core: "core_ok F sm" using assms(1) by (rule sm_inv_core)
  then have "core_ok F (cancelPendingLocked (sm\<lparr>rawInput := v\<rparr>))" by simp
  with v assms(2) show ?thesis
    using inv_facts[OF assms(1)]
    by (auto simp: onInputChangeLocked_def intro!: inv_restartTimeout)
qed

lemma inv_SetRawInput: "sm_inv F sm \<Longrightarrow> sm_inv F (fst (SetRawInput v sm))"
  by (cases "sm_state sm")
     (auto simp: SetRawInput_def Let_def inv_input_inactive inv_input_pending_activation
       inv_input_active inv_input_pending_deactivation)

lemma inv_SetInhibited:
  assumes "sm_inv F sm"
  shows "sm_inv F (fst (SetInhibited v sm))"
proof -
  have core: "core_ok F sm" using assms by (rule sm_inv_core)
  consider "inhibited sm = v" | "inhibited sm \<noteq> v" "v"
    | "inhibited sm \<noteq> v" "\<not> v" "sm_state sm = StateInactive \<and> rawInput sm"
    | "inhibited sm \<noteq> v" "\<not> v" "\<not> (sm_state sm = StateInactive \<and> rawInput sm)" by blast
  then show ?thesis
  proof cases
    case 1
    with assms show ?thesis by (simp add: SetInhibited_def)
  next
    case 2
    with assms show ?thesis
      by (cases "sm_state sm") (auto simp: SetInhibited_def inv_parts dest!: cbs_subsets)
  next
    case 3
    with core show ?thesis
      using inv_facts[OF assms]
      by (auto simp: SetInhibited_def Let_def intro!: inv_tryActivate)
  next
    case 4
    with assms show ?thesis
      by (cases "sm_state sm") (auto simp: SetInhibited_def inv_parts)
  qed
qed

lemma inv_Clear: "sm_inv F sm \<Longrightarrow> sm_inv F (fst (Clear sm))"
  by (auto simp: Clear_def inv_parts dest!: cbs_subsets)

lemma core_ok_mono:
  "core_ok (insert cb F) sm \<Longrightarrow> cb \<noteq> CbCooldown \<Longrightarrow> core_ok F sm"
  by (auto simp: core_ok_def)

lemma inv_onActivateTimer:
  assumes "sm_inv (insert CbActivate F) sm"
  shows "sm_inv F (fst (onActivateTimer sm))"
proof (cases "sm_state sm = StatePendingActivation")
  case True
  have "core_ok F sm" using sm_inv_core[OF assms] by (rule core_ok_mono) simp
  with True assms show ?thesis
    by (auto simp: onActivateTimer_def Let_def waiting_ok_def sm_inv_def[of "insert _ _"]
        split: if_splits intro!: inv_becomeActive)
next
  case False
  with assms show ?thesis
    by (cases "sm_state sm") (auto simp: onActivateTimer_def inv_parts)
qed

lemma inv_onDeactivateTimer:
  assumes "sm_inv (insert CbDeactivate F) sm"
  shows "sm_inv F (fst (onDeactivateTimer sm))"
proof (cases "sm_state sm = StatePendingDeactivation")
  case True
  have core: "core_ok F sm" using sm_inv_core[OF assms] by (rule core_ok_mono) simp
  have "\<not> rawInput sm" using True assms by (auto simp: inv_parts)
  with core True show ?thesis
    using inv_facts[OF assms]
    by (auto simp: onDeactivateTimer_def Let_def intro!: inv_becomeInactive)
next
  case False
  with assms show ?thesis
    by (cases "sm_state sm") (auto simp: onDeactivateTimer_def inv_parts)
qed

lemma inv_drop_raw:
  "sm_inv F sm \<Longrightarrow> sm_state sm = StateInactive \<Longrightarrow> sm_inv F (sm\<lparr>rawInput := False\<rparr>)"
  by (auto simp: inv_parts)

lemma sm_state_becomeInactive [simp]: "sm_state (becomeInactiveLocked sm) = StateInactive"
  by (simp add: becomeInactiveLocked_def Let_def)

lemma becomeInactive_raw:
  "(becomeInactiveLocked sm)\<lparr>rawInput := v\<rparr> = becomeInactiveLocked (sm\<lparr>rawInput := v\<rparr>)"
  by (cases "timeoutTimer sm"; cases "cooldownTimer sm")
     (simp_all add: becomeInactiveLocked_def cancelTimeoutLocked_def stop_slot_def
       start_cooldown_def now_def Let_def)

lemma inv_onTimeoutTimer:
  assumes "sm_inv (insert CbTimeout F) sm"
  shows "sm_inv F (fst (onTimeoutTimer sm))"
proof (cases "sm_state sm = StateActive")
  case True
  have nl: "\<not> Latch (behavior sm)" using assms by (auto simp: inv_parts split: if_splits)
  have core: "core_ok F sm" using sm_inv_core[OF assms] by (rule core_ok_mono) simp
  with True nl show ?thesis
    using inv_facts[OF assms]
    by (auto simp: onTimeoutTimer_def Let_def becomeInactive_raw intro!: inv_becomeInactive)
next
  case False
  with assms show ?thesis
    by (cases "sm_state sm") (auto simp: onTimeoutTimer_def inv_parts)
qed

lemma inv_onCooldownTimer:
  assumes "sm_inv (insert CbCooldown F) sm"
  shows "sm_inv F (fst (onCooldownTimer sm))"
proof (cases "sm_state sm \<noteq> StateInactive \<or> \<not> rawInput sm")
  case True
  with assms show ?thesis
    by (cases "sm_state sm") (auto simp: onCooldownTimer_def inv_parts)
next
  case False
  have "core_ok (insert CbCooldown F) sm" using assms by (rule sm_inv_core)
  then have "core_ok F (sm\<lparr>cooldownTimer := None, cooldownUntil := None\<rparr>)"
    by (auto simp: core_ok_def)
  with False show ?thesis
    using inv_facts[OF assms]
    by (auto simp: onCooldownTimer_def Let_def intro!: inv_tryActivate)
qed

lemma inv_run_callback:
  assumes "sm_inv (insert cb F) sm"
  shows "sm_inv F (fst (run_callback cb sm))"
proof (cases cb)
  case CbDebounce
  with assms show ?thesis
    by (cases "sm_state sm") (auto simp: run_callback_def inv_parts)
next
  case CbExpiry
  with assms show ?thesis
    by (cases "sm_state sm") (auto simp: run_callback_def inv_parts)
qed (use assms in \<open>auto simp: run_callback_def intro: inv_onActivateTimer inv_onDeactivateTimer
      inv_onTimeoutTimer inv_onCooldownTimer\<close>)

lemma tick_fields [simp]:
  "behavior (tick d sm) = behavior sm"
  "sm_state (tick d sm) = sm_state sm"
  "rawInput (tick d sm) = rawInput sm"
  "latched (tick d sm) = latched sm"
  "inhibited (tick d sm) = inhibited sm"
  "cooldownUntil (tick d sm) = cooldownUntil sm"
  "pendingTimer (tick d sm) = pendingTimer sm"
  "timeoutTimer (tick d sm) = timeoutTimer sm"
  "cooldownTimer (tick d sm) = cooldownTimer sm"
  "retAccumulated (tick d sm) = retAccumulated sm"
  "retStartedAt (tick d sm) = retStartedAt sm"
  "now (tick d sm) = now sm + int d"
  "cbs (tick d sm) = cbs sm"
  "handles_ok (tick d sm) = handles_ok sm"
  by (simp_all add: tick_def now_def cbs_def handles_ok_def)

lemma started_past_later [simp]: "started_past u t \<Longrightarrow> started_past u (t + int d)"
  by (cases u) auto

lemma tick_ok [simp]:
  "latch_ok F (tick d sm) = latch_ok F sm"
  "waiting_ok F (tick d sm) = waiting_ok F sm"
  by (simp add: latch_ok_def, cases "sm_state sm", simp_all add: waiting_ok_def)

lemma inv_tick: "sm_inv F sm \<Longrightarrow> sm_inv F (tick d sm)"
  by (auto simp: sm_inv_def ret_ok_def)

lemma due_in_sched:
  assumes "due h c = Some cb"
  obtains t where "(h, t, cb) \<in> set (clk_sched c)" and "t \<le> clk_now c"
proof -
  obtain e where e: "find (\<lambda>e. fst e = h \<and> fst (snd e) \<le> clk_now c) (clk_sched c) = Some e"
    and "snd (snd e) = cb"
    using assms by (auto simp: due_def split: option.splits)
  then have "e \<in> set (clk_sched c)" "fst e = h" "fst (snd e) \<le> clk_now c"
    by (auto simp: find_Some_iff)
  with \<open>snd (snd e) = cb\<close> show ?thesis
    by (intro that[of "fst (snd e)"]) auto
qed

lemma inv_expire:
  assumes "sm_inv F sm" and "due h (clock sm) = Some cb"
  shows "sm_inv (insert cb F) (sm\<lparr>clock := StopTimer h (clock sm)\<rparr>)"
proof -
  let ?sm = "sm\<lparr>clock := StopTimer h (clock sm)\<rparr>"
  obtain t where t: "(h, t, cb) \<in> set (clk_sched (clock sm))"
    using assms(2) by (rule due_in_sched)
  have "distinct (map fst (clk_sched (clock sm)))"
    using assms(1) by (simp add: sm_inv_def handles_ok_def)
  then have uniq: "snd (snd e) = cb" if "e \<in> set (clk_sched (clock sm))" "fst e = h" for e
    using that t by (metis eq_key_imp_eq_value prod.collapse snd_conv)
  have cbs: "insert cb (cbs ?sm) = cbs sm"
  proof
    show "insert cb (cbs ?sm) \<subseteq> cbs sm"
      using t by (auto simp: cbs_def StopTimer_def intro: rev_image_eqI)
    show "cbs sm \<subseteq> insert cb (cbs ?sm)"
    proof
      fix x
      assume "x \<in> cbs sm"
      then obtain e where e: "e \<in> set (clk_sched (clock sm))" "x = snd (snd e)"
        by (auto simp: cbs_def)
      show "x \<in> insert cb (cbs ?sm)"
        using e uniq[of e] by (cases "fst e = h") (auto simp: cbs_def StopTimer_def)
    qed
  qed
  have h: "handles_ok ?sm"
    using assms(1) handles_ok_stop_slot[of sm "Some h"] by (simp add: sm_inv_def stop_slot_def)
  have n: "now ?sm = now sm" by (simp add: now_def StopTimer_def)
  from cbs have av: "insert cb F \<union> cbs ?sm = F \<union> cbs sm" by auto
  show ?thesis
    using assms(1) h n unfolding sm_inv_def latch_ok_def waiting_ok_def ret_ok_def av
    by (cases "sm_state sm") (simp_all add: Let_def split: if_splits)
qed

subsection \<open>Runs\<close>

definition config_inv :: "Config \<Rightarrow> bool" where
  "config_inv c \<longleftrightarrow> sm_inv (set (inflight c)) (mach c)"

lemma set_drop_nth: "i < length xs \<Longrightarrow> set xs = insert (xs ! i) (set (drop_nth i xs))"
  by (metis Cons_nth_drop_Suc append_take_drop_id drop_nth_def insert_is_Un list.simps(15)
      set_append sup_left_commute)

lemma config_inv_exec: "config_inv c \<Longrightarrow> config_inv (fst (sm_exec x c))"
proof (cases x)
  case (OpExpire h)
  then show "config_inv c \<Longrightarrow> ?thesis"
    by (auto simp: config_inv_def inv_expire split: option.splits)
next
  case (OpRun i)
  then show "config_inv c \<Longrightarrow> ?thesis"
    by (auto simp: config_inv_def set_drop_nth[of i] intro: inv_run_callback)
qed (auto simp: config_inv_def inv_SetRawInput inv_SetInhibited inv_Clear inv_tick)

interpretation sm_keeps: invariant_machine sm_exec config_inv "\<lambda>_. True"
  by unfold_locales (rule config_inv_exec)

lemma config_inv_start: "config_inv (start_config b t)"
  by (auto simp: config_inv_def start_config_def Bootstrap_def NewStateMachine_def inv_parts
      handles_ok_def cbs_def now_def start_timeout_def AfterFunc_def)

lemma config_inv_run: "config_inv (run_from b t ops)"
  unfolding run_from_def by (rule sm_keeps.run_inv[OF config_inv_start]) simp

lemma behavior_SetRawInput [simp]: "behavior (fst (SetRawInput v sm)) = behavior sm"
  by (simp add: SetRawInput_def Let_def)

lemma behavior_SetInhibited [simp]: "behavior (fst (SetInhibited v sm)) = behavior sm"
  by (simp add: SetInhibited_def Let_def)

lemma behavior_Clear [simp]: "behavior (fst (Clear sm)) = behavior sm"
  by (simp add: Clear_def Let_def)

lemma behavior_run_callback [simp]: "behavior (fst (run_callback cb sm)) = behavior sm"
  by (cases cb) (simp_all add: run_callback_def onActivateTimer_def onDeactivateTimer_def
      onTimeoutTimer_def onCooldownTimer_def Let_def)

lemma behavior_exec [simp]: "behavior (mach (fst (sm_exec x c))) = behavior (mach c)"
  by (cases x) (simp_all split: option.splits)

lemma behavior_start [simp]: "behavior (mach (start_config b t)) = b"
  by (simp add: start_config_def Bootstrap_def NewStateMachine_def Let_def)

lemma behavior_run_ops [simp]: "behavior (mach (fst (run_ops sm_exec ops c))) = behavior (mach c)"
  by (induction ops arbitrary: c) simp_all

lemma behavior_run [simp]: "behavior (mach (run_from b t ops)) = b"
  by (simp add: run_from_def)

lemma run_from_snoc: "run_from b t (ops @ [x]) = fst (sm_exec x (run_from b t ops))"
  by (simp add: run_from_def run_ops_append_fst)

end
