(* ===== verification/Cond_Timing.thy ===== *)
theory Cond_Timing
  imports Cond_Safety
begin

text \<open>
  The timing of the condition state machine when callbacks run at the moment they expire: the
  quiet period after a deactivation, the on-delay, and the accumulation of a retentive timer.
  Such runs are runs of the interleaving semantics in which each expiry is followed at once by
  its callback. The last section shows what the general interleaving adds: a callback that
  expired before \<open>Stop\<close> and runs after it acts on the state it finds.
\<close>

section \<open>Runs without late callbacks\<close>

datatype rf_op = RfInput bool | RfInhibit bool | RfClear | RfTick nat | RfFire nat

fun rf_exec :: "rf_op \<Rightarrow> StateMachine \<Rightarrow> StateMachine \<times> edge list" where
  "rf_exec (RfInput v) sm = SetRawInput v sm"
| "rf_exec (RfInhibit v) sm = SetInhibited v sm"
| "rf_exec RfClear sm = Clear sm"
| "rf_exec (RfTick d) sm = (tick d sm, [])"
| "rf_exec (RfFire h) sm =
     (case due h (clock sm) of
        None \<Rightarrow> (sm, [])
      | Some cb \<Rightarrow> run_callback cb (sm\<lparr>clock := StopTimer h (clock sm)\<rparr>))"

definition rf_run :: "Behavior \<Rightarrow> time \<Rightarrow> rf_op list \<Rightarrow> StateMachine" where
  "rf_run b t ops = fst (run_ops rf_exec ops (mach (start_config b t)))"

fun as_sm_ops :: "rf_op \<Rightarrow> sm_op list" where
  "as_sm_ops (RfInput v) = [OpInput v]"
| "as_sm_ops (RfInhibit v) = [OpInhibit v]"
| "as_sm_ops RfClear = [OpClear]"
| "as_sm_ops (RfTick d) = [OpTick d]"
| "as_sm_ops (RfFire h) = [OpExpire h, OpRun 0]"

fun elapsed :: "rf_op list \<Rightarrow> int" where
  "elapsed [] = 0"
| "elapsed (RfTick d # ops) = int d + elapsed ops"
| "elapsed (_ # ops) = elapsed ops"

lemma elapsed_nonneg: "0 \<le> elapsed ops"
  by (induction ops rule: elapsed.induct) auto

lemma rf_step_simulated:
  assumes "inflight c = []"
  shows "run_ops sm_exec (as_sm_ops x) c =
           (c\<lparr>mach := fst (rf_exec x (mach c))\<rparr>, snd (rf_exec x (mach c)))"
proof (cases x)
  case (RfFire h)
  have c: "c\<lparr>inflight := []\<rparr> = c" using assms by simp
  show ?thesis
    using assms
    by (cases "due h (clock (mach c))")
       (auto simp: RfFire run_ops.simps(2) on_mach_def drop_nth_def c split: prod.splits)
qed (auto simp: run_ops.simps(2) on_mach_def split: prod.splits)

lemma rf_run_simulated:
  "inflight c = [] \<Longrightarrow>
     run_ops sm_exec (concat (map as_sm_ops ops)) c =
       (c\<lparr>mach := fst (run_ops rf_exec ops (mach c))\<rparr>, snd (run_ops rf_exec ops (mach c)))"
proof (induction ops arbitrary: c)
  case (Cons x ops)
  let ?d = "c\<lparr>mach := fst (rf_exec x (mach c))\<rparr>"
  have "fst (run_ops sm_exec (as_sm_ops x) c) = ?d"
    and "snd (run_ops sm_exec (as_sm_ops x) c) = snd (rf_exec x (mach c))"
    using rf_step_simulated[OF Cons.prems] by simp_all
  with Cons show ?case
    by (intro prod_eqI) (simp_all add: run_ops_append_fst run_ops_append_snd)
qed simp

lemma rf_run_is_run: "rf_run b t ops = mach (run_from b t (concat (map as_sm_ops ops)))"
  by (simp add: rf_run_def run_from_def rf_run_simulated start_config_def)


section \<open>Deadlines\<close>

definition deadlines :: "callback \<Rightarrow> StateMachine \<Rightarrow> (nat \<times> time) set" where
  "deadlines cb sm = {(h, t). (h, t, cb) \<in> set (clk_sched (clock sm))}"

lemma deadlines_upd [simp]:
  "deadlines cb (sm\<lparr>rawInput := v\<rparr>) = deadlines cb sm"
  "deadlines cb (sm\<lparr>latched := v\<rparr>) = deadlines cb sm"
  "deadlines cb (sm\<lparr>inhibited := v\<rparr>) = deadlines cb sm"
  "deadlines cb (sm\<lparr>sm_state := st\<rparr>) = deadlines cb sm"
  "deadlines cb (sm\<lparr>pendingTimer := h\<rparr>) = deadlines cb sm"
  "deadlines cb (sm\<lparr>timeoutTimer := h\<rparr>) = deadlines cb sm"
  "deadlines cb (sm\<lparr>cooldownTimer := h\<rparr>) = deadlines cb sm"
  "deadlines cb (sm\<lparr>cooldownUntil := u\<rparr>) = deadlines cb sm"
  "deadlines cb (sm\<lparr>retAccumulated := d\<rparr>) = deadlines cb sm"
  "deadlines cb (sm\<lparr>retStartedAt := u\<rparr>) = deadlines cb sm"
  by (simp_all add: deadlines_def)

lemma deadlines_stop [simp]:
  "deadlines cb (stop_slot s sm) = {p \<in> deadlines cb sm. s \<noteq> Some (fst p)}"
  by (auto simp: deadlines_def stop_slot_def StopTimer_def split: option.splits)

lemma deadlines_cancel [simp]:
  "deadlines cb (cancelPendingLocked sm) = {p \<in> deadlines cb sm. pendingTimer sm \<noteq> Some (fst p)}"
  "deadlines cb (cancelTimeoutLocked sm) = {p \<in> deadlines cb sm. timeoutTimer sm \<noteq> Some (fst p)}"
  by (simp_all add: cancelPendingLocked_def cancelTimeoutLocked_def)

lemma deadlines_start [simp]:
  "deadlines cb (start_pending d cb' sm) =
     (if cb = cb' then insert (clk_next (clock sm), now sm + d) else id) (deadlines cb sm)"
  "deadlines cb (start_timeout d sm) =
     (if cb = CbTimeout then insert (clk_next (clock sm), now sm + d) else id) (deadlines cb sm)"
  "deadlines cb (start_cooldown d sm) =
     (if cb = CbCooldown then insert (clk_next (clock sm), now sm + d) else id) (deadlines cb sm)"
  by (auto simp: deadlines_def start_pending_def start_timeout_def start_cooldown_def
      AfterFunc_def now_def)

lemma deadlines_tick [simp]: "deadlines cb (tick d sm) = deadlines cb sm"
  by (simp add: deadlines_def tick_def)

text \<open>Without late callbacks, every scheduled activation is the current pending timer and is
  due when the delay is used up, and every scheduled cooldown callback is the current cooldown
  timer and is due when the quiet period ends.\<close>

definition act_ok :: "StateMachine \<Rightarrow> bool" where
  "act_ok sm \<longleftrightarrow>
     (\<forall>(h, t) \<in> deadlines CbActivate sm.
        pendingTimer sm = Some h \<and> sm_state sm = StatePendingActivation \<and>
        (\<exists>s. retStartedAt sm = Some s \<and> t = s + (ActivateAfter (behavior sm) - retAccumulated sm)))"

definition cool_ok :: "StateMachine \<Rightarrow> bool" where
  "cool_ok sm \<longleftrightarrow>
     (\<forall>(h, t) \<in> deadlines CbCooldown sm. cooldownTimer sm = Some h \<and> cooldownUntil sm = Some t)"

definition rf_inv :: "StateMachine \<Rightarrow> bool" where
  "rf_inv sm \<longleftrightarrow> act_ok sm \<and> cool_ok sm"

lemma act_none: "act_ok sm \<Longrightarrow> sm_state sm \<noteq> StatePendingActivation \<Longrightarrow> deadlines CbActivate sm = {}"
  by (auto simp: act_ok_def)

lemma act_none_slot: "act_ok sm \<Longrightarrow> pendingTimer sm = None \<Longrightarrow> deadlines CbActivate sm = {}"
  by (auto simp: act_ok_def)

lemma act_empty [simp]: "deadlines CbActivate sm = {} \<Longrightarrow> act_ok sm"
  by (simp add: act_ok_def)

lemma act_cancel: "act_ok sm \<Longrightarrow> deadlines CbActivate (cancelPendingLocked sm) = {}"
  by (auto simp: act_ok_def)

lemma cooldownTimer_fields [simp]:
  "cooldownTimer (start_cooldown d sm) = Some (clk_next (clock sm))"
  by (simp add: start_cooldown_def)

lemma restartTimeout_deadlines [simp]:
  "cb \<noteq> CbTimeout \<Longrightarrow> deadlines cb (restartTimeoutLocked sm) =
     {p \<in> deadlines cb sm. timeoutTimer sm \<noteq> Some (fst p)}"
  by (simp add: restartTimeoutLocked_def Let_def)

lemma cool_keep:
  "cool_ok sm \<Longrightarrow> deadlines CbCooldown sm' \<subseteq> deadlines CbCooldown sm \<Longrightarrow>
     cooldownTimer sm' = cooldownTimer sm \<Longrightarrow> cooldownUntil sm' = cooldownUntil sm \<Longrightarrow> cool_ok sm'"
  by (auto simp: cool_ok_def)

lemma becomeActive_deadlines [simp]:
  "cb \<noteq> CbTimeout \<Longrightarrow> deadlines cb (becomeActiveLocked sm) =
     {p \<in> deadlines cb sm. timeoutTimer sm \<noteq> Some (fst p)}"
  by (simp add: becomeActiveLocked_def Let_def)

lemma becomeActive_fields [simp]:
  "sm_state (becomeActiveLocked sm) = StateActive"
  "rawInput (becomeActiveLocked sm) = rawInput sm"
  "inhibited (becomeActiveLocked sm) = inhibited sm"
  "cooldownTimer (becomeActiveLocked sm) = cooldownTimer sm"
  "cooldownUntil (becomeActiveLocked sm) = cooldownUntil sm"
  "pendingTimer (becomeActiveLocked sm) = pendingTimer sm"
  "now (becomeActiveLocked sm) = now sm"
  by (simp_all add: becomeActiveLocked_def Let_def)

lemma rf_becomeActive: "deadlines CbActivate sm = {} \<Longrightarrow> cool_ok sm \<Longrightarrow> rf_inv (becomeActiveLocked sm)"
  by (auto simp: rf_inv_def elim!: cool_keep)

lemma cool_becomeInactive: "cool_ok sm \<Longrightarrow> cool_ok (becomeInactiveLocked sm)"
  by (auto simp: cool_ok_def becomeInactiveLocked_def Let_def)

lemma rf_becomeInactive:
  "deadlines CbActivate sm = {} \<Longrightarrow> cool_ok sm \<Longrightarrow> rf_inv (becomeInactiveLocked sm)"
  by (auto simp: rf_inv_def cool_becomeInactive) (simp add: becomeInactiveLocked_def Let_def)

lemma rf_start_activate:
  "deadlines CbActivate sm = {} \<Longrightarrow> cool_ok sm \<Longrightarrow> sm_state sm = StatePendingActivation \<Longrightarrow>
     retStartedAt sm = Some (now sm) \<Longrightarrow> d = ActivateAfter (behavior sm) - retAccumulated sm \<Longrightarrow>
     rf_inv (start_pending d CbActivate sm)"
  by (auto simp: rf_inv_def act_ok_def elim!: cool_keep)

lemma cool_upd [simp]:
  "cool_ok (sm\<lparr>rawInput := v\<rparr>) = cool_ok sm"
  "cool_ok (sm\<lparr>latched := v\<rparr>) = cool_ok sm"
  "cool_ok (sm\<lparr>inhibited := v\<rparr>) = cool_ok sm"
  "cool_ok (sm\<lparr>sm_state := st\<rparr>) = cool_ok sm"
  "cool_ok (sm\<lparr>pendingTimer := h\<rparr>) = cool_ok sm"
  "cool_ok (sm\<lparr>timeoutTimer := h\<rparr>) = cool_ok sm"
  "cool_ok (sm\<lparr>retAccumulated := d\<rparr>) = cool_ok sm"
  "cool_ok (sm\<lparr>retStartedAt := u\<rparr>) = cool_ok sm"
  by (simp_all add: cool_ok_def)

lemma cool_cancel [simp]:
  "cool_ok sm \<Longrightarrow> cool_ok (cancelPendingLocked sm)"
  "cool_ok sm \<Longrightarrow> cool_ok (cancelTimeoutLocked sm)"
  "cool_ok sm \<Longrightarrow> cool_ok (restartTimeoutLocked sm)"
  "cool_ok sm \<Longrightarrow> cool_ok (start_pending d CbDeactivate sm)"
  by (auto elim!: cool_keep)

lemma rf_idle: "deadlines CbActivate sm = {} \<Longrightarrow> cool_ok sm \<Longrightarrow> rf_inv sm"
  by (simp add: rf_inv_def)

lemma rf_tryActivate:
  "deadlines CbActivate sm = {} \<Longrightarrow> cool_ok sm \<Longrightarrow> rf_inv (tryActivateLocked sm)"
  unfolding tryActivateLocked_def Let_def
  by (auto intro: rf_idle intro!: rf_becomeActive rf_start_activate)

lemma rf_resume:
  "deadlines CbActivate sm = {} \<Longrightarrow> cool_ok sm \<Longrightarrow> sm_state sm = StatePendingActivation \<Longrightarrow>
     rf_inv (resumeRetentiveLocked sm)"
  unfolding resumeRetentiveLocked_def Let_def
  by (auto intro!: rf_becomeActive rf_start_activate)

lemma rf_pause: "act_ok sm \<Longrightarrow> cool_ok sm \<Longrightarrow> rf_inv (pauseRetentiveLocked sm)"
  unfolding pauseRetentiveLocked_def Let_def rf_inv_def using act_cancel[of sm]
  by (auto split: option.splits)

lemma act_upd [simp]:
  "act_ok (sm\<lparr>rawInput := v\<rparr>) = act_ok sm"
  "act_ok (sm\<lparr>inhibited := v\<rparr>) = act_ok sm"
  by (simp_all add: act_ok_def)

lemma rf_onInputChange:
  assumes "rf_inv sm"
  shows "rf_inv (onInputChangeLocked v sm)"
proof (cases "sm_state sm")
  case StateInactive
  with assms show ?thesis
    by (auto simp: onInputChangeLocked_def rf_inv_def[of sm] dest!: act_none intro: rf_idle intro!: rf_tryActivate)
next
  case StatePendingActivation
  with assms show ?thesis
    using act_cancel[of sm]
    by (auto simp: onInputChangeLocked_def rf_inv_def[of sm] dest: act_none_slot
        intro!: rf_pause rf_resume) (simp_all add: rf_inv_def)
next
  case StateActive
  with assms have "deadlines CbActivate sm = {}" "cool_ok sm"
    by (auto simp: rf_inv_def dest!: act_none)
  with StateActive show ?thesis
    by (auto simp: onInputChangeLocked_def intro!: rf_becomeInactive) (simp_all add: rf_inv_def)
next
  case StatePendingDeactivation
  with assms have "deadlines CbActivate sm = {}" "cool_ok sm"
    by (auto simp: rf_inv_def dest!: act_none)
  with StatePendingDeactivation show ?thesis
    by (auto simp: onInputChangeLocked_def rf_inv_def)
qed

lemma rf_inv_raw: "rf_inv (sm\<lparr>rawInput := v\<rparr>) = rf_inv sm"
  by (simp add: rf_inv_def)

lemma rf_SetRawInput: "rf_inv sm \<Longrightarrow> rf_inv (fst (SetRawInput v sm))"
  using rf_onInputChange[of "sm\<lparr>rawInput := v\<rparr>" v] rf_inv_raw[of v sm]
  by (simp add: SetRawInput_def Let_def)

lemma rf_SetInhibited:
  assumes "rf_inv sm" shows "rf_inv (fst (SetInhibited v sm))"
proof -
  have "rf_inv ((cancelPendingLocked (sm\<lparr>inhibited := True\<rparr>))
      \<lparr>retAccumulated := 0, retStartedAt := None, sm_state := StateInactive\<rparr>)"
    using assms act_cancel[of "sm\<lparr>inhibited := True\<rparr>"] by (simp add: rf_inv_def)
  moreover have "rf_inv (tryActivateLocked (sm\<lparr>inhibited := False\<rparr>))" if "sm_state sm = StateInactive"
    using that assms by (intro rf_tryActivate) (auto simp: rf_inv_def dest!: act_none)
  ultimately show ?thesis
    using assms by (auto simp: SetInhibited_def Let_def) (simp_all add: rf_inv_def)
qed

lemma rf_Clear: "rf_inv sm \<Longrightarrow> rf_inv (fst (Clear sm))"
  using act_cancel[of sm] by (simp add: rf_inv_def Clear_def Let_def)

lemma deadlines_fired:
  "deadlines cb (sm\<lparr>clock := StopTimer h (clock sm)\<rparr>) = {p \<in> deadlines cb sm. fst p \<noteq> h}"
  by (auto simp: deadlines_def StopTimer_def)

lemma due_deadline: "due h (clock sm) = Some cb \<Longrightarrow> \<exists>t \<le> now sm. (h, t) \<in> deadlines cb sm"
  by (erule due_in_sched) (auto simp: deadlines_def now_def)

lemma rf_stopped: "rf_inv sm \<Longrightarrow> rf_inv (sm\<lparr>clock := StopTimer h (clock sm)\<rparr>)"
  by (auto simp: rf_inv_def act_ok_def cool_ok_def deadlines_fired)

lemma act_slot: "act_ok sm \<Longrightarrow> (h, t) \<in> deadlines CbActivate sm \<Longrightarrow> pendingTimer sm = Some h"
  by (auto simp: act_ok_def)

lemma cool_slot: "cool_ok sm \<Longrightarrow> (h, t) \<in> deadlines CbCooldown sm \<Longrightarrow> cooldownTimer sm = Some h"
  by (auto simp: cool_ok_def)

lemma rf_fired_activate:
  assumes "rf_inv sm" and "due h (clock sm) = Some CbActivate"
  shows "deadlines CbActivate (sm\<lparr>clock := StopTimer h (clock sm)\<rparr>) = {}"
proof -
  have ok: "act_ok sm" "cool_ok sm" using assms(1) by (auto simp: rf_inv_def)
  obtain t where "(h, t) \<in> deadlines CbActivate sm" using due_deadline[OF assms(2)] by blast
  then have "fst p = h" if "p \<in> deadlines CbActivate sm" for p
    using that by (cases p) (auto dest!: act_slot[OF ok(1)])
  then show ?thesis by (auto simp: deadlines_fired)
qed

lemma rf_fired_cooldown:
  assumes "rf_inv sm" and "due h (clock sm) = Some CbCooldown"
  shows "deadlines CbCooldown (sm\<lparr>clock := StopTimer h (clock sm)\<rparr>) = {}"
proof -
  have ok: "act_ok sm" "cool_ok sm" using assms(1) by (auto simp: rf_inv_def)
  obtain t where "(h, t) \<in> deadlines CbCooldown sm" using due_deadline[OF assms(2)] by blast
  then have "fst p = h" if "p \<in> deadlines CbCooldown sm" for p
    using that by (cases p) (auto dest!: cool_slot[OF ok(2)])
  then show ?thesis by (auto simp: deadlines_fired)
qed

lemma rf_callback:
  assumes "rf_inv sm" and "cb = CbActivate \<Longrightarrow> deadlines CbActivate sm = {}"
    and "cb = CbCooldown \<Longrightarrow> deadlines CbCooldown sm = {}"
  shows "rf_inv (fst (run_callback cb sm))"
proof (cases cb)
  case CbActivate
  with assms show ?thesis
    by (auto simp: run_callback_def onActivateTimer_def Let_def rf_inv_def[of sm] intro!: rf_becomeActive)
next
  case CbDeactivate
  with assms show ?thesis
    by (auto simp: run_callback_def onDeactivateTimer_def Let_def rf_inv_def[of sm] act_none
        intro!: rf_becomeInactive)
next
  case CbTimeout
  with assms show ?thesis
    by (auto simp: run_callback_def onTimeoutTimer_def Let_def rf_inv_def[of sm] act_none
        becomeInactive_raw intro!: rf_becomeInactive)
next
  case CbCooldown
  let ?s = "sm\<lparr>cooldownTimer := None, cooldownUntil := None\<rparr>"
  have c: "cool_ok ?s" using CbCooldown assms by (simp add: cool_ok_def)
  have a: "act_ok ?s" using assms(1) by (simp add: rf_inv_def act_ok_def)
  have "rf_inv (tryActivateLocked ?s)" if "sm_state sm = StateInactive"
    using a c act_none[OF a] that by (intro rf_tryActivate) auto
  with a c show ?thesis
    by (auto simp: CbCooldown run_callback_def onCooldownTimer_def Let_def rf_inv_def[of ?s])
qed (use assms in \<open>simp_all add: run_callback_def\<close>)

lemma rf_inv_exec: "rf_inv sm \<Longrightarrow> rf_inv (fst (rf_exec x sm))"
proof (cases x)
  case (RfFire h)
  assume i: "rf_inv sm"
  show ?thesis
    using i rf_stopped[OF i, of h] rf_fired_activate[OF i, of h] rf_fired_cooldown[OF i, of h]
    by (auto simp: RfFire split: option.splits intro!: rf_callback)
qed (auto simp: rf_SetRawInput rf_SetInhibited rf_Clear, simp add: rf_inv_def act_ok_def cool_ok_def)

interpretation rf_keeps: invariant_machine rf_exec rf_inv "\<lambda>_. True"
  by unfold_locales (rule rf_inv_exec)

lemma rf_inv_run: "rf_inv (rf_run b t ops)"
  unfolding rf_run_def
  by (rule rf_keeps.run_inv)
     (auto simp: start_config_def Bootstrap_def NewStateMachine_def rf_inv_def act_ok_def cool_ok_def
       deadlines_def start_timeout_def AfterFunc_def Let_def)

section \<open>Cooldown\<close>

definition quiet :: "time \<Rightarrow> StateMachine \<Rightarrow> bool" where
  "quiet u sm \<longleftrightarrow> sm_state sm = StateInactive \<and> cooldownUntil sm = Some u"


lemma quiet_upd [simp]:
  "quiet u (sm\<lparr>rawInput := v\<rparr>) = quiet u sm"
  "quiet u (sm\<lparr>inhibited := v\<rparr>) = quiet u sm"
  "quiet u (sm\<lparr>clock := c\<rparr>) = quiet u sm"
  by (simp_all add: quiet_def)


lemma now_stop [simp]: "now (sm\<lparr>clock := StopTimer h (clock sm)\<rparr>) = now sm"
  by (simp add: now_def StopTimer_def)



lemma elapsed_Cons: "elapsed (x # ops) = elapsed [x] + elapsed ops"
  by (cases x) simp_all



lemma now_becomeInactive [simp]: "now (becomeInactiveLocked sm) = now sm"
  by (simp add: becomeInactiveLocked_def Let_def)

lemma output_states: "outputLocked sm \<longleftrightarrow> sm_state sm \<in> {StateActive, StatePendingDeactivation}"
  by (auto simp: outputLocked_def split: State.splits)




lemma rf_run_append: "rf_run b t (ops @ ops') = fst (run_ops rf_exec ops' (rf_run b t ops))"
  by (simp add: rf_run_def run_ops_append_fst)

lemma behavior_rf_run [simp]: "behavior (rf_run b t ops) = b"
  by (simp add: rf_run_is_run)



section \<open>On-delay\<close>

definition started_or :: "time \<Rightarrow> time option \<Rightarrow> time" where
  "started_or t u = (case u of None \<Rightarrow> t | Some s \<Rightarrow> s)"

lemma started_or_simps [simp]:
  "started_or t None = t"
  "started_or t (Some s) = s"
  by (simp_all add: started_or_def)

text \<open>A machine that was inactive at \<open>t0\<close> has not accumulated more than the time since.\<close>

definition delaying :: "time \<Rightarrow> StateMachine \<Rightarrow> bool" where
  "delaying t0 sm \<longleftrightarrow> t0 \<le> now sm \<and> started_past (retStartedAt sm) (now sm) \<and>
     (sm_state sm = StateInactive \<and> retAccumulated sm = 0 \<or>
      sm_state sm = StatePendingActivation \<and>
      (Retentive (behavior sm) \<or> retAccumulated sm = 0) \<and>
      t0 + retAccumulated sm \<le> started_or (now sm) (retStartedAt sm))"

lemma delaying_upd [simp]:
  "delaying t0 (sm\<lparr>rawInput := v\<rparr>) = delaying t0 sm"
  "delaying t0 (sm\<lparr>inhibited := v\<rparr>) = delaying t0 sm"
  "delaying t0 (sm\<lparr>cooldownTimer := h, cooldownUntil := u\<rparr>) = delaying t0 sm"
  "delaying t0 (sm\<lparr>clock := StopTimer h' (clock sm)\<rparr>) = delaying t0 sm"
  by (simp_all add: delaying_def)

lemma delaying_try:
  "delaying t0 sm \<Longrightarrow> sm_state sm = StateInactive \<Longrightarrow> now sm < t0 + ActivateAfter (behavior sm) \<Longrightarrow>
     delaying t0 (tryActivateLocked sm) \<and> now (tryActivateLocked sm) = now sm"
  by (auto simp: delaying_def tryActivateLocked_def Let_def)

lemma delaying_pending_input:
  assumes "delaying t0 sm" and "sm_state sm = StatePendingActivation"
    and "now sm < t0 + ActivateAfter (behavior sm)"
  shows "delaying t0 (onInputChangeLocked v sm) \<and> now (onInputChangeLocked v sm) = now sm"
  using assms
  by (cases "retStartedAt sm")
     (auto simp: delaying_def onInputChangeLocked_def pauseRetentiveLocked_def
       resumeRetentiveLocked_def Let_def)

lemma delaying_input:
  assumes "delaying t0 sm" and "now sm < t0 + ActivateAfter (behavior sm)"
  shows "delaying t0 (fst (SetRawInput v sm)) \<and> now (fst (SetRawInput v sm)) = now sm"
proof (cases "sm_state sm = StateInactive")
  case True
  with assms show ?thesis
    using delaying_try[of t0 "sm\<lparr>rawInput := v\<rparr>"]
    by (auto simp: SetRawInput_def onInputChangeLocked_def Let_def)
next
  case False
  then have "sm_state sm = StatePendingActivation" using assms(1) by (auto simp: delaying_def)
  with assms show ?thesis
    using delaying_pending_input[of t0 "sm\<lparr>rawInput := v\<rparr>" v]
    by (auto simp: SetRawInput_def Let_def)
qed

lemma delaying_inhibit:
  assumes "delaying t0 sm" and "now sm < t0 + ActivateAfter (behavior sm)"
  shows "delaying t0 (fst (SetInhibited v sm)) \<and> now (fst (SetInhibited v sm)) = now sm"
  using assms delaying_try[of t0 "sm\<lparr>inhibited := False\<rparr>"]
  by (auto simp: SetInhibited_def Let_def) (auto simp: delaying_def)

lemma delaying_callback:
  assumes "delaying t0 sm" and "now sm < t0 + ActivateAfter (behavior sm)" and "cb \<noteq> CbActivate"
  shows "delaying t0 (fst (run_callback cb sm)) \<and> now (fst (run_callback cb sm)) = now sm"
proof (cases cb)
  case CbCooldown
  let ?s = "sm\<lparr>cooldownTimer := None, cooldownUntil := None\<rparr>"
  have "delaying t0 ?s" using assms by simp
  then show ?thesis
    using assms(2) delaying_try[of t0 ?s]
    by (auto simp: CbCooldown run_callback_def onCooldownTimer_def Let_def)
qed (use assms in \<open>auto simp: run_callback_def onDeactivateTimer_def onTimeoutTimer_def delaying_def\<close>)

lemma delaying_not_due:
  assumes "rf_inv sm" and "delaying t0 sm" and "now sm < t0 + ActivateAfter (behavior sm)"
    and "due h (clock sm) = Some cb"
  shows "cb \<noteq> CbActivate"
  using assms(1-3) due_deadline[OF assms(4)] by (auto simp: rf_inv_def act_ok_def delaying_def)

lemma delaying_exec:
  assumes i: "rf_inv sm" and q: "delaying t0 sm"
    and t: "now sm + elapsed [x] < t0 + ActivateAfter (behavior sm)"
  shows "delaying t0 (fst (rf_exec x sm)) \<and> now (fst (rf_exec x sm)) = now sm + elapsed [x]"
proof (cases x)
  case (RfInput v)
  then show ?thesis using delaying_input[OF q, of v] t by simp
next
  case (RfInhibit v)
  then show ?thesis using delaying_inhibit[OF q, of v] t by simp
next
  case RfClear
  then show ?thesis using q by (simp add: Clear_def Let_def delaying_def)
next
  case (RfTick d)
  then show ?thesis using q by (cases "retStartedAt sm") (auto simp: delaying_def)
next
  case (RfFire h)
  then show ?thesis
    using q t delaying_not_due[OF i q, of h]
      delaying_callback[of t0 "sm\<lparr>clock := StopTimer h (clock sm)\<rparr>"]
    by (auto split: option.splits)
qed

lemma behavior_rf_exec [simp]: "behavior (fst (rf_exec x sm)) = behavior sm"
  by (cases x) (simp_all split: option.splits)

lemma delaying_run:
  "rf_inv sm \<Longrightarrow> delaying t0 sm \<Longrightarrow> now sm + elapsed ops < t0 + ActivateAfter (behavior sm) \<Longrightarrow>
     delaying t0 (fst (run_ops rf_exec ops sm))"
proof (induction ops arbitrary: sm)
  case (Cons x ops)
  have e: "elapsed (x # ops) = elapsed [x] + elapsed ops" by (rule elapsed_Cons)
  then have "now sm + elapsed [x] < t0 + ActivateAfter (behavior sm)"
    using Cons.prems(3) elapsed_nonneg[of ops] by simp
  from delaying_exec[OF Cons.prems(1,2) this] show ?case
    using Cons.IH[OF rf_inv_exec[OF Cons.prems(1)]] Cons.prems(3) e by simp
qed simp

lemma rf_run_inv: "\<exists>F. sm_inv F (rf_run b t ops)"
  using config_inv_run[of b t] by (auto simp: rf_run_is_run config_inv_def)

text \<open>The on-delay is never cut short. From any inactive state, retentive or not, no
  sequence of operations that takes less time than \<open>activate_after\<close> activates the output.\<close>

theorem on_delay_respected:
  assumes "sm_state (rf_run b t ops) = StateInactive" and "elapsed ops' < ActivateAfter b"
  shows "\<not> outputLocked (rf_run b t (ops @ ops'))"
proof -
  let ?sm = "rf_run b t ops"
  have "retAccumulated ?sm = 0" using rf_run_inv[of b t ops] inv_ret_zero assms(1) by fastforce
  moreover have "started_past (retStartedAt ?sm) (now ?sm)"
    using rf_run_inv[of b t ops] inv_started by blast
  ultimately have "delaying (now ?sm) ?sm" using assms(1) by (simp add: delaying_def)
  with assms(2) have "delaying (now ?sm) (fst (run_ops rf_exec ops' ?sm))"
    by (intro delaying_run rf_inv_run) simp_all
  then show ?thesis by (auto simp: rf_run_append delaying_def output_states)
qed

theorem on_delay_respected_witness:
  "\<not> outputLocked (rf_run (plain_behavior\<lparr>ActivateAfter := 10\<rparr>) 0
      ([] @ [RfInput True, RfTick 6, RfInput False, RfInput True, RfTick 3, RfFire 0, RfFire 1]))"
  by (rule on_delay_respected) (code_simp, code_simp)

section \<open>Exact delays\<close>

lemma due_fresh:
  assumes "\<forall>e \<in> set (clk_sched c). fst e < clk_next c"
  shows "due (clk_next c) ((AfterFunc D cb c)\<lparr>clk_now := clk_now c + int d\<rparr>) =
           (if D \<le> int d then Some cb else None)"
proof -
  have none: "find (\<lambda>e. fst e = clk_next c \<and> fst (snd e) \<le> clk_now c + int d) (clk_sched c) = None"
    using assms by (auto simp: find_None_iff)
  have app: "find P (xs @ [y]) = (case find P xs of None \<Rightarrow> if P y then Some y else None | r \<Rightarrow> r)"
    for P and xs :: "(nat \<times> time \<times> callback) list" and y
    by (induction xs) auto
  show ?thesis by (simp add: due_def AfterFunc_def app none)
qed

text \<open>A machine that waits for its input with \<open>acc\<close> already accumulated.\<close>

definition paused :: "duration \<Rightarrow> StateMachine \<Rightarrow> bool" where
  "paused acc sm \<longleftrightarrow> handles_ok sm \<and> \<not> rawInput sm \<and> \<not> inhibited sm \<and> \<not> cooldownActiveLocked sm \<and>
     retAccumulated sm = acc \<and> acc < ActivateAfter (behavior sm) \<and>
     (sm_state sm = StateInactive \<and> acc = 0 \<or>
      sm_state sm = StatePendingActivation \<and> Retentive (behavior sm) \<and> pendingTimer sm = None)"

definition armed :: "StateMachine \<Rightarrow> StateMachine" where
  "armed sm = start_pending (ActivateAfter (behavior sm) - retAccumulated sm) CbActivate
     (sm\<lparr>rawInput := True, sm_state := StatePendingActivation, retStartedAt := Some (now sm)\<rparr>)"

lemma sm_state_id: "sm_state sm = st \<Longrightarrow> sm\<lparr>rawInput := v, retStartedAt := u\<rparr> =
    sm\<lparr>rawInput := v, sm_state := st, retStartedAt := u\<rparr>"
  by (cases sm) simp

lemma cooldown_raw [simp]: "cooldownActiveLocked (sm\<lparr>rawInput := v\<rparr>) = cooldownActiveLocked sm"
  by (cases "cooldownUntil sm") (simp_all add: cooldownActiveLocked_def)

lemma paused_rise:
  assumes "paused acc sm" and "0 < ActivateAfter (behavior sm)"
  shows "fst (SetRawInput True sm) = armed sm"
  using assms
  by (auto simp: paused_def SetRawInput_def onInputChangeLocked_def tryActivateLocked_def
      resumeRetentiveLocked_def armed_def Let_def sm_state_id[symmetric])

lemma fire_armed:
  assumes "paused acc sm"
  shows "outputLocked (fst (rf_exec (RfFire (clk_next (clock sm))) (tick d (armed sm)))) \<longleftrightarrow>
           ActivateAfter (behavior sm) \<le> acc + int d"
proof -
  let ?s = "tick d (armed sm)"
  have acc: "retAccumulated sm = acc" using assms by (simp add: paused_def)
  have "clock ?s = (AfterFunc (ActivateAfter (behavior sm) - acc) CbActivate (clock sm))
          \<lparr>clk_now := clk_now (clock sm) + int d\<rparr>"
    by (simp add: tick_def armed_def start_pending_def acc AfterFunc_def)
  moreover have "\<forall>e \<in> set (clk_sched (clock sm)). fst e < clk_next (clock sm)"
    using assms by (simp add: paused_def handles_ok_def)
  ultimately have "due (clk_next (clock sm)) (clock ?s) =
      (if ActivateAfter (behavior sm) - acc \<le> int d then Some CbActivate else None)"
    using due_fresh by simp
  then show ?thesis
    by (auto simp: run_callback_def onActivateTimer_def Let_def output_states armed_def)
qed

text \<open>The on-delay is exact: with the input asserted at an idle machine, the activation
  timer started by that assertion activates the output after \<open>d\<close> if and only if
  \<open>d\<close> is at least \<open>activate_after\<close>.\<close>

theorem on_delay_exact:
  fixes b t ops
  defines "sm \<equiv> rf_run b t ops"
  assumes "0 < ActivateAfter b" and "sm_state sm = StateInactive" and "\<not> rawInput sm"
    and "\<not> inhibited sm" and "\<not> cooldownActiveLocked sm"
  shows "outputLocked (rf_run b t (ops @ [RfInput True, RfTick d, RfFire (clk_next (clock sm))]))
           \<longleftrightarrow> ActivateAfter b \<le> int d"
proof -
  obtain F where F: "sm_inv F sm" unfolding sm_def using rf_run_inv by blast
  have b: "behavior sm = b" by (simp add: sm_def)
  have p: "paused 0 sm"
    using F assms(2-) inv_ret_zero[OF F] b by (simp add: paused_def sm_inv_def)
  show ?thesis
    using fire_armed[OF p, of d] paused_rise[OF p] assms(2)
    by (simp add: rf_run_append sm_def[symmetric] b)
qed

theorem on_delay_exact_witness:
  "outputLocked (rf_run (plain_behavior\<lparr>ActivateAfter := 10\<rparr>) 0
      ([] @ [RfInput True, RfTick 10, RfFire 0]))"
proof -
  have "clk_next (clock (rf_run (plain_behavior\<lparr>ActivateAfter := 10\<rparr>) 0 [])) = 0" by code_simp
  then show ?thesis
    using on_delay_exact[where b = "plain_behavior\<lparr>ActivateAfter := 10\<rparr>" and t = 0 and ops = "[]"
        and d = 10]
    by (simp add: rf_run_def start_config_def Bootstrap_def NewStateMachine_def plain_behavior_def
        cooldownActiveLocked_def)
qed

section \<open>Retentive timers\<close>

fun intervals :: "(nat \<times> nat) list \<Rightarrow> rf_op list" where
  "intervals [] = []"
| "intervals ((on, off) # ivs) =
     [RfInput True, RfTick on, RfInput False, RfTick off] @ intervals ivs"

lemma handles_ok_armed: "handles_ok sm \<Longrightarrow> handles_ok (armed sm)"
  by (simp add: armed_def)

lemma armed_fields [simp]:
  "rawInput (armed sm)" "inhibited (armed sm) = inhibited sm"
  "sm_state (armed sm) = StatePendingActivation" "behavior (armed sm) = behavior sm"
  "retAccumulated (armed sm) = retAccumulated sm" "retStartedAt (armed sm) = Some (now sm)"
  "cooldownUntil (armed sm) = cooldownUntil sm" "now (armed sm) = now sm"
  by (simp_all add: armed_def)

lemma cooldown_later:
  "\<not> cooldownActiveLocked sm \<Longrightarrow> cooldownUntil sm' = cooldownUntil sm \<Longrightarrow> now sm \<le> now sm' \<Longrightarrow>
     \<not> cooldownActiveLocked sm'"
  by (auto simp: cooldownActiveLocked_def split: option.splits)

lemma paused_interval:
  assumes p: "paused acc sm" and r: "Retentive (behavior sm)" and a: "0 < ActivateAfter (behavior sm)"
    and lt: "acc + int on < ActivateAfter (behavior sm)"
  shows "paused (acc + int on) (fst (run_ops rf_exec [RfInput True, RfTick on, RfInput False, RfTick off] sm))"
proof -
  let ?s = "tick on (armed sm)"
  have c: "\<not> cooldownActiveLocked sm" using p by (simp add: paused_def)
  have "paused (acc + int on) (tick off (fst (SetRawInput False ?s)))"
    using p r lt handles_ok_armed[of sm] cooldown_later[OF c]
    by (auto simp: paused_def SetRawInput_def onInputChangeLocked_def pauseRetentiveLocked_def Let_def)
  then show ?thesis using paused_rise[OF p a] by simp
qed

lemma paused_intervals:
  "paused acc sm \<Longrightarrow> Retentive (behavior sm) \<Longrightarrow> 0 < ActivateAfter (behavior sm) \<Longrightarrow>
     acc + int (sum_list (map fst ivs)) < ActivateAfter (behavior sm) \<Longrightarrow>
     paused (acc + int (sum_list (map fst ivs))) (fst (run_ops rf_exec (intervals ivs) sm))"
proof (induction ivs arbitrary: acc sm)
  case (Cons iv ivs)
  obtain on off where iv: "iv = (on, off)" by (cases iv)
  let ?sm = "fst (run_ops rf_exec [RfInput True, RfTick on, RfInput False, RfTick off] sm)"
  have "paused (acc + int on) ?sm"
    using Cons.prems iv by (intro paused_interval) auto
  then have "paused (acc + int on + int (sum_list (map fst ivs))) (fst (run_ops rf_exec (intervals ivs) ?sm))"
    using Cons.prems iv by (intro Cons.IH) auto
  then show ?case by (simp add: iv algebra_simps)
qed simp

lemma paused_start:
  "\<not> StartActive b \<Longrightarrow> 0 < ActivateAfter b \<Longrightarrow> paused 0 (rf_run b t [])"
  by (simp add: rf_run_def start_config_def Bootstrap_def NewStateMachine_def paused_def handles_ok_def
      cooldownActiveLocked_def)

text \<open>C5: A retentive timer accumulates exactly the time its input was asserted: after any
  list of on/off intervals whose on-times do not yet reach \<open>activate_after\<close>, a further
  on-time of \<open>d\<close> activates the output if and only if the on-times sum up to at least
  \<open>activate_after\<close>. The off-times do not matter.\<close>

theorem retentive_accumulates:
  fixes b t ivs
  defines "sm \<equiv> rf_run b t (intervals ivs)"
  assumes "Retentive b" and "\<not> StartActive b" and "int (sum_list (map fst ivs)) < ActivateAfter b"
  shows "outputLocked (rf_run b t (intervals ivs @ [RfInput True, RfTick d, RfFire (clk_next (clock sm))]))
           \<longleftrightarrow> ActivateAfter b \<le> int (sum_list (map fst ivs)) + int d"
proof -
  have pos: "0 < ActivateAfter b" using assms(4) by linarith
  have b: "behavior sm = b" by (simp add: sm_def)
  have "paused (0 + int (sum_list (map fst ivs))) (fst (run_ops rf_exec (intervals ivs) (rf_run b t [])))"
    using assms(2-) pos by (intro paused_intervals paused_start) auto
  then have p: "paused (int (sum_list (map fst ivs))) sm"
    by (simp add: sm_def rf_run_def)
  show ?thesis
    using fire_armed[OF p, of d] paused_rise[OF p] pos
    by (simp add: rf_run_append sm_def[symmetric] b)
qed

theorem retentive_accumulates_witness:
  "outputLocked (rf_run (plain_behavior\<lparr>ActivateAfter := 10, Retentive := True\<rparr>) 0
      (intervals [(4, 100), (3, 50)] @ [RfInput True, RfTick 3, RfFire 2]))"
proof -
  let ?b = "plain_behavior\<lparr>ActivateAfter := 10, Retentive := True\<rparr>"
  have "clk_next (clock (rf_run ?b 0 (intervals [(4, 100), (3, 50)]))) = 2" by code_simp
  then show ?thesis
    using retentive_accumulates[where b = ?b and t = 0 and ivs = "[(4, 100), (3, 50)]" and d = 3]
    by (simp add: plain_behavior_def)
qed

section \<open>Late callbacks\<close>

text \<open>An activation callback that expired before the input fell and runs after it rose again
  activates the machine at once: the full delay since the last rise has not passed.\<close>

lemma late_activation_cuts_delay:
  "sm_state (mach (run_from (plain_behavior\<lparr>ActivateAfter := 10\<rparr>) 0
     [OpInput True, OpTick 10, OpExpire 0, OpInput False, OpInput True, OpRun 0])) = StateActive"
  by code_simp

text \<open>A cooldown callback that expired before a second fall of the output and runs after it
  ends the second quiet period at once.\<close>

lemma late_cooldown_cuts_quiet_period:
  "sm_state (mach (run_from (plain_behavior\<lparr>Cooldown := 10\<rparr>) 0
     [OpInput True, OpInput False, OpTick 10, OpExpire 0, OpInput True, OpInput False, OpRun 0,
      OpInput True])) = StateActive"
  by code_simp

text \<open>An activation callback that runs after a retentive timer was paused activates the
  machine although its input is off.\<close>

lemma late_activation_without_input:
  "let sm = mach (run_from (plain_behavior\<lparr>ActivateAfter := 10, Retentive := True\<rparr>) 0
      [OpInput True, OpTick 10, OpExpire 0, OpInput False, OpRun 0])
   in sm_state sm = StateActive \<and> \<not> rawInput sm"
  by code_simp

end
