(* ===== verification/Cond_Common.thy ===== *)
theory Cond_Common
  imports Cond_Timing
begin

text \<open>
  What the four condition subtypes share around the state machine: the go-cty values their
  operations receive, as far as the code inspects them, the errors and diagnostics they
  return, reactive expressions (\<open>config/reactive.go\<close>), lifecycle hooks
  (\<open>conditions/hooks.go\<close>) and the optional attributes of their configuration blocks.
\<close>

section \<open>Values\<close>

text \<open>A cty value as the conditions see it: its type, whether it is null or unknown, and its
  payload. \<open>v_True\<close> and \<open>v_Number\<close> are \<open>None\<close> where the library panics.\<close>

datatype cty_type = TBool | TNumber | TOther

datatype 'n cty_value =
    CtyBool bool | CtyNumber 'n | CtyOther | CtyNull cty_type | CtyUnknown cty_type

fun v_Type :: "'n cty_value \<Rightarrow> cty_type" where
  "v_Type (CtyBool _) = TBool"
| "v_Type (CtyNumber _) = TNumber"
| "v_Type CtyOther = TOther"
| "v_Type (CtyNull t) = t"
| "v_Type (CtyUnknown t) = t"

fun v_IsNull :: "'n cty_value \<Rightarrow> bool" where
  "v_IsNull (CtyNull _) = True"
| "v_IsNull _ = False"

fun v_IsKnown :: "'n cty_value \<Rightarrow> bool" where
  "v_IsKnown (CtyUnknown _) = False"
| "v_IsKnown _ = True"

fun v_True :: "'n cty_value \<Rightarrow> bool option" where
  "v_True (CtyBool b) = Some b"
| "v_True _ = None"

fun v_Number :: "'n cty_value \<Rightarrow> 'n option" where
  "v_Number (CtyNumber n) = Some n"
| "v_Number _ = None"

text \<open>The guard of every boolean callback: a value that is not a known, non-null boolean is
  reported and dropped.\<close>

definition bool_input :: "'n cty_value \<Rightarrow> bool option" where
  "bool_input v = (if v_Type v \<noteq> TBool \<or> v_IsNull v \<or> \<not> v_IsKnown v then None else v_True v)"

lemma bool_input_Some [simp]: "bool_input v = Some b \<longleftrightarrow> v = CtyBool b"
  by (cases v) (auto simp: bool_input_def)

text \<open>Evaluating an expression gives diagnostics with errors (\<open>None\<close>) or a value.\<close>

type_synonym 'n eval_result = "'n cty_value option"

datatype cond_error =
    ErrDeclaredInput | ErrMissingArgument | ErrNotBoolean | ErrNotNumber | ErrNotInteger
  | ErrDeclaredWires | ErrNegativeCount | ErrStart string | ErrPanic

section \<open>Attributes\<close>

text \<open>Optional duration attributes; \<open>pd\<close> is the configuration's duration parser.\<close>

definition parseOptDuration ::
  "('e \<Rightarrow> duration \<times> diag list) \<Rightarrow> 'e option \<Rightarrow> duration \<times> diag list" where
  "parseOptDuration pd expr = (case expr of None \<Rightarrow> (0, []) | Some e \<Rightarrow> pd e)"

definition opt_bool :: "bool option \<Rightarrow> bool" where
  "opt_bool p = (case p of None \<Rightarrow> False | Some v \<Rightarrow> v)"

section \<open>Reactive expressions\<close>

text \<open>Evaluating one variable reference of an expression: whether it resolved, and what it
  resolved to. A watchable capsule is identified by a key of type \<open>'w\<close>.\<close>

record 'w traversal =
  tr_errors :: bool
  tr_known :: bool
  tr_null :: bool
  tr_capsule :: bool
  tr_watchable :: "'w option"

fun source_of :: "'w traversal \<Rightarrow> 'w option" where
  "source_of tr =
     (if tr_errors tr \<or> \<not> tr_known tr \<or> tr_null tr then None
      else if \<not> tr_capsule tr then None else tr_watchable tr)"

fun add_sources :: "'w list \<Rightarrow> 'w traversal list \<Rightarrow> 'w list" where
  "add_sources srcs [] = srcs"
| "add_sources srcs (tr # trs) =
     (case source_of tr of
        None \<Rightarrow> add_sources srcs trs
      | Some w \<Rightarrow> if w \<in> set srcs then add_sources srcs trs else add_sources (srcs @ [w]) trs)"

record 'w ReactiveExpr =
  re_sources :: "'w list"
  re_started :: bool

definition NewReactiveExpr :: "'w traversal list \<Rightarrow> 'w ReactiveExpr \<times> diag list" where
  "NewReactiveExpr trs =
     (\<lparr>re_sources = add_sources [] trs, re_started = False\<rparr>,
      map (\<lambda>_. DiagError ''unresolved reference'') (filter tr_errors trs))"

text \<open>A subscription list holds the watchables the expression watches, with multiplicity. The
  second result is the value handed to the callback, if it is invoked.\<close>

definition ReactiveExpr_Start ::
  "'n eval_result \<Rightarrow> 'w ReactiveExpr \<Rightarrow> 'w list \<Rightarrow> 'w ReactiveExpr \<times> 'w list \<times> 'n cty_value option \<times> bool"
where
  "ReactiveExpr_Start ev r subs =
     (if re_started r then (r, subs, None, True)
      else (r\<lparr>re_started := True\<rparr>, subs @ re_sources r, ev, ev \<noteq> None))"

definition ReactiveExpr_Stop :: "'w ReactiveExpr \<Rightarrow> 'w list \<Rightarrow> 'w ReactiveExpr \<times> 'w list" where
  "ReactiveExpr_Stop r subs =
     (if \<not> re_started r then (r, subs)
      else (r\<lparr>re_started := False\<rparr>, fold remove1 (re_sources r) subs))"

definition ReactiveExpr_OnChange :: "'n eval_result \<Rightarrow> 'n cty_value option" where
  "ReactiveExpr_OnChange ev = ev"

lemma set_add_sources:
  "set (add_sources srcs trs) = set srcs \<union> {w. \<exists>tr \<in> set trs. source_of tr = Some w}"
  by (induction srcs trs rule: add_sources.induct) (auto split: option.splits)

lemma distinct_add_sources: "distinct srcs \<Longrightarrow> distinct (add_sources srcs trs)"
  by (induction srcs trs rule: add_sources.induct) (auto split: option.splits)

lemma mset_fold_remove1: "mset (fold remove1 xs zs) = mset zs - mset xs"
  by (induction xs arbitrary: zs) (simp_all add: mset_remove1)

text \<open>A reactive expression watches exactly the watchables its references resolve to, each
  once, and every start/stop pair leaves the subscriptions as they were, so no watcher leaks and
  none is registered twice; starting twice subscribes once.\<close>

theorem reactive_subscriptions:
  fixes trs :: "'w traversal list" and ev :: "'n eval_result"
  defines "r \<equiv> fst (NewReactiveExpr trs)"
  shows "distinct (re_sources r) \<and>
         set (re_sources r) = {w. \<exists>tr. tr \<in> set trs \<and> source_of tr = Some w} \<and>
         (case ReactiveExpr_Start ev r subs of (r1, subs1, called, ok) \<Rightarrow>
            subs1 = subs @ re_sources r \<and> called = ev \<and>
            ReactiveExpr_Start ev r1 subs1 = (r1, subs1, None, True) \<and>
            (case ReactiveExpr_Stop r1 subs1 of (r2, subs2) \<Rightarrow>
               r2 = r \<and> mset subs2 = mset subs \<and> ReactiveExpr_Stop r2 subs2 = (r2, subs2)))"
  by (auto simp: r_def NewReactiveExpr_def ReactiveExpr_Start_def ReactiveExpr_Stop_def
      set_add_sources distinct_add_sources mset_fold_remove1)

section \<open>Hooks\<close>

record 'e Hooks =
  OnInit :: "'e option"
  OnActivate :: "'e option"
  OnDeactivate :: "'e option"

text \<open>One evaluation of a hook: the hook's name and the attributes of its context.\<close>

record hook_call =
  hc_hook :: string
  hc_name :: string
  hc_new_value :: bool
  hc_old_value :: "bool option"

record 'e HookDispatcher =
  hd_name :: string
  hd_hooks :: "'e Hooks"

definition NewHookDispatcher :: "string \<Rightarrow> 'e Hooks \<Rightarrow> 'e HookDispatcher option" where
  "NewHookDispatcher name hooks =
     (if OnInit hooks = None \<and> OnActivate hooks = None \<and> OnDeactivate hooks = None then None
      else Some \<lparr>hd_name = name, hd_hooks = hooks\<rparr>)"

definition hook_eval ::
  "'e HookDispatcher \<Rightarrow> 'e option \<Rightarrow> string \<Rightarrow> bool \<Rightarrow> bool \<Rightarrow> bool \<Rightarrow> hook_call list" where
  "hook_eval h expr hookName old new initHook =
     (if expr = None then []
      else [\<lparr>hc_hook = hookName, hc_name = hd_name h, hc_new_value = new,
             hc_old_value = (if initHook then None else Some old)\<rparr>])"

definition hook_OnChange :: "'e HookDispatcher option \<Rightarrow> edge \<Rightarrow> hook_call list" where
  "hook_OnChange h e =
     (case h of None \<Rightarrow> []
      | Some d \<Rightarrow>
          let (oldB, newB) = e in
          if oldB = newB then []
          else if newB then hook_eval d (OnActivate (hd_hooks d)) ''on_activate'' oldB newB False
          else hook_eval d (OnDeactivate (hd_hooks d)) ''on_deactivate'' oldB newB False)"

definition FireInit :: "'e HookDispatcher option \<Rightarrow> bool \<Rightarrow> hook_call list" where
  "FireInit h currentOutput =
     (case h of None \<Rightarrow> []
      | Some d \<Rightarrow> hook_eval d (OnInit (hd_hooks d)) ''on_init'' False currentOutput True)"

section \<open>Executions of a wrapped machine\<close>

text \<open>A subtype wraps the state machine and shares its clock. An execution interleaves calls of
  the subtype's operations with clock ticks, expiries and expired callbacks, as for the bare
  machine; \<open>sm\<close> and \<open>set_sm\<close> read and replace the wrapped machine, \<open>call\<close> runs an
  operation and \<open>runcb\<close> a callback.\<close>

record 'c Wrapped =
  w_cond :: 'c
  w_inflight :: "callback list"

datatype 'a w_op = WCall 'a | WTick nat | WExpire nat | WRun nat

fun w_exec ::
  "('c \<Rightarrow> StateMachine) \<Rightarrow> (StateMachine \<Rightarrow> 'c \<Rightarrow> 'c) \<Rightarrow> ('a \<Rightarrow> 'c \<Rightarrow> 'c \<times> edge list) \<Rightarrow>
     (callback \<Rightarrow> 'c \<Rightarrow> 'c \<times> edge list) \<Rightarrow> 'a w_op \<Rightarrow> 'c Wrapped \<Rightarrow> 'c Wrapped \<times> edge list" where
  "w_exec sm set_sm call runcb (WCall a) w =
     (let (c, es) = call a (w_cond w) in (w\<lparr>w_cond := c\<rparr>, es))"
| "w_exec sm set_sm call runcb (WTick d) w =
     (w\<lparr>w_cond := set_sm (tick d (sm (w_cond w))) (w_cond w)\<rparr>, [])"
| "w_exec sm set_sm call runcb (WExpire h) w =
     (case due h (clock (sm (w_cond w))) of
        None \<Rightarrow> (w, [])
      | Some cb \<Rightarrow>
          (w\<lparr>w_cond := set_sm ((sm (w_cond w))\<lparr>clock := StopTimer h (clock (sm (w_cond w)))\<rparr>) (w_cond w),
             w_inflight := w_inflight w @ [cb]\<rparr>, []))"
| "w_exec sm set_sm call runcb (WRun i) w =
     (if i < length (w_inflight w)
      then let (c, es) = runcb (w_inflight w ! i) (w_cond w)
           in (w\<lparr>w_cond := c, w_inflight := drop_nth i (w_inflight w)\<rparr>, es)
      else (w, []))"

text \<open>The contract of a subtype: its operations and callbacks report the changes of the wrapped
  machine's output, and replacing the machine is all that the clock does to it.\<close>

locale wrapper =
  fixes sm :: "'c \<Rightarrow> StateMachine"
    and set_sm :: "StateMachine \<Rightarrow> 'c \<Rightarrow> 'c"
    and call :: "'a \<Rightarrow> 'c \<Rightarrow> 'c \<times> edge list"
    and runcb :: "callback \<Rightarrow> 'c \<Rightarrow> 'c \<times> edge list"
  assumes sm_set_sm: "sm (set_sm s c) = s"
    and call_chain: "edge_chain (Output (sm c)) (snd (call a c)) (Output (sm (fst (call a c))))"
    and runcb_chain: "edge_chain (Output (sm c)) (snd (runcb cb c)) (Output (sm (fst (runcb cb c))))"
begin

lemma w_exec_chain:
  "edge_chain (Output (sm (w_cond w))) (snd (w_exec sm set_sm call runcb x w))
     (Output (sm (w_cond (fst (w_exec sm set_sm call runcb x w)))))"
proof (cases x)
  case (WCall a)
  then show ?thesis using call_chain[of "w_cond w" a] by (auto split: prod.splits)
next
  case (WRun i)
  then show ?thesis
    using runcb_chain[of "w_cond w" "w_inflight w ! i"] by (auto split: prod.splits)
qed (auto simp: sm_set_sm tick_def split: option.splits)

end

sublocale wrapper \<subseteq> notifying "w_exec sm set_sm call runcb" "\<lambda>w. Output (sm (w_cond w))"
  by unfold_locales (rule w_exec_chain)

lemma transitions_raw [simp]:
  "rawInput (becomeInactiveLocked sm) = rawInput sm"
  "rawInput (tryActivateLocked sm) = rawInput sm"
  "rawInput (pauseRetentiveLocked sm) = rawInput sm"
  "rawInput (resumeRetentiveLocked sm) = rawInput sm"
  by (simp_all add: becomeInactiveLocked_def tryActivateLocked_def pauseRetentiveLocked_def
      resumeRetentiveLocked_def Let_def split: option.split)

lemma onInputChange_raw [simp]: "rawInput (onInputChangeLocked v sm) = rawInput sm"
  by (simp add: onInputChangeLocked_def split: State.split)

lemma SetRawInput_raw [simp]: "rawInput (fst (SetRawInput v sm)) = v"
  by (simp add: SetRawInput_def Let_def)

lemma now_transitions [simp]:
  "now (tryActivateLocked sm) = now sm"
  "now (pauseRetentiveLocked sm) = now sm"
  "now (resumeRetentiveLocked sm) = now sm"
  by (simp_all add: tryActivateLocked_def pauseRetentiveLocked_def resumeRetentiveLocked_def Let_def
      split: option.split)

lemma now_onInputChange [simp]: "now (onInputChangeLocked v sm) = now sm"
  by (simp add: onInputChangeLocked_def split: State.split)

lemma now_ops [simp]:
  "now (fst (SetRawInput v sm)) = now sm"
  "now (fst (SetInhibited v sm)) = now sm"
  "now (fst (Clear sm)) = now sm"
  by (simp_all add: SetRawInput_def SetInhibited_def Clear_def Let_def)

lemma now_run_callback [simp]: "now (fst (run_callback cb sm)) = now sm"
  by (cases cb) (simp_all add: run_callback_def onActivateTimer_def onDeactivateTimer_def
      onTimeoutTimer_def onCooldownTimer_def Let_def)

lemma Clear_fields [simp]:
  "sm_state (fst (Clear sm)) = StateInactive"
  "\<not> rawInput (fst (Clear sm))"
  "\<not> latched (fst (Clear sm))"
  by (simp_all add: Clear_def Let_def)

end
