(* ===== verification/Cond_Timer.thy ===== *)
theory Cond_Timer
  imports Cond_Common
begin

text \<open>
  The timer condition (\<open>conditions/timer.go\<close>): a boolean input, imperative or declared,
  filtered by an optional debounce window and forwarded to the state machine. The wrapper
  keeps its own view of the input and reconciles it with the machine's before every decision.
\<close>

section \<open>State and operations\<close>

record TimerCondition =
  t_sm :: StateMachine
  t_debounce :: duration
  t_hasInputExpr :: bool
  t_rawInput :: bool
  t_stableInput :: bool
  t_debTimer :: "nat option"

definition on_t_sm ::
  "(StateMachine \<Rightarrow> StateMachine \<times> edge list) \<Rightarrow> TimerCondition \<Rightarrow> TimerCondition \<times> edge list" where
  "on_t_sm f t = (let (sm, es) = f (t_sm t) in (t\<lparr>t_sm := sm\<rparr>, es))"

definition t_stopDebounce :: "TimerCondition \<Rightarrow> TimerCondition" where
  "t_stopDebounce t = t\<lparr>t_sm := stop_slot (t_debTimer t) (t_sm t), t_debTimer := None\<rparr>"

definition t_startDebounce :: "TimerCondition \<Rightarrow> TimerCondition" where
  "t_startDebounce t =
     t\<lparr>t_sm := (t_sm t)\<lparr>clock := AfterFunc (t_debounce t) CbDebounce (clock (t_sm t))\<rparr>,
       t_debTimer := Some (clk_next (clock (t_sm t)))\<rparr>"

definition t_reconcile :: "TimerCondition \<Rightarrow> TimerCondition" where
  "t_reconcile t =
     (let smRaw = rawInput (t_sm t)
      in if smRaw \<noteq> t_stableInput t then t\<lparr>t_stableInput := smRaw, t_rawInput := smRaw\<rparr> else t)"

definition Timer_submitInput :: "bool \<Rightarrow> TimerCondition \<Rightarrow> TimerCondition \<times> edge list" where
  "Timer_submitInput value t =
     (let t1 = (t_reconcile t)\<lparr>t_rawInput := value\<rparr>
      in if t_debounce t1 \<le> 0
         then if value = t_stableInput t1 then (t1, [])
              else on_t_sm (SetRawInput value) (t1\<lparr>t_stableInput := value\<rparr>)
         else if value = t_stableInput t1 then (t_stopDebounce t1, [])
         else (t_startDebounce (t_stopDebounce t1), []))"

definition Timer_onDebounceFire :: "TimerCondition \<Rightarrow> TimerCondition \<times> edge list" where
  "Timer_onDebounceFire t =
     (let t1 = t\<lparr>t_debTimer := None\<rparr>
      in if t_rawInput t1 = t_stableInput t1 then (t1, [])
         else on_t_sm (SetRawInput (t_rawInput t1)) (t1\<lparr>t_stableInput := t_rawInput t1\<rparr>))"

text \<open>\<open>Clear\<close> samples the declared input, if there is one: \<open>ev\<close> is the result of evaluating it.\<close>

definition Timer_Clear :: "'n eval_result \<Rightarrow> TimerCondition \<Rightarrow> TimerCondition \<times> edge list" where
  "Timer_Clear ev t =
     (let t1 = (t_stopDebounce t)\<lparr>t_rawInput := False, t_stableInput := False\<rparr>;
          (t2, es) = on_t_sm Clear t1
      in if \<not> t_hasInputExpr t2 then (t2, es)
         else case ev of
                None \<Rightarrow> (t2, es)
              | Some v \<Rightarrow>
                  if v_IsNull v \<or> \<not> v_IsKnown v \<or> v_Type v \<noteq> TBool \<or> v_True v \<noteq> Some True
                  then (t2, es)
                  else let (t3, es') = on_t_sm (SetRawInput True)
                             (t2\<lparr>t_rawInput := True, t_stableInput := True\<rparr>)
                       in (t3, es @ es'))"

definition Timer_Set ::
  "'n cty_value list \<Rightarrow> TimerCondition \<Rightarrow> (cond_error + 'n cty_value) \<times> TimerCondition \<times> edge list" where
  "Timer_Set args t =
     (if t_hasInputExpr t then (Inl ErrDeclaredInput, t, [])
      else case args of
             [] \<Rightarrow> (Inl ErrMissingArgument, t, [])
           | v # _ \<Rightarrow>
               if v_Type v \<noteq> TBool \<or> v_IsNull v then (Inl ErrNotBoolean, t, [])
               else case v_True v of
                      None \<Rightarrow> (Inl ErrPanic, t, [])
                    | Some b \<Rightarrow> (Inr v, Timer_submitInput b t))"

definition Timer_Toggle :: "TimerCondition \<Rightarrow> (cond_error + bool) \<times> TimerCondition \<times> edge list" where
  "Timer_Toggle t =
     (if t_hasInputExpr t then (Inl ErrDeclaredInput, t, [])
      else let t1 = t_reconcile t; newVal = (\<not> t_stableInput t1)
           in (Inr newVal, Timer_submitInput newVal t1))"

text \<open>The callbacks of the declared input and inhibit expressions.\<close>

definition Timer_onInput :: "'n cty_value \<Rightarrow> TimerCondition \<Rightarrow> TimerCondition \<times> edge list" where
  "Timer_onInput v t =
     (case bool_input v of None \<Rightarrow> (t, []) | Some b \<Rightarrow> Timer_submitInput b t)"

definition Timer_onInhibit :: "'n cty_value \<Rightarrow> TimerCondition \<Rightarrow> TimerCondition \<times> edge list" where
  "Timer_onInhibit v t =
     (case bool_input v of None \<Rightarrow> (t, []) | Some b \<Rightarrow> on_t_sm (SetInhibited b) t)"

text \<open>\<open>Start\<close>: \<open>inhibitEv\<close> and \<open>inputEv\<close> are the initial evaluations of the two expressions
  where they are configured.\<close>

definition Timer_Start ::
  "'n eval_result option \<Rightarrow> 'n eval_result option \<Rightarrow> TimerCondition \<Rightarrow>
     (cond_error + unit) \<times> TimerCondition \<times> edge list" where
  "Timer_Start inhibitEv inputEv t =
     (let t1 = t\<lparr>t_sm := Bootstrap (t_sm t)\<rparr>;
          t2 = (if StartActive (behavior (t_sm t1))
                then t1\<lparr>t_rawInput := True, t_stableInput := True\<rparr> else t1)
      in case inhibitEv of
           Some None \<Rightarrow> (Inl (ErrStart ''inhibit''), t2, [])
         | _ \<Rightarrow>
           let (t3, es) = (case inhibitEv of Some (Some v) \<Rightarrow> Timer_onInhibit v t2 | _ \<Rightarrow> (t2, []))
           in case inputEv of
                None \<Rightarrow> (Inr (), t3, es)
              | Some None \<Rightarrow> (Inl (ErrStart ''input''), t3, es)
              | Some (Some v) \<Rightarrow> let (t4, es') = Timer_onInput v t3 in (Inr (), t4, es @ es'))"

definition Timer_PostStart :: "'e HookDispatcher option \<Rightarrow> TimerCondition \<Rightarrow> hook_call list" where
  "Timer_PostStart h t = FireInit h (Output (t_sm t))"

section \<open>Configuration\<close>

record 'e timerBody =
  tb_ActivateAfter :: "'e option"
  tb_DeactivateAfter :: "'e option"
  tb_Timeout :: "'e option"
  tb_Cooldown :: "'e option"
  tb_Latch :: "bool option"
  tb_Invert :: "bool option"
  tb_Retentive :: "bool option"
  tb_StartActive :: "bool option"
  tb_Inhibit :: "'e option"
  tb_Debounce :: "'e option"
  tb_Input :: "'e option"
  tb_Hooks :: "'e Hooks"

text \<open>What processing a block adds to the configuration: the condition by name, and its place in
  the start, post-start and stop lists.\<close>

record 'c registry =
  reg_conditions :: "string \<rightharpoonup> 'c"
  reg_startables :: "string list"
  reg_postStartables :: "string list"
  reg_stoppables :: "string list"

definition register :: "string \<Rightarrow> 'c \<Rightarrow> bool \<Rightarrow> 'c registry \<Rightarrow> 'c registry" where
  "register name c hooked reg =
     reg\<lparr>reg_conditions := (reg_conditions reg)(name \<mapsto> c),
         reg_startables := reg_startables reg @ [name],
         reg_postStartables :=
           (if hooked then reg_postStartables reg @ [name] else reg_postStartables reg),
         reg_stoppables := reg_stoppables reg @ [name]\<rparr>"

text \<open>\<open>pd\<close> parses a duration, \<open>rx\<close> gives the diagnostics of building a reactive expression, and
  \<open>decoded\<close> is what decoding the block gave: its diagnostics and the body.\<close>

definition processTimerCondition ::
  "('e \<Rightarrow> duration \<times> diag list) \<Rightarrow> ('e \<Rightarrow> diag list) \<Rightarrow> Clock \<Rightarrow> string \<Rightarrow>
     diag list \<times> 'e timerBody \<Rightarrow>
     (TimerCondition \<times> 'e HookDispatcher option) registry \<Rightarrow>
     diag list \<times> (TimerCondition \<times> 'e HookDispatcher option) registry" where
  "processTimerCondition pd rx clk name decoded reg =
     (let (ds, body) = decoded in
      if HasErrors ds then (ds, reg)
      else
          let (aa, d1) = parseOptDuration pd (tb_ActivateAfter body);
              (da, d2) = parseOptDuration pd (tb_DeactivateAfter body);
              (tmo, d3) = parseOptDuration pd (tb_Timeout body);
              (cd, d4) = parseOptDuration pd (tb_Cooldown body);
              b = \<lparr>ActivateAfter = aa, DeactivateAfter = da, Timeout = tmo, Cooldown = cd,
                   Latch = opt_bool (tb_Latch body), Invert = opt_bool (tb_Invert body),
                   Retentive = opt_bool (tb_Retentive body),
                   StartActive = opt_bool (tb_StartActive body)\<rparr>;
              (deb, d5) = parseOptDuration pd (tb_Debounce body);
              ds1 = ds @ d1 @ d2 @ d3 @ d4 @ d5
          in if HasErrors ds1 then (ds1, reg)
             else let t = \<lparr>t_sm = NewStateMachine b clk, t_debounce = deb,
                           t_hasInputExpr = (tb_Input body \<noteq> None), t_rawInput = False,
                           t_stableInput = False, t_debTimer = None\<rparr>;
                      d6 = (case tb_Input body of None \<Rightarrow> [] | Some e \<Rightarrow> rx e);
                      d7 = (case tb_Inhibit body of None \<Rightarrow> [] | Some e \<Rightarrow> rx e);
                      ds2 = ds1 @ d6 @ d7
                  in if HasErrors ds2 then (ds2, reg)
                     else let hooks = NewHookDispatcher name (tb_Hooks body)
                          in (ds2, register name (t, hooks) (hooks \<noteq> None) reg))"

section \<open>Executions\<close>

datatype 'n timer_call =
    TSet "'n cty_value list" | TToggle | TClear "'n eval_result"
  | TInput "'n cty_value" | TInhibit "'n cty_value"

fun run_timer_call :: "'n timer_call \<Rightarrow> TimerCondition \<Rightarrow> TimerCondition \<times> edge list" where
  "run_timer_call (TSet args) t = snd (Timer_Set args t)"
| "run_timer_call TToggle t = snd (Timer_Toggle t)"
| "run_timer_call (TClear ev) t = Timer_Clear ev t"
| "run_timer_call (TInput v) t = Timer_onInput v t"
| "run_timer_call (TInhibit v) t = Timer_onInhibit v t"

definition timer_callback :: "callback \<Rightarrow> TimerCondition \<Rightarrow> TimerCondition \<times> edge list" where
  "timer_callback cb t =
     (if cb = CbDebounce then Timer_onDebounceFire t else on_t_sm (run_callback cb) t)"

abbreviation timer_exec ::
  "'n timer_call w_op \<Rightarrow> TimerCondition Wrapped \<Rightarrow> TimerCondition Wrapped \<times> edge list" where
  "timer_exec \<equiv> w_exec t_sm (\<lambda>s t. t\<lparr>t_sm := s\<rparr>) run_timer_call timer_callback"

lemma on_t_sm_simps [simp]:
  "t_sm (fst (on_t_sm f t)) = fst (f (t_sm t))"
  "snd (on_t_sm f t) = snd (f (t_sm t))"
  "t_debounce (fst (on_t_sm f t)) = t_debounce t"
  "t_hasInputExpr (fst (on_t_sm f t)) = t_hasInputExpr t"
  "t_rawInput (fst (on_t_sm f t)) = t_rawInput t"
  "t_stableInput (fst (on_t_sm f t)) = t_stableInput t"
  "t_debTimer (fst (on_t_sm f t)) = t_debTimer t"
  by (simp_all add: on_t_sm_def case_prod_beta Let_def)

lemma Output_stop_slot [simp]: "Output (stop_slot s sm) = Output sm"
  by (simp add: Output_def outputLocked_def)

lemma t_helpers [simp]:
  "t_sm (t_reconcile t) = t_sm t"
  "t_debounce (t_reconcile t) = t_debounce t"
  "t_hasInputExpr (t_reconcile t) = t_hasInputExpr t"
  "t_debTimer (t_reconcile t) = t_debTimer t"
  "t_stableInput (t_reconcile t) = rawInput (t_sm t)"
  by (auto simp: t_reconcile_def Let_def)

lemma timer_submit_chain:
  "edge_chain (Output (t_sm t)) (snd (Timer_submitInput v t)) (Output (t_sm (fst (Timer_submitInput v t))))"
  by (simp add: SetRawInput_chain Timer_submitInput_def t_stopDebounce_def t_startDebounce_def Let_def)

lemma timer_Clear_chain:
  "edge_chain (Output (t_sm t)) (snd (Timer_Clear ev t)) (Output (t_sm (fst (Timer_Clear ev t))))"
proof -
  let ?t1 = "(t_stopDebounce t)\<lparr>t_rawInput := False, t_stableInput := False\<rparr>"
  obtain t2 es where c: "on_t_sm Clear ?t1 = (t2, es)" by (cases "on_t_sm Clear ?t1")
  have "edge_chain (Output (t_sm t)) es (Output (t_sm t2))"
    using Clear_chain[of "t_sm ?t1"] c on_t_sm_simps(1,2)[of Clear ?t1] by (simp add: t_stopDebounce_def)
  moreover have "edge_chain (Output (t_sm t2)) (snd (SetRawInput True (t_sm t2)))
      (Output (fst (SetRawInput True (t_sm t2))))" by (rule SetRawInput_chain)
  ultimately show ?thesis
    unfolding Timer_Clear_def Let_def c
    by (auto simp: edge_simps case_prod_beta split: option.split)
qed

lemma timer_call_chain:
  "edge_chain (Output (t_sm t)) (snd (run_timer_call a t)) (Output (t_sm (fst (run_timer_call a t))))"
proof (cases a)
  case (TSet args)
  then show ?thesis
    by (auto simp: Timer_Set_def timer_submit_chain split: list.split option.split)
next
  case TToggle
  then show ?thesis
    using timer_submit_chain[of "t_reconcile t"] by (simp add: Timer_Toggle_def Let_def)
next
  case (TInput v)
  then show ?thesis by (simp add: Timer_onInput_def timer_submit_chain split: option.split)
next
  case (TInhibit v)
  then show ?thesis by (simp add: Timer_onInhibit_def SetInhibited_chain split: option.split)
qed (simp add: timer_Clear_chain)

lemma timer_callback_chain:
  "edge_chain (Output (t_sm t)) (snd (timer_callback cb t)) (Output (t_sm (fst (timer_callback cb t))))"
  by (simp add: SetRawInput_chain timer_callback_def Timer_onDebounceFire_def run_callback_chain Let_def)

interpretation timer: wrapper t_sm "\<lambda>s t. t\<lparr>t_sm := s\<rparr>" run_timer_call timer_callback
  by unfold_locales (simp_all add: timer_call_chain timer_callback_chain)

section \<open>The machine follows the input\<close>

lemma submit_undebounced:
  "t_debounce t \<le> 0 \<Longrightarrow>
     rawInput (t_sm (fst (Timer_submitInput v t))) = v \<and> t_stableInput (fst (Timer_submitInput v t)) = v"
  by (auto simp: Timer_submitInput_def Let_def)

text \<open>Without debounce no input edge is lost, whatever happened to the machine before (a
  timeout or clear that reset its input included): \<open>set\<close> leaves the machine's input at the
  value set, and \<open>toggle\<close> flips the machine's input and returns the new value.\<close>

theorem timer_set_toggle:
  assumes "t_debounce t \<le> 0" and "\<not> t_hasInputExpr t"
  shows "fst (Timer_Set (CtyBool v # args) t) = Inr (CtyBool v) \<and>
         rawInput (t_sm (fst (snd (Timer_Set (CtyBool v # args) t)))) = v \<and>
         fst (Timer_Toggle t) = Inr (\<not> rawInput (t_sm t)) \<and>
         rawInput (t_sm (fst (snd (Timer_Toggle t)))) = (\<not> rawInput (t_sm t))"
  using assms submit_undebounced[of t] submit_undebounced[of "t_reconcile t"]
  by (simp add: Timer_Set_def Timer_Toggle_def Let_def)

definition new_timer :: "Behavior \<Rightarrow> duration \<Rightarrow> TimerCondition" where
  "new_timer b deb =
     \<lparr>t_sm = NewStateMachine b \<lparr>clk_now = 0, clk_next = 0, clk_sched = []\<rparr>, t_debounce = deb,
      t_hasInputExpr = False, t_rawInput = False, t_stableInput = False, t_debTimer = None\<rparr>"

theorem timer_set_toggle_witness:
  "fst (Timer_Toggle (new_timer plain_behavior 0)) = Inr True"
proof -
  let ?t = "new_timer plain_behavior 0"
  have "t_debounce ?t \<le> 0" "\<not> t_hasInputExpr ?t" "\<not> rawInput (t_sm ?t)"
    by (simp_all add: new_timer_def NewStateMachine_def)
  then show ?thesis using timer_set_toggle[of ?t True "[] :: int cty_value list"] by simp
qed

text \<open>Clearing a timer cancels a pending debounce and resets the machine, then samples a
  declared input: if it is true the machine is asserted again, otherwise the condition is
  left inactive with its input off, and the cached views of the input agree with the machine.\<close>

theorem timer_clear_resamples:
  fixes ev :: "'n eval_result"
  defines "on t \<equiv> t_hasInputExpr t \<and> ev = Some (CtyBool True)"
  shows "let t' = fst (Timer_Clear ev t)
         in rawInput (t_sm t') = on t \<and> t_rawInput t' = on t \<and> t_stableInput t' = on t \<and>
            t_debTimer t' = None \<and> (on t \<or> sm_state (t_sm t') = StateInactive)"
proof -
  have "(v_IsNull v \<or> \<not> v_IsKnown v \<or> v_Type v \<noteq> TBool \<or> v_True v \<noteq> Some True) = (v \<noteq> CtyBool True)"
    for v :: "'n cty_value" by (cases v) auto
  then show ?thesis
    by (cases ev) (auto simp: Timer_Clear_def on_def Let_def case_prod_beta t_stopDebounce_def)
qed

section \<open>Debounce\<close>

definition settled :: "bool \<Rightarrow> TimerCondition \<Rightarrow> bool" where
  "settled v t \<longleftrightarrow> \<not> t_hasInputExpr t \<and> 0 < t_debounce t \<and> t_rawInput t = v \<and> t_stableInput t = v \<and>
     rawInput (t_sm t) = v \<and> t_debTimer t = None \<and>
     (\<forall>e \<in> set (clk_sched (clock (t_sm t))). fst e < clk_next (clock (t_sm t)))"

text \<open>The machine with its clock moved on by \<open>d\<close> and \<open>n\<close> timer handles used.\<close>

definition aged :: "nat \<Rightarrow> nat \<Rightarrow> StateMachine \<Rightarrow> StateMachine" where
  "aged d n sm = sm\<lparr>clock := (clock sm)\<lparr>clk_now := clk_now (clock sm) + int d,
                                      clk_next := clk_next (clock sm) + n\<rparr>\<rparr>"

text \<open>Excursions from the settled value \<open>v\<close>: each flips the input for \<open>d\<close>, gives the
  debounce timer the chance to fire, flips it back, and rests for \<open>e\<close>.\<close>

fun glitches :: "bool \<Rightarrow> nat \<Rightarrow> (nat \<times> nat) list \<Rightarrow> 'n timer_call w_op list" where
  "glitches v h [] = []"
| "glitches v h ((d, e) # gs) =
     [WCall (TSet [CtyBool (\<not> v)]), WTick d, WExpire h, WRun 0, WCall (TSet [CtyBool v]), WTick e]
     @ glitches v (Suc h) gs"

lemma t_reconcile_id: "rawInput (t_sm t) = t_stableInput t \<Longrightarrow> t_reconcile t = t"
  by (simp add: t_reconcile_def)

lemma find_append_None: "find P xs = None \<Longrightarrow> find P (xs @ ys) = find P ys"
  by (induction xs) (auto split: if_splits)

lemma filter_fresh:
  "\<forall>e \<in> set xs. fst e < (n::nat) \<Longrightarrow> filter (\<lambda>e. fst e \<noteq> n) xs = xs"
  by (induction xs) auto

definition excursion :: "bool \<Rightarrow> nat \<Rightarrow> TimerCondition \<Rightarrow> TimerCondition" where
  "excursion v d t =
     t\<lparr>t_sm := tick d ((t_sm t)\<lparr>clock := AfterFunc (t_debounce t) CbDebounce (clock (t_sm t))\<rparr>),
       t_rawInput := \<not> v, t_debTimer := Some (clk_next (clock (t_sm t)))\<rparr>"

lemma excursion_begins:
  assumes "settled v t"
  shows "Timer_Set [CtyBool (\<not> v)] t =
           (Inr (CtyBool (\<not> v)), excursion v 0 t, [])"
  using assms
  by (simp add: Timer_Set_def Timer_submitInput_def settled_def t_reconcile_id t_startDebounce_def
      t_stopDebounce_def stop_slot_def excursion_def tick_def Let_def)

lemma excursion_due:
  assumes "settled v t"
  shows "due (clk_next (clock (t_sm t))) (clock (t_sm (excursion v d t))) =
           (if t_debounce t \<le> int d then Some CbDebounce else None)"
proof -
  have "clock (t_sm (excursion v d t)) = (AfterFunc (t_debounce t) CbDebounce (clock (t_sm t)))
          \<lparr>clk_now := clk_now (clock (t_sm t)) + int d\<rparr>"
    by (simp add: excursion_def tick_def AfterFunc_def)
  then show ?thesis using due_fresh assms by (simp add: settled_def)
qed

lemma excursion_ends:
  assumes "settled v t"
  shows "Timer_Set [CtyBool v] (excursion v d t) =
           (Inr (CtyBool v), t\<lparr>t_sm := aged d 1 (t_sm t)\<rparr>, [])"
  using assms
  by (cases t) (auto simp: Timer_Set_def Timer_submitInput_def settled_def t_reconcile_id excursion_def
      t_stopDebounce_def stop_slot_def tick_def aged_def StopTimer_def AfterFunc_def filter_fresh Let_def)

lemma tick_excursion:
  "tick d (t_sm (excursion v 0 t)) = t_sm (excursion v d t)"
  "(excursion v 0 t)\<lparr>t_sm := t_sm (excursion v d t)\<rparr> = excursion v d t"
  by (simp_all add: excursion_def tick_def)

lemma tick_aged: "tick e (aged d n sm) = aged (d + e) n sm"
  by (simp add: tick_def aged_def)

lemma aged_aged: "aged d n (aged d' n' sm) = aged (d' + d) (n' + n) sm"
  by (simp add: aged_def)

lemma settled_aged: "settled v t \<Longrightarrow> settled v (t\<lparr>t_sm := aged d n (t_sm t)\<rparr>)"
  by (auto simp: settled_def aged_def)

lemma one_glitch:
  assumes "settled v t" and "int d < t_debounce t"
  shows "run_ops timer_exec (glitches v (clk_next (clock (t_sm t))) [(d, e)]) \<lparr>w_cond = t, w_inflight = []\<rparr>
         = (\<lparr>w_cond = t\<lparr>t_sm := aged (d + e) 1 (t_sm t)\<rparr>, w_inflight = []\<rparr>, [])"
  using assms(2)
  by (simp add: run_ops.simps(2) tick_excursion tick_aged excursion_begins[OF assms(1)]
      excursion_due[OF assms(1)] excursion_ends[OF assms(1)])

lemma glitches_append:
  "glitches v h (g # gs) = glitches v h [g] @ glitches v (Suc h) gs"
  by (cases g) simp

lemma glitches_run:
  "settled v t \<Longrightarrow> \<forall>(d, e) \<in> set gs. int d < t_debounce t \<Longrightarrow>
     run_ops timer_exec (glitches v (clk_next (clock (t_sm t))) gs :: 'n timer_call w_op list) \<lparr>w_cond = t, w_inflight = []\<rparr>
     = (\<lparr>w_cond = t\<lparr>t_sm := aged (\<Sum>(d, e) \<leftarrow> gs. d + e) (length gs) (t_sm t)\<rparr>, w_inflight = []\<rparr>, [])"
proof (induction gs arbitrary: t)
  case Nil
  show ?case by (cases t) (simp add: aged_def)
next
  case (Cons g gs)
  obtain d e where g: "g = (d, e)" by (cases g)
  let ?t = "t\<lparr>t_sm := aged (d + e) 1 (t_sm t)\<rparr>"
  have d: "int d < t_debounce t" using Cons.prems(2) g by simp
  have n: "clk_next (clock (t_sm ?t)) = Suc (clk_next (clock (t_sm t)))" by (simp add: aged_def)
  have "run_ops timer_exec (glitches v (Suc (clk_next (clock (t_sm t)))) gs :: 'n timer_call w_op list) \<lparr>w_cond = ?t, w_inflight = []\<rparr>
      = (\<lparr>w_cond = ?t\<lparr>t_sm := aged (\<Sum>(d, e) \<leftarrow> gs. d + e) (length gs) (t_sm ?t)\<rparr>, w_inflight = []\<rparr>, [])"
    using Cons.IH[OF settled_aged[OF Cons.prems(1)], of "d + e" 1] Cons.prems(2) n by simp
  from run_ops_appendI[OF one_glitch[OF Cons.prems(1) d, of e] this] show ?case
    by (simp add: g aged_aged del: run_ops_Cons_fst)
qed

text \<open>Debounce filters noise completely: any number of excursions, each shorter than the
  debounce window, leaves the condition exactly as it was, apart from the time that passed and
  the timer handles used: the machine sees no input edge and no watcher is notified.\<close>

theorem debounce_filters_glitches:
  fixes gs :: "(nat \<times> nat) list"
  assumes "settled v t" and "\<forall>(d, e) \<in> set gs. int d < t_debounce t"
  shows "run_ops timer_exec (glitches v (clk_next (clock (t_sm t))) gs) \<lparr>w_cond = t, w_inflight = []\<rparr>
         = (\<lparr>w_cond = t\<lparr>t_sm := aged (\<Sum>(d, e) \<leftarrow> gs. d + e) (length gs) (t_sm t)\<rparr>, w_inflight = []\<rparr>, [])"
  using assms by (rule glitches_run)

theorem debounce_filters_glitches_witness:
  "snd (run_ops timer_exec (glitches False 0 [(4, 1), (3, 9)] :: int timer_call w_op list)
      \<lparr>w_cond = new_timer plain_behavior 5, w_inflight = []\<rparr>) = []"
proof -
  have s: "settled False (new_timer plain_behavior 5)" and z: "clk_next (clock (t_sm (new_timer plain_behavior 5))) = 0"
    by (simp_all add: settled_def new_timer_def NewStateMachine_def)
  have g: "\<forall>(d, e) \<in> set [(4, 1), (3, 9)]. int d < t_debounce (new_timer plain_behavior 5)"
    by (simp add: new_timer_def)
  show ?thesis unfolding debounce_filters_glitches[OF s g, unfolded z] by simp
qed

text \<open>Debounce is exact: a flip away from the settled value that is held for \<open>d\<close> reaches the
  machine when the debounce timer fires if and only if \<open>d\<close> is at least the window.\<close>

theorem debounce_commits:
  assumes "settled v t"
  shows "let t' = w_cond (fst (run_ops timer_exec
             [WCall (TSet [CtyBool (\<not> v)] :: 'n timer_call), WTick d, WExpire (clk_next (clock (t_sm t))), WRun 0]
             \<lparr>w_cond = t, w_inflight = []\<rparr>))
         in (rawInput (t_sm t') = (\<not> v)) = (t_debounce t \<le> int d) \<and>
            t_stableInput t' = rawInput (t_sm t')"
proof -
  have r: "rawInput (t_sm (excursion v d t)) = v" "t_rawInput (excursion v d t) = (\<not> v)"
    "t_stableInput (excursion v d t) = v"
    using assms by (simp_all add: excursion_def settled_def)
  show ?thesis
    using excursion_begins[OF assms, where ?'a = 'n] excursion_due[OF assms, of d] r
    by (auto simp: tick_excursion timer_callback_def Timer_onDebounceFire_def Let_def case_prod_beta)
qed

theorem debounce_commits_witness:
  "rawInput (t_sm (w_cond (fst (run_ops timer_exec
       [WCall (TSet [CtyBool True] :: int timer_call), WTick 5, WExpire 0, WRun 0]
       \<lparr>w_cond = new_timer plain_behavior 5, w_inflight = []\<rparr>))))"
proof -
  have s: "settled False (new_timer plain_behavior 5)" and z: "clk_next (clock (t_sm (new_timer plain_behavior 5))) = 0"
    by (simp_all add: settled_def new_timer_def NewStateMachine_def)
  have d: "t_debounce (new_timer plain_behavior 5) \<le> int 5" by (simp add: new_timer_def)
  show ?thesis
    using debounce_commits[OF s, of 5, where ?'n = int] d unfolding z Let_def not_False_eq_True
    by blast
qed

end
