(* ===== verification/Cond_Threshold.thy ===== *)
theory Cond_Threshold
  imports Cond_Timer
begin

text \<open>
  The threshold condition (\<open>conditions/threshold.go\<close>): a numeric input turned into a boolean
  by hysteresis, then debounced and forwarded to the state machine. Numbers are an arbitrary
  linear order \<open>'f\<close>: the code compares them and does nothing else.
\<close>

section \<open>State and operations\<close>

record 'f ThresholdCondition =
  th_sm :: StateMachine
  th_debounce :: duration
  th_highForm :: bool
  th_onThresh :: 'f
  th_offThresh :: 'f
  th_haveValue :: bool
  th_derived :: bool
  th_stableInput :: bool
  th_debTimer :: "nat option"

definition on_th_sm ::
  "(StateMachine \<Rightarrow> StateMachine \<times> edge list) \<Rightarrow> 'f ThresholdCondition \<Rightarrow> 'f ThresholdCondition \<times> edge list"
where
  "on_th_sm f c = (let (sm, es) = f (th_sm c) in (c\<lparr>th_sm := sm\<rparr>, es))"

definition th_stopDebounce :: "'f ThresholdCondition \<Rightarrow> 'f ThresholdCondition" where
  "th_stopDebounce c = c\<lparr>th_sm := stop_slot (th_debTimer c) (th_sm c), th_debTimer := None\<rparr>"

definition th_startDebounce :: "'f ThresholdCondition \<Rightarrow> 'f ThresholdCondition" where
  "th_startDebounce c =
     c\<lparr>th_sm := (th_sm c)\<lparr>clock := AfterFunc (th_debounce c) CbDebounce (clock (th_sm c))\<rparr>,
       th_debTimer := Some (clk_next (clock (th_sm c)))\<rparr>"

definition deriveLocked :: "'f::linorder \<Rightarrow> 'f ThresholdCondition \<Rightarrow> bool" where
  "deriveLocked value c =
     (if th_highForm c
      then if th_derived c then (if value < th_offThresh c then False else True)
           else (if value > th_onThresh c then True else False)
      else if th_derived c then (if value > th_offThresh c then False else True)
           else (if value < th_onThresh c then True else False))"

definition submitDerived :: "bool \<Rightarrow> 'f ThresholdCondition \<Rightarrow> 'f ThresholdCondition \<times> edge list" where
  "submitDerived value c =
     (if th_debounce c \<le> 0
      then if value = th_stableInput c then (c, [])
           else on_th_sm (SetRawInput value) (c\<lparr>th_stableInput := value\<rparr>)
      else if value = th_stableInput c then (th_stopDebounce c, [])
      else (th_startDebounce (th_stopDebounce c), []))"

definition submitValue :: "'f::linorder \<Rightarrow> 'f ThresholdCondition \<Rightarrow> 'f ThresholdCondition \<times> edge list" where
  "submitValue value c =
     (let newDerived = deriveLocked value c; c1 = c\<lparr>th_haveValue := True\<rparr>
      in if newDerived = th_derived c1 then (c1, [])
         else submitDerived newDerived (c1\<lparr>th_derived := newDerived\<rparr>))"

definition Threshold_onDebounceFire :: "'f ThresholdCondition \<Rightarrow> 'f ThresholdCondition \<times> edge list" where
  "Threshold_onDebounceFire c =
     (let c1 = c\<lparr>th_debTimer := None\<rparr>
      in if th_derived c1 = th_stableInput c1 then (c1, [])
         else on_th_sm (SetRawInput (th_derived c1)) (c1\<lparr>th_stableInput := th_derived c1\<rparr>))"

definition ctyToFloat :: "'f cty_value \<Rightarrow> 'f option" where
  "ctyToFloat v = (if v_Type v \<noteq> TNumber then None else v_Number v)"

definition Threshold_Clear ::
  "'f::linorder eval_result \<Rightarrow> 'f ThresholdCondition \<Rightarrow> 'f ThresholdCondition \<times> edge list" where
  "Threshold_Clear ev c =
     (let c1 = (th_stopDebounce c)\<lparr>th_haveValue := False, th_derived := False, th_stableInput := False\<rparr>;
          (c2, es) = on_th_sm Clear c1
      in case ev of
           None \<Rightarrow> (c2, es)
         | Some v \<Rightarrow>
             if v_IsNull v \<or> \<not> v_IsKnown v then (c2, es)
             else case ctyToFloat v of
                    None \<Rightarrow> (c2, es)
                  | Some f \<Rightarrow>
                      let derived = deriveLocked f c2;
                          c3 = c2\<lparr>th_haveValue := True, th_derived := derived, th_stableInput := derived\<rparr>
                      in if derived
                         then let (c4, es') = on_th_sm (SetRawInput True) c3 in (c4, es @ es')
                         else (c3, es))"

definition Threshold_onInput ::
  "'f::linorder cty_value \<Rightarrow> 'f ThresholdCondition \<Rightarrow> 'f ThresholdCondition \<times> edge list" where
  "Threshold_onInput v c =
     (if v_IsNull v \<or> \<not> v_IsKnown v then (c, [])
      else case ctyToFloat v of None \<Rightarrow> (c, []) | Some f \<Rightarrow> submitValue f c)"

definition Threshold_onInhibit ::
  "'f cty_value \<Rightarrow> 'f ThresholdCondition \<Rightarrow> 'f ThresholdCondition \<times> edge list" where
  "Threshold_onInhibit v c =
     (case bool_input v of None \<Rightarrow> (c, []) | Some b \<Rightarrow> on_th_sm (SetInhibited b) c)"

definition Threshold_Start ::
  "'f::linorder eval_result option \<Rightarrow> 'f eval_result \<Rightarrow> 'f ThresholdCondition \<Rightarrow>
     (cond_error + unit) \<times> 'f ThresholdCondition \<times> edge list" where
  "Threshold_Start inhibitEv inputEv c =
     (let c1 = c\<lparr>th_sm := Bootstrap (th_sm c)\<rparr>;
          c2 = (if StartActive (behavior (th_sm c1))
                then c1\<lparr>th_derived := True, th_stableInput := True\<rparr> else c1)
      in case inhibitEv of
           Some None \<Rightarrow> (Inl (ErrStart ''inhibit''), c2, [])
         | _ \<Rightarrow>
           let (c3, es) = (case inhibitEv of Some (Some v) \<Rightarrow> Threshold_onInhibit v c2 | _ \<Rightarrow> (c2, []))
           in case inputEv of
                None \<Rightarrow> (Inl (ErrStart ''input''), c3, es)
              | Some v \<Rightarrow> let (c4, es') = Threshold_onInput v c3 in (Inr (), c4, es @ es'))"

definition Threshold_PostStart :: "'e HookDispatcher option \<Rightarrow> 'f ThresholdCondition \<Rightarrow> hook_call list" where
  "Threshold_PostStart h c = FireInit h (Output (th_sm c))"

section \<open>Configuration\<close>

record ('e, 'f) thresholdBody =
  thb_OnAbove :: "'f option"
  thb_OffBelow :: "'f option"
  thb_OnBelow :: "'f option"
  thb_OffAbove :: "'f option"
  thb_Input :: 'e
  thb_ActivateAfter :: "'e option"
  thb_DeactivateAfter :: "'e option"
  thb_Timeout :: "'e option"
  thb_Cooldown :: "'e option"
  thb_Latch :: "bool option"
  thb_Invert :: "bool option"
  thb_Retentive :: "bool option"
  thb_StartActive :: "bool option"
  thb_Inhibit :: "'e option"
  thb_Debounce :: "'e option"
  thb_Hooks :: "'e Hooks"

text \<open>The pair of thresholds: the form (high or low) with its on and off values, or the summary
  of the error.\<close>

definition threshold_pair ::
  "'f::linorder option \<Rightarrow> 'f option \<Rightarrow> 'f option \<Rightarrow> 'f option \<Rightarrow> string + bool \<times> 'f \<times> 'f" where
  "threshold_pair onAbove offBelow onBelow offAbove =
     (let highForm = (onAbove \<noteq> None \<or> offBelow \<noteq> None);
          lowForm = (onBelow \<noteq> None \<or> offAbove \<noteq> None)
      in if highForm \<and> lowForm then Inl ''Conflicting threshold pair''
         else if \<not> highForm \<and> \<not> lowForm then Inl ''Missing threshold pair''
         else if highForm
         then (case (onAbove, offBelow) of
                 (Some onT, Some offT) \<Rightarrow>
                   if \<not> (onT > offT) then Inl ''Invalid threshold ordering'' else Inr (True, onT, offT)
               | _ \<Rightarrow> Inl ''Incomplete high-threshold pair'')
         else (case (onBelow, offAbove) of
                 (Some onT, Some offT) \<Rightarrow>
                   if \<not> (offT > onT) then Inl ''Invalid threshold ordering'' else Inr (False, onT, offT)
               | _ \<Rightarrow> Inl ''Incomplete low-threshold pair''))"

definition processThresholdCondition ::
  "('e \<Rightarrow> duration \<times> diag list) \<Rightarrow> ('e \<Rightarrow> diag list) \<Rightarrow> Clock \<Rightarrow> string \<Rightarrow>
     diag list \<times> ('e, 'f::linorder) thresholdBody \<Rightarrow>
     ('f ThresholdCondition \<times> 'e HookDispatcher option) registry \<Rightarrow>
     diag list \<times> ('f ThresholdCondition \<times> 'e HookDispatcher option) registry" where
  "processThresholdCondition pd rx clk name decoded reg =
     (let (ds, body) = decoded in
      if HasErrors ds then (ds, reg)
      else
        (case threshold_pair (thb_OnAbove body) (thb_OffBelow body) (thb_OnBelow body) (thb_OffAbove body) of
           Inl summary \<Rightarrow> (ds @ [DiagError summary], reg)
         | Inr (highForm, onT, offT) \<Rightarrow>
          let (aa, d1) = parseOptDuration pd (thb_ActivateAfter body);
              (da, d2) = parseOptDuration pd (thb_DeactivateAfter body);
              (tmo, d3) = parseOptDuration pd (thb_Timeout body);
              (cd, d4) = parseOptDuration pd (thb_Cooldown body);
              b = \<lparr>ActivateAfter = aa, DeactivateAfter = da, Timeout = tmo, Cooldown = cd,
                   Latch = opt_bool (thb_Latch body), Invert = opt_bool (thb_Invert body),
                   Retentive = opt_bool (thb_Retentive body),
                   StartActive = opt_bool (thb_StartActive body)\<rparr>;
              (deb, d5) = parseOptDuration pd (thb_Debounce body);
              ds1 = ds @ d1 @ d2 @ d3 @ d4 @ d5
          in if HasErrors ds1 then (ds1, reg)
             else let c = \<lparr>th_sm = NewStateMachine b clk, th_debounce = deb, th_highForm = highForm,
                           th_onThresh = onT, th_offThresh = offT, th_haveValue = False,
                           th_derived = False, th_stableInput = False, th_debTimer = None\<rparr>;
                      d6 = rx (thb_Input body);
                      d7 = (case thb_Inhibit body of None \<Rightarrow> [] | Some e \<Rightarrow> rx e);
                      ds2 = ds1 @ d6 @ d7
                  in if HasErrors ds2 then (ds2, reg)
                     else let hooks = NewHookDispatcher name (thb_Hooks body)
                          in (ds2, register name (c, hooks) (hooks \<noteq> None) reg)))"

section \<open>Executions\<close>

datatype 'f threshold_call =
    ThClear "'f eval_result" | ThInput "'f cty_value" | ThInhibit "'f cty_value"

fun run_threshold_call ::
  "'f::linorder threshold_call \<Rightarrow> 'f ThresholdCondition \<Rightarrow> 'f ThresholdCondition \<times> edge list" where
  "run_threshold_call (ThClear ev) c = Threshold_Clear ev c"
| "run_threshold_call (ThInput v) c = Threshold_onInput v c"
| "run_threshold_call (ThInhibit v) c = Threshold_onInhibit v c"

definition threshold_callback :: "callback \<Rightarrow> 'f ThresholdCondition \<Rightarrow> 'f ThresholdCondition \<times> edge list" where
  "threshold_callback cb c =
     (if cb = CbDebounce then Threshold_onDebounceFire c else on_th_sm (run_callback cb) c)"

abbreviation threshold_exec ::
  "'f::linorder threshold_call w_op \<Rightarrow> 'f ThresholdCondition Wrapped \<Rightarrow> 'f ThresholdCondition Wrapped \<times> edge list"
where
  "threshold_exec \<equiv> w_exec th_sm (\<lambda>s c. c\<lparr>th_sm := s\<rparr>) run_threshold_call threshold_callback"

lemma on_th_sm_simps [simp]:
  "th_sm (fst (on_th_sm f c)) = fst (f (th_sm c))"
  "snd (on_th_sm f c) = snd (f (th_sm c))"
  "th_derived (fst (on_th_sm f c)) = th_derived c"
  "th_highForm (fst (on_th_sm f c)) = th_highForm c"
  "th_onThresh (fst (on_th_sm f c)) = th_onThresh c"
  "th_offThresh (fst (on_th_sm f c)) = th_offThresh c"
  "th_stableInput (fst (on_th_sm f c)) = th_stableInput c"
  "th_debounce (fst (on_th_sm f c)) = th_debounce c"
  "th_debTimer (fst (on_th_sm f c)) = th_debTimer c"
  by (simp_all add: on_th_sm_def case_prod_beta Let_def)

lemma submitDerived_chain:
  "edge_chain (Output (th_sm c)) (snd (submitDerived v c)) (Output (th_sm (fst (submitDerived v c))))"
  by (simp add: SetRawInput_chain submitDerived_def th_stopDebounce_def th_startDebounce_def)

lemma submitValue_chain:
  "edge_chain (Output (th_sm c)) (snd (submitValue x c)) (Output (th_sm (fst (submitValue x c))))"
  using submitDerived_chain[of "c\<lparr>th_haveValue := True, th_derived := \<not> th_derived c\<rparr>"]
  by (cases "deriveLocked x c = th_derived c") (simp_all add: submitValue_def Let_def)

lemma threshold_Clear_chain:
  "edge_chain (Output (th_sm c)) (snd (Threshold_Clear ev c)) (Output (th_sm (fst (Threshold_Clear ev c))))"
proof -
  let ?c1 = "(th_stopDebounce c)\<lparr>th_haveValue := False, th_derived := False, th_stableInput := False\<rparr>"
  obtain c2 es where c: "on_th_sm Clear ?c1 = (c2, es)" by (cases "on_th_sm Clear ?c1")
  have "edge_chain (Output (th_sm c)) es (Output (th_sm c2))"
    using Clear_chain[of "th_sm ?c1"] c on_th_sm_simps(1,2)[of Clear ?c1] by (simp add: th_stopDebounce_def)
  moreover have "edge_chain (Output (th_sm c2)) (snd (SetRawInput True (th_sm c2)))
      (Output (fst (SetRawInput True (th_sm c2))))" by (rule SetRawInput_chain)
  ultimately show ?thesis
    unfolding Threshold_Clear_def Let_def c
    by (auto simp: edge_simps case_prod_beta split: option.split)
qed

lemma threshold_call_chain:
  "edge_chain (Output (th_sm c)) (snd (run_threshold_call a c)) (Output (th_sm (fst (run_threshold_call a c))))"
  by (cases a)
     (simp_all add: threshold_Clear_chain Threshold_onInput_def Threshold_onInhibit_def submitValue_chain
       SetInhibited_chain split: option.split)

lemma threshold_callback_chain:
  "edge_chain (Output (th_sm c)) (snd (threshold_callback cb c)) (Output (th_sm (fst (threshold_callback cb c))))"
  by (simp add: SetRawInput_chain threshold_callback_def Threshold_onDebounceFire_def run_callback_chain Let_def)

interpretation threshold: wrapper th_sm "\<lambda>s c. c\<lparr>th_sm := s\<rparr>" run_threshold_call threshold_callback
  by unfold_locales (simp_all add: threshold_call_chain threshold_callback_chain)

section \<open>Hysteresis\<close>

definition thresholds_ok :: "'f::linorder ThresholdCondition \<Rightarrow> bool" where
  "thresholds_ok c \<longleftrightarrow>
     (if th_highForm c then th_offThresh c < th_onThresh c else th_onThresh c < th_offThresh c)"

text \<open>The specification: a sample beyond the on threshold asserts, one beyond the off threshold
  releases, and samples in the deadband between them change nothing.\<close>

definition asserts :: "'f::linorder ThresholdCondition \<Rightarrow> 'f \<Rightarrow> bool" where
  "asserts c x = (if th_highForm c then x > th_onThresh c else x < th_onThresh c)"

definition releases :: "'f::linorder ThresholdCondition \<Rightarrow> 'f \<Rightarrow> bool" where
  "releases c x = (if th_highForm c then x < th_offThresh c else x > th_offThresh c)"

definition hysteresis :: "'f::linorder ThresholdCondition \<Rightarrow> 'f list \<Rightarrow> bool" where
  "hysteresis c xs =
     (case filter (\<lambda>x. asserts c x \<or> releases c x) xs of
        [] \<Rightarrow> th_derived c
      | y # ys \<Rightarrow> asserts c (last (y # ys)))"

definition same_thresholds :: "'f ThresholdCondition \<Rightarrow> 'f ThresholdCondition \<Rightarrow> bool" where
  "same_thresholds c c' \<longleftrightarrow> th_highForm c' = th_highForm c \<and> th_onThresh c' = th_onThresh c \<and>
     th_offThresh c' = th_offThresh c \<and> th_debounce c' = th_debounce c"

lemma same_thresholds_simps:
  assumes "same_thresholds c c'"
  shows "asserts c' = asserts c" "releases c' = releases c" "thresholds_ok c' = thresholds_ok c"
    "th_debounce c' = th_debounce c"
  using assms by (auto simp: same_thresholds_def asserts_def releases_def thresholds_ok_def fun_eq_iff)

lemma derive_spec:
  "thresholds_ok c \<Longrightarrow>
     deriveLocked x c = (if asserts c x then True else if releases c x then False else th_derived c)"
  by (auto simp: deriveLocked_def asserts_def releases_def thresholds_ok_def split: if_splits)

lemma submitDerived_fields [simp]:
  "th_derived (fst (submitDerived v c)) = th_derived c"
  "same_thresholds c (fst (submitDerived v c))"
  by (simp_all add: submitDerived_def same_thresholds_def th_stopDebounce_def th_startDebounce_def)

lemma submitValue_derived: "th_derived (fst (submitValue x c)) = deriveLocked x c"
  by (auto simp: submitValue_def Let_def)

lemma submitValue_same: "same_thresholds c (fst (submitValue x c))"
  using submitDerived_fields(2)[of "c\<lparr>th_haveValue := True, th_derived := \<not> th_derived c\<rparr>"]
  by (cases "deriveLocked x c = th_derived c")
     (simp_all add: submitValue_def Let_def same_thresholds_def)

lemma hysteresis_Cons:
  assumes ok: "thresholds_ok c"
  shows "hysteresis (fst (submitValue x c)) xs = hysteresis c (x # xs)"
  using assms
  by (auto simp: hysteresis_def same_thresholds_simps[OF submitValue_same] submitValue_derived derive_spec
      split: list.splits)

lemma samples_derived:
  "thresholds_ok c \<Longrightarrow> th_derived (fst (run_ops submitValue xs c)) = hysteresis c xs"
proof (induction xs arbitrary: c)
  case (Cons x xs)
  then show ?case
    using hysteresis_Cons[OF Cons.prems] same_thresholds_simps(3)[OF submitValue_same[of c x]] by simp
qed (simp add: hysteresis_def)

definition in_step :: "'f ThresholdCondition \<Rightarrow> bool" where
  "in_step c \<longleftrightarrow> th_debounce c \<le> 0 \<and> th_stableInput c = th_derived c \<and> rawInput (th_sm c) = th_derived c"

lemma submitValue_in_step: "in_step c \<Longrightarrow> in_step (fst (submitValue x c))"
  by (cases "deriveLocked x c = th_derived c")
     (auto simp: in_step_def submitValue_def submitDerived_def Let_def)

lemma samples_in_step: "in_step c \<Longrightarrow> in_step (fst (run_ops submitValue xs c))"
  by (induction xs arbitrary: c) (auto simp: submitValue_in_step)

text \<open>C6: Hysteresis: after any sequence of samples the derived boolean is decided by the last
  sample outside the deadband, and is unchanged if there was none; without debounce that
  boolean is also what the state machine is fed.\<close>

theorem hysteresis_refinement:
  assumes "thresholds_ok c"
  shows "th_derived (fst (run_ops submitValue xs c)) = hysteresis c xs \<and>
         (in_step c \<longrightarrow> rawInput (th_sm (fst (run_ops submitValue xs c))) = hysteresis c xs)"
  using samples_derived[OF assms] samples_in_step[of c xs] by (auto simp: in_step_def)

definition new_threshold :: "bool \<Rightarrow> 'f \<Rightarrow> 'f \<Rightarrow> 'f ThresholdCondition" where
  "new_threshold high on off =
     \<lparr>th_sm = NewStateMachine plain_behavior \<lparr>clk_now = 0, clk_next = 0, clk_sched = []\<rparr>,
      th_debounce = 0, th_highForm = high, th_onThresh = on, th_offThresh = off, th_haveValue = False,
      th_derived = False, th_stableInput = False, th_debTimer = None\<rparr>"

theorem hysteresis_refinement_witness:
  "rawInput (th_sm (fst (run_ops submitValue [50, 81, 75, 71 :: int] (new_threshold True 80 70))))"
proof -
  let ?c = "new_threshold True (80::int) 70"
  have "thresholds_ok ?c" "in_step ?c" "hysteresis ?c [50, 81, 75, 71]"
    by (simp_all add: thresholds_ok_def in_step_def new_threshold_def NewStateMachine_def hysteresis_def
        asserts_def releases_def)
  then show ?thesis using hysteresis_refinement[of ?c "[50, 81, 75, 71]"] by simp
qed

section \<open>Validation\<close>

definition configured_pair :: "('e, 'f::linorder) thresholdBody \<Rightarrow> 'f ThresholdCondition \<Rightarrow> bool" where
  "configured_pair body c \<longleftrightarrow> thresholds_ok c \<and>
     (if th_highForm c
      then thb_OnAbove body = Some (th_onThresh c) \<and> thb_OffBelow body = Some (th_offThresh c) \<and>
           thb_OnBelow body = None \<and> thb_OffAbove body = None
      else thb_OnBelow body = Some (th_onThresh c) \<and> thb_OffAbove body = Some (th_offThresh c) \<and>
           thb_OnAbove body = None \<and> thb_OffBelow body = None)"

lemma threshold_pair_Inr:
  assumes "threshold_pair (thb_OnAbove body) (thb_OffBelow body) (thb_OnBelow body) (thb_OffAbove body)
             = Inr (th_highForm c, th_onThresh c, th_offThresh c)"
  shows "configured_pair body c"
  using assms
  by (auto simp: threshold_pair_def configured_pair_def thresholds_ok_def Let_def
      split: if_splits option.splits)

text \<open>A threshold block is accepted only with exactly one complete pair of thresholds in the
  right order. Processing either reports an error and registers nothing, or reports none and
  registers a condition, started inactive, that carries the configured pair with the ordering
  that hysteresis needs.\<close>

theorem threshold_block_valid:
  fixes body :: "('e, 'f::linorder) thresholdBody"
  shows "case processThresholdCondition pd rx clk name (ds, body) reg of
           (ds', reg') \<Rightarrow>
             if HasErrors ds' then reg' = reg
             else \<exists>c h. reg' = register name (c, h) (h \<noteq> None) reg \<and> configured_pair body c \<and>
                        sm_state (th_sm c) = StateInactive \<and> \<not> th_derived c"
proof (cases "threshold_pair (thb_OnAbove body) (thb_OffBelow body) (thb_OnBelow body) (thb_OffAbove body)")
  case (Inl a)
  then show ?thesis by (simp add: processThresholdCondition_def)
next
  case (Inr p)
  obtain hi on off where p: "p = (hi, on, off)" by (cases p) auto
  show ?thesis
    unfolding processThresholdCondition_def
    using threshold_pair_Inr[of body] Inr[unfolded p]
    by (simp add: Let_def case_prod_beta)
       (intro impI exI conjI, rule refl, simp_all add: NewStateMachine_def)
qed

end
