(* ===== verification/Cond_Counter.thy ===== *)
theory Cond_Counter
  imports Cond_Threshold
begin

text \<open>
  The counter condition (\<open>conditions/counter.go\<close>): a 64-bit count compared with a preset, with
  an optional roll-over, or a sliding window in which the count is the number of events of the
  last \<open>window\<close>. Go's \<open>int64\<close> is \<open>int\<close> with the wrap-around written out. A slice expression
  that panics makes the operation return \<open>Inl ErrPanic\<close>.
\<close>

section \<open>State and operations\<close>

record CounterCondition =
  cn_sm :: StateMachine
  cn_initial :: int
  cn_preset :: int
  cn_rollover :: bool
  cn_countDown :: bool
  cn_window :: duration
  cn_count :: int
  cn_events :: "time list"
  cn_expiryTimer :: "nat option"

definition on_cn_sm ::
  "(StateMachine \<Rightarrow> StateMachine \<times> edge list) \<Rightarrow> CounterCondition \<Rightarrow> CounterCondition \<times> edge list" where
  "on_cn_sm f c = (let (sm, es) = f (cn_sm c) in (c\<lparr>cn_sm := sm\<rparr>, es))"

definition matchedLocked :: "CounterCondition \<Rightarrow> bool" where
  "matchedLocked c =
     (if cn_countDown c then cn_count c \<le> cn_preset c else cn_count c \<ge> cn_preset c)"

text \<open>The loop of \<open>pruneLocked\<close>: how many events at the front are not after the cutoff.\<close>

fun expired_prefix :: "time \<Rightarrow> time list \<Rightarrow> nat" where
  "expired_prefix cutoff [] = 0"
| "expired_prefix cutoff (e # es) = (if \<not> cutoff < e then Suc (expired_prefix cutoff es) else 0)"

definition pruneLocked :: "time \<Rightarrow> CounterCondition \<Rightarrow> CounterCondition" where
  "pruneLocked t c =
     (if cn_window c \<le> 0 then c
      else let dropped = expired_prefix (t - cn_window c) (cn_events c)
           in if dropped = 0 then c
              else let c1 = (if dropped = length (cn_events c) then c\<lparr>cn_events := []\<rparr>
                             else c\<lparr>cn_events := drop dropped (cn_events c)\<rparr>)
                   in c1\<lparr>cn_count := int (length (cn_events c1))\<rparr>)"

definition cn_stopExpiry :: "CounterCondition \<Rightarrow> CounterCondition" where
  "cn_stopExpiry c = c\<lparr>cn_sm := stop_slot (cn_expiryTimer c) (cn_sm c), cn_expiryTimer := None\<rparr>"

definition armExpiryLocked :: "time \<Rightarrow> CounterCondition \<Rightarrow> CounterCondition" where
  "armExpiryLocked t c =
     (let c1 = cn_stopExpiry c
      in case cn_events c1 of
           [] \<Rightarrow> c1
         | e # _ \<Rightarrow>
             let delay = e + cn_window c1 - t;
                 delay' = (if delay < 0 then 0 else delay)
             in c1\<lparr>cn_sm := (cn_sm c1)\<lparr>clock := AfterFunc delay' CbExpiry (clock (cn_sm c1))\<rparr>,
                   cn_expiryTimer := Some (clk_next (clock (cn_sm c1)))\<rparr>)"

definition applyWindowedDelta ::
  "int \<Rightarrow> CounterCondition \<Rightarrow> cond_error + CounterCondition \<times> edge list" where
  "applyWindowedDelta delta c =
     (let t = now (cn_sm c);
          c1 = pruneLocked t c;
          len = int (length (cn_events c1));
          pop = (if wrap64 (- delta) > len then len else wrap64 (- delta))
      in if delta < 0 \<and> pop < 0 then Inl ErrPanic
         else let c2 = (if delta > 0 then c1\<lparr>cn_events := cn_events c1 @ replicate (nat delta) t\<rparr>
                        else if delta < 0 then c1\<lparr>cn_events := drop (nat pop) (cn_events c1)\<rparr>
                        else c1);
                  c3 = armExpiryLocked t (c2\<lparr>cn_count := int (length (cn_events c2))\<rparr>)
              in Inr (on_cn_sm (SetRawInput (matchedLocked c3)) c3))"

definition applyDelta ::
  "int \<Rightarrow> CounterCondition \<Rightarrow> cond_error + CounterCondition \<times> edge list" where
  "applyDelta delta c =
     (if cn_window c > 0 then applyWindowedDelta delta c
      else let c1 = c\<lparr>cn_count := wrap64 (cn_count c + delta)\<rparr>;
               c2 = (if cn_count c1 < 0 then c1\<lparr>cn_count := 0\<rparr> else c1)
           in if \<not> matchedLocked c2 then Inr (on_cn_sm (SetRawInput False) c2)
              else let (c3, es) = on_cn_sm (SetRawInput True) c2
                   in if \<not> cn_rollover c3 then Inr (c3, es)
                      else let c4 = c3\<lparr>cn_count := cn_initial c3\<rparr>
                           in if \<not> matchedLocked c4
                              then let (c5, es') = on_cn_sm (SetRawInput False) c4
                                   in Inr (c5, es @ es')
                              else Inr (c4, es))"

definition Count :: "CounterCondition \<Rightarrow> int \<times> CounterCondition" where
  "Count c =
     (let c1 = (if cn_window c > 0 \<and> cn_events c \<noteq> [] then pruneLocked (now (cn_sm c)) c else c)
      in (cn_count c1, c1))"

definition Reset :: "CounterCondition \<Rightarrow> CounterCondition \<times> edge list" where
  "Reset c = on_cn_sm Clear (cn_stopExpiry (c\<lparr>cn_count := cn_initial c, cn_events := []\<rparr>))"

definition Counter_Clear :: "CounterCondition \<Rightarrow> CounterCondition \<times> edge list" where
  "Counter_Clear c = Reset c"

text \<open>The numeric argument of \<open>increment\<close> converts to \<open>int64\<close> or is an error.\<close>

definition to_int64 :: "int cty_value \<Rightarrow> int option" where
  "to_int64 v = (case v_Number v of None \<Rightarrow> None | Some n \<Rightarrow> if int64 n then Some n else None)"

definition Increment ::
  "int cty_value list \<Rightarrow> CounterCondition \<Rightarrow> (cond_error + int) \<times> CounterCondition \<times> edge list" where
  "Increment args c =
     (case (case args of [] \<Rightarrow> Some 1 | v # _ \<Rightarrow> to_int64 v) of
        None \<Rightarrow> (Inl ErrNotInteger, c, [])
      | Some delta \<Rightarrow>
          (case applyDelta delta c of
             Inl e \<Rightarrow> (Inl e, c, [])
           | Inr (c1, es) \<Rightarrow> let (cur, c2) = Count c1 in (Inr cur, c2, es)))"

definition onWindowExpire :: "CounterCondition \<Rightarrow> CounterCondition \<times> edge list" where
  "onWindowExpire c =
     (let t = now (cn_sm c);
          c1 = armExpiryLocked t (pruneLocked t c)
      in on_cn_sm (SetRawInput (matchedLocked c1)) c1)"

definition Counter_onInhibit :: "'n cty_value \<Rightarrow> CounterCondition \<Rightarrow> CounterCondition \<times> edge list" where
  "Counter_onInhibit v c =
     (case bool_input v of None \<Rightarrow> (c, []) | Some b \<Rightarrow> on_cn_sm (SetInhibited b) c)"

definition Counter_Start ::
  "'n eval_result option \<Rightarrow> CounterCondition \<Rightarrow> (cond_error + unit) \<times> CounterCondition \<times> edge list" where
  "Counter_Start inhibitEv c =
     (let c1 = c\<lparr>cn_sm := Bootstrap (cn_sm c)\<rparr>
      in case inhibitEv of
           Some None \<Rightarrow> (Inl (ErrStart ''inhibit''), c1, [])
         | _ \<Rightarrow>
           let (c2, es) = (case inhibitEv of Some (Some v) \<Rightarrow> Counter_onInhibit v c1 | _ \<Rightarrow> (c1, []))
           in case applyDelta 0 c2 of
                Inl e \<Rightarrow> (Inl e, c2, es)
              | Inr (c3, es') \<Rightarrow> (Inr (), c3, es @ es'))"

definition Counter_PostStart :: "'e HookDispatcher option \<Rightarrow> CounterCondition \<Rightarrow> hook_call list" where
  "Counter_PostStart h c = FireInit h (Output (cn_sm c))"

definition Counter_Stop :: "CounterCondition \<Rightarrow> CounterCondition" where
  "Counter_Stop c = cn_stopExpiry c"

section \<open>Configuration\<close>

record 'e counterBody =
  cb_Preset :: "int option"
  cb_Initial :: "int option"
  cb_Rollover :: "bool option"
  cb_CountDown :: "bool option"
  cb_Window :: "'e option"
  cb_ActivateAfter :: "'e option"
  cb_DeactivateAfter :: "'e option"
  cb_Timeout :: "'e option"
  cb_Cooldown :: "'e option"
  cb_Latch :: "bool option"
  cb_Invert :: "bool option"
  cb_StartActive :: "bool option"
  cb_Inhibit :: "'e option"
  cb_Hooks :: "'e Hooks"
  cb_Input :: "'e option"
  cb_Debounce :: "'e option"
  cb_Retentive :: "bool option"

definition forbidden_attrs :: "'e counterBody \<Rightarrow> diag list" where
  "forbidden_attrs body =
     (let err = DiagError ''Attribute not valid on counter condition''
      in (if cb_Input body \<noteq> None then [err] else []) @
         (if cb_Debounce body \<noteq> None then [err] else []) @
         (if cb_Retentive body \<noteq> None then [err] else []))"

definition window_conflicts :: "duration \<Rightarrow> 'e counterBody \<Rightarrow> diag list" where
  "window_conflicts win body =
     (let err = DiagError ''Incompatible counter attributes''
      in if win > 0
         then (if cb_Rollover body = Some True then [err] else []) @
              (if cb_CountDown body = Some True then [err] else []) @
              (if cb_Initial body \<noteq> None \<and> cb_Initial body \<noteq> Some 0 then [err] else [])
         else [])"

definition processCounterCondition ::
  "('e \<Rightarrow> duration \<times> diag list) \<Rightarrow> ('e \<Rightarrow> diag list) \<Rightarrow> Clock \<Rightarrow> string \<Rightarrow> diag list \<times> 'e counterBody \<Rightarrow>
     (CounterCondition \<times> 'e HookDispatcher option) registry \<Rightarrow>
     diag list \<times> (CounterCondition \<times> 'e HookDispatcher option) registry" where
  "processCounterCondition pd rx clk name decoded reg =
     (let (ds, body) = decoded in
      if HasErrors ds then (ds, reg)
      else
       let ds1 = ds @ forbidden_attrs body @
                 (if cb_Preset body = None then [DiagError ''Missing required attribute''] else [])
       in if HasErrors ds1 then (ds1, reg)
          else
           let (aa, d1) = parseOptDuration pd (cb_ActivateAfter body);
               (da, d2) = parseOptDuration pd (cb_DeactivateAfter body);
               (tmo, d3) = parseOptDuration pd (cb_Timeout body);
               (cd, d4) = parseOptDuration pd (cb_Cooldown body);
               (win, d5) = parseOptDuration pd (cb_Window body);
               b = \<lparr>ActivateAfter = aa, DeactivateAfter = da, Timeout = tmo, Cooldown = cd,
                    Latch = opt_bool (cb_Latch body), Invert = opt_bool (cb_Invert body),
                    Retentive = False, StartActive = opt_bool (cb_StartActive body)\<rparr>;
               ds2 = ds1 @ d1 @ d2 @ d3 @ d4 @ d5 @ window_conflicts win body
           in if HasErrors ds2 then (ds2, reg)
              else
               let init = (case cb_Initial body of None \<Rightarrow> 0 | Some i \<Rightarrow> i);
                   c = \<lparr>cn_sm = NewStateMachine b clk, cn_initial = init,
                        cn_preset = the (cb_Preset body), cn_rollover = opt_bool (cb_Rollover body),
                        cn_countDown = opt_bool (cb_CountDown body), cn_window = win,
                        cn_count = init, cn_events = [], cn_expiryTimer = None\<rparr>;
                   d6 = (case cb_Inhibit body of None \<Rightarrow> [] | Some e \<Rightarrow> rx e);
                   ds3 = ds2 @ d6
               in if HasErrors ds3 then (ds3, reg)
                  else let hooks = NewHookDispatcher name (cb_Hooks body)
                       in (ds3, register name (c, hooks) (hooks \<noteq> None) reg))"

section \<open>Executions\<close>

datatype counter_call =
    CnIncrement "int cty_value list" | CnCount | CnReset | CnInhibit "int cty_value"

fun run_counter_call :: "counter_call \<Rightarrow> CounterCondition \<Rightarrow> CounterCondition \<times> edge list" where
  "run_counter_call (CnIncrement args) c = snd (Increment args c)"
| "run_counter_call CnCount c = (snd (Count c), [])"
| "run_counter_call CnReset c = Reset c"
| "run_counter_call (CnInhibit v) c = Counter_onInhibit v c"

definition counter_callback :: "callback \<Rightarrow> CounterCondition \<Rightarrow> CounterCondition \<times> edge list" where
  "counter_callback cb c =
     (if cb = CbExpiry then onWindowExpire c else on_cn_sm (run_callback cb) c)"


lemma on_cn_sm_simps [simp]:
  "cn_sm (fst (on_cn_sm f c)) = fst (f (cn_sm c))"
  "snd (on_cn_sm f c) = snd (f (cn_sm c))"
  "cn_initial (fst (on_cn_sm f c)) = cn_initial c"
  "cn_preset (fst (on_cn_sm f c)) = cn_preset c"
  "cn_rollover (fst (on_cn_sm f c)) = cn_rollover c"
  "cn_countDown (fst (on_cn_sm f c)) = cn_countDown c"
  "cn_window (fst (on_cn_sm f c)) = cn_window c"
  "cn_count (fst (on_cn_sm f c)) = cn_count c"
  "cn_events (fst (on_cn_sm f c)) = cn_events c"
  "cn_expiryTimer (fst (on_cn_sm f c)) = cn_expiryTimer c"
  by (simp_all add: on_cn_sm_def case_prod_beta Let_def)

lemma prune_fields [simp]:
  "cn_sm (pruneLocked t c) = cn_sm c"
  "cn_initial (pruneLocked t c) = cn_initial c"
  "cn_preset (pruneLocked t c) = cn_preset c"
  "cn_window (pruneLocked t c) = cn_window c"
  "cn_countDown (pruneLocked t c) = cn_countDown c"
  by (simp_all add: pruneLocked_def Let_def)

lemma arm_fields [simp]:
  "Output (cn_sm (armExpiryLocked t c)) = Output (cn_sm c)"
  "now (cn_sm (armExpiryLocked t c)) = now (cn_sm c)"
  "cn_initial (armExpiryLocked t c) = cn_initial c"
  "cn_preset (armExpiryLocked t c) = cn_preset c"
  "cn_window (armExpiryLocked t c) = cn_window c"
  "cn_countDown (armExpiryLocked t c) = cn_countDown c"
  "cn_count (armExpiryLocked t c) = cn_count c"
  "cn_events (armExpiryLocked t c) = cn_events c"
  by (cases "cn_events c"; simp add: armExpiryLocked_def cn_stopExpiry_def now_def AfterFunc_def Let_def)+

lemma on_cn_chain:
  "on_cn_sm (SetRawInput v) x = (c', es) \<Longrightarrow> edge_chain (Output (cn_sm x)) es (Output (cn_sm c'))"
  using SetRawInput_chain[of "cn_sm x" v] on_cn_sm_simps(1,2)[of "SetRawInput v" x] by simp

text \<open>The events after a windowed change, and the state that is pushed to the machine.\<close>

definition shifted :: "int \<Rightarrow> time \<Rightarrow> time list \<Rightarrow> time list" where
  "shifted delta t es =
     (if delta > 0 then es @ replicate (nat delta) t else drop (nat (- delta)) es)"

lemma wrap64_neg: "int64 d \<Longrightarrow> d \<noteq> - (2 ^ 63) \<Longrightarrow> wrap64 (- d) = - d"
  by (rule wrap64_id) (auto simp: int64_def)

lemma applyWindowedDelta_Inr:
  assumes "applyWindowedDelta d c = Inr p" and d: "int64 d"
  obtains c3 where "p = on_cn_sm (SetRawInput (matchedLocked c3)) c3"
    and "c3 = armExpiryLocked (now (cn_sm c)) ((pruneLocked (now (cn_sm c)) c)
           \<lparr>cn_events := shifted d (now (cn_sm c)) (cn_events (pruneLocked (now (cn_sm c)) c)),
            cn_count := int (length (shifted d (now (cn_sm c)) (cn_events (pruneLocked (now (cn_sm c)) c))))\<rparr>)"
proof -
  let ?c = "pruneLocked (now (cn_sm c)) c"
  let ?es = "cn_events ?c"
  have "d \<noteq> - (2 ^ 63)"
    using assms by (auto simp: applyWindowedDelta_def Let_def wrap64_def split: if_splits)
  then have w: "wrap64 (- d) = - d" by (rule wrap64_neg[OF d])
  have ev: "(if d > 0 then ?c\<lparr>cn_events := ?es @ replicate (nat d) (now (cn_sm c))\<rparr>
        else if d < 0 then ?c\<lparr>cn_events := drop (nat (if - d > int (length ?es) then int (length ?es) else - d)) ?es\<rparr>
        else ?c) = ?c\<lparr>cn_events := shifted d (now (cn_sm c)) ?es\<rparr>"
    by (cases ?c) (auto simp: shifted_def)
  show ?thesis
    using assms(1) that unfolding applyWindowedDelta_def Let_def w ev
    by (auto split: if_splits)
qed

definition clamped :: "int \<Rightarrow> CounterCondition \<Rightarrow> CounterCondition" where
  "clamped d c = c\<lparr>cn_count := max 0 (wrap64 (cn_count c + d))\<rparr>"

definition fed :: "bool \<Rightarrow> CounterCondition \<Rightarrow> CounterCondition" where
  "fed v c = c\<lparr>cn_sm := fst (SetRawInput v (cn_sm c))\<rparr>"

definition rolled :: "CounterCondition \<Rightarrow> CounterCondition" where
  "rolled c = (fed True c)\<lparr>cn_count := cn_initial c\<rparr>"

lemma on_cn_fed: "on_cn_sm (SetRawInput v) c = (fed v c, snd (SetRawInput v (cn_sm c)))"
  by (simp add: on_cn_sm_def fed_def case_prod_beta Let_def)

lemma fed_simps [simp]:
  "cn_sm (fed v c) = fst (SetRawInput v (cn_sm c))"
  "cn_count (fed v c) = cn_count c"
  "cn_initial (fed v c) = cn_initial c"
  "cn_preset (fed v c) = cn_preset c"
  "cn_countDown (fed v c) = cn_countDown c"
  "cn_rollover (fed v c) = cn_rollover c"
  "cn_window (fed v c) = cn_window c"
  "cn_events (fed v c) = cn_events c"
  "matchedLocked (fed v c) = matchedLocked c"
  by (simp_all add: fed_def matchedLocked_def)

lemma rolled_simps [simp]:
  "cn_sm (rolled c) = fst (SetRawInput True (cn_sm c))"
  "cn_count (rolled c) = cn_initial c"
  by (simp_all add: rolled_def)

lemma clamped_simps [simp]:
  "cn_sm (clamped d c) = cn_sm c"
  "cn_initial (clamped d c) = cn_initial c"
  "cn_rollover (clamped d c) = cn_rollover c"
  "cn_count (clamped d c) = max 0 (wrap64 (cn_count c + d))"
  by (simp_all add: clamped_def)

lemma applyDelta_plain:
  assumes "cn_window c \<le> 0"
  shows "applyDelta d c =
           Inr (let c2 = clamped d c; es = snd (SetRawInput True (cn_sm c)) in
                if \<not> matchedLocked c2 then (fed False c2, snd (SetRawInput False (cn_sm c)))
                else if \<not> cn_rollover c then (fed True c2, es)
                else if matchedLocked (rolled c2) then (rolled c2, es)
                else (fed False (rolled c2), es @ snd (SetRawInput False (fst (SetRawInput True (cn_sm c))))))"
proof -
  let ?c1 = "c\<lparr>cn_count := wrap64 (cn_count c + d)\<rparr>"
  have c: "(if cn_count ?c1 < 0 then ?c1\<lparr>cn_count := 0\<rparr> else ?c1) = clamped d c"
    by (simp add: clamped_def)
  have r: "(fed True (clamped d c))\<lparr>cn_count := cn_initial c\<rparr> = rolled (clamped d c)"
    by (simp add: rolled_def)
  show ?thesis
    using assms unfolding applyDelta_def Let_def c by (simp add: on_cn_fed r)
qed

lemma plain_count_total: "cn_window c \<le> 0 \<Longrightarrow> \<exists>p. applyDelta d c = Inr p"
  by (simp add: applyDelta_plain)

lemma applyDelta_chain:
  assumes "applyDelta d c = Inr (c', es)" and "int64 d"
  shows "edge_chain (Output (cn_sm c)) es (Output (cn_sm c'))"
proof (cases "cn_window c > 0")
  case True
  then have "applyWindowedDelta d c = Inr (c', es)" using assms(1) by (simp add: applyDelta_def)
  then show ?thesis
    using assms(2) by (rule applyWindowedDelta_Inr) (auto dest!: sym[of "(c', es)"] on_cn_chain)
next
  case False
  then show ?thesis
    using assms(1)
    by (auto simp: applyDelta_plain Let_def SetRawInput_chain
        intro: edge_chain_appendI[OF SetRawInput_chain SetRawInput_chain] split: if_splits)
qed

lemma Count_sm [simp]: "cn_sm (snd (Count c)) = cn_sm c"
  by (simp add: Count_def Let_def)

lemma to_int64_range: "to_int64 v = Some d \<Longrightarrow> int64 d"
  by (auto simp: to_int64_def split: option.splits if_splits)

lemma Increment_chain:
  "edge_chain (Output (cn_sm c)) (snd (snd (Increment args c))) (Output (cn_sm (fst (snd (Increment args c)))))"
proof -
  have "int64 d" if "(case args of [] \<Rightarrow> Some 1 | v # _ \<Rightarrow> to_int64 v) = Some d" for d
    using that by (cases args) (auto simp: int64_def dest!: to_int64_range)
  then show ?thesis
    unfolding Increment_def
    by (auto simp: case_prod_beta dest!: applyDelta_chain split: option.split sum.split prod.split)
qed

lemma counter_call_chain:
  "edge_chain (Output (cn_sm c)) (snd (run_counter_call a c)) (Output (cn_sm (fst (run_counter_call a c))))"
proof (cases a)
  case CnReset
  then show ?thesis
    using Clear_chain[of "stop_slot (cn_expiryTimer c) (cn_sm c)"] by (simp add: Reset_def cn_stopExpiry_def)
qed (simp_all add: Increment_chain Counter_onInhibit_def SetInhibited_chain split: option.split)

lemma counter_callback_chain:
  "edge_chain (Output (cn_sm c)) (snd (counter_callback cb c)) (Output (cn_sm (fst (counter_callback cb c))))"
  using SetRawInput_chain[of "cn_sm (armExpiryLocked (now (cn_sm c)) (pruneLocked (now (cn_sm c)) c))"]
  by (simp add: counter_callback_def onWindowExpire_def run_callback_chain Let_def)

interpretation counter: wrapper cn_sm "\<lambda>s c. c\<lparr>cn_sm := s\<rparr>" run_counter_call counter_callback
  by unfold_locales (simp_all add: counter_call_chain counter_callback_chain)

section \<open>Counting\<close>

text \<open>Plain counting: a change by \<open>d\<close> never fails, the new count is the sum clamped at zero
  (an overflow beyond 64 bits wraps and is clamped too), snaps back to \<open>initial\<close> if the preset is
  reached with roll-over, and the machine is left with the result of the preset comparison as
  its input.\<close>

theorem plain_count:
  assumes "cn_window c \<le> 0"
  shows "\<exists>c' es. applyDelta d c = Inr (c', es) \<and>
           cn_count c' = (if matchedLocked (clamped d c) \<and> cn_rollover c then cn_initial c
                          else max 0 (wrap64 (cn_count c + d))) \<and>
           rawInput (cn_sm c') = matchedLocked c'"
proof -
  have "matchedLocked (rolled (clamped d c)) \<Longrightarrow> matchedLocked (clamped d c) \<Longrightarrow> rawInput (cn_sm (rolled (clamped d c)))"
    by simp
  then show ?thesis
    using assms by (auto simp: applyDelta_plain Let_def)
qed

definition new_counter :: "Behavior \<Rightarrow> int \<Rightarrow> int \<Rightarrow> bool \<Rightarrow> duration \<Rightarrow> CounterCondition" where
  "new_counter b init preset roll win =
     \<lparr>cn_sm = NewStateMachine b \<lparr>clk_now = 0, clk_next = 0, clk_sched = []\<rparr>, cn_initial = init,
      cn_preset = preset, cn_rollover = roll, cn_countDown = False, cn_window = win, cn_count = init,
      cn_events = [], cn_expiryTimer = None\<rparr>"

theorem plain_count_witness:
  "\<exists>c' es. applyDelta 3 (new_counter plain_behavior 0 3 False 0) = Inr (c', es) \<and> rawInput (cn_sm c')"
proof -
  let ?c = "new_counter plain_behavior 0 3 False 0"
  have w: "cn_window ?c \<le> 0" by (simp add: new_counter_def)
  have m: "cn_count ?c = 0" "cn_rollover ?c = False" by (simp_all add: new_counter_def)
  obtain c' es where c: "applyDelta 3 ?c = Inr (c', es)" "cn_count c' = max 0 (wrap64 3)"
    "rawInput (cn_sm c') = matchedLocked c'"
    using plain_count[OF w, of 3] m by auto
  have "cn_preset c' = 3 \<and> \<not> cn_countDown c'"
    using c(1) w by (auto simp: applyDelta_plain Let_def new_counter_def clamped_def on_cn_sm_def
        rolled_def case_prod_beta split: if_splits)
  with c show ?thesis by (auto simp: matchedLocked_def wrap64_def)
qed

section \<open>Sliding window\<close>






























section \<open>Roll-over and latch\<close>

lemma latched_input_false:
  "sm_state sm = StateActive \<Longrightarrow> latched sm \<Longrightarrow>
     sm_state (fst (SetRawInput v sm)) = StateActive \<and> snd (SetRawInput v sm) = []"
  by (auto simp: SetRawInput_def onInputChangeLocked_def report_def outputLocked_def Let_def)

lemma activation_plain:
  assumes "sm_state sm = StateInactive" and "\<not> rawInput sm" and "\<not> inhibited sm"
    and "\<not> cooldownActiveLocked sm" and "ActivateAfter (behavior sm) \<le> 0"
  shows "sm_state (fst (SetRawInput True sm)) = StateActive \<and>
         latched (fst (SetRawInput True sm)) = (latched sm \<or> Latch (behavior sm)) \<and>
         snd (SetRawInput True sm) = [notifyAll sm False True]"
proof -
  have "sm_state (becomeActiveLocked sm') = StateActive" for sm' by simp
  then show ?thesis
    using assms
    by (auto simp: SetRawInput_def onInputChangeLocked_def tryActivateLocked_def report_def
        output_states notifyAll_def becomeActiveLocked_def Let_def)
qed

lemma deactivation_plain:
  assumes "sm_state sm = StateActive" and "rawInput sm" and "\<not> latched sm"
    and "DeactivateAfter (behavior sm) \<le> 0"
  shows "sm_state (fst (SetRawInput False sm)) = StateInactive \<and>
         snd (SetRawInput False sm) = [notifyAll sm True False]"
  using assms
  by (auto simp: SetRawInput_def onInputChangeLocked_def report_def output_states notifyAll_def Let_def)

text \<open>Reaching the preset of a rolling counter whose \<open>initial\<close> does not match: an idle machine
  without delays reports a pulse, a rise followed at once by a fall, and is inactive again with
  the count back at \<open>initial\<close>; with \<open>latch\<close> the same change reports only the rise and leaves
  the output active.\<close>

theorem rollover_pulse:
  fixes c :: CounterCondition
  defines "sm \<equiv> cn_sm c"
  assumes "cn_window c \<le> 0" and "cn_rollover c" and "matchedLocked (clamped d c)"
    and "\<not> matchedLocked (c\<lparr>cn_count := cn_initial c\<rparr>)"
    and "sm_state sm = StateInactive" and "\<not> rawInput sm" and "\<not> inhibited sm" and "\<not> latched sm"
    and "\<not> cooldownActiveLocked sm" and "ActivateAfter (behavior sm) \<le> 0" and "DeactivateAfter (behavior sm) \<le> 0"
  shows "\<exists>c' es. applyDelta d c = Inr (c', es) \<and> cn_count c' = cn_initial c \<and>
           (if Latch (behavior sm)
            then sm_state (cn_sm c') = StateActive \<and> es = [notifyAll sm False True]
            else sm_state (cn_sm c') = StateInactive \<and> es = [notifyAll sm False True, notifyAll sm True False])"
proof -
  let ?sm = "fst (SetRawInput True sm)"
  have m: "\<not> matchedLocked (rolled (clamped d c))"
    using assms(5) by (auto simp: matchedLocked_def rolled_def clamped_def split: if_splits)
  have a: "sm_state ?sm = StateActive" "latched ?sm = Latch (behavior sm)" "behavior ?sm = behavior sm"
    "snd (SetRawInput True sm) = [notifyAll sm False True]" "rawInput ?sm"
    using activation_plain[of sm] assms by auto
  have "notifyAll ?sm = notifyAll sm" using a(3) by (simp add: notifyAll_def fun_eq_iff)
  then show ?thesis
    using assms(2-4) m a latched_input_false[of ?sm False] deactivation_plain[of ?sm] assms(12)
    by (auto simp: applyDelta_plain Let_def sm_def)
qed

theorem rollover_pulse_witness:
  "\<exists>c' es. applyDelta 3 (new_counter plain_behavior 0 3 True 0) = Inr (c', es) \<and>
           es = [(False, True), (True, False)]"
proof -
  let ?c = "new_counter plain_behavior 0 3 True 0"
  have "cn_window ?c \<le> 0" "cn_rollover ?c" "matchedLocked (clamped 3 ?c)"
    "\<not> matchedLocked (?c\<lparr>cn_count := cn_initial ?c\<rparr>)"
    by (simp_all add: new_counter_def matchedLocked_def clamped_def wrap64_def)
  moreover have "sm_state (cn_sm ?c) = StateInactive" "\<not> rawInput (cn_sm ?c)" "\<not> inhibited (cn_sm ?c)"
    "\<not> latched (cn_sm ?c)" "\<not> cooldownActiveLocked (cn_sm ?c)" "behavior (cn_sm ?c) = plain_behavior"
    by (simp_all add: new_counter_def NewStateMachine_def cooldownActiveLocked_def)
  moreover have "ActivateAfter plain_behavior \<le> 0" "DeactivateAfter plain_behavior \<le> 0"
    "\<not> Latch plain_behavior" "\<not> Invert plain_behavior"
    by (simp_all add: plain_behavior_def)
  ultimately show ?thesis
    using rollover_pulse[of ?c 3] by (auto simp: notifyAll_def)
qed

section \<open>Panics\<close>

text \<open>Negating the smallest 64-bit number leaves it negative, so popping that many events from a
  windowed counter slices with a negative index.\<close>

lemma windowed_min_int_panics:
  "cn_window c > 0 \<Longrightarrow> applyDelta (- (2 ^ 63)) c = Inl ErrPanic"
  by (simp add: applyDelta_def applyWindowedDelta_def wrap64_def Let_def)

text \<open>A change of the count panics in exactly one case: a windowed counter decremented by the
  smallest 64-bit number.\<close>

theorem applyDelta_panics_iff:
  assumes "int64 d"
  shows "(\<exists>e. applyDelta d c = Inl e) \<longleftrightarrow> cn_window c > 0 \<and> d = - (2 ^ 63)"
proof (cases "cn_window c > 0")
  case True
  show ?thesis
  proof (cases "d = - (2 ^ 63)")
    case False
    then have "wrap64 (- d) = - d" using assms by (intro wrap64_neg)
    then show ?thesis using True False by (auto simp: applyDelta_def applyWindowedDelta_def Let_def)
  qed (use True windowed_min_int_panics in auto)
next
  case False
  then show ?thesis using plain_count_total[of c d] by auto
qed

theorem applyDelta_panics_iff_witness:
  "\<exists>e. applyDelta (- (2 ^ 63)) (new_counter plain_behavior 0 3 False 10) = Inl e"
  using applyDelta_panics_iff[of "- (2 ^ 63)" "new_counter plain_behavior 0 3 False 10"]
  by (simp add: int64_def new_counter_def)

end
