(* ===== verification/Cond_Flipflop.thy ===== *)
theory Cond_Flipflop
  imports Cond_Counter
begin

text \<open>
  The flipflop condition (\<open>conditions/flipflop.go\<close>): set, reset, toggle and gate wires and a
  sampled level, resolved by priority to one desired output that is fed to the state machine.
  A notification carries what each wire's expression evaluates to at that moment.
\<close>

section \<open>State\<close>

datatype edgeMode = edgeRising | edgeFalling | edgeBoth | levelHigh | levelLow

definition isLevel :: "edgeMode \<Rightarrow> bool" where
  "isLevel m \<longleftrightarrow> m = levelHigh \<or> m = levelLow"

record wire =
  wr_edge :: edgeMode
  wr_prev :: bool
  wr_hasPrev :: bool

definition edgeFired :: "bool \<Rightarrow> bool \<Rightarrow> edgeMode \<Rightarrow> bool" where
  "edgeFired prev cur mode =
     (case mode of
        edgeRising \<Rightarrow> \<not> prev \<and> cur
      | edgeFalling \<Rightarrow> prev \<and> \<not> cur
      | edgeBoth \<Rightarrow> prev \<noteq> cur
      | _ \<Rightarrow> False)"

record 'w flipflopSource =
  fs_watchable :: 'w
  feedsSet :: bool
  feedsReset :: bool
  feedsToggle :: bool
  feedsGate :: bool
  feedsSetFrom :: bool

record 'w FlipflopCondition =
  ff_sm :: StateMachine
  ff_setWire :: "wire option"
  ff_resetWire :: "wire option"
  ff_toggleWire :: "wire option"
  ff_gateWire :: "wire option"
  ff_hasSetFrom :: bool
  ff_dominantSet :: bool
  ff_sources :: "'w flipflopSource list"
  ff_desired :: bool
  ff_gateAsserting :: bool

text \<open>What the expressions of the wires evaluate to when a notification is handled.\<close>

record 'n wire_values =
  wv_set :: "'n eval_result"
  wv_reset :: "'n eval_result"
  wv_toggle :: "'n eval_result"
  wv_gate :: "'n eval_result"
  wv_setFrom :: "'n eval_result"

section \<open>Operations\<close>

definition on_ff_sm ::
  "(StateMachine \<Rightarrow> StateMachine \<times> edge list) \<Rightarrow> 'w FlipflopCondition \<Rightarrow> 'w FlipflopCondition \<times> edge list"
where
  "on_ff_sm g f = (let (sm, es) = g (ff_sm f) in (f\<lparr>ff_sm := sm\<rparr>, es))"

definition evalBool :: "'n eval_result \<Rightarrow> bool option" where
  "evalBool ev =
     (case ev of None \<Rightarrow> None
      | Some v \<Rightarrow> if v_IsNull v \<or> \<not> v_IsKnown v \<or> v_Type v \<noteq> TBool then None else v_True v)"

definition reconcileDesiredLocked :: "'w FlipflopCondition \<Rightarrow> 'w FlipflopCondition" where
  "reconcileDesiredLocked f =
     (let smRaw = rawInput (ff_sm f)
      in if smRaw \<noteq> ff_desired f then f\<lparr>ff_desired := smRaw\<rparr> else f)"

definition edgeFiredFor :: "'n eval_result \<Rightarrow> wire option \<Rightarrow> bool \<times> wire option" where
  "edgeFiredFor ev w =
     (case w of None \<Rightarrow> (False, None)
      | Some wr \<Rightarrow>
          (case evalBool ev of
             None \<Rightarrow> (False, Some wr)
           | Some cur \<Rightarrow>
               (wr_hasPrev wr \<and> edgeFired (wr_prev wr) cur (wr_edge wr),
                Some (wr\<lparr>wr_prev := cur, wr_hasPrev := True\<rparr>))))"

text \<open>Step 1: the gate, re-evaluated only when the source feeds it. The results are the edge of an
  edge gate and the fresh assertion of a level gate.\<close>

definition eval_gate ::
  "'n eval_result \<Rightarrow> bool \<Rightarrow> 'w FlipflopCondition \<Rightarrow> bool \<times> bool \<times> 'w FlipflopCondition" where
  "eval_gate ev feeds f =
     (case ff_gateWire f of
        None \<Rightarrow> (False, False, f)
      | Some w \<Rightarrow>
          if \<not> feeds then (False, False, f)
          else case evalBool ev of
                 None \<Rightarrow> (False, False, f)
               | Some gv \<Rightarrow>
                   let w' = Some (w\<lparr>wr_prev := gv, wr_hasPrev := True\<rparr>) in
                   if isLevel (wr_edge w)
                   then let asserting = (if wr_edge w = levelLow then \<not> gv else gv);
                            prevAssert = (if wr_edge w = levelLow then \<not> wr_prev w else wr_prev w)
                        in (False, wr_hasPrev w \<and> asserting \<and> \<not> prevAssert,
                            f\<lparr>ff_gateAsserting := asserting, ff_gateWire := w'\<rparr>)
                   else (wr_hasPrev w \<and> edgeFired (wr_prev w) gv (wr_edge w), False,
                         f\<lparr>ff_gateWire := w'\<rparr>))"

definition recomputeLocked ::
  "'w flipflopSource \<Rightarrow> 'n wire_values \<Rightarrow> 'w FlipflopCondition \<Rightarrow> 'w FlipflopCondition \<times> bool \<times> bool" where
  "recomputeLocked s env f =
     (let (gateEdgeFiredNow, gateJustAsserted, f1) = eval_gate (wv_gate env) (feedsGate s) f;
          levelGate = (case ff_gateWire f1 of None \<Rightarrow> False | Some w \<Rightarrow> isLevel (wr_edge w));
          gateOpen = (case ff_gateWire f1 of None \<Rightarrow> True
                      | Some w \<Rightarrow> if isLevel (wr_edge w) then ff_gateAsserting f1 else gateEdgeFiredNow);
          sample = (ff_hasSetFrom f1 \<and>
                    (if levelGate then ff_gateAsserting f1 \<and> (feedsSetFrom s \<or> gateJustAsserted)
                     else gateEdgeFiredNow));
          newDesired1 = (if sample
                         then case evalBool (wv_setFrom env) of None \<Rightarrow> ff_desired f1 | Some v \<Rightarrow> v
                         else ff_desired f1);
          (setFired0, setW) = (if feedsSet s then edgeFiredFor (wv_set env) (ff_setWire f1)
                               else (False, ff_setWire f1));
          (resetFired0, resetW) = (if feedsReset s then edgeFiredFor (wv_reset env) (ff_resetWire f1)
                                   else (False, ff_resetWire f1));
          (toggleFired0, toggleW) = (if feedsToggle s then edgeFiredFor (wv_toggle env) (ff_toggleWire f1)
                                     else (False, ff_toggleWire f1));
          setFired = (gateOpen \<and> setFired0);
          resetFired = (gateOpen \<and> resetFired0);
          toggleFired = (gateOpen \<and> toggleFired0);
          newDesired2 = (if setFired \<and> resetFired then ff_dominantSet f1
                         else if setFired then True
                         else if resetFired then False
                         else newDesired1);
          newDesired3 = (if \<not> setFired \<and> \<not> resetFired \<and> toggleFired then \<not> newDesired2 else newDesired2);
          f2 = f1\<lparr>ff_setWire := setW, ff_resetWire := resetW, ff_toggleWire := toggleW\<rparr>
      in (f2, newDesired3, newDesired3 \<noteq> ff_desired f2))"

definition onSourceChanged ::
  "'w flipflopSource \<Rightarrow> 'n wire_values \<Rightarrow> 'w FlipflopCondition \<Rightarrow> 'w FlipflopCondition \<times> edge list" where
  "onSourceChanged s env f =
     (let (f1, newDesired, changed) = recomputeLocked s env (reconcileDesiredLocked f)
      in if \<not> changed then (f1, [])
         else on_ff_sm (SetRawInput newDesired) (f1\<lparr>ff_desired := newDesired\<rparr>))"

definition Flipflop_Set ::
  "'n cty_value list \<Rightarrow> 'w FlipflopCondition \<Rightarrow> (cond_error + 'n cty_value) \<times> 'w FlipflopCondition \<times> edge list"
where
  "Flipflop_Set args f =
     (case args of
        [] \<Rightarrow> (Inl ErrMissingArgument, f, [])
      | v # _ \<Rightarrow>
          if v_Type v \<noteq> TBool \<or> v_IsNull v then (Inl ErrNotBoolean, f, [])
          else case v_True v of
                 None \<Rightarrow> (Inl ErrPanic, f, [])
               | Some b \<Rightarrow>
                   (Inr v, on_ff_sm (SetRawInput b) ((reconcileDesiredLocked f)\<lparr>ff_desired := b\<rparr>)))"

definition Flipflop_Toggle ::
  "'w FlipflopCondition \<Rightarrow> bool \<times> 'w FlipflopCondition \<times> edge list" where
  "Flipflop_Toggle f =
     (let f1 = reconcileDesiredLocked f; newVal = (\<not> ff_desired f1)
      in (newVal, on_ff_sm (SetRawInput newVal) (f1\<lparr>ff_desired := newVal\<rparr>)))"

definition Flipflop_Clear :: "'w FlipflopCondition \<Rightarrow> 'w FlipflopCondition \<times> edge list" where
  "Flipflop_Clear f = on_ff_sm Clear (f\<lparr>ff_desired := False\<rparr>)"

definition Flipflop_onInhibit ::
  "'n cty_value \<Rightarrow> 'w FlipflopCondition \<Rightarrow> 'w FlipflopCondition \<times> edge list" where
  "Flipflop_onInhibit v f =
     (case bool_input v of None \<Rightarrow> (f, []) | Some b \<Rightarrow> on_ff_sm (SetInhibited b) f)"

definition baseline :: "'n eval_result \<Rightarrow> wire option \<Rightarrow> wire option" where
  "baseline ev w =
     (case w of None \<Rightarrow> None
      | Some wr \<Rightarrow> (case evalBool ev of None \<Rightarrow> Some wr
                   | Some v \<Rightarrow> Some (wr\<lparr>wr_prev := v, wr_hasPrev := True\<rparr>)))"

definition boot_gate :: "'n eval_result \<Rightarrow> 'w FlipflopCondition \<Rightarrow> bool" where
  "boot_gate ev f =
     (case ff_gateWire f of
        Some w \<Rightarrow> (case evalBool ev of
                     Some v \<Rightarrow> if isLevel (wr_edge w) then (if wr_edge w = levelLow then \<not> v else v)
                               else ff_gateAsserting f
                   | None \<Rightarrow> ff_gateAsserting f)
      | None \<Rightarrow> ff_gateAsserting f)"

definition Flipflop_Start ::
  "'n eval_result option \<Rightarrow> 'n wire_values \<Rightarrow> 'w FlipflopCondition \<Rightarrow>
     (cond_error + unit) \<times> 'w FlipflopCondition \<times> edge list" where
  "Flipflop_Start inhibitEv env f =
     (let f1 = f\<lparr>ff_sm := Bootstrap (ff_sm f)\<rparr>;
          f2 = (if StartActive (behavior (ff_sm f1)) then f1\<lparr>ff_desired := True\<rparr> else f1);
          f3 = f2\<lparr>ff_setWire := baseline (wv_set env) (ff_setWire f2),
                  ff_resetWire := baseline (wv_reset env) (ff_resetWire f2),
                  ff_toggleWire := baseline (wv_toggle env) (ff_toggleWire f2),
                  ff_gateAsserting := boot_gate (wv_gate env) f2,
                  ff_gateWire := baseline (wv_gate env) (ff_gateWire f2)\<rparr>
      in case inhibitEv of
           None \<Rightarrow> (Inr (), f3, [])
         | Some None \<Rightarrow> (Inl (ErrStart ''inhibit''), f3, [])
         | Some (Some v) \<Rightarrow> (Inr (), Flipflop_onInhibit v f3))"

definition Flipflop_PostStart :: "'e HookDispatcher option \<Rightarrow> 'w FlipflopCondition \<Rightarrow> hook_call list" where
  "Flipflop_PostStart h f = FireInit h (Output (ff_sm f))"

section \<open>Configuration\<close>

record 'e flipflopBody =
  fb_SetOn :: "'e option"
  fb_SetEdge :: "string option"
  fb_ResetOn :: "'e option"
  fb_ResetEdge :: "string option"
  fb_ToggleOn :: "'e option"
  fb_ToggleEdge :: "string option"
  fb_SetFrom :: "'e option"
  fb_GateOn :: "'e option"
  fb_GateEdge :: "string option"
  fb_Dominant :: "string option"
  fb_StartActive :: "bool option"
  fb_Invert :: "bool option"
  fb_Latch :: "bool option"
  fb_Cooldown :: "'e option"
  fb_Inhibit :: "'e option"
  fb_Hooks :: "'e Hooks"

definition parseEventEdge :: "string option \<Rightarrow> edgeMode \<times> diag list" where
  "parseEventEdge e =
     (case e of None \<Rightarrow> (edgeRising, [])
      | Some s \<Rightarrow>
          if s = ''rising'' then (edgeRising, [])
          else if s = ''falling'' then (edgeFalling, [])
          else if s = ''both'' then (edgeBoth, [])
          else (edgeRising, [DiagError ''Invalid edge mode'']))"

definition parseGateEdge :: "string option \<Rightarrow> edgeMode \<times> diag list" where
  "parseGateEdge e =
     (case e of None \<Rightarrow> (edgeRising, [])
      | Some s \<Rightarrow>
          if s = ''rising'' then (edgeRising, [])
          else if s = ''falling'' then (edgeFalling, [])
          else if s = ''both'' then (edgeBoth, [])
          else if s = ''high'' then (levelHigh, [])
          else if s = ''low'' then (levelLow, [])
          else (edgeRising, [DiagError ''Invalid gate edge mode'']))"

definition parseDominant :: "string option \<Rightarrow> bool \<times> diag list" where
  "parseDominant d =
     (case d of None \<Rightarrow> (False, [])
      | Some s \<Rightarrow> if s = ''reset'' then (False, []) else if s = ''set'' then (True, [])
                  else (False, [DiagError ''Invalid dominant'']))"

text \<open>Structural validation of the wires: errors that return at once.\<close>

definition driven_wire_errors :: "'e flipflopBody \<Rightarrow> diag list" where
  "driven_wire_errors body =
     (if fb_SetOn body = None \<and> fb_ResetOn body = None \<and> fb_ToggleOn body = None \<and> fb_SetFrom body = None
      then if fb_GateOn body \<noteq> None then [DiagError ''Gate has nothing to gate'']
           else [DiagError ''Flipflop has no driven wire'']
      else if fb_SetFrom body \<noteq> None \<and> fb_GateOn body = None
      then [DiagError ''set_from requires gate_on'']
      else [])"

definition edge_attr_errors :: "'e flipflopBody \<Rightarrow> diag list" where
  "edge_attr_errors body =
     concat (map (\<lambda>(edge, declared).
                    if edge \<noteq> None \<and> \<not> declared then [DiagError ''Edge attribute without its wire''] else [])
       [(fb_SetEdge body, fb_SetOn body \<noteq> None), (fb_ResetEdge body, fb_ResetOn body \<noteq> None),
        (fb_ToggleEdge body, fb_ToggleOn body \<noteq> None), (fb_GateEdge body, fb_GateOn body \<noteq> None)])"

text \<open>Binding each referenced watchable to the wires that use it.\<close>

datatype wire_role = RoleSet | RoleReset | RoleToggle | RoleGate | RoleSetFrom

fun mark :: "wire_role \<Rightarrow> 'w flipflopSource \<Rightarrow> 'w flipflopSource" where
  "mark RoleSet s = s\<lparr>feedsSet := True\<rparr>"
| "mark RoleReset s = s\<lparr>feedsReset := True\<rparr>"
| "mark RoleToggle s = s\<lparr>feedsToggle := True\<rparr>"
| "mark RoleGate s = s\<lparr>feedsGate := True\<rparr>"
| "mark RoleSetFrom s = s\<lparr>feedsSetFrom := True\<rparr>"

definition new_source :: "'w \<Rightarrow> 'w flipflopSource" where
  "new_source w = \<lparr>fs_watchable = w, feedsSet = False, feedsReset = False, feedsToggle = False,
                   feedsGate = False, feedsSetFrom = False\<rparr>"

fun src_mark :: "wire_role \<Rightarrow> 'w \<Rightarrow> 'w flipflopSource list \<Rightarrow> 'w flipflopSource list" where
  "src_mark r w [] = [mark r (new_source w)]"
| "src_mark r w (s # ss) = (if fs_watchable s = w then mark r s # ss else s # src_mark r w ss)"

definition bind_wire :: "wire_role \<Rightarrow> 'w list \<Rightarrow> 'w flipflopSource list \<Rightarrow> 'w flipflopSource list" where
  "bind_wire r ws ss = fold (src_mark r) ws ss"

definition opt_wire :: "'e option \<Rightarrow> edgeMode \<Rightarrow> wire option" where
  "opt_wire e m =
     (case e of None \<Rightarrow> None | Some _ \<Rightarrow> Some \<lparr>wr_edge = m, wr_prev = False, wr_hasPrev = False\<rparr>)"

text \<open>\<open>refs\<close> gives the variable references of an expression; \<open>NewReactiveExpr\<close> resolves them.\<close>

definition wire_sources :: "('e \<Rightarrow> 'w traversal list) \<Rightarrow> 'e option \<Rightarrow> 'w list \<times> diag list" where
  "wire_sources refs e =
     (case e of None \<Rightarrow> ([], [])
      | Some x \<Rightarrow> let (re, ds) = NewReactiveExpr (refs x) in (re_sources re, ds))"

definition processFlipflopCondition ::
  "('e \<Rightarrow> duration \<times> diag list) \<Rightarrow> ('e \<Rightarrow> 'w traversal list) \<Rightarrow> Clock \<Rightarrow> string \<Rightarrow>
     diag list \<times> 'e flipflopBody \<Rightarrow>
     ('w FlipflopCondition \<times> 'e HookDispatcher option) registry \<Rightarrow>
     diag list \<times> ('w FlipflopCondition \<times> 'e HookDispatcher option) registry" where
  "processFlipflopCondition pd refs clk name decoded reg =
     (let (ds, body) = decoded in
      if HasErrors ds then (ds, reg)
      else if driven_wire_errors body \<noteq> [] then (ds @ driven_wire_errors body, reg)
      else
       let ds1 = ds @ edge_attr_errors body
       in if HasErrors ds1 then (ds1, reg)
          else
           let (setEdge, d1) = parseEventEdge (fb_SetEdge body);
               (resetEdge, d2) = parseEventEdge (fb_ResetEdge body);
               (toggleEdge, d3) = parseEventEdge (fb_ToggleEdge body);
               (gateEdge, d4) = parseGateEdge (fb_GateEdge body);
               (dominantSet, d5) = parseDominant (fb_Dominant body);
               (cd, d6) = parseOptDuration pd (fb_Cooldown body);
               b = \<lparr>ActivateAfter = 0, DeactivateAfter = 0, Timeout = 0, Cooldown = cd,
                    Latch = opt_bool (fb_Latch body), Invert = opt_bool (fb_Invert body),
                    Retentive = False, StartActive = opt_bool (fb_StartActive body)\<rparr>;
               ds2 = ds1 @ d1 @ d2 @ d3 @ d4 @ d5 @ d6
           in if HasErrors ds2 then (ds2, reg)
              else
               let (setS, e1) = wire_sources refs (fb_SetOn body);
                   (resetS, e2) = wire_sources refs (fb_ResetOn body);
                   (toggleS, e3) = wire_sources refs (fb_ToggleOn body);
                   (gateS, e4) = wire_sources refs (fb_GateOn body);
                   (fromS, e5) = wire_sources refs (fb_SetFrom body);
                   (_, e6) = wire_sources refs (fb_Inhibit body);
                   f = \<lparr>ff_sm = NewStateMachine b clk,
                        ff_setWire = opt_wire (fb_SetOn body) setEdge,
                        ff_resetWire = opt_wire (fb_ResetOn body) resetEdge,
                        ff_toggleWire = opt_wire (fb_ToggleOn body) toggleEdge,
                        ff_gateWire = opt_wire (fb_GateOn body) gateEdge,
                        ff_hasSetFrom = (fb_SetFrom body \<noteq> None), ff_dominantSet = dominantSet,
                        ff_sources = bind_wire RoleSetFrom fromS (bind_wire RoleGate gateS
                          (bind_wire RoleToggle toggleS (bind_wire RoleReset resetS
                            (bind_wire RoleSet setS [])))),
                        ff_desired = False, ff_gateAsserting = False\<rparr>;
                   ds3 = ds2 @ e1 @ e2 @ e3 @ e4 @ e5 @ e6
               in if HasErrors ds3 then (ds3, reg)
                  else let hooks = NewHookDispatcher name (fb_Hooks body)
                       in (ds3, register name (f, hooks) (hooks \<noteq> None) reg))"

section \<open>Executions\<close>

datatype ('n, 'w) flipflop_call =
    FfSet "'n cty_value list" | FfToggle | FfClear | FfInhibit "'n cty_value"
  | FfSource "'w flipflopSource" "'n wire_values"

fun run_flipflop_call ::
  "('n, 'w) flipflop_call \<Rightarrow> 'w FlipflopCondition \<Rightarrow> 'w FlipflopCondition \<times> edge list" where
  "run_flipflop_call (FfSet args) f = snd (Flipflop_Set args f)"
| "run_flipflop_call FfToggle f = snd (Flipflop_Toggle f)"
| "run_flipflop_call FfClear f = Flipflop_Clear f"
| "run_flipflop_call (FfInhibit v) f = Flipflop_onInhibit v f"
| "run_flipflop_call (FfSource s env) f = onSourceChanged s env f"

definition flipflop_callback :: "callback \<Rightarrow> 'w FlipflopCondition \<Rightarrow> 'w FlipflopCondition \<times> edge list" where
  "flipflop_callback cb f = on_ff_sm (run_callback cb) f"

abbreviation flipflop_exec ::
  "('n, 'w) flipflop_call w_op \<Rightarrow> 'w FlipflopCondition Wrapped \<Rightarrow> 'w FlipflopCondition Wrapped \<times> edge list"
where
  "flipflop_exec \<equiv> w_exec ff_sm (\<lambda>s f. f\<lparr>ff_sm := s\<rparr>) run_flipflop_call flipflop_callback"

lemma on_ff_sm_simps [simp]:
  "ff_sm (fst (on_ff_sm g f)) = fst (g (ff_sm f))"
  "snd (on_ff_sm g f) = snd (g (ff_sm f))"
  "ff_desired (fst (on_ff_sm g f)) = ff_desired f"
  "ff_setWire (fst (on_ff_sm g f)) = ff_setWire f"
  "ff_resetWire (fst (on_ff_sm g f)) = ff_resetWire f"
  "ff_toggleWire (fst (on_ff_sm g f)) = ff_toggleWire f"
  "ff_gateWire (fst (on_ff_sm g f)) = ff_gateWire f"
  "ff_hasSetFrom (fst (on_ff_sm g f)) = ff_hasSetFrom f"
  "ff_gateAsserting (fst (on_ff_sm g f)) = ff_gateAsserting f"
  by (simp_all add: on_ff_sm_def case_prod_beta Let_def)

lemma reconcile_simps [simp]:
  "ff_sm (reconcileDesiredLocked f) = ff_sm f"
  "ff_desired (reconcileDesiredLocked f) = rawInput (ff_sm f)"
  "ff_setWire (reconcileDesiredLocked f) = ff_setWire f"
  "ff_resetWire (reconcileDesiredLocked f) = ff_resetWire f"
  "ff_toggleWire (reconcileDesiredLocked f) = ff_toggleWire f"
  "ff_gateWire (reconcileDesiredLocked f) = ff_gateWire f"
  "ff_hasSetFrom (reconcileDesiredLocked f) = ff_hasSetFrom f"
  "ff_dominantSet (reconcileDesiredLocked f) = ff_dominantSet f"
  "ff_gateAsserting (reconcileDesiredLocked f) = ff_gateAsserting f"
  by (auto simp: reconcileDesiredLocked_def Let_def)

lemma eval_gate_simps [simp]:
  "ff_sm (snd (snd (eval_gate ev b f))) = ff_sm f"
  "ff_desired (snd (snd (eval_gate ev b f))) = ff_desired f"
  "ff_setWire (snd (snd (eval_gate ev b f))) = ff_setWire f"
  "ff_resetWire (snd (snd (eval_gate ev b f))) = ff_resetWire f"
  "ff_toggleWire (snd (snd (eval_gate ev b f))) = ff_toggleWire f"
  "ff_hasSetFrom (snd (snd (eval_gate ev b f))) = ff_hasSetFrom f"
  "ff_dominantSet (snd (snd (eval_gate ev b f))) = ff_dominantSet f"
  by (simp_all add: eval_gate_def Let_def split: option.split)

lemma recompute_simps [simp]:
  "ff_sm (fst (recomputeLocked s env f)) = ff_sm f"
  "ff_desired (fst (recomputeLocked s env f)) = ff_desired f"
  "snd (snd (recomputeLocked s env f)) = (fst (snd (recomputeLocked s env f)) \<noteq> ff_desired f)"
  by (simp_all add: recomputeLocked_def Let_def case_prod_beta)

lemma onSourceChanged_eq:
  "onSourceChanged s env f =
     (let f1 = fst (recomputeLocked s env (reconcileDesiredLocked f));
          v = fst (snd (recomputeLocked s env (reconcileDesiredLocked f)))
      in if v = rawInput (ff_sm f) then (f1, [])
         else on_ff_sm (SetRawInput v) (f1\<lparr>ff_desired := v\<rparr>))"
  by (simp add: onSourceChanged_def case_prod_beta Let_def)

lemma onSourceChanged_chain:
  "edge_chain (Output (ff_sm f)) (snd (onSourceChanged s env f)) (Output (ff_sm (fst (onSourceChanged s env f))))"
  by (simp add: onSourceChanged_eq Let_def SetRawInput_chain)

lemma flipflop_call_chain:
  "edge_chain (Output (ff_sm f)) (snd (run_flipflop_call a f)) (Output (ff_sm (fst (run_flipflop_call a f))))"
  by (cases a)
     (simp_all add: Flipflop_Set_def Flipflop_Toggle_def Flipflop_Clear_def Flipflop_onInhibit_def
       onSourceChanged_chain SetRawInput_chain Clear_chain SetInhibited_chain Let_def
       split: list.split option.split)

interpretation flipflop: wrapper ff_sm "\<lambda>s f. f\<lparr>ff_sm := s\<rparr>" run_flipflop_call flipflop_callback
  by unfold_locales (simp_all add: flipflop_call_chain flipflop_callback_def run_callback_chain)

section \<open>Variants\<close>

lemma onSourceChanged_raw:
  "rawInput (ff_sm (fst (onSourceChanged s env f))) =
     fst (snd (recomputeLocked s env (reconcileDesiredLocked f)))"
  by (simp add: onSourceChanged_eq Let_def)

lemma onSourceChanged_wires:
  "ff_setWire (fst (onSourceChanged s env f)) = ff_setWire (fst (recomputeLocked s env (reconcileDesiredLocked f)))"
  "ff_resetWire (fst (onSourceChanged s env f)) = ff_resetWire (fst (recomputeLocked s env (reconcileDesiredLocked f)))"
  "ff_toggleWire (fst (onSourceChanged s env f)) = ff_toggleWire (fst (recomputeLocked s env (reconcileDesiredLocked f)))"
  "ff_gateWire (fst (onSourceChanged s env f)) = ff_gateWire (fst (recomputeLocked s env (reconcileDesiredLocked f)))"
  "ff_hasSetFrom (fst (onSourceChanged s env f)) = ff_hasSetFrom (fst (recomputeLocked s env (reconcileDesiredLocked f)))"
  by (simp_all add: onSourceChanged_eq Let_def)

text \<open>The value of an event wire at a notification, and whether its edge fires.\<close>

definition fires :: "bool \<Rightarrow> 'n eval_result \<Rightarrow> wire option \<Rightarrow> bool" where
  "fires feeds ev w = (feeds \<and> fst (edgeFiredFor ev w))"

text \<open>Conflict resolution of an ungated flipflop. Whatever the wires, the machine's input after
  a notification is: the dominant value if set and reset both fire, else on for set, off for
  reset, the negation for a toggle, and unchanged otherwise. A wire fires only if the source
  feeds it, it has a baseline, and the configured edge occurred.\<close>

theorem flipflop_priority:
  fixes f :: "'w FlipflopCondition" and env :: "'n wire_values" and s :: "'w flipflopSource"
  defines "S \<equiv> fires (feedsSet s) (wv_set env) (ff_setWire f)"
    and "R \<equiv> fires (feedsReset s) (wv_reset env) (ff_resetWire f)"
    and "T \<equiv> fires (feedsToggle s) (wv_toggle env) (ff_toggleWire f)"
    and "q \<equiv> rawInput (ff_sm f)"
  assumes "ff_gateWire f = None"
  shows "rawInput (ff_sm (fst (onSourceChanged s env f))) =
           (if S \<and> R then ff_dominantSet f else if S then True else if R then False
            else if T then \<not> q else q)"
  using assms
  by (auto simp: onSourceChanged_raw recomputeLocked_def eval_gate_def fires_def Let_def case_prod_beta)

definition bare_flipflop :: "'w FlipflopCondition" where
  "bare_flipflop =
     \<lparr>ff_sm = NewStateMachine plain_behavior \<lparr>clk_now = 0, clk_next = 0, clk_sched = []\<rparr>,
      ff_setWire = None, ff_resetWire = None, ff_toggleWire = None, ff_gateWire = None,
      ff_hasSetFrom = False, ff_dominantSet = False, ff_sources = [], ff_desired = False,
      ff_gateAsserting = False\<rparr>"

definition no_values :: "'n wire_values" where
  "no_values = \<lparr>wv_set = None, wv_reset = None, wv_toggle = None, wv_gate = None, wv_setFrom = None\<rparr>"

definition ready_wire :: "edgeMode \<Rightarrow> bool \<Rightarrow> wire" where
  "ready_wire m p = \<lparr>wr_edge = m, wr_prev = p, wr_hasPrev = True\<rparr>"

theorem flipflop_priority_witness:
  "rawInput (ff_sm (fst (onSourceChanged (mark RoleReset (mark RoleSet (new_source (0::nat))))
      (no_values\<lparr>wv_set := Some (CtyBool True :: int cty_value), wv_reset := Some (CtyBool True)\<rparr>)
      (bare_flipflop\<lparr>ff_setWire := Some (ready_wire edgeRising False),
         ff_resetWire := Some (ready_wire edgeRising False), ff_dominantSet := True\<rparr>))))"
  by (subst flipflop_priority)
     (simp_all add: bare_flipflop_def fires_def edgeFiredFor_def evalBool_def ready_wire_def
       edgeFired_def no_values_def)

fun fired_count :: "edgeMode \<Rightarrow> bool \<Rightarrow> bool list \<Rightarrow> nat" where
  "fired_count m p [] = 0"
| "fired_count m p (b # bs) = (if edgeFired p b m then 1 else 0) + fired_count m b bs"

definition t_wired :: "edgeMode \<Rightarrow> bool \<Rightarrow> 'w FlipflopCondition \<Rightarrow> bool" where
  "t_wired m p f \<longleftrightarrow> ff_setWire f = None \<and> ff_resetWire f = None \<and> ff_gateWire f = None \<and>
     \<not> ff_hasSetFrom f \<and> ff_toggleWire f = Some (ready_wire m p)"

definition toggle_value :: "bool \<Rightarrow> 'n wire_values" where
  "toggle_value b = no_values\<lparr>wv_toggle := Some (CtyBool b)\<rparr>"

lemma edgeFiredFor_bool:
  "edgeFiredFor (Some (CtyBool b)) (Some (ready_wire m p)) = (edgeFired p b m, Some (ready_wire m b))"
  by (simp add: edgeFiredFor_def evalBool_def ready_wire_def)

lemma edgeFiredFor_None [simp]: "edgeFiredFor ev None = (False, None)"
  by (simp add: edgeFiredFor_def)

lemma toggle_step:
  assumes "t_wired m p f" and "feedsToggle s"
  shows "t_wired m b (fst (onSourceChanged s (toggle_value b :: 'n wire_values) f)) \<and>
         rawInput (ff_sm (fst (onSourceChanged s (toggle_value b :: 'n wire_values) f))) =
           (rawInput (ff_sm f) \<noteq> edgeFired p b m)"
  using assms
  by (auto simp: t_wired_def onSourceChanged_raw onSourceChanged_wires recomputeLocked_def eval_gate_def
      toggle_value_def edgeFiredFor_bool Let_def case_prod_beta)

lemma toggle_run:
  "t_wired m p f \<Longrightarrow> feedsToggle s \<Longrightarrow>
     rawInput (ff_sm (fst (run_ops (onSourceChanged s) (map (toggle_value :: bool \<Rightarrow> 'n wire_values) bs) f)))
       = (rawInput (ff_sm f) \<noteq> odd (fired_count m p bs))"
proof (induction bs arbitrary: p f)
  case (Cons b bs)
  from toggle_step[OF Cons.prems, of b, where ?'n = 'n] show ?case using Cons.IH[of b] Cons.prems(2) by auto
qed simp

text \<open>A T flip-flop counts edges modulo two: after any sequence of values on its toggle wire
  the machine's input has flipped once for every edge of the configured kind.\<close>

theorem t_flipflop_parity:
  assumes "t_wired m p f" and "feedsToggle s"
  shows "rawInput (ff_sm (fst (run_ops (onSourceChanged s) (map (toggle_value :: bool \<Rightarrow> 'n wire_values) bs) f)))
           = (rawInput (ff_sm f) \<noteq> odd (fired_count m p bs))"
  using assms by (rule toggle_run)

theorem t_flipflop_parity_witness:
  "rawInput (ff_sm (fst (run_ops (onSourceChanged (mark RoleToggle (new_source (0::nat))))
      (map (toggle_value :: bool \<Rightarrow> int wire_values) [True, False, True, True, False, True])
      (bare_flipflop\<lparr>ff_toggleWire := Some (ready_wire edgeRising False)\<rparr>))))"
  by (subst t_flipflop_parity[where m = edgeRising and p = False])
     (simp_all add: t_wired_def bare_flipflop_def NewStateMachine_def edgeFired_def)

text \<open>The D flip-flop: the output takes the sampled level at each edge of the gate and holds it
  in between.\<close>

fun d_flipflop :: "edgeMode \<Rightarrow> bool \<Rightarrow> bool \<Rightarrow> (bool \<times> bool) list \<Rightarrow> bool" where
  "d_flipflop m p q [] = q"
| "d_flipflop m p q ((g, d) # xs) = d_flipflop m g (if edgeFired p g m then d else q) xs"

text \<open>The D latch: the output follows the level while the gate is asserted and holds it otherwise.\<close>

fun d_latch :: "bool \<Rightarrow> (bool \<times> bool) list \<Rightarrow> bool" where
  "d_latch q [] = q"
| "d_latch q ((g, d) # xs) = d_latch (if g then d else q) xs"

definition d_wired :: "edgeMode \<Rightarrow> bool \<Rightarrow> 'w FlipflopCondition \<Rightarrow> bool" where
  "d_wired m p f \<longleftrightarrow> ff_setWire f = None \<and> ff_resetWire f = None \<and> ff_toggleWire f = None \<and>
     ff_hasSetFrom f \<and> ff_gateWire f = Some (ready_wire m p)"

definition gate_values :: "bool \<times> bool \<Rightarrow> 'n wire_values" where
  "gate_values gd = no_values\<lparr>wv_gate := Some (CtyBool (fst gd)), wv_setFrom := Some (CtyBool (snd gd))\<rparr>"

lemma evalBool_bool [simp]: "evalBool (Some (CtyBool b)) = Some b"
  by (simp add: evalBool_def)

lemma d_step:
  assumes "d_wired m p f" and "\<not> isLevel m" and "feedsGate s"
  shows "d_wired m g (fst (onSourceChanged s (gate_values (g, d) :: 'n wire_values) f)) \<and>
         rawInput (ff_sm (fst (onSourceChanged s (gate_values (g, d) :: 'n wire_values) f))) =
           (if edgeFired p g m then d else rawInput (ff_sm f))"
  using assms
  by (auto simp: d_wired_def onSourceChanged_raw onSourceChanged_wires recomputeLocked_def eval_gate_def
      gate_values_def ready_wire_def Let_def case_prod_beta)

lemma d_latch_step:
  assumes "d_wired levelHigh p f" and "feedsGate s" and "feedsSetFrom s"
  shows "d_wired levelHigh g (fst (onSourceChanged s (gate_values (g, d) :: 'n wire_values) f)) \<and>
         rawInput (ff_sm (fst (onSourceChanged s (gate_values (g, d) :: 'n wire_values) f))) =
           (if g then d else rawInput (ff_sm f))"
  using assms
  by (auto simp: d_wired_def onSourceChanged_raw onSourceChanged_wires recomputeLocked_def eval_gate_def
      gate_values_def ready_wire_def isLevel_def Let_def case_prod_beta)

lemma d_run:
  "d_wired m p f \<Longrightarrow> \<not> isLevel m \<Longrightarrow> feedsGate s \<Longrightarrow>
     rawInput (ff_sm (fst (run_ops (onSourceChanged s) (map (gate_values :: _ \<Rightarrow> 'n wire_values) xs) f)))
       = d_flipflop m p (rawInput (ff_sm f)) xs"
proof (induction xs arbitrary: p f)
  case (Cons x xs)
  obtain g d where x: "x = (g, d)" by (cases x)
  from d_step[OF Cons.prems, of g d, where ?'n = 'n] show ?case using Cons.IH[of g] Cons.prems(2,3) by (simp add: x)
qed simp

lemma d_latch_run:
  "d_wired levelHigh p f \<Longrightarrow> feedsGate s \<Longrightarrow> feedsSetFrom s \<Longrightarrow>
     rawInput (ff_sm (fst (run_ops (onSourceChanged s) (map (gate_values :: _ \<Rightarrow> 'n wire_values) xs) f)))
       = d_latch (rawInput (ff_sm f)) xs"
proof (induction xs arbitrary: p f)
  case (Cons x xs)
  obtain g d where x: "x = (g, d)" by (cases x)
  from d_latch_step[OF Cons.prems, of g d, where ?'n = 'n] show ?case using Cons.IH[of g] Cons.prems(2,3) by (simp add: x)
qed simp

text \<open>With a sampled level and an edge gate the code is a D flip-flop, with an active-high
  level gate a D latch: over any sequence of gate and level values the machine's input is what
  the textbook circuit holds.\<close>

theorem d_flipflop_refinement:
  assumes "d_wired m p f" and "m \<noteq> levelLow" and "feedsGate s" and "feedsSetFrom s"
  shows "rawInput (ff_sm (fst (run_ops (onSourceChanged s) (map (gate_values :: _ \<Rightarrow> 'n wire_values) xs) f)))
           = (if m = levelHigh then d_latch (rawInput (ff_sm f)) xs
              else d_flipflop m p (rawInput (ff_sm f)) xs)"
  using assms d_run[OF assms(1) _ assms(3)] d_latch_run[of p f s]
  by (auto simp: isLevel_def)

theorem d_flipflop_refinement_witness:
  "rawInput (ff_sm (fst (run_ops (onSourceChanged (mark RoleSetFrom (mark RoleGate (new_source (0::nat)))))
      (map (gate_values :: _ \<Rightarrow> int wire_values) [(False, True), (True, True), (True, False), (False, False)])
      (bare_flipflop\<lparr>ff_hasSetFrom := True, ff_gateWire := Some (ready_wire edgeRising False)\<rparr>))))"
  by (subst d_flipflop_refinement[where m = edgeRising and p = False])
     (simp_all add: d_wired_def bare_flipflop_def NewStateMachine_def edgeFired_def)

section \<open>Gate and boot\<close>

text \<open>Starting a flipflop reports no edge and leaves the output at its configured boot value,
  however its wires and gate evaluate, and the first evaluation of a wire without a baseline never
  fires; the wires that evaluate to a boolean then have their baseline.\<close>

theorem flipflop_boot:
  fixes f :: "'w FlipflopCondition" and env :: "'n wire_values"
  assumes "sm_state (ff_sm f) = StateInactive"
  shows "case Flipflop_Start (None :: 'n eval_result option) env f of
           (r, f', es) \<Rightarrow>
             r = Inr () \<and> es = [] \<and>
             Output (ff_sm f') = (StartActive (behavior (ff_sm f)) \<noteq> Invert (behavior (ff_sm f))) \<and>
             ff_setWire f' = snd (edgeFiredFor (wv_set env) (ff_setWire f)) \<and>
             (\<forall>w. \<not> wr_hasPrev w \<longrightarrow> \<not> fst (edgeFiredFor (wv_set env) (Some w)))"
proof -
  have "baseline (wv_set env) w = snd (edgeFiredFor (wv_set env) w)" for w
    by (simp add: baseline_def edgeFiredFor_def split: option.split)
  then show ?thesis
    using assms
    by (auto simp: Flipflop_Start_def Bootstrap_def Output_def outputLocked_def edgeFiredFor_def Let_def
        split: option.split)
qed

theorem flipflop_boot_witness:
  "snd (snd (Flipflop_Start (None :: int eval_result option)
      (no_values\<lparr>wv_set := Some (CtyBool True)\<rparr>)
      (bare_flipflop\<lparr>ff_setWire := Some \<lparr>wr_edge = edgeRising, wr_prev = False, wr_hasPrev = False\<rparr>\<rparr>
         :: nat FlipflopCondition))) = []"
proof -
  let ?f = "bare_flipflop\<lparr>ff_setWire := Some \<lparr>wr_edge = edgeRising, wr_prev = False, wr_hasPrev = False\<rparr>\<rparr>
         :: nat FlipflopCondition"
  have "sm_state (ff_sm ?f) = StateInactive" by (simp add: bare_flipflop_def NewStateMachine_def)
  from flipflop_boot[OF this, of "no_values\<lparr>wv_set := Some (CtyBool True :: int cty_value)\<rparr>"]
  show ?thesis by (simp add: case_prod_beta)
qed

section \<open>Source binding\<close>

fun feeds :: "wire_role \<Rightarrow> 'w flipflopSource \<Rightarrow> bool" where
  "feeds RoleSet s = feedsSet s"
| "feeds RoleReset s = feedsReset s"
| "feeds RoleToggle s = feedsToggle s"
| "feeds RoleGate s = feedsGate s"
| "feeds RoleSetFrom s = feedsSetFrom s"

text \<open>The watchables that feed a role in a list of sources.\<close>

definition fed_by :: "wire_role \<Rightarrow> 'w flipflopSource list \<Rightarrow> 'w set" where
  "fed_by r ss = {fs_watchable s | s. s \<in> set ss \<and> feeds r s}"

lemma mark_simps [simp]:
  "fs_watchable (mark r s) = fs_watchable s"
  "feeds r' (mark r s) = (r' = r \<or> feeds r' s)"
  by (cases r; cases r'; simp)+

lemma new_source_simps [simp]: "fs_watchable (new_source w) = w" "\<not> feeds r (new_source w)"
  by (simp add: new_source_def, cases r) (simp_all add: new_source_def)

lemma watchables_src_mark:
  "set (map fs_watchable (src_mark r w ss)) = insert w (set (map fs_watchable ss))"
  by (induction ss) auto

lemma distinct_src_mark:
  "distinct (map fs_watchable ss) \<Longrightarrow> distinct (map fs_watchable (src_mark r w ss))"
proof (induction ss)
  case (Cons s ss)
  then show ?case using watchables_src_mark[of r w ss] by (auto simp del: src_mark.simps(1))
qed simp

lemma fed_by_simps [simp]:
  "fed_by r [] = {}"
  "fed_by r (s # ss) = (if feeds r s then {fs_watchable s} else {}) \<union> fed_by r ss"
  by (auto simp: fed_by_def)

lemma fed_by_src_mark:
  "fed_by r' (src_mark r w ss) = fed_by r' ss \<union> (if r' = r then {w} else {})"
proof (induction ss)
  case (Cons s ss)
  then show ?case
    by (cases "fs_watchable s = w"; cases "r' = r"; cases "feeds r' s") simp_all
qed (cases "r' = r"; simp)

lemma distinct_bind: "distinct (map fs_watchable ss) \<Longrightarrow> distinct (map fs_watchable (bind_wire r ws ss))"
  unfolding bind_wire_def by (induction ws arbitrary: ss) (auto simp: distinct_src_mark)

lemma fed_by_bind: "fed_by r' (bind_wire r ws ss) = fed_by r' ss \<union> (if r' = r then set ws else {})"
  unfolding bind_wire_def by (induction ws arbitrary: ss) (auto simp: fed_by_src_mark)

definition role_expr :: "wire_role \<Rightarrow> 'e flipflopBody \<Rightarrow> 'e option" where
  "role_expr r body =
     (case r of RoleSet \<Rightarrow> fb_SetOn body | RoleReset \<Rightarrow> fb_ResetOn body | RoleToggle \<Rightarrow> fb_ToggleOn body
      | RoleGate \<Rightarrow> fb_GateOn body | RoleSetFrom \<Rightarrow> fb_SetFrom body)"

definition bound_sources :: "('e \<Rightarrow> 'w traversal list) \<Rightarrow> 'e flipflopBody \<Rightarrow> 'w flipflopSource list \<Rightarrow> bool" where
  "bound_sources refs body ss \<longleftrightarrow>
     distinct (map fs_watchable ss) \<and>
     (\<forall>r. fed_by r ss = set (fst (wire_sources refs (role_expr r body))))"

lemma bound_sources_bind:
  "bound_sources refs body
     (bind_wire RoleSetFrom (fst (wire_sources refs (fb_SetFrom body)))
       (bind_wire RoleGate (fst (wire_sources refs (fb_GateOn body)))
         (bind_wire RoleToggle (fst (wire_sources refs (fb_ToggleOn body)))
           (bind_wire RoleReset (fst (wire_sources refs (fb_ResetOn body)))
             (bind_wire RoleSet (fst (wire_sources refs (fb_SetOn body))) [])))))"
  unfolding bound_sources_def
  by (auto simp: distinct_bind fed_by_bind role_expr_def split: wire_role.split)

text \<open>A flipflop block is accepted only with a driven wire, a gate for a sampled level and no
  edge attribute without its wire; otherwise an error is reported and nothing is registered.
  The registered flipflop watches each referenced watchable once, and a watchable feeds a wire
  exactly if the wire's expression refers to it.\<close>

theorem flipflop_block_valid:
  fixes body :: "'e flipflopBody" and refs :: "'e \<Rightarrow> 'w traversal list"
  shows "case processFlipflopCondition pd refs clk name (ds, body) reg of
           (ds', reg') \<Rightarrow>
             if HasErrors ds' then reg' = reg
             else driven_wire_errors body = [] \<and> edge_attr_errors body = [] \<and>
                  (\<exists>f h. reg' = register name (f, h) (h \<noteq> None) reg \<and> bound_sources refs body (ff_sources f) \<and>
                         sm_state (ff_sm f) = StateInactive \<and> \<not> ff_desired f)"
proof -
  have e: "HasErrors (edge_attr_errors body) = (edge_attr_errors body \<noteq> [])"
    by (auto simp: edge_attr_errors_def)
  have d: "HasErrors (driven_wire_errors body) = (driven_wire_errors body \<noteq> [])"
    by (auto simp: driven_wire_errors_def)
  show ?thesis
    unfolding processFlipflopCondition_def
    using bound_sources_bind[of refs body]
    by (simp add: Let_def case_prod_beta e d)
       (intro impI exI conjI, rule refl, simp_all add: NewStateMachine_def)
qed

end
