(* ===== verification/Proc_Scope.thy ===== *)
theory Proc_Scope
  imports Vinculum_Prelude
begin

text \<open>
  The chained variable scopes of procedures (\<open>procedure/scope.go\<close>). A scope holds its own
  variables and the scope it is nested in. The interface \<open>scope_discipline\<close> is what the interpreter
  relies on: a block runs in a child scope, and leaving it gives back exactly the variables the
  enclosing scope had.
\<close>

datatype 'v Scope = Scope (vars: "string \<rightharpoonup> 'v") (parent: "'v Scope option")

definition NewScope :: "'v Scope option \<Rightarrow> 'v Scope" where
  "NewScope p = Scope Map.empty p"

fun Get :: "'v Scope \<Rightarrow> string \<Rightarrow> 'v option" where
  "Get (Scope vs None) name = vs name"
| "Get (Scope vs (Some p)) name = (case vs name of Some v \<Rightarrow> Some v | None \<Rightarrow> Get p name)"

fun isDiscard :: "string \<Rightarrow> bool" where
  "isDiscard [] = False"
| "isDiscard (c # cs) = (c = CHR ''_'')"

text \<open>The loop of \<open>Set\<close>: the nearest scope of the chain that has the name is updated.\<close>

fun set_nearest :: "'v Scope \<Rightarrow> string \<Rightarrow> 'v \<Rightarrow> 'v Scope option" where
  "set_nearest (Scope vs None) name val =
     (if vs name \<noteq> None then Some (Scope (vs(name \<mapsto> val)) None) else None)"
| "set_nearest (Scope vs (Some p)) name val =
     (if vs name \<noteq> None then Some (Scope (vs(name \<mapsto> val)) (Some p))
      else (case set_nearest p name val of
              Some p' \<Rightarrow> Some (Scope vs (Some p'))
            | None \<Rightarrow> None))"

definition Scope_Set :: "'v Scope \<Rightarrow> string \<Rightarrow> 'v \<Rightarrow> 'v Scope" where
  "Scope_Set s name val =
     (if isDiscard name then s
      else (case set_nearest s name val of
              Some s' \<Rightarrow> s'
            | None \<Rightarrow> Scope ((vars s)(name \<mapsto> val)) (parent s)))"

text \<open>\<open>collectInto\<close> writes the outer scopes first, so that inner ones take precedence.\<close>

fun collectInto :: "'v Scope \<Rightarrow> (string \<rightharpoonup> 'v) \<Rightarrow> (string \<rightharpoonup> 'v)" where
  "collectInto (Scope vs None) m = m ++ vs"
| "collectInto (Scope vs (Some p)) m = collectInto p m ++ vs"

definition ToMap :: "'v Scope \<Rightarrow> (string \<rightharpoonup> 'v)" where
  "ToMap s = collectInto s Map.empty"

text \<open>The names of every scope of the chain, and the scope a block is left to.\<close>

fun names :: "'v Scope \<Rightarrow> string set list" where
  "names (Scope vs None) = [dom vs]"
| "names (Scope vs (Some p)) = dom vs # names p"

definition leave :: "'v Scope \<Rightarrow> 'v Scope" where
  "leave s = (case parent s of Some p \<Rightarrow> p | None \<Rightarrow> s)"

section \<open>Lookup and assignment\<close>

lemma collectInto_Get: "collectInto s m x = (case Get s x of Some v \<Rightarrow> Some v | None \<Rightarrow> m x)"
  by (induction s m rule: collectInto.induct) (auto simp: map_add_def split: option.splits)

lemma ToMap_Get [simp]: "ToMap s = Get s"
  by (rule ext) (simp add: ToMap_def collectInto_Get split: option.splits)

lemma set_nearest_None: "set_nearest s x v = None \<longleftrightarrow> Get s x = None"
  by (induction s x v rule: set_nearest.induct) (auto split: option.splits)

lemma set_nearest_Get:
  "set_nearest s x v = Some s' \<Longrightarrow> Get s' = (Get s)(x \<mapsto> v)"
  by (induction s x v arbitrary: s' rule: set_nearest.induct)
     (auto split: if_splits option.splits simp: fun_eq_iff)

lemma set_nearest_names: "set_nearest s x v = Some s' \<Longrightarrow> names s' = names s"
  by (induction s x v arbitrary: s' rule: set_nearest.induct) (auto split: if_splits option.splits)

lemma Get_Set: "\<not> isDiscard x \<Longrightarrow> Get (Scope_Set s x v) = (Get s)(x \<mapsto> v)"
  by (cases s rule: names.cases)
     (auto simp: Scope_Set_def set_nearest_None fun_eq_iff dest: set_nearest_Get split: option.splits)

lemma Set_discard [simp]: "isDiscard x \<Longrightarrow> Scope_Set s x v = s"
  by (simp add: Scope_Set_def)

lemma Get_NewScope [simp]: "Get (NewScope (Some s)) = Get s"
  by (rule ext) (simp add: NewScope_def)

lemma leave_NewScope [simp]: "leave (NewScope (Some s)) = s"
  by (simp add: NewScope_def leave_def)

lemma names_not_Nil [simp]: "names s \<noteq> []"
  by (cases s rule: names.cases) auto

lemma names_Set:
  "tl (names (Scope_Set s x v)) = tl (names s) \<and> hd (names s) \<subseteq> hd (names (Scope_Set s x v))"
  by (cases s rule: names.cases) (auto simp: Scope_Set_def dest!: set_nearest_names split: option.splits)

lemma names_leave: "tl (names s) \<noteq> [] \<Longrightarrow> names (leave s) = tl (names s)"
  by (cases s rule: names.cases) (auto simp: leave_def)

section \<open>What a block keeps\<close>

text \<open>The interface between scopes and the statements run in them: \<open>grows\<close> relates a scope to
  what statements make of it, \<open>keeps\<close> relates it to what a whole block leaves.\<close>

locale scope_discipline =
  fixes enter :: "'s \<Rightarrow> 's"
    and leave :: "'s \<Rightarrow> 's"
    and assign :: "'s \<Rightarrow> string \<Rightarrow> 'v \<Rightarrow> 's"
    and grows :: "'s \<Rightarrow> 's \<Rightarrow> bool"
    and keeps :: "'s \<Rightarrow> 's \<Rightarrow> bool"
  assumes grows_trans: "grows a b \<Longrightarrow> grows b c \<Longrightarrow> grows a c"
    and keeps_refl: "keeps a a"
    and keeps_trans: "keeps a b \<Longrightarrow> keeps b c \<Longrightarrow> keeps a c"
    and keeps_grows: "keeps a b \<Longrightarrow> grows a b"
    and assign_grows: "grows a b \<Longrightarrow> grows a (assign b x v)"
    and leave_keeps: "grows (enter a) b \<Longrightarrow> keeps a (leave b)"
begin

lemma grows_refl: "grows a a"
  by (rule keeps_grows [OF keeps_refl])

lemma assign_step: "grows a (assign a x v)"
  by (rule assign_grows [OF grows_refl])

lemma block_keeps: "grows (assign (enter a) x v) b \<Longrightarrow> keeps a (leave b)"
  by (rule leave_keeps [OF grows_trans [OF assign_step]])

lemma assigns_keep: "keeps a (leave (fold (\<lambda>(x, v) s. assign s x v) xvs (enter a)))"
proof -
  have "grows b (fold (\<lambda>(x, v) s. assign s x v) xvs b)" for b
    by (induction xvs arbitrary: b) (auto intro: grows_refl grows_trans assign_step)
  then show ?thesis by (rule leave_keeps)
qed

end

definition scope_grows :: "'v Scope \<Rightarrow> 'v Scope \<Rightarrow> bool" where
  "scope_grows a b \<longleftrightarrow> tl (names a) = tl (names b) \<and> hd (names a) \<subseteq> hd (names b)"

definition scope_keeps :: "'v Scope \<Rightarrow> 'v Scope \<Rightarrow> bool" where
  "scope_keeps a b \<longleftrightarrow> names a = names b"

interpretation sc: scope_discipline "\<lambda>s. NewScope (Some s)" leave Scope_Set scope_grows scope_keeps
proof unfold_locales
  fix a b :: "'v Scope" and x v
  show "scope_grows a b \<Longrightarrow> scope_grows a (Scope_Set b x v)"
    using names_Set [of b x v] by (auto simp: scope_grows_def)
  assume "scope_grows (NewScope (Some a)) b"
  then have "tl (names b) = names a" by (simp add: scope_grows_def NewScope_def)
  then show "scope_keeps a (leave b)"
    using names_leave [of b] by (simp add: scope_keeps_def)
qed (auto simp: scope_grows_def scope_keeps_def)

section \<open>Properties\<close>

lemma names_None_Get: "Get s x = None \<longleftrightarrow> (\<forall>N \<in> set (names s). x \<notin> N)"
  by (induction s x rule: Get.induct) (auto split: option.splits)

lemma Get_leave_Set:
  "Get s x \<noteq> None \<Longrightarrow> \<not> isDiscard x \<Longrightarrow>
     Get (leave (Scope_Set (NewScope (Some s)) x v)) x = Some v"
  by (auto simp: Scope_Set_def NewScope_def leave_def set_nearest_None dest: set_nearest_Get
      split: option.splits)

text \<open>An assignment changes what is looked up for its name and for no other, a name that starts
  with an underscore is discarded, and the flattened map an expression sees is what lookup finds,
  with inner scopes first. A block entered with any assignments inside leaves the enclosing scope
  with exactly the names it had: a name unknown outside stays unknown, and a name known outside has
  the value assigned last inside.\<close>

lemma scope_semantics:
  "Get (Scope_Set s x v) = (if isDiscard x then Get s else (Get s)(x \<mapsto> v)) \<and>
   ToMap s = Get s \<and>
   names (leave (fold (\<lambda>(y, w) t. Scope_Set t y w) yws (NewScope (Some s)))) = names s \<and>
   (Get s x = None \<longrightarrow>
      Get (leave (fold (\<lambda>(y, w) t. Scope_Set t y w) yws (NewScope (Some s)))) x = None) \<and>
   (Get s x \<noteq> None \<and> \<not> isDiscard x \<longrightarrow>
      Get (leave (Scope_Set (NewScope (Some s)) x v)) x = Some v)"
proof -
  have keep: "names (leave (fold (\<lambda>(y, w) t. Scope_Set t y w) yws (NewScope (Some s)))) = names s"
    using sc.assigns_keep [of s yws] by (simp add: scope_keeps_def)
  moreover have "Get s x = None \<longrightarrow>
      Get (leave (fold (\<lambda>(y, w) t. Scope_Set t y w) yws (NewScope (Some s)))) x = None"
    unfolding names_None_Get keep by (rule impI)
  ultimately show ?thesis by (simp add: Get_Set Get_leave_Set)
qed

lemma scope_semantics_witness:
  "Get (leave (Scope_Set (NewScope (Some (Scope [''x'' \<mapsto> (1::nat)] None))) ''x'' 2)) ''x'' = Some 2 \<and>
   Get (leave (fold (\<lambda>(y, w) t. Scope_Set t y w) [(''y'', 3)]
          (NewScope (Some (Scope [''x'' \<mapsto> (1::nat)] None))))) ''y'' = None"
  using scope_semantics [of "Scope [''x'' \<mapsto> (1::nat)] None" "''x''" 2 "[]"]
    scope_semantics [of "Scope [''x'' \<mapsto> (1::nat)] None" "''y''" 2 "[(''y'', 3)]"]
  by simp

end
