(* ===== verification/Proc_Interp.thy ===== *)
theory Proc_Interp
  imports Proc_Scope
begin

text \<open>
  The statements of a compiled procedure (\<open>procedure/ir.go\<close>), the control-flow signals
  (\<open>procedure/signal.go\<close>) and the interpreter (\<open>procedure/interpreter.go\<close>). Expression evaluation
  and values belong to HCL and cty and are the fields of the record \<open>hcl_api\<close>; evaluating an
  expression may change the world outside the procedure, which is passed along. A \<open>while\<close> loop may
  run forever, so the interpreter takes fuel, which only iterations of \<open>while\<close> use up.
\<close>

section \<open>Statements and signals\<close>

text \<open>A nil slice of statements is the empty list: the compiler never makes an empty slice that is
  not nil. Source ranges, which only diagnostics use, are left out.\<close>

datatype 'e Statement =
    Assignment string 'e
  | Return 'e
  | IfChain "'e CondBranch list" "'e Statement list"
  | While 'e "'e Statement list"
  | Break 'e
  | Continue 'e
  | Range string 'e "'e Statement list"
  | Switch 'e "'e Case list" "'e Statement list"
and 'e CondBranch = CondBranch 'e "'e Statement list"
and 'e Case = Case 'e "'e Statement list"

datatype SignalKind = SignalNone | SignalReturn | SignalBreak | SignalContinue

record 'v Signal =
  Kind :: SignalKind
  SigValue :: 'v

section \<open>What the interpreter uses of HCL and cty\<close>

record ('f, 'v) EvalContext =
  Variables :: "string \<rightharpoonup> 'v"
  Functions :: "'f option"

datatype collection = Sequence | Keyed | NotCollection

text \<open>\<open>None\<close> as the result of \<open>Value\<close>, \<open>True\<close> or an iteration is a panic of the library.\<close>

record ('e, 'f, 'v, 'w) hcl_api =
  expr_value :: "'e \<Rightarrow> ('f, 'v) EvalContext \<Rightarrow> 'w \<Rightarrow> ('v \<times> diag list) option \<times> 'w"
  is_true :: "'v \<Rightarrow> bool option"
  equals :: "'v \<Rightarrow> 'v \<Rightarrow> 'v"
  collection_type :: "'v \<Rightarrow> collection"
  elements :: "'v \<Rightarrow> ('v \<times> 'v) list option"
  entry_object :: "'v \<Rightarrow> 'v \<Rightarrow> 'v"
  NilVal :: 'v
  NullVal :: 'v

definition scopeEvalContext :: "'v Scope \<Rightarrow> ('f, 'v) EvalContext option \<Rightarrow> ('f, 'v) EvalContext" where
  "scopeEvalContext scope parentCtx =
     (case parentCtx of
        None \<Rightarrow> \<lparr>Variables = ToMap scope, Functions = None\<rparr>
      | Some c \<Rightarrow> \<lparr>Variables = Variables c ++ ToMap scope, Functions = Functions c\<rparr>)"

section \<open>Outcomes\<close>

text \<open>A step returns a value, stops with diagnostics, panics, or has run out of fuel; the state is
  the current scope and the world.\<close>

datatype 'a outcome = Done 'a | Diags "diag list" | Panic | OutOfFuel

type_synonym ('s, 'a) step = "'s \<Rightarrow> 'a outcome \<times> 's"

definition done_with :: "'a \<Rightarrow> ('s, 'a) step" where
  "done_with a s = (Done a, s)"

definition and_then :: "('s, 'a) step \<Rightarrow> ('a \<Rightarrow> ('s, 'b) step) \<Rightarrow> ('s, 'b) step" where
  "and_then f k s =
     (case f s of
        (Done a, s') \<Rightarrow> k a s'
      | (Diags d, s') \<Rightarrow> (Diags d, s')
      | (Panic, s') \<Rightarrow> (Panic, s')
      | (OutOfFuel, s') \<Rightarrow> (OutOfFuel, s'))"

definition or_panic :: "'a option \<Rightarrow> ('s, 'a) step" where
  "or_panic r s = (case r of Some a \<Rightarrow> (Done a, s) | None \<Rightarrow> (Panic, s))"

text \<open>Evaluate an expression: diagnostics that hold an error end the step, others are dropped.\<close>

definition eval_in ::
  "('e, 'f, 'v, 'w) hcl_api \<Rightarrow> ('f, 'v) EvalContext \<Rightarrow> 'e \<Rightarrow> ('v Scope \<times> 'w, 'v) step" where
  "eval_in A c e = (\<lambda>(sc, w).
     (case expr_value A e c w of
        (None, w') \<Rightarrow> (Panic, (sc, w'))
      | (Some (v, ds), w') \<Rightarrow> (if HasErrors ds then Diags ds else Done v, (sc, w'))))"

text \<open>Go on with the context built from the current scope.\<close>

definition with_context ::
  "('f, 'v) EvalContext option \<Rightarrow> (('f, 'v) EvalContext \<Rightarrow> ('v Scope \<times> 'w, 'a) step) \<Rightarrow>
     ('v Scope \<times> 'w, 'a) step" where
  "with_context ctx g = (\<lambda>(sc, w). g (scopeEvalContext sc ctx) (sc, w))"

definition eval_here ::
  "('e, 'f, 'v, 'w) hcl_api \<Rightarrow> ('f, 'v) EvalContext option \<Rightarrow> 'e \<Rightarrow> ('v Scope \<times> 'w, 'v) step" where
  "eval_here A ctx e = with_context ctx (\<lambda>c. eval_in A c e)"

definition eval_cond ::
  "('e, 'f, 'v, 'w) hcl_api \<Rightarrow> ('f, 'v) EvalContext option \<Rightarrow> 'e \<Rightarrow> ('v Scope \<times> 'w, bool) step" where
  "eval_cond A ctx e = and_then (eval_here A ctx e) (\<lambda>v. or_panic (is_true A v))"

definition assign :: "string \<Rightarrow> 'v \<Rightarrow> ('v Scope \<times> 'w, unit) step" where
  "assign x v = (\<lambda>(sc, w). (Done (), (Scope_Set sc x v, w)))"

text \<open>Run a body in a new child scope, which is dropped when the body is left.\<close>

definition in_child :: "('v Scope \<times> 'w, 'a) step \<Rightarrow> ('v Scope \<times> 'w, 'a) step" where
  "in_child f = (\<lambda>(sc, w).
     case f (NewScope (Some sc), w) of (r, (sc', w')) \<Rightarrow> (r, (leave sc', w')))"

text \<open>The items a \<open>range\<close> loop iterates over.\<close>

definition range_items :: "('e, 'f, 'v, 'w) hcl_api \<Rightarrow> 'v \<Rightarrow> ('s, 'v list) step" where
  "range_items A v =
     (case collection_type A v of
        Sequence \<Rightarrow> and_then (or_panic (elements A v)) (\<lambda>kvs. done_with (map snd kvs))
      | Keyed \<Rightarrow> and_then (or_panic (elements A v))
                   (\<lambda>kvs. done_with (map (\<lambda>(k, x). entry_object A k x) kvs))
      | NotCollection \<Rightarrow> (\<lambda>s. (Diags [DiagError ''Invalid range collection''], s)))"

text \<open>What a loop does with the signal of its body: leave, go on with \<open>next\<close>, or pass it up.\<close>

definition loop_signal :: "'v Signal option \<Rightarrow> ('s, 'v Signal option) step \<Rightarrow> ('s, 'v Signal option) step" where
  "loop_signal sig next =
     (case sig of
        None \<Rightarrow> next
      | Some g \<Rightarrow> (case Kind g of
          SignalBreak \<Rightarrow> done_with None
        | SignalContinue \<Rightarrow> next
        | SignalReturn \<Rightarrow> done_with (Some g)
        | SignalNone \<Rightarrow> next))"

section \<open>The interpreter\<close>

function (sequential)
  Execute :: "('e, 'f, 'v, 'w) hcl_api \<Rightarrow> ('f, 'v) EvalContext option \<Rightarrow> nat \<Rightarrow> 'e Statement list \<Rightarrow>
    ('v Scope \<times> 'w, 'v \<times> 'v Signal option) step"
and executeStatement :: "('e, 'f, 'v, 'w) hcl_api \<Rightarrow> ('f, 'v) EvalContext option \<Rightarrow> nat \<Rightarrow> 'e Statement \<Rightarrow>
    ('v Scope \<times> 'w, 'v Signal option) step"
and executeIfChain :: "('e, 'f, 'v, 'w) hcl_api \<Rightarrow> ('f, 'v) EvalContext option \<Rightarrow> nat \<Rightarrow>
    'e CondBranch list \<Rightarrow> 'e Statement list \<Rightarrow> ('v Scope \<times> 'w, 'v Signal option) step"
and executeCases :: "('e, 'f, 'v, 'w) hcl_api \<Rightarrow> ('f, 'v) EvalContext option \<Rightarrow> nat \<Rightarrow>
    ('f, 'v) EvalContext \<Rightarrow> 'v \<Rightarrow> 'e Case list \<Rightarrow> 'e Statement list \<Rightarrow>
    ('v Scope \<times> 'w, 'v Signal option) step"
and executeWhile :: "('e, 'f, 'v, 'w) hcl_api \<Rightarrow> ('f, 'v) EvalContext option \<Rightarrow> nat \<Rightarrow>
    'e \<Rightarrow> 'e Statement list \<Rightarrow> ('v Scope \<times> 'w, 'v Signal option) step"
and executeItems :: "('e, 'f, 'v, 'w) hcl_api \<Rightarrow> ('f, 'v) EvalContext option \<Rightarrow> nat \<Rightarrow>
    string \<Rightarrow> 'v list \<Rightarrow> 'e Statement list \<Rightarrow> ('v Scope \<times> 'w, 'v Signal option) step"
where
  "Execute A ctx n [] = done_with (NullVal A, None)"
| "Execute A ctx n (stmt # stmts) =
     and_then (executeStatement A ctx n stmt) (\<lambda>sig.
       case sig of
         None \<Rightarrow> Execute A ctx n stmts
       | Some g \<Rightarrow> (if Kind g \<noteq> SignalNone then done_with (SigValue g, Some g)
                     else Execute A ctx n stmts))"
| "executeStatement A ctx n (Assignment x e) =
     and_then (eval_here A ctx e) (\<lambda>v. and_then (assign x v) (\<lambda>_. done_with None))"
| "executeStatement A ctx n (Break e) =
     and_then (eval_cond A ctx e) (\<lambda>b.
       done_with (if b then Some \<lparr>Kind = SignalBreak, SigValue = NilVal A\<rparr> else None))"
| "executeStatement A ctx n (Continue e) =
     and_then (eval_cond A ctx e) (\<lambda>b.
       done_with (if b then Some \<lparr>Kind = SignalContinue, SigValue = NilVal A\<rparr> else None))"
| "executeStatement A ctx n (IfChain branches els) = executeIfChain A ctx n branches els"
| "executeStatement A ctx n (Range x e body) =
     and_then (eval_here A ctx e) (\<lambda>v. and_then (range_items A v) (\<lambda>items.
       executeItems A ctx n x items body))"
| "executeStatement A ctx n (Return e) =
     and_then (eval_here A ctx e) (\<lambda>v. done_with (Some \<lparr>Kind = SignalReturn, SigValue = v\<rparr>))"
| "executeStatement A ctx n (Switch e cases dflt) =
     with_context ctx (\<lambda>c. and_then (eval_in A c e) (\<lambda>v. executeCases A ctx n c v cases dflt))"
| "executeStatement A ctx n (While e body) = executeWhile A ctx n e body"
| "executeIfChain A ctx n [] els =
     (if els \<noteq> [] then and_then (in_child (Execute A ctx n els)) (\<lambda>(_, sig). done_with sig)
      else done_with None)"
| "executeIfChain A ctx n (CondBranch e body # branches) els =
     and_then (eval_cond A ctx e) (\<lambda>b.
       if b then and_then (in_child (Execute A ctx n body)) (\<lambda>(_, sig). done_with sig)
       else executeIfChain A ctx n branches els)"
| "executeCases A ctx n ectx v [] dflt =
     (if dflt \<noteq> [] then and_then (in_child (Execute A ctx n dflt)) (\<lambda>(_, sig). done_with sig)
      else done_with None)"
| "executeCases A ctx n ectx v (Case e body # cases) dflt =
     and_then (eval_in A ectx e) (\<lambda>cv.
       and_then (or_panic (is_true A (equals A v cv))) (\<lambda>b.
         if b then and_then (in_child (Execute A ctx n body)) (\<lambda>(_, sig). done_with sig)
         else executeCases A ctx n ectx v cases dflt))"
| "executeWhile A ctx 0 e body = (\<lambda>s. (OutOfFuel, s))"
| "executeWhile A ctx (Suc n) e body =
     and_then (eval_cond A ctx e) (\<lambda>b.
       if \<not> b then done_with None
       else and_then (in_child (Execute A ctx n body)) (\<lambda>(_, sig).
              loop_signal sig (executeWhile A ctx n e body)))"
| "executeItems A ctx n x [] body = done_with None"
| "executeItems A ctx n x (item # items) body =
     and_then (in_child (and_then (assign x item) (\<lambda>_. Execute A ctx n body))) (\<lambda>(_, sig).
       loop_signal sig (executeItems A ctx n x items body))"
  by pat_completeness auto

text \<open>Calls go to smaller statements, to fewer items of a \<open>range\<close>, or use up fuel.\<close>

termination
  by (relation "inv_image (less_than <*lex*> less_than <*lex*> less_than) (\<lambda>x. case x of
        Inl (Inl (_, _, n, ss)) \<Rightarrow> (n, size_list size ss, 0)
      | Inl (Inr (Inl (_, _, n, s))) \<Rightarrow> (n, size s, 0)
      | Inl (Inr (Inr (_, _, n, bs, els))) \<Rightarrow> (n, size_list size bs + size_list size els, 1)
      | Inr (Inl (_, _, n, _, _, cs, dflt)) \<Rightarrow> (n, size_list size cs + size_list size dflt, 1)
      | Inr (Inr (Inl (_, _, n, _, ss))) \<Rightarrow> (n, size_list size ss, 1)
      | Inr (Inr (Inr (_, _, n, _, items, ss))) \<Rightarrow> (n, size_list size ss, Suc (length items)))")
    auto

section \<open>Reasoning about steps\<close>

named_theorems step_rules \<open>rules that follow the structure of steps\<close>

text \<open>\<open>yields\<close>: what a step returns when it returns. \<open>moves\<close>: how it changes the state, however it
  ends. \<open>ends\<close>: it never runs out of fuel. \<open>agrees\<close>: the second step does what the first does
  whenever the first has enough fuel.\<close>

definition yields :: "('a \<Rightarrow> bool) \<Rightarrow> ('s, 'a) step \<Rightarrow> bool" where
  "yields P f \<longleftrightarrow> (\<forall>s a. fst (f s) = Done a \<longrightarrow> P a)"

definition moves :: "('s \<Rightarrow> 's \<Rightarrow> bool) \<Rightarrow> ('s, 'a) step \<Rightarrow> bool" where
  "moves R f \<longleftrightarrow> (\<forall>s. R s (snd (f s)))"

definition ends :: "('s, 'a) step \<Rightarrow> bool" where
  "ends f \<longleftrightarrow> (\<forall>s. fst (f s) \<noteq> OutOfFuel)"

definition agrees :: "('s, 'a) step \<Rightarrow> ('s, 'a) step \<Rightarrow> bool" where
  "agrees f g \<longleftrightarrow> (\<forall>s. fst (f s) \<noteq> OutOfFuel \<longrightarrow> g s = f s)"

lemma yieldsD: "yields P f \<Longrightarrow> fst (f s) = Done a \<Longrightarrow> P a"
  unfolding yields_def by blast

lemma movesD: "moves R f \<Longrightarrow> R s (snd (f s))"
  unfolding moves_def by blast

lemma endsD: "ends f \<Longrightarrow> fst (f s) \<noteq> OutOfFuel"
  unfolding ends_def by blast

lemma agreesD: "agrees f g \<Longrightarrow> fst (f s) \<noteq> OutOfFuel \<Longrightarrow> g s = f s"
  unfolding agrees_def by blast

lemma and_then_cases:
  obtains (Done) a s' where "f s = (Done a, s')" "and_then f k s = k a s'"
  | (Stop) r where "\<And>a. fst (f s) \<noteq> Done a" "and_then f k s = (r, snd (f s))" "\<And>a. r \<noteq> Done a"
      "r = OutOfFuel \<longleftrightarrow> fst (f s) = OutOfFuel"
proof (cases "f s")
  case (Pair r s')
  then show ?thesis
    by (cases r) (auto simp: and_then_def intro: Done Stop)
qed

lemma yields_done [step_rules]: "P a \<Longrightarrow> yields P (done_with a)"
  by (simp add: yields_def done_with_def)

lemma yields_and_then:
  assumes "yields P f" and "\<And>a. P a \<Longrightarrow> yields Q (k a)"
  shows "yields Q (and_then f k)"
proof (unfold yields_def, intro allI impI)
  fix s b
  assume *: "fst (and_then f k s) = Done b"
  show "Q b"
  proof (cases rule: and_then_cases [of f s k])
    case (Done a s')
    then show ?thesis
      using * assms by (metis fst_conv yields_def)
  qed (use * in auto)
qed

lemma yields_True: "yields (\<lambda>_. True) f"
  by (simp add: yields_def)

lemma yields_after [step_rules]: "(\<And>a. yields Q (k a)) \<Longrightarrow> yields Q (and_then f k)"
  by (rule yields_and_then [OF yields_True])

lemma in_child_eq:
  "in_child f s = (case s of (sc, w) \<Rightarrow>
     (fst (f (NewScope (Some sc), w)),
      (leave (fst (snd (f (NewScope (Some sc), w)))), snd (snd (f (NewScope (Some sc), w))))))"
  by (simp add: in_child_def split: prod.splits)

lemma yields_in_child [step_rules]: "yields P f \<Longrightarrow> yields P (in_child f)"
  by (auto simp: yields_def in_child_eq)

lemma moves_done [step_rules]: "(\<And>s. R s s) \<Longrightarrow> moves R (done_with a)"
  by (simp add: moves_def done_with_def)

lemma moves_and_then:
  assumes "\<And>x y z. R x y \<Longrightarrow> R y z \<Longrightarrow> R x z" and "moves R f" and "\<And>a. moves R (k a)"
  shows "moves R (and_then f k)"
  unfolding moves_def
proof
  fix s
  show "R s (snd (and_then f k s))"
  proof (cases rule: and_then_cases [of f s k])
    case (Done a s')
    then have "R s s'" using assms(2) by (metis moves_def snd_conv)
    then show ?thesis using assms(1,3) Done by (auto simp: moves_def)
  next
    case (Stop r)
    then show ?thesis using assms(2) by (simp add: moves_def)
  qed
qed

lemma ends_done [step_rules]: "ends (done_with a)"
  by (simp add: ends_def done_with_def)

lemma ends_and_then [step_rules]:
  assumes "ends f" and "\<And>a. ends (k a)"
  shows "ends (and_then f k)"
  unfolding ends_def
proof
  fix s
  show "fst (and_then f k s) \<noteq> OutOfFuel"
    by (cases rule: and_then_cases [of f s k]) (use assms in \<open>auto simp: ends_def\<close>)
qed

lemma ends_in_child [step_rules]: "ends f \<Longrightarrow> ends (in_child f)"
  by (auto simp: ends_def in_child_eq)

lemma agrees_refl [step_rules]: "agrees f f"
  by (simp add: agrees_def)

lemma agrees_and_then [step_rules]:
  assumes "agrees f g" and "\<And>a. agrees (k a) (l a)"
  shows "agrees (and_then f k) (and_then g l)"
  unfolding agrees_def
proof (intro allI impI)
  fix s
  assume *: "fst (and_then f k s) \<noteq> OutOfFuel"
  then have "fst (f s) \<noteq> OutOfFuel"
    by (cases rule: and_then_cases [of f s k]) auto
  then have "g s = f s" using assms(1) by (simp add: agrees_def)
  then show "and_then g l s = and_then f k s"
    using * assms(2) by (simp add: and_then_def agrees_def split: prod.splits outcome.splits)
qed

lemma agrees_in_child [step_rules]: "agrees f g \<Longrightarrow> agrees (in_child f) (in_child g)"
  by (auto simp: agrees_def in_child_eq)

lemma with_context_rules [step_rules]:
  "(\<And>c. yields P (f c)) \<Longrightarrow> yields P (with_context ctx f)"
  "(\<And>c. moves R (f c)) \<Longrightarrow> moves R (with_context ctx f)"
  "(\<And>c. ends (f c)) \<Longrightarrow> ends (with_context ctx f)"
  "(\<And>c. agrees (f c) (g c)) \<Longrightarrow> agrees (with_context ctx f) (with_context ctx g)"
  by (auto simp: with_context_def yields_def moves_def ends_def agrees_def)

lemma loop_signal_rule:
  "P (done_with None) \<Longrightarrow> (\<And>g. sig = Some g \<Longrightarrow> Kind g = SignalReturn \<Longrightarrow> P (done_with (Some g))) \<Longrightarrow>
   P next \<Longrightarrow> P (loop_signal sig next)"
  by (simp add: loop_signal_def split: option.split SignalKind.split)

lemma agrees_loop_signal [step_rules]: "agrees f g \<Longrightarrow> agrees (loop_signal sig f) (loop_signal sig g)"
  by (simp add: loop_signal_def agrees_refl split: option.split SignalKind.split)

lemma ends_or_panic [step_rules]: "ends (or_panic r)"
  by (simp add: ends_def or_panic_def split: option.split)

lemma ends_eval_in [step_rules]: "ends (eval_in A c e)"
  by (auto simp: ends_def eval_in_def split: prod.split option.split)

lemma ends_eval_here [step_rules]: "ends (eval_here A ctx e)"
  unfolding eval_here_def by (intro step_rules)

lemma ends_eval_cond [step_rules]: "ends (eval_cond A ctx e)"
  unfolding eval_cond_def by (intro step_rules)

lemma ends_assign [step_rules]: "ends (assign x v)"
  by (simp add: ends_def assign_def)

lemma ends_range_items [step_rules]: "ends (range_items A v)"
  unfolding range_items_def
  by (cases "collection_type A v") (auto intro!: step_rules, simp add: ends_def)

section \<open>Fuel\<close>

lemma more_fuel_all:
  fixes A :: "('e, 'f, 'v, 'w) hcl_api"
  shows "agrees (Execute A ctx n ss) (Execute A ctx (n + m) ss)"
    and "agrees (executeStatement A ctx n s) (executeStatement A ctx (n + m) s)"
    and "agrees (executeIfChain A ctx n bs els) (executeIfChain A ctx (n + m) bs els)"
    and "agrees (executeCases A ctx n c v cs dflt) (executeCases A ctx (n + m) c v cs dflt)"
    and "agrees (executeWhile A ctx n e body) (executeWhile A ctx (n + m) e body)"
    and "agrees (executeItems A ctx n x items body) (executeItems A ctx (n + m) x items body)"
proof (induction A ctx n ss and A ctx n s and A ctx n bs els and A ctx n c v cs dflt
    and A ctx n e body and A ctx n x items body
    rule: Execute_executeStatement_executeIfChain_executeCases_executeWhile_executeItems.induct)
  case (15 A ctx e body)
  then show ?case by (simp add: agrees_def)
qed (simp_all add: step_rules split: option.split prod.split)

fun while_free :: "'e Statement \<Rightarrow> bool" and
  branch_while_free :: "'e CondBranch \<Rightarrow> bool" and
  case_while_free :: "'e Case \<Rightarrow> bool" where
  "while_free (While e body) = False"
| "while_free (IfChain bs els) = (list_all branch_while_free bs \<and> list_all while_free els)"
| "while_free (Switch e cs dflt) = (list_all case_while_free cs \<and> list_all while_free dflt)"
| "while_free (Range x e body) = list_all while_free body"
| "while_free _ = True"
| "branch_while_free (CondBranch e body) = list_all while_free body"
| "case_while_free (Case e body) = list_all while_free body"

lemma while_free_ends:
  fixes A :: "('e, 'f, 'v, 'w) hcl_api"
  shows "list_all while_free ss \<Longrightarrow> ends (Execute A ctx n ss)"
    and "while_free s \<Longrightarrow> ends (executeStatement A ctx n s)"
    and "list_all branch_while_free bs \<and> list_all while_free els \<Longrightarrow> ends (executeIfChain A ctx n bs els)"
    and "list_all case_while_free cs \<and> list_all while_free dflt \<Longrightarrow> ends (executeCases A ctx n c v cs dflt)"
    and "agrees (executeWhile A ctx n e bdy) (executeWhile A ctx n e bdy)"
    and "list_all while_free body \<Longrightarrow> ends (executeItems A ctx n x items body)"
proof (induction A ctx n ss and A ctx n s and A ctx n bs els and A ctx n c v cs dflt
    and A ctx n e bdy and A ctx n x items body
    rule: Execute_executeStatement_executeIfChain_executeCases_executeWhile_executeItems.induct)
  case (18 A ctx n x item items body)
  then show ?case
    by (simp add: step_rules loop_signal_rule [where P = ends] split: prod.split)
qed (simp_all add: step_rules split: option.split prod.split)

section \<open>Scopes during execution\<close>

definition grows :: "'v Scope \<times> 'w \<Rightarrow> 'v Scope \<times> 'w \<Rightarrow> bool" where
  "grows s s' = scope_grows (fst s) (fst s')"

definition keeps :: "'v Scope \<times> 'w \<Rightarrow> 'v Scope \<times> 'w \<Rightarrow> bool" where
  "keeps s s' = scope_keeps (fst s) (fst s')"

lemma moves_keeps_grows: "moves keeps f \<Longrightarrow> moves grows f"
  by (auto simp: moves_def keeps_def grows_def intro: sc.keeps_grows)

lemma keeps_steps [step_rules]:
  "moves keeps (done_with a)" "moves keeps (or_panic r)" "moves keeps (eval_in A c e)"
  by (auto simp: moves_def keeps_def done_with_def or_panic_def eval_in_def sc.keeps_refl
      split: option.split prod.split)

lemma keeps_and_then [step_rules]:
  "moves keeps f \<Longrightarrow> (\<And>a. moves keeps (k a)) \<Longrightarrow> moves keeps (and_then f k)"
  by (rule moves_and_then) (auto simp: keeps_def intro: sc.keeps_trans)

lemma grows_and_then:
  "moves grows f \<Longrightarrow> (\<And>a. moves grows (k a)) \<Longrightarrow> moves grows (and_then f k)"
  by (rule moves_and_then) (auto simp: grows_def intro: sc.grows_trans)

lemma keeps_eval [step_rules]: "moves keeps (eval_here A ctx e)" "moves keeps (eval_cond A ctx e)"
  by (simp_all add: eval_here_def eval_cond_def step_rules)

lemma keeps_diags [step_rules]: "moves keeps (\<lambda>s. (Diags d, s))"
  by (simp add: moves_def keeps_def sc.keeps_refl)

lemma keeps_range_items [step_rules]: "moves keeps (range_items A v)"
  by (simp add: range_items_def step_rules split: collection.split)

lemma grows_assign: "moves grows (assign x v)"
  by (auto simp: moves_def grows_def assign_def intro: sc.assign_step)

lemma keeps_in_child [step_rules]: "moves grows f \<Longrightarrow> moves keeps (in_child f)"
  by (auto simp: moves_def grows_def keeps_def in_child_eq intro: sc.leave_keeps)

lemma execute_scopes:
  fixes A :: "('e, 'f, 'v, 'w) hcl_api"
  shows "moves grows (Execute A ctx n ss)"
    and "moves grows (executeStatement A ctx n s) \<and>
         ((\<forall>x e. s \<noteq> Assignment x e) \<longrightarrow> moves keeps (executeStatement A ctx n s))"
    and "moves keeps (executeIfChain A ctx n bs els)"
    and "moves keeps (executeCases A ctx n c v cs dflt)"
    and "moves keeps (executeWhile A ctx n e body)"
    and "moves keeps (executeItems A ctx n x items body)"
proof (induction A ctx n ss and A ctx n s and A ctx n bs els and A ctx n c v cs dflt
    and A ctx n e body and A ctx n x items body
    rule: Execute_executeStatement_executeIfChain_executeCases_executeWhile_executeItems.induct)
  case (2 A ctx n stmt stmts)
  then show ?case
    by (simp add: grows_and_then moves_keeps_grows keeps_steps split: option.split)
next
  case (3 A ctx n x e)
  then show ?case
    by (simp add: grows_and_then grows_assign moves_keeps_grows keeps_steps keeps_eval)
next
  case (15 A ctx e body)
  then show ?case by (simp add: moves_def keeps_def sc.keeps_refl)
next
  case (18 A ctx n x item items body)
  then show ?case
    by (simp add: step_rules loop_signal_rule [where P = "moves keeps"] grows_and_then grows_assign
        split: prod.split)
qed (simp_all add: step_rules moves_keeps_grows loop_signal_rule [where P = "moves keeps"]
      split: option.split prod.split)

section \<open>Signals\<close>

text \<open>No \<open>break\<close> or \<open>continue\<close> outside the loops of a statement.\<close>

fun no_jump :: "'e Statement \<Rightarrow> bool" and
  branch_no_jump :: "'e CondBranch \<Rightarrow> bool" and
  case_no_jump :: "'e Case \<Rightarrow> bool" where
  "no_jump (Break e) = False"
| "no_jump (Continue e) = False"
| "no_jump (IfChain bs els) = (list_all branch_no_jump bs \<and> list_all no_jump els)"
| "no_jump (Switch e cs dflt) = (list_all case_no_jump cs \<and> list_all no_jump dflt)"
| "no_jump _ = True"
| "branch_no_jump (CondBranch e body) = list_all no_jump body"
| "case_no_jump (Case e body) = list_all no_jump body"

definition only_return :: "'v Signal option \<Rightarrow> bool" where
  "only_return sig \<longleftrightarrow> (\<forall>g. sig = Some g \<longrightarrow> Kind g = SignalReturn)"

lemma only_return_simps [simp]:
  "only_return None" "only_return (Some g) \<longleftrightarrow> Kind g = SignalReturn"
  by (simp_all add: only_return_def)

lemma yields_body [step_rules]:
  "yields (\<lambda>(v, sig). P sig) f \<Longrightarrow> yields P (and_then (in_child f) (\<lambda>(_, sig). done_with sig))"
  by (rule yields_and_then [where P = "\<lambda>(v, sig). P sig"]) (auto intro: step_rules)

lemma no_jump_signals:
  fixes A :: "('e, 'f, 'v, 'w) hcl_api"
  shows "list_all no_jump ss \<Longrightarrow> yields (\<lambda>(v, sig). only_return sig) (Execute A ctx n ss)"
    and "no_jump s \<Longrightarrow> yields only_return (executeStatement A ctx n s)"
    and "list_all branch_no_jump bs \<and> list_all no_jump els \<Longrightarrow>
           yields only_return (executeIfChain A ctx n bs els)"
    and "list_all case_no_jump cs \<and> list_all no_jump dflt \<Longrightarrow>
           yields only_return (executeCases A ctx n c v cs dflt)"
    and "yields only_return (executeWhile A ctx n e body)"
    and "yields only_return (executeItems A ctx n x items body)"
proof (induction A ctx n ss and A ctx n s and A ctx n bs els and A ctx n c v cs dflt
    and A ctx n e body and A ctx n x items body
    rule: Execute_executeStatement_executeIfChain_executeCases_executeWhile_executeItems.induct)
  case (2 A ctx n stmt stmts)
  then show ?case
    by (auto intro!: yields_and_then [where P = only_return] yields_done split: option.split)
next
  case (15 A ctx e body)
  then show ?case by (simp add: yields_def)
qed (simp_all add: step_rules loop_signal_rule [where P = "yields only_return"]
      split: option.split prod.split)

section \<open>Properties\<close>

text \<open>A small instance of the library for examples: values are integers, an expression is a
  function of the variables, and evaluation counts itself in the world.\<close>

definition int_api :: "((string \<rightharpoonup> int) \<Rightarrow> int, unit, int, nat) hcl_api" where
  "int_api = \<lparr>
     expr_value = (\<lambda>e c w. (Some (e (Variables c), []), Suc w)),
     is_true = (\<lambda>v. Some (v \<noteq> 0)),
     equals = (\<lambda>a b. if a = b then 1 else 0),
     collection_type = (\<lambda>v. if v < 0 then NotCollection else Sequence),
     elements = (\<lambda>v. Some (map (\<lambda>i. (int i, int i)) [0..<nat v])),
     entry_object = (\<lambda>k v. v),
     NilVal = -1,
     NullVal = -2\<rparr>"

lemma int_api_eval [simp]:
  "expr_value int_api e c w = (Some (e (Variables c), []), Suc w)"
  by (simp add: int_api_def)

lemmas run_simps = and_then_def eval_here_def with_context_def eval_in_def eval_cond_def or_panic_def
  done_with_def assign_def in_child_def loop_signal_def range_items_def scopeEvalContext_def
  NewScope_def Scope_Set_def leave_def HasErrors_def int_api_def

text \<open>The result of a procedure does not depend on the fuel: with enough fuel more changes
  nothing, and statements without a \<open>while\<close> loop need none, so they always come to an end.\<close>

theorem execute_fuel:
  "(fst (Execute A ctx n ss s) \<noteq> OutOfFuel \<longrightarrow> Execute A ctx (n + m) ss s = Execute A ctx n ss s) \<and>
   (list_all while_free ss \<longrightarrow> fst (Execute A ctx n ss s) \<noteq> OutOfFuel)"
  using agreesD [OF more_fuel_all(1) [of A ctx n ss m]] endsD [OF while_free_ends(1) [of ss A ctx n]]
  by blast

theorem execute_fuel_witness:
  "Execute int_api None (0 + 5) [Return (\<lambda>_. 7)] (Scope Map.empty None, 0) =
     (Done (7, Some \<lparr>Kind = SignalReturn, SigValue = 7\<rparr>), (Scope Map.empty None, 1))"
proof -
  have "Execute int_api None 0 [Return (\<lambda>_. 7)] (Scope Map.empty None, 0) =
     (Done (7, Some \<lparr>Kind = SignalReturn, SigValue = 7\<rparr>), (Scope Map.empty None, 1))"
    by (simp add: run_simps)
  then show ?thesis
    using execute_fuel [of int_api None 0 "[Return (\<lambda>_. 7)]" "(Scope Map.empty None, 0)" 5] by simp
qed

text \<open>C12: A \<open>while\<close> loop comes to an end when a variant falls: if from every state of an invariant in
  which the condition holds the body comes to an end in a state of the invariant with a smaller
  variant, then the loop ends, with fuel for as many iterations as the variant says.\<close>

theorem while_terminates:
  assumes step: "\<And>s s1. I s \<Longrightarrow> eval_cond A ctx e s = (Done True, s1) \<Longrightarrow>
      fst (in_child (Execute A ctx k body) s1) \<noteq> OutOfFuel \<and>
      I (snd (in_child (Execute A ctx k body) s1)) \<and>
      \<mu> (snd (in_child (Execute A ctx k body) s1)) < (\<mu> s :: nat)"
    and "I s"
  shows "fst (executeWhile A ctx (Suc (k + \<mu> s)) e body s) \<noteq> OutOfFuel"
  using \<open>I s\<close>
proof (induction "\<mu> s" arbitrary: s rule: less_induct)
  case less
  let ?B = "in_child (Execute A ctx (k + \<mu> s) body)"
  have cond: "fst (eval_cond A ctx e s) \<noteq> OutOfFuel"
    by (rule endsD [OF ends_eval_cond])
  show ?case
  proof (cases "\<exists>s1. eval_cond A ctx e s = (Done True, s1)")
    case False
    then show ?thesis
      using cond by (auto simp: and_then_def done_with_def split: prod.split outcome.split)
  next
    case True
    then obtain s1 where s1: "eval_cond A ctx e s = (Done True, s1)" by blast
    have same: "?B s1 = in_child (Execute A ctx k body) s1"
      using step [OF less.prems s1]
      by (intro agreesD [OF agrees_in_child [OF more_fuel_all(1)]]) simp
    define s2 where "s2 = snd (?B s1)"
    have fall: "I s2" "\<mu> s2 < \<mu> s" "fst (?B s1) \<noteq> OutOfFuel"
      using step [OF less.prems s1] same by (simp_all add: s2_def)
    have "fst (executeWhile A ctx (Suc (k + \<mu> s2)) e body s2) \<noteq> OutOfFuel"
      by (rule less.hyps [OF fall(2,1)])
    moreover have "Suc (k + \<mu> s2) + (\<mu> s - Suc (\<mu> s2)) = k + \<mu> s" using fall(2) by simp
    ultimately have next_ok: "fst (executeWhile A ctx (k + \<mu> s) e body s2) \<noteq> OutOfFuel"
      using agreesD [OF more_fuel_all(5) [of A ctx "Suc (k + \<mu> s2)" e body "\<mu> s - Suc (\<mu> s2)"]]
      by simp
    have "fst (loop_signal sig (executeWhile A ctx (k + \<mu> s) e body) s2) \<noteq> OutOfFuel" for sig
      by (rule loop_signal_rule [where P = "\<lambda>f. fst (f s2) \<noteq> OutOfFuel"])
         (simp_all add: next_ok done_with_def)
    moreover obtain r where r: "?B s1 = (r, s2)" by (metis s2_def prod.collapse)
    ultimately show ?thesis
      using s1 fall(3) by (cases r) (auto simp: and_then_def)
  qed
qed

definition countdown :: "((string \<rightharpoonup> int) \<Rightarrow> int) Statement list" where
  "countdown = [Assignment ''x'' (\<lambda>m. the (m ''x'') - 1)]"

lemma countdown_step:
  "eval_cond int_api None (\<lambda>m. the (m ''x'')) (Scope [''x'' \<mapsto> int k] None, w) =
     (Done (k \<noteq> 0), (Scope [''x'' \<mapsto> int k] None, Suc w))"
  "in_child (Execute int_api None 0 countdown) (Scope [''x'' \<mapsto> int k] None, w) =
     (Done (-2, None), (Scope [''x'' \<mapsto> int k - 1] None, Suc w))"
  by (simp_all add: run_simps countdown_def)

theorem while_terminates_witness:
  "fst (executeWhile int_api None 4 (\<lambda>m. the (m ''x'')) countdown (Scope [''x'' \<mapsto> 3] None, 0)) \<noteq> OutOfFuel"
proof -
  let ?I = "\<lambda>s :: int Scope \<times> nat. \<exists>k w. s = (Scope [''x'' \<mapsto> int k] None, w)"
  let ?m = "\<lambda>s :: int Scope \<times> nat. nat (the (Get (fst s) ''x''))"
  have "fst (in_child (Execute int_api None 0 countdown) s1) \<noteq> OutOfFuel \<and>
      ?I (snd (in_child (Execute int_api None 0 countdown) s1)) \<and>
      ?m (snd (in_child (Execute int_api None 0 countdown) s1)) < ?m s"
    if "?I s" and c: "eval_cond int_api None (\<lambda>m. the (m ''x'')) s = (Done True, s1)" for s s1
  proof -
    from \<open>?I s\<close> obtain k w where s: "s = (Scope [''x'' \<mapsto> int k] None, w)" by blast
    with c have "k \<noteq> 0" and s1: "s1 = (Scope [''x'' \<mapsto> int k] None, Suc w)"
      unfolding s countdown_step by simp_all
    then obtain j where k: "k = Suc j" by (cases k) auto
    have "int k - 1 = int j" by (simp add: k)
    then show ?thesis unfolding s1 countdown_step by (auto simp: s k)
  qed
  note falls = this
  have start: "?I (Scope [''x'' \<mapsto> 3] None, 0)" by (rule exI [of _ 3]) simp
  have "fst (executeWhile int_api None (Suc (0 + ?m (Scope [''x'' \<mapsto> 3] None, 0)))
      (\<lambda>m. the (m ''x'')) countdown (Scope [''x'' \<mapsto> 3] None, 0)) \<noteq> OutOfFuel"
    by (rule while_terminates [where I = ?I and \<mu> = ?m, OF falls start])
  then show ?thesis by (simp add: eval_nat_numeral)
qed

text \<open>C13: Running statements never removes a variable and never adds one to an enclosing scope, and a
  statement that is not an assignment, whatever it holds and however it ends, leaves every scope
  with exactly the variables it had.\<close>

theorem execute_scoping:
  "tl (names (fst (snd (Execute A ctx n ss s)))) = tl (names (fst s)) \<and>
   hd (names (fst s)) \<subseteq> hd (names (fst (snd (Execute A ctx n ss s)))) \<and>
   ((\<forall>x e. stmt \<noteq> Assignment x e) \<longrightarrow>
      names (fst (snd (executeStatement A ctx n stmt s))) = names (fst s))"
proof -
  have "grows s (snd (Execute A ctx n ss s))" by (rule movesD [OF execute_scopes(1)])
  moreover have "keeps s (snd (executeStatement A ctx n stmt s))" if "\<forall>x e. stmt \<noteq> Assignment x e"
    using execute_scopes(2) [of A ctx n stmt] that movesD [of keeps] by blast
  ultimately show ?thesis
    by (simp add: grows_def keeps_def scope_grows_def scope_keeps_def)
qed

theorem execute_scoping_witness:
  "names (fst (snd (executeStatement int_api None 0 (Range ''x'' (\<lambda>_. 2) [Assignment ''y'' (\<lambda>_. 1)])
     (Scope [''z'' \<mapsto> 0] None, 0)))) = [{''z''}]"
  using execute_scoping [where A = int_api and ctx = None and n = 0 and
      stmt = "Range ''x'' (\<lambda>_. 2) [Assignment ''y'' (\<lambda>_. 1)]" and s = "(Scope [''z'' \<mapsto> 0] None, 0)"]
  by simp

lemma range_step:
  "in_child (and_then (assign x item) (\<lambda>_. Execute A ctx n [])) (sc, w) =
     (Done (NullVal A, None),
      (if isDiscard x \<or> Get sc x = None then sc else the (set_nearest sc x item), w))"
  using set_nearest_None [of sc x item] by (auto simp: run_simps split: option.split)

text \<open>The variable of a \<open>range\<close> loop is set by an ordinary assignment: if an enclosing scope has a
  variable of that name the loop overwrites it, and it holds the last item afterwards; if not, the
  variable is gone after the loop.\<close>

theorem range_item_scope:
  "\<exists>sc'. executeItems A ctx n x items [] (sc, w) = (Done None, (sc', w)) \<and>
     Get sc' = (if items = [] \<or> isDiscard x \<or> Get sc x = None then Get sc
                else (Get sc)(x \<mapsto> last items))"
proof (induction items arbitrary: sc)
  case Nil
  then show ?case by (simp add: done_with_def)
next
  case (Cons item items)
  define sc1 where "sc1 = (if isDiscard x \<or> Get sc x = None then sc else the (set_nearest sc x item))"
  have 1: "Get sc1 = (if isDiscard x \<or> Get sc x = None then Get sc else (Get sc)(x \<mapsto> item))"
    using set_nearest_None [of sc x item] set_nearest_Get [of sc x item] by (auto simp: sc1_def)
  have "executeItems A ctx n x (item # items) [] (sc, w) = executeItems A ctx n x items [] (sc1, w)"
    by (simp only: executeItems.simps and_then_def range_step sc1_def [symmetric])
       (simp add: loop_signal_def)
  with Cons [of sc1] show ?case
    by (auto simp: 1)
qed

end
