(* ===== verification/Proc_Compiler.thy ===== *)
theory Proc_Compiler
  imports Proc_Interp
begin

text \<open>
  The compiler of procedure bodies (\<open>procedure/compiler.go\<close>): HCL syntax to statements, with the
  checks it makes. The syntax tree and the expression parser belong to HCL: the tree is modelled
  by the fields the compiler reads, the parser and the test for a literal \<open>true\<close> are the fields of
  the record \<open>hcl_syntax\<close>.
\<close>

section \<open>HCL syntax\<close>

record 'e hclAttribute =
  attr_Name :: string
  attr_Expr :: 'e
  attr_Start :: nat

text \<open>The attributes of a body are a Go map, given here in the order an iteration yields them; the
  blocks are in source order. A block has its type, labels, byte range and body.\<close>

datatype 'e hclBlock = HBlock (Type: string) (Labels: "string list") (Start: nat) (End: nat) (Body: "'e hclBody")
and 'e hclBody = HBody (Attributes: "'e hclAttribute list") (Blocks: "'e hclBlock list")

text \<open>\<open>literal\<close> is the value of a literal expression, and \<open>equals_true\<close> whether a literal value is
  \<open>cty.True\<close>.\<close>

record ('e, 'v) hcl_syntax =
  ParseExpression :: "string \<Rightarrow> 'e \<times> diag list"
  literal :: "'e \<Rightarrow> 'v option"
  equals_true :: "'v \<Rightarrow> bool"

section \<open>Items in source order\<close>

datatype 'e bodyItem = AttrItem "'e hclAttribute" | BlockItem "'e hclBlock"

fun offset :: "'e bodyItem \<Rightarrow> nat" where
  "offset (AttrItem a) = attr_Start a"
| "offset (BlockItem b) = Start b"

definition sortBodyItems :: "'e hclBody \<Rightarrow> 'e bodyItem list" where
  "sortBodyItems body =
     sort_key offset (map AttrItem (Attributes body) @ map BlockItem (Blocks body))"

fun item_size :: "'e bodyItem \<Rightarrow> nat" where
  "item_size (AttrItem a) = 1"
| "item_size (BlockItem b) = Suc (size b)"

definition items_size :: "'e bodyItem list \<Rightarrow> nat" where
  "items_size items = sum_list (map item_size items)"

lemma items_size_simps [simp]:
  "items_size [] = 0" "items_size (AttrItem a # items) = Suc (items_size items)"
  "items_size (BlockItem b # items) = Suc (size b + items_size items)"
  by (simp_all add: items_size_def)

lemma items_size_drop: "items_size (drop n items) \<le> items_size items"
proof -
  have "items_size (take n items @ drop n items) = items_size (take n items) + items_size (drop n items)"
    by (simp only: items_size_def map_append sum_list_append)
  then show ?thesis by simp
qed

lemma items_size_sort: "items_size (sortBodyItems body) < size body"
proof (cases body)
  case (HBody attrs blocks)
  have "sum_list (map item_size (map AttrItem attrs)) = length attrs"
    by (induction attrs) auto
  moreover have "sum_list (map item_size (map BlockItem blocks)) = size_list size blocks"
    by (induction blocks) auto
  moreover have "items_size (sortBodyItems body) =
      sum_list (map item_size (map AttrItem attrs @ map BlockItem blocks))"
    unfolding items_size_def sortBodyItems_def HBody hclBody.sel
    by (simp add: multiset.map_comp flip: sum_mset_sum_list)
  moreover have "length attrs \<le> size_list f attrs" for f
    by (induction attrs) auto
  ultimately show ?thesis by (simp add: HBody add_le_mono less_Suc_eq_le)
qed

lemma size_Body: "size (Body block) < size block"
  by (cases block) simp

lemma size_Blocks: "size_list size (Blocks (Body block)) < size block"
  by (cases block; cases "Body block") simp

lemma body_size: "items_size (sortBodyItems (Body block)) < size block"
  by (rule less_trans [OF items_size_sort size_Body])

lemma compiler_bounds:
  "10 * items_size (drop n items) < 10 + (10 * k + 10 * items_size items)"
  "10 * items_size (sortBodyItems (Body block)) < 12 + (10 * size block + k)"
  "10 * items_size (sortBodyItems (Body block)) < 10 * size block + 3"
  "10 * size_list size (Blocks (Body block)) < Suc (10 * size block)"
  using items_size_drop [of n items] body_size [of block] size_Blocks [of block] by linarith+

section \<open>Statements that always exit\<close>

fun alwaysTerminates :: "'e Statement \<Rightarrow> bool" and
  bodyAlwaysTerminates :: "'e Statement list \<Rightarrow> bool" and
  branchesTerminate :: "'e CondBranch list \<Rightarrow> bool" and
  casesTerminate :: "'e Case list \<Rightarrow> bool" where
  "alwaysTerminates (Return e) = True"
| "alwaysTerminates (IfChain bs els) =
     (if els = [] then False else branchesTerminate bs \<and> bodyAlwaysTerminates els)"
| "alwaysTerminates (Switch e cs dflt) =
     (if dflt = [] then False else casesTerminate cs \<and> bodyAlwaysTerminates dflt)"
| "alwaysTerminates _ = False"
| "bodyAlwaysTerminates [] = False"
| "bodyAlwaysTerminates (s # ss) = (if alwaysTerminates s then True else bodyAlwaysTerminates ss)"
| "branchesTerminate [] = True"
| "branchesTerminate (CondBranch e body # bs) =
     (if \<not> bodyAlwaysTerminates body then False else branchesTerminate bs)"
| "casesTerminate [] = True"
| "casesTerminate (Case e body # cs) =
     (if \<not> bodyAlwaysTerminates body then False else casesTerminate cs)"

definition isUnconditionalSignal :: "('e, 'v) hcl_syntax \<Rightarrow> 'e hclAttribute \<Rightarrow> bool" where
  "isUnconditionalSignal P attr =
     (case literal P (attr_Expr attr) of None \<Rightarrow> False | Some v \<Rightarrow> equals_true P v)"

section \<open>The compiler\<close>

text \<open>A result \<open>Inl ds\<close> is a return of nil with the diagnostics \<open>ds\<close>.\<close>

definition compileAttribute :: "'e hclAttribute \<Rightarrow> nat \<Rightarrow> diag list + 'e Statement" where
  "compileAttribute attr loopDepth =
     (if attr_Name attr = ''return'' then Inr (Return (attr_Expr attr))
      else if attr_Name attr = ''break'' then
        (if loopDepth = 0 then Inl [DiagError ''Break outside loop''] else Inr (Break (attr_Expr attr)))
      else if attr_Name attr = ''continue'' then
        (if loopDepth = 0 then Inl [DiagError ''Continue outside loop'']
         else Inr (Continue (attr_Expr attr)))
      else Inr (Assignment (attr_Name attr) (attr_Expr attr)))"

text \<open>Whether the statements after an attribute are unreachable.\<close>

fun attr_exits :: "('e, 'v) hcl_syntax \<Rightarrow> 'e hclAttribute \<Rightarrow> 'e Statement \<Rightarrow> bool" where
  "attr_exits P attr (Return e) = True"
| "attr_exits P attr (Break e) = isUnconditionalSignal P attr"
| "attr_exits P attr (Continue e) = isUnconditionalSignal P attr"
| "attr_exits P attr _ = False"

text \<open>The loop of \<open>compileItems\<close> is \<open>compile_loop\<close>, with the variables \<open>terminated\<close>, \<open>stmts\<close> and
  \<open>diags\<close> as its last arguments; the loops of \<open>compileIfChain\<close> and \<open>compileSwitch\<close> are \<open>chain_loop\<close> and
  \<open>switch_loop\<close>. A block is compiled with the items that follow it, of which an if chain consumes
  its \<open>elif\<close> and \<open>else\<close> blocks.\<close>

function (sequential)
  compile_loop :: "('e, 'v) hcl_syntax \<Rightarrow> nat \<Rightarrow> 'e bodyItem list \<Rightarrow> bool \<Rightarrow> 'e Statement list \<Rightarrow>
    diag list \<Rightarrow> 'e Statement list \<times> diag list"
and compileBlock :: "('e, 'v) hcl_syntax \<Rightarrow> nat \<Rightarrow> 'e hclBlock \<Rightarrow> 'e bodyItem list \<Rightarrow>
    diag list + ('e Statement \<times> nat \<times> diag list)"
and compileIfChain :: "('e, 'v) hcl_syntax \<Rightarrow> nat \<Rightarrow> 'e hclBlock \<Rightarrow> 'e bodyItem list \<Rightarrow>
    diag list + ('e Statement \<times> nat \<times> diag list)"
and chain_loop :: "('e, 'v) hcl_syntax \<Rightarrow> nat \<Rightarrow> 'e bodyItem list \<Rightarrow> 'e CondBranch list \<Rightarrow>
    'e Statement list \<Rightarrow> nat \<Rightarrow> diag list \<Rightarrow> diag list + ('e Statement \<times> nat \<times> diag list)"
and compileCondBranch :: "('e, 'v) hcl_syntax \<Rightarrow> nat \<Rightarrow> string \<Rightarrow> 'e hclBlock \<Rightarrow>
    diag list + 'e CondBranch"
and compileWhile :: "('e, 'v) hcl_syntax \<Rightarrow> nat \<Rightarrow> 'e hclBlock \<Rightarrow>
    diag list + ('e Statement \<times> nat \<times> diag list)"
and compileRange :: "('e, 'v) hcl_syntax \<Rightarrow> nat \<Rightarrow> 'e hclBlock \<Rightarrow>
    diag list + ('e Statement \<times> nat \<times> diag list)"
and compileSwitch :: "('e, 'v) hcl_syntax \<Rightarrow> nat \<Rightarrow> 'e hclBlock \<Rightarrow>
    diag list + ('e Statement \<times> nat \<times> diag list)"
and switch_loop :: "('e, 'v) hcl_syntax \<Rightarrow> nat \<Rightarrow> 'e hclBlock list \<Rightarrow> 'e \<Rightarrow> 'e Case list \<Rightarrow>
    'e Statement list \<Rightarrow> diag list \<Rightarrow> diag list + ('e Statement \<times> nat \<times> diag list)"
where
  "compile_loop P d [] terminated stmts diags = (stmts, diags)"
| "compile_loop P d (item # rest) terminated stmts diags =
     (if terminated then (stmts, diags @ [DiagError ''Unreachable statement''])
      else (case item of
        AttrItem attr \<Rightarrow>
          (case compileAttribute attr d of
             Inl ds \<Rightarrow> ([], diags @ ds)
           | Inr stmt \<Rightarrow> compile_loop P d rest (attr_exits P attr stmt) (stmts @ [stmt]) diags)
      | BlockItem block \<Rightarrow>
          (case compileBlock P d block rest of
             Inl ds \<Rightarrow> ([], diags @ ds)
           | Inr (stmt, consumed, ds) \<Rightarrow>
               compile_loop P d (drop consumed rest) (alwaysTerminates stmt) (stmts @ [stmt])
                 (diags @ ds))))"
| "compileBlock P d block rest =
     (if Type block = ''if'' then compileIfChain P d block rest
      else if Type block = ''elif'' then Inl [DiagError ''Unexpected elif'']
      else if Type block = ''else'' then Inl [DiagError ''Unexpected else'']
      else if Type block = ''range'' then compileRange P d block
      else if Type block = ''switch'' then compileSwitch P d block
      else if Type block = ''while'' then compileWhile P d block
      else Inl [DiagError ''Unknown block type''])"
| "compileIfChain P d block rest =
     (case compileCondBranch P d ''if'' block of
        Inl ds \<Rightarrow> Inl ds
      | Inr branch \<Rightarrow> chain_loop P d rest [branch] [] 0 [])"
| "chain_loop P d [] branches els consumed diags = Inr (IfChain branches els, consumed, diags)"
| "chain_loop P d (AttrItem attr # rest) branches els consumed diags =
     Inr (IfChain branches els, consumed, diags)"
| "chain_loop P d (BlockItem block # rest) branches els consumed diags =
     (if Type block = ''elif'' then
        (if els \<noteq> [] then Inl (diags @ [DiagError ''elif after else''])
         else (case compileCondBranch P d ''elif'' block of
                 Inl ds \<Rightarrow> Inl (diags @ ds)
               | Inr branch \<Rightarrow> chain_loop P d rest (branches @ [branch]) els (consumed + 1) diags))
      else if Type block = ''else'' then
        (if els \<noteq> [] then Inl (diags @ [DiagError ''Duplicate else''])
         else if Labels block \<noteq> [] then Inl (diags @ [DiagError ''Invalid else block''])
         else (case compile_loop P d (sortBodyItems (Body block)) False [] [] of (elseStmts, ds) \<Rightarrow>
                 if HasErrors ds then Inl (diags @ ds)
                 else chain_loop P d rest branches elseStmts (consumed + 1) (diags @ ds)))
      else Inr (IfChain branches els, consumed, diags))"
| "compileCondBranch P d kind block =
     (case Labels block of
        [label] \<Rightarrow>
          (case ParseExpression P label of (cond, ds) \<Rightarrow>
             if HasErrors ds then Inl ds
             else (case compile_loop P d (sortBodyItems (Body block)) False [] [] of (stmts, bds) \<Rightarrow>
                     if HasErrors bds then Inl (ds @ bds) else Inr (CondBranch cond stmts)))
      | _ \<Rightarrow> Inl [DiagError (''Invalid '' @ kind @ '' block'')])"
| "compileWhile P d block =
     (case Labels block of
        [label] \<Rightarrow>
          (case ParseExpression P label of (cond, ds) \<Rightarrow>
             if HasErrors ds then Inl ds
             else (case compile_loop P (d + 1) (sortBodyItems (Body block)) False [] [] of (stmts, bds) \<Rightarrow>
                     if HasErrors bds then Inl (ds @ bds) else Inr (While cond stmts, 0, [])))
      | _ \<Rightarrow> Inl [DiagError ''Invalid while block''])"
| "compileRange P d block =
     (case Labels block of
        [itemName, label] \<Rightarrow>
          (case ParseExpression P label of (coll, ds) \<Rightarrow>
             if HasErrors ds then Inl ds
             else (case compile_loop P (d + 1) (sortBodyItems (Body block)) False [] [] of (stmts, bds) \<Rightarrow>
                     if HasErrors bds then Inl (ds @ bds) else Inr (Range itemName coll stmts, 0, [])))
      | _ \<Rightarrow> Inl [DiagError ''Invalid range block''])"
| "compileSwitch P d block =
     (case Labels block of
        [label] \<Rightarrow>
          (case ParseExpression P label of (subj, ds) \<Rightarrow>
             if HasErrors ds then Inl ds
             else if Attributes (Body block) \<noteq> [] then Inl [DiagError ''Assignment in switch body'']
             else switch_loop P d (Blocks (Body block)) subj [] [] ds)
      | _ \<Rightarrow> Inl [DiagError ''Invalid switch block''])"
| "switch_loop P d [] subj cases dflt diags = Inr (Switch subj cases dflt, 0, diags)"
| "switch_loop P d (inner # rest) subj cases dflt diags =
     (if Type inner = ''case'' then
        (case Labels inner of
           [label] \<Rightarrow>
             (case ParseExpression P label of (val, ds) \<Rightarrow>
                if HasErrors ds then Inl (diags @ ds)
                else (case compile_loop P d (sortBodyItems (Body inner)) False [] [] of (stmts, bds) \<Rightarrow>
                        if HasErrors bds then Inl (diags @ ds @ bds)
                        else switch_loop P d rest subj (cases @ [Case val stmts]) dflt (diags @ ds @ bds)))
         | _ \<Rightarrow> Inl (diags @ [DiagError ''Invalid case block'']))
      else if Type inner = ''default'' then
        (if dflt \<noteq> [] then Inl (diags @ [DiagError ''Duplicate default''])
         else if Labels inner \<noteq> [] then Inl (diags @ [DiagError ''Invalid default block''])
         else (case compile_loop P d (sortBodyItems (Body inner)) False [] [] of (stmts, bds) \<Rightarrow>
                 if HasErrors bds then Inl (diags @ bds)
                 else switch_loop P d rest subj cases stmts (diags @ bds)))
      else Inl (diags @ [DiagError ''Unexpected block in switch'']))"
  by pat_completeness auto

text \<open>The compiler descends into the bodies of blocks and along the items.\<close>

termination
proof (relation "measure (\<lambda>x. case x of
      Inl (Inl (Inl (_, _, items, _, _, _))) \<Rightarrow> 10 * items_size items
    | Inl (Inl (Inr (_, _, b, rest))) \<Rightarrow> 10 * (size b + items_size rest) + 5
    | Inl (Inr (Inl (_, _, b, rest))) \<Rightarrow> 10 * (size b + items_size rest) + 4
    | Inl (Inr (Inr (_, _, rest, _, _, _, _))) \<Rightarrow> 10 * items_size rest + 2
    | Inr (Inl (Inl (_, _, _, b))) \<Rightarrow> 10 * size b + 3
    | Inr (Inl (Inr (_, _, b))) \<Rightarrow> 10 * size b + 3
    | Inr (Inr (Inl (_, _, b))) \<Rightarrow> 10 * size b + 3
    | Inr (Inr (Inr (Inl (_, _, b)))) \<Rightarrow> 10 * size b + 3
    | Inr (Inr (Inr (Inr (_, _, bs, _, _, _, _)))) \<Rightarrow> 10 * size_list size bs + 2)", goal_cases)
qed (auto simp: compiler_bounds)

lemmas block_compilers = compileBlock.simps compileIfChain.simps compileCondBranch.simps
  compileWhile.simps compileRange.simps compileSwitch.simps

declare block_compilers [simp del]

definition compileItems :: "('e, 'v) hcl_syntax \<Rightarrow> 'e bodyItem list \<Rightarrow> nat \<Rightarrow> 'e Statement list \<times> diag list" where
  "compileItems P items loopDepth = compile_loop P loopDepth items False [] []"

text \<open>A body that is not in HCL native syntax is \<open>None\<close>.\<close>

definition Compile :: "('e, 'v) hcl_syntax \<Rightarrow> 'e hclBody option \<Rightarrow> 'e Statement list \<times> diag list" where
  "Compile P body =
     (case body of
        None \<Rightarrow> ([], [DiagError ''Unsupported HCL format''])
      | Some b \<Rightarrow> compileItems P (sortBodyItems b) 0)"

section \<open>Well-formed statements\<close>

text \<open>\<open>exits\<close> is what the compiler takes to always leave the statement list. Well-formed statements
  have \<open>break\<close> and \<open>continue\<close> only inside loops and nothing after a statement that exits.\<close>

fun exits :: "('e, 'v) hcl_syntax \<Rightarrow> 'e Statement \<Rightarrow> bool" where
  "exits P (Break e) = (case literal P e of None \<Rightarrow> False | Some v \<Rightarrow> equals_true P v)"
| "exits P (Continue e) = (case literal P e of None \<Rightarrow> False | Some v \<Rightarrow> equals_true P v)"
| "exits P s = alwaysTerminates s"

definition no_dead_code :: "('e, 'v) hcl_syntax \<Rightarrow> 'e Statement list \<Rightarrow> bool" where
  "no_dead_code P ss \<longleftrightarrow> (\<forall>s \<in> set (butlast ss). \<not> exits P s)"

fun wf_stmt :: "('e, 'v) hcl_syntax \<Rightarrow> nat \<Rightarrow> 'e Statement \<Rightarrow> bool" and
  wf_branch :: "('e, 'v) hcl_syntax \<Rightarrow> nat \<Rightarrow> 'e CondBranch \<Rightarrow> bool" and
  wf_case :: "('e, 'v) hcl_syntax \<Rightarrow> nat \<Rightarrow> 'e Case \<Rightarrow> bool" where
  "wf_stmt P d (Assignment x e) = (x \<notin> {''return'', ''break'', ''continue''})"
| "wf_stmt P d (Return e) = True"
| "wf_stmt P d (Break e) = (0 < d)"
| "wf_stmt P d (Continue e) = (0 < d)"
| "wf_stmt P d (IfChain bs els) =
     (bs \<noteq> [] \<and> list_all (wf_branch P d) bs \<and> list_all (wf_stmt P d) els \<and> no_dead_code P els)"
| "wf_stmt P d (While e body) = (list_all (wf_stmt P (Suc d)) body \<and> no_dead_code P body)"
| "wf_stmt P d (Range x e body) = (list_all (wf_stmt P (Suc d)) body \<and> no_dead_code P body)"
| "wf_stmt P d (Switch e cs dflt) =
     (list_all (wf_case P d) cs \<and> list_all (wf_stmt P d) dflt \<and> no_dead_code P dflt)"
| "wf_branch P d (CondBranch e body) = (list_all (wf_stmt P d) body \<and> no_dead_code P body)"
| "wf_case P d (Case e body) = (list_all (wf_stmt P d) body \<and> no_dead_code P body)"

definition wf_body :: "('e, 'v) hcl_syntax \<Rightarrow> nat \<Rightarrow> 'e Statement list \<Rightarrow> bool" where
  "wf_body P d ss \<longleftrightarrow> list_all (wf_stmt P d) ss \<and> no_dead_code P ss"

text \<open>The state of the compiling loop: as long as it is not \<open>terminated\<close>, no statement exits.\<close>

definition loop_ok :: "('e, 'v) hcl_syntax \<Rightarrow> nat \<Rightarrow> bool \<Rightarrow> 'e Statement list \<Rightarrow> bool" where
  "loop_ok P d terminated stmts \<longleftrightarrow>
     wf_body P d stmts \<and> (\<not> terminated \<longrightarrow> (\<forall>s \<in> set stmts. \<not> exits P s))"

lemma loop_ok_Nil [simp]: "loop_ok P d t []"
  by (simp add: loop_ok_def wf_body_def no_dead_code_def)

lemma loop_ok_snoc:
  "loop_ok P d False stmts \<Longrightarrow> wf_stmt P d s \<Longrightarrow> (\<not> t \<Longrightarrow> \<not> exits P s) \<Longrightarrow> loop_ok P d t (stmts @ [s])"
  by (auto simp: loop_ok_def wf_body_def no_dead_code_def butlast_append)

lemma compileAttribute_ok:
  "compileAttribute attr d = Inr s \<Longrightarrow> wf_stmt P d s \<and> exits P s = attr_exits P attr s"
  by (auto simp: compileAttribute_def isUnconditionalSignal_def split: if_splits)

definition block_ok :: "('e, 'v) hcl_syntax \<Rightarrow> nat \<Rightarrow> diag list + ('e Statement \<times> nat \<times> diag list) \<Rightarrow> bool" where
  "block_ok P d r \<longleftrightarrow> (\<forall>s c ds. r = Inr (s, c, ds) \<longrightarrow> wf_stmt P d s \<and> exits P s = alwaysTerminates s)"

lemma block_okI: "(\<And>s c ds. r = Inr (s, c, ds) \<Longrightarrow> wf_stmt P d s \<and> exits P s = alwaysTerminates s) \<Longrightarrow> block_ok P d r"
  by (simp add: block_ok_def)

lemma block_ok_simps [simp]:
  "block_ok P d (Inl ds)"
  "block_ok P d (Inr (s, c, ds)) \<longleftrightarrow> wf_stmt P d s \<and> exits P s = alwaysTerminates s"
  by (simp_all add: block_ok_def)

lemma compile_wf:
  fixes P :: "('e, 'v) hcl_syntax"
  shows "loop_ok P d t stmts \<Longrightarrow> \<not> HasErrors (snd (compile_loop P d items t stmts ds)) \<Longrightarrow>
      wf_body P d (fst (compile_loop P d items t stmts ds))"
    and "block_ok P d (compileBlock P d block rest)"
    and "block_ok P d (compileIfChain P d block rest)"
    and "bs \<noteq> [] \<and> list_all (wf_branch P d) bs \<and> wf_body P d els \<Longrightarrow>
      block_ok P d (chain_loop P d rest bs els c ds)"
    and "\<forall>br. compileCondBranch P d k block = Inr br \<longrightarrow> wf_branch P d br"
    and "block_ok P d (compileWhile P d block)"
    and "block_ok P d (compileRange P d block)"
    and "block_ok P d (compileSwitch P d block)"
    and "list_all (wf_case P d) cs \<and> wf_body P d dflt \<Longrightarrow>
      block_ok P d (switch_loop P d blocks subj cs dflt ds)"
proof (induction P d items t stmts ds and P d block rest and P d block rest and P d rest bs els c ds
    and P d k block and P d block and P d block and P d block and P d blocks subj cs dflt ds
    rule: compile_loop_compileBlock_compileIfChain_chain_loop_compileCondBranch_compileWhile_compileRange_compileSwitch_switch_loop.induct)
  case (1 P d terminated stmts diags)
  then show ?case by (simp add: loop_ok_def)
next
  case (2 P d item rest terminated stmts diags)
  show ?case
  proof (cases terminated)
    case True
    then show ?thesis using 2 by simp
  next
    case not_done: False
    show ?thesis
    proof (cases item)
      case (AttrItem attr)
      show ?thesis
      proof (cases "compileAttribute attr d")
        case (Inl e)
        then show ?thesis by (simp add: not_done AttrItem wf_body_def no_dead_code_def)
      next
        case (Inr s)
        have "loop_ok P d (attr_exits P attr s) (stmts @ [s])"
          using "2.prems"(1) compileAttribute_ok [OF Inr, of P] not_done by (auto intro: loop_ok_snoc)
        then show ?thesis
          using "2.IH"(1) [OF not_done AttrItem Inr] "2.prems"(2) by (simp add: not_done AttrItem Inr)
      qed
    next
      case (BlockItem block)
      show ?thesis
      proof (cases "compileBlock P d block rest")
        case (Inl e)
        then show ?thesis
          by (simp add: not_done BlockItem wf_body_def no_dead_code_def)
      next
        case (Inr r)
        obtain s c ds where r: "r = (s, c, ds)" by (cases r)
        have "loop_ok P d (alwaysTerminates s) (stmts @ [s])"
          using "2.prems"(1) "2.IH"(2) [OF not_done BlockItem] not_done Inr r by (auto intro: loop_ok_snoc)
        then show ?thesis
          using "2.IH"(3) [OF not_done BlockItem Inr r [symmetric] refl] "2.prems"(2) by (simp add: not_done BlockItem Inr r)
      qed
    qed
  qed
next
  case (4 P d block rest)
  then show ?case by (auto split: sum.split simp: compileIfChain.simps wf_body_def no_dead_code_def)
next
  case (7 P d block rest branches els consumed diags)
  then show ?case
    by (auto split: sum.split prod.split simp: wf_body_def)
next
  case (8 P d kind block)
  then show ?case
    by (auto split: list.splits prod.splits if_splits simp: compileCondBranch.simps wf_body_def)
next
  case (9 P d block)
  then show ?case
    by (auto split: list.splits prod.splits simp: compileWhile.simps wf_body_def)
next
  case (10 P d block)
  then show ?case
    by (auto split: list.splits prod.splits simp: compileRange.simps wf_body_def)
next
  case (11 P d block)
  then show ?case
    by (auto split: list.splits prod.splits simp: compileSwitch.simps wf_body_def no_dead_code_def)
next
  case (13 P d inner rest subj cases dflt diags)
  then show ?case
    by (auto split: list.splits prod.splits simp: wf_body_def)
qed (auto simp: wf_body_def compileBlock.simps)

lemma wf_no_jump:
  fixes P :: "('e, 'v) hcl_syntax"
  shows "d = 0 \<Longrightarrow> wf_stmt P d s \<Longrightarrow> no_jump s"
    and "d = 0 \<Longrightarrow> wf_branch P d b \<Longrightarrow> branch_no_jump b"
    and "d = 0 \<Longrightarrow> wf_case P d c \<Longrightarrow> case_no_jump c"
  by (induction P d s and P d b and P d c rule: wf_stmt_wf_branch_wf_case.induct)
     (auto simp: list_all_iff)

section \<open>Exits are exits\<close>

definition exit_signal :: "'v Signal option \<Rightarrow> bool" where
  "exit_signal sig \<longleftrightarrow> (\<exists>g. sig = Some g \<and> Kind g \<noteq> SignalNone)"

lemma exit_signal_simps [simp]:
  "\<not> exit_signal None" "exit_signal (Some g) \<longleftrightarrow> Kind g \<noteq> SignalNone"
  by (simp_all add: exit_signal_def)

lemma terminates_signals:
  fixes A :: "('e, 'f, 'v, 'w) hcl_api"
  shows "bodyAlwaysTerminates ss \<Longrightarrow> yields (\<lambda>(v, sig). exit_signal sig) (Execute A ctx n ss)"
    and "alwaysTerminates s \<Longrightarrow> yields exit_signal (executeStatement A ctx n s)"
    and "branchesTerminate bs \<and> els \<noteq> [] \<and> bodyAlwaysTerminates els \<Longrightarrow>
           yields exit_signal (executeIfChain A ctx n bs els)"
    and "casesTerminate cs \<and> dflt \<noteq> [] \<and> bodyAlwaysTerminates dflt \<Longrightarrow>
           yields exit_signal (executeCases A ctx n c v cs dflt)"
    and "agrees (executeWhile A ctx n e bdy) (executeWhile A ctx n e bdy)"
    and "agrees (executeItems A ctx n x items body) (executeItems A ctx n x items body)"
proof (induction A ctx n ss and A ctx n s and A ctx n bs els and A ctx n c v cs dflt
    and A ctx n e bdy and A ctx n x items body
    rule: Execute_executeStatement_executeIfChain_executeCases_executeWhile_executeItems.induct)
  case (2 A ctx n stmt stmts)
  show ?case
  proof (cases "alwaysTerminates stmt")
    case True
    show ?thesis
      unfolding Execute.simps
      by (rule yields_and_then [OF 2(1) [OF True]]) (auto intro: yields_done split: option.split)
  next
    case False
    then have "yields (\<lambda>(v, sig). exit_signal sig) (Execute A ctx n stmts)"
      using 2 by (auto simp: yields_def)
    then show ?thesis
      by (auto intro!: yields_after yields_done split: option.split)
  qed
qed (simp_all add: step_rules split: if_splits)

text \<open>What the parser and the evaluator promise of a literal \<open>true\<close>: it evaluates to true.\<close>

definition literal_true_ok :: "('e, 'v) hcl_syntax \<Rightarrow> ('e, 'f, 'v, 'w) hcl_api \<Rightarrow> bool" where
  "literal_true_ok P A \<longleftrightarrow> (\<forall>e v c w. literal P e = Some v \<and> equals_true P v \<longrightarrow>
     (\<exists>w'. expr_value A e c w = (Some (v, []), w')) \<and> is_true A v = Some True)"

lemma literal_true_cond:
  assumes "literal_true_ok P A" and "literal P e = Some v" and "equals_true P v"
  shows "yields (\<lambda>b. b) (eval_cond A ctx e)"
proof -
  have "yields (\<lambda>x. x = v) (eval_in A c e)" for c
    unfolding yields_def
  proof (intro allI impI)
    fix s a
    assume *: "fst (eval_in A c e s) = Done a"
    obtain sc w where s: "s = (sc, w)" by (cases s)
    obtain w' where "expr_value A e c w = (Some (v, []), w')"
      using assms unfolding literal_true_ok_def by blast
    with * show "a = v" by (simp add: s eval_in_def)
  qed
  then have "yields (\<lambda>x. x = v) (eval_here A ctx e)"
    by (simp add: eval_here_def step_rules)
  moreover have "is_true A v = Some True" using assms unfolding literal_true_ok_def by blast
  ultimately show ?thesis
    unfolding eval_cond_def
    by (rule_tac yields_and_then [where P = "\<lambda>x. x = v"]) (auto simp: yields_def or_panic_def)
qed

lemma exits_signals:
  assumes "literal_true_ok P A" and "exits P s"
  shows "yields exit_signal (executeStatement A ctx n s)"
proof (cases "alwaysTerminates s")
  case True
  then show ?thesis by (rule terminates_signals(2))
next
  case False
  then obtain e v where "s = Break e \<or> s = Continue e" and "literal P e = Some v" "equals_true P v"
    using assms(2) by (cases s) (auto split: option.splits)
  then show ?thesis
    using literal_true_cond [OF assms(1), of e v ctx]
    by (auto intro!: yields_and_then [where P = "\<lambda>b. b"] yields_done)
qed

lemma and_then_cong:
  assumes "\<And>a. fst (f s) = Done a \<Longrightarrow> k a = l a"
  shows "and_then f k s = and_then f l s"
  using assms by (auto simp: and_then_def split: prod.split outcome.split)

text \<open>Statements after one that exits make no difference.\<close>

lemma Execute_dead_code:
  assumes "literal_true_ok P A" and "exits P s"
  shows "Execute A ctx n (ss @ s # ts) = Execute A ctx n (ss @ [s])"
proof (induction ss)
  case Nil
  have "exit_signal a" if "fst (executeStatement A ctx n s st) = Done a" for a st
    using exits_signals [OF assms] that by (rule yieldsD)
  then have "Execute A ctx n (s # ts) st = Execute A ctx n [s] st" for st
    unfolding Execute.simps by (intro and_then_cong) (fastforce split: option.split)
  then show ?case by (auto simp: fun_eq_iff)
next
  case (Cons r ss)
  then show ?case by (simp only: append_Cons Execute.simps)
qed

section \<open>The value of a run\<close>

lemma Execute_value:
  "yields (\<lambda>(v, sig). case sig of None \<Rightarrow> v = NullVal A | Some g \<Rightarrow> v = SigValue g) (Execute A ctx n ss)"
proof (induction ss)
  case Nil
  then show ?case by (simp add: yields_done)
next
  case (Cons s ss)
  then show ?case
    unfolding Execute.simps by (intro yields_after) (auto intro: yields_done split: option.split)
qed

section \<open>Items added at the end\<close>

lemma chain_loop_snoc:
  "chain_loop P d (rest @ [AttrItem a]) bs els c ds = chain_loop P d rest bs els c ds"
proof (induction rest arbitrary: bs els c ds)
  case (Cons item rest)
  then show ?case by (cases item) (auto split: sum.split prod.split)
qed simp

lemma chain_loop_consumed:
  "chain_loop P d rest bs els c ds = Inr (s, c', ds') \<Longrightarrow> c' \<le> c + length rest"
proof (induction rest arbitrary: bs els c ds)
  case (Cons item rest)
  show ?case
  proof (cases item)
    case (BlockItem b)
    with Cons show ?thesis by (fastforce split: if_splits sum.splits prod.splits)
  qed (use Cons in auto)
qed simp

lemma switch_loop_consumed: "switch_loop P d bs subj cs dflt ds = Inr (s, c, ds') \<Longrightarrow> c = 0"
  by (induction bs arbitrary: cs dflt ds) (auto split: if_splits list.splits prod.splits)

lemma compileBlock_snoc:
  "compileBlock P d b (rest @ [AttrItem a]) = compileBlock P d b rest"
  by (simp add: compileBlock.simps compileIfChain.simps chain_loop_snoc split: sum.split)

lemma compileBlock_consumed:
  assumes "compileBlock P d b rest = Inr (s, c, ds)"
  shows "c \<le> length rest"
proof -
  have "compileIfChain P d b rest = Inr (s, c, ds) \<Longrightarrow> c \<le> length rest"
    by (auto simp: compileIfChain.simps dest: chain_loop_consumed split: sum.splits)
  moreover have "compileSwitch P d b = Inr (s, c, ds) \<Longrightarrow> c = 0"
    by (auto simp: compileSwitch.simps dest: switch_loop_consumed split: list.splits prod.splits if_splits)
  moreover have "compileWhile P d b = Inr (s, c, ds) \<Longrightarrow> c = 0" "compileRange P d b = Inr (s, c, ds) \<Longrightarrow> c = 0"
    by (auto simp: compileWhile.simps compileRange.simps split: list.splits prod.splits if_splits)
  ultimately show ?thesis
    using assms by (auto simp: compileBlock.simps split: if_splits)
qed

lemma compile_loop_snoc:
  assumes "compile_loop P d items t stmts ds = (ss, ds')" and "\<not> HasErrors ds'" and "ss \<noteq> []"
    and "exits P (last ss)" and "loop_ok P d t stmts"
  shows "compile_loop P d (items @ [AttrItem a]) t stmts ds = (ss, ds' @ [DiagError ''Unreachable statement''])"
  using assms
proof (induction "length items" arbitrary: items t stmts ds rule: less_induct)
  case less
  show ?case
  proof (cases items)
    case Nil
    then show ?thesis using less.prems by (cases t) (auto simp: loop_ok_def)
  next
    case (Cons item rest)
    then have nt: "\<not> t" using less.prems by (auto split: if_splits)
    show ?thesis
    proof (cases item)
      case (AttrItem b)
      then obtain s where s: "compileAttribute b d = Inr s"
        using less.prems nt Cons by (cases "compileAttribute b d") auto
      have "loop_ok P d (attr_exits P b s) (stmts @ [s])"
        using less.prems(5) compileAttribute_ok [OF s, of P] nt by (auto intro: loop_ok_snoc)
      with less.hyps [of rest "attr_exits P b s" "stmts @ [s]" ds] less.prems show ?thesis
        by (simp add: Cons AttrItem nt s)
    next
      case (BlockItem b)
      then obtain s c bds where s: "compileBlock P d b rest = Inr (s, c, bds)"
        using less.prems nt Cons by (cases "compileBlock P d b rest") (auto split: prod.splits)
      have "loop_ok P d (alwaysTerminates s) (stmts @ [s])"
        using less.prems(5) compile_wf(2) [of P d b rest] nt by (auto simp: s intro: loop_ok_snoc)
      with less.hyps [of "drop c rest" "alwaysTerminates s" "stmts @ [s]" "ds @ bds"] less.prems
        compileBlock_consumed [OF s]
      show ?thesis
        by (simp add: Cons BlockItem nt s compileBlock_snoc)
    qed
  qed
qed

section \<open>Properties\<close>

text \<open>A small instance of the syntax for examples: an expression is its text.\<close>

definition text_syntax :: "(string, bool) hcl_syntax" where
  "text_syntax = \<lparr>
     ParseExpression = (\<lambda>t. (t, if t = [] then [DiagError ''Missing expression''] else [])),
     literal = (\<lambda>e. if e = ''true'' then Some True else if e = ''false'' then Some False else None),
     equals_true = (\<lambda>v. v)\<rparr>"

definition text_api :: "(string, unit, bool, unit) hcl_api" where
  "text_api = \<lparr>
     expr_value = (\<lambda>e c w. (Some (e = ''true'' \<or> Variables c e = Some True, []), w)),
     is_true = Some, equals = (\<lambda>a b. a = b), collection_type = (\<lambda>_. NotCollection),
     elements = (\<lambda>_. None), entry_object = (\<lambda>k v. v), NilVal = False, NullVal = False\<rparr>"

lemma text_literal_ok: "literal_true_ok text_syntax text_api"
  by (auto simp: literal_true_ok_def text_syntax_def text_api_def split: if_splits)

definition text_attr :: "string \<Rightarrow> string \<Rightarrow> nat \<Rightarrow> string hclAttribute" where
  "text_attr x e i = \<lparr>attr_Name = x, attr_Expr = e, attr_Start = i\<rparr>"

lemmas compile_simps = Compile_def compileItems_def sortBodyItems_def compileAttribute_def
  isUnconditionalSignal_def text_syntax_def text_attr_def block_compilers


definition loop_body :: "string hclBody" where
  "loop_body = HBody [text_attr ''return'' ''x'' 30, text_attr ''x'' ''true'' 1]
     [HBlock ''while'' [''x''] 10 20 (HBody [text_attr ''break'' ''true'' 15] [])]"

lemma loop_body_compiles:
  "Compile text_syntax (Some loop_body) =
     ([Assignment ''x'' ''true'', While ''x'' [Break ''true''], Return ''x''], [])"
  by (simp add: compile_simps loop_body_def)


text \<open>C10: A compiled procedure that comes to an end ends with a value: either a \<open>return\<close> statement was
  reached, and the result is its value, or none was, and the result is null. A \<open>break\<close> or \<open>continue\<close>
  never leaves the procedure.\<close>

theorem compiled_result:
  assumes "Compile P body = (stmts, diags)" and "\<not> HasErrors diags"
    and "Execute A ctx n stmts s = (Done (v, sig), s')"
  shows "(sig = None \<and> v = NullVal A) \<or>
         (\<exists>g. sig = Some g \<and> Kind g = SignalReturn \<and> v = SigValue g)"
proof -
  have "wf_body P 0 stmts"
    using compile_wf(1) [of P 0 False "[]" "sortBodyItems (the body)" "[]"] assms(1,2)
    by (auto simp: Compile_def compileItems_def split: option.splits)
  then have "list_all no_jump stmts"
    using wf_no_jump(1) [of 0 P] by (auto simp: wf_body_def list_all_iff)
  from yieldsD [OF no_jump_signals(1) [OF this, of A ctx n], of s "(v, sig)"]
  have "only_return sig" using assms(3) by simp
  moreover have "case sig of None \<Rightarrow> v = NullVal A | Some g \<Rightarrow> v = SigValue g"
    using yieldsD [OF Execute_value, of A ctx n stmts s "(v, sig)"] assms(3) by simp
  ultimately show ?thesis by (cases sig) auto
qed

lemma loop_body_runs:
  "Execute text_api None 2 [Assignment ''x'' ''true'', While ''x'' [Break ''true''], Return ''x'']
     (Scope Map.empty None, ()) =
     (Done (True, Some \<lparr>Kind = SignalReturn, SigValue = True\<rparr>), (Scope [''x'' \<mapsto> True] None, ()))"
  by (simp add: run_simps text_api_def eval_nat_numeral)

theorem compiled_result_witness:
  "(Some \<lparr>Kind = SignalReturn, SigValue = True\<rparr> = None \<and> True = NullVal text_api) \<or>
   (\<exists>g. Some \<lparr>Kind = SignalReturn, SigValue = True\<rparr> = Some g \<and> Kind g = SignalReturn \<and> True = SigValue g)"
  by (rule compiled_result [OF loop_body_compiles _ loop_body_runs]) simp

text \<open>The check for unreachable statements is right: once the last statement always exits, adding
  another statement is refused, and such a statement could never have had an effect, whatever the
  world and the values are, as long as a literal \<open>true\<close> evaluates to true.\<close>

theorem unreachable_rejected:
  assumes "compileItems P items d = (stmts, diags)" and "\<not> HasErrors diags"
    and "stmts \<noteq> []" and "exits P (last stmts)"
  shows "compileItems P (items @ [AttrItem a]) d =
           (stmts, diags @ [DiagError ''Unreachable statement'']) \<and>
         (literal_true_ok P A \<longrightarrow> Execute A ctx n (stmts @ ts) = Execute A ctx n stmts)"
  using compile_loop_snoc [of P d items False "[]" "[]" stmts diags a] assms
    Execute_dead_code [of P A "last stmts" ctx n "butlast stmts" ts]
  by (auto simp: compileItems_def) (metis append_Cons append_Nil append_assoc append_butlast_last_id)

theorem unreachable_rejected_witness:
  "compileItems text_syntax ([AttrItem (text_attr ''return'' ''x'' 1)] @ [AttrItem (text_attr ''y'' ''x'' 5)]) 0 =
     ([Return ''x''], [] @ [DiagError ''Unreachable statement'']) \<and>
   Execute text_api None 0 ([Return ''x''] @ [Assignment ''y'' ''x'']) = Execute text_api None 0 [Return ''x'']"
proof -
  have "compileItems text_syntax [AttrItem (text_attr ''return'' ''x'' 1)] 0 = ([Return ''x''], [])"
    by (simp add: compile_simps)
  from unreachable_rejected [OF this, where a = "text_attr ''y'' ''x'' 5" and A = text_api and
      ctx = None and n = 0 and ts = "[Assignment ''y'' ''x'']"]
  show ?thesis using text_literal_ok by simp
qed

text \<open>Statements run in source order: the items of a body are compiled in the order of their
  offsets, and as no two items start at the same offset this order is the only sorted one, so that
  neither the iteration order of the attribute map nor the sorting algorithm matters.\<close>

theorem sort_items_unique:
  assumes "distinct (map offset (map AttrItem (Attributes body) @ map BlockItem (Blocks body)))"
  shows "mset items = mset (map AttrItem (Attributes body) @ map BlockItem (Blocks body)) \<and>
           sorted (map offset items) \<longleftrightarrow> items = sortBodyItems body"
proof
  assume l: "mset items = mset (map AttrItem (Attributes body) @ map BlockItem (Blocks body)) \<and>
      sorted (map offset items)"
  have same: "mset items = mset (sortBodyItems body)"
    using l by (simp add: sortBodyItems_def)
  have dist: "distinct (map offset xs)" if "mset xs = mset (sortBodyItems body)" for xs
    using assms mset_eq_imp_distinct_iff [of "map offset xs"
        "map offset (map AttrItem (Attributes body) @ map BlockItem (Blocks body))"] that
    by (simp only: mset_map sortBodyItems_def mset_sort)
  have "distinct (map offset items)" "distinct (map offset (sortBodyItems body))"
    using dist same by auto
  moreover have sets: "set items = set (sortBodyItems body)"
    using same by (metis set_mset_mset)
  moreover have "inj_on offset (set items \<union> set (sortBodyItems body))"
    using dist [OF same] by (simp add: sets [symmetric] distinct_map)
  moreover have "sorted (map offset (sortBodyItems body))"
    by (simp add: sortBodyItems_def)
  ultimately show "items = sortBodyItems body"
    using l by (intro map_sorted_distinct_set_unique [of offset]) blast+
qed (auto simp: sortBodyItems_def)

theorem sort_items_unique_witness:
  "(mset [AttrItem (text_attr ''x'' ''true'' 1), AttrItem (text_attr ''y'' ''x'' 5)] =
      mset (map AttrItem (Attributes (HBody [text_attr ''y'' ''x'' 5, text_attr ''x'' ''true'' 1] [])) @
            map BlockItem (Blocks (HBody [text_attr ''y'' ''x'' 5, text_attr ''x'' ''true'' 1] []))) \<and>
    sorted (map offset [AttrItem (text_attr ''x'' ''true'' 1), AttrItem (text_attr ''y'' ''x'' 5)])) =
   ([AttrItem (text_attr ''x'' ''true'' 1), AttrItem (text_attr ''y'' ''x'' 5)] =
      sortBodyItems (HBody [text_attr ''y'' ''x'' 5, text_attr ''x'' ''true'' 1] []))"
  by (rule sort_items_unique) (simp add: text_attr_def)

text \<open>An \<open>else\<close> block with an empty body leaves no trace in the chain: what follows it is compiled
  as if it were not there, so that a second \<open>else\<close>, or an \<open>elif\<close> after the \<open>else\<close>, is accepted.\<close>

theorem empty_else_ignored:
  "chain_loop P d (BlockItem (HBlock ''else'' [] i j (HBody [] [])) # rest) bs [] c ds =
     chain_loop P d rest bs [] (c + 1) ds \<and>
   chain_loop P d [BlockItem (HBlock ''else'' [] i j (HBody [] [])),
       BlockItem (HBlock ''else'' [] k l (HBody [a] []))] bs [] c ds =
     (case compileAttribute a d of
        Inl es \<Rightarrow> (if HasErrors es then Inl (ds @ es) else Inr (IfChain bs [], c + 2, ds @ es))
      | Inr s \<Rightarrow> Inr (IfChain bs [s], c + 2, ds))"
  by (auto simp: sortBodyItems_def split: sum.split)

end
