(* ===== verification/Block_Deps.thy ===== *)
theory Block_Deps
  imports Vinculum_Prelude
begin

text \<open>
  The order in which configuration blocks are processed (\<open>config/dep.go\<close>): the references of a
  block, and Kahn's algorithm with a sorted frontier. Blocks and their handlers are arguments:
  a block's dependency id and its dependencies, each with the diagnostics of computing it.
\<close>

section \<open>References\<close>

datatype traverse_step = TraverseAttr string | TraverseOther

text \<open>A traversal is its root name and the steps after it.\<close>

type_synonym hcl_traversal = "string \<times> traverse_step list"

fun add_steps :: "string \<Rightarrow> traverse_step list \<Rightarrow> string" where
  "add_steps ref [] = ref"
| "add_steps ref (TraverseAttr a # ss) = add_steps (ref @ ''.'' @ a) ss"
| "add_steps ref (TraverseOther # ss) = add_steps ref ss"

definition ref_name :: "hcl_traversal \<Rightarrow> string" where
  "ref_name t = add_steps (fst t) (snd t)"

definition ExtractReferencesFromAttribute :: "hcl_traversal list \<Rightarrow> string list" where
  "ExtractReferencesFromAttribute vars = map ref_name vars"

text \<open>A body: attributes with the traversals of their expressions, and nested blocks.\<close>

datatype hcl_body = Body "(string \<times> hcl_traversal list) list" "hcl_body list"

fun ExtractReferencesFromBody :: "string set \<Rightarrow> hcl_body \<Rightarrow> string list" where
  "ExtractReferencesFromBody exclude (Body attrs blocks) =
     concat (map (\<lambda>(name, vars). if name \<in> exclude then [] else map ref_name vars) attrs) @
     concat (map (ExtractReferencesFromBody exclude) blocks)"

definition ExtractReferencesFromBlock :: "hcl_body \<Rightarrow> string list" where
  "ExtractReferencesFromBlock body = ExtractReferencesFromBody {} body"

definition ExtractBlockDependencies :: "hcl_body \<Rightarrow> string list \<Rightarrow> string list" where
  "ExtractBlockDependencies body excludeAttrs = ExtractReferencesFromBody (set excludeAttrs) body"

section \<open>The dependency graph\<close>

record 'b entry =
  e_id :: string
  e_srcIdx :: nat
  e_block :: 'b

text \<open>The first loop: blocks with a dependency id become entries, the others keep their order.
  \<open>ident\<close> is \<open>None\<close> where the block type has no handler, and gives the id (possibly empty) with
  its diagnostics otherwise.\<close>

fun classify ::
  "('b \<Rightarrow> (string \<times> diag list) option) \<Rightarrow> nat \<Rightarrow> 'b list \<Rightarrow> 'b entry list \<times> 'b list \<times> diag list" where
  "classify ident i [] = ([], [], [])"
| "classify ident i (b # bs) =
     (let (es, os, ds) = classify ident (Suc i) bs
      in case ident b of
           None \<Rightarrow> (es, b # os, ds)
         | Some (x, d) \<Rightarrow>
             if x = [] then (es, b # os, d @ ds)
             else (\<lparr>e_id = x, e_srcIdx = i, e_block = b\<rparr> # es, os, d @ ds))"

text \<open>The index of an id: where an id occurs twice, the later entry is the one found.\<close>

fun idToIdx :: "nat \<Rightarrow> 'b entry list \<Rightarrow> string \<Rightarrow> nat option" where
  "idToIdx i [] x = None"
| "idToIdx i (e # es) x =
     (case idToIdx (Suc i) es x of
        Some j \<Rightarrow> Some j
      | None \<Rightarrow> if e_id e = x then Some i else None)"

text \<open>The second loop: \<open>dependents\<close> lists, for each entry, the entries that depend on it, and
  \<open>inDegree\<close> counts each entry's dependencies, both with multiplicity.\<close>

fun add_deps :: "nat \<Rightarrow> nat list \<Rightarrow> nat list list \<times> int list \<Rightarrow> nat list list \<times> int list" where
  "add_deps e [] g = g"
| "add_deps e (d # ds) (dependents, inDegree) =
     add_deps e ds (dependents[d := dependents ! d @ [e]], inDegree[e := inDegree ! e + 1])"

fun build_graph :: "nat \<Rightarrow> nat list list \<Rightarrow> nat list list \<times> int list \<Rightarrow> nat list list \<times> int list" where
  "build_graph e [] g = g"
| "build_graph e (ds # dss) g = build_graph (Suc e) dss (add_deps e ds g)"

section \<open>Kahn's algorithm\<close>

text \<open>The inner loop of an emission: decrement each dependent and collect those that reach zero.
  \<open>None\<close> is the panic of an index out of range.\<close>

fun release :: "nat list \<Rightarrow> int list \<Rightarrow> (nat list \<times> int list) option" where
  "release [] inDegree = Some ([], inDegree)"
| "release (d # ds) inDegree =
     (if d < length inDegree
      then let inDegree' = inDegree[d := inDegree ! d - 1]
           in case release ds inDegree' of
                None \<Rightarrow> None
              | Some (new, r) \<Rightarrow> Some (if inDegree' ! d = 0 then d # new else new, r)
      else None)"

definition positives :: "int list \<Rightarrow> nat" where
  "positives xs = length (filter (\<lambda>x. 0 < x) xs)"

lemma positives_update:
  assumes "d < length xs"
  shows "positives (xs[d := x]) + (if 0 < xs ! d then 1 else 0) = positives xs + (if 0 < x then 1 else 0)"
  using assms
proof (induction xs arbitrary: d)
  case (Cons y ys)
  then show ?case by (cases d) (auto simp: positives_def)
qed simp

lemma release_measure:
  "release ds xs = Some (new, r) \<Longrightarrow> length new + positives r \<le> positives xs"
proof (induction ds arbitrary: xs new r)
  case (Cons d ds)
  let ?xs = "xs[d := xs ! d - 1]"
  obtain new' where r: "release ds ?xs = Some (new', r)" and d: "d < length xs"
    and new: "new = (if ?xs ! d = 0 then d # new' else new')"
    using Cons.prems by (auto simp: Let_def split: if_splits option.splits)
  show ?case
    using Cons.IH[OF r] positives_update[OF d, of "xs ! d - 1"] d new by (auto split: if_splits)
qed simp

text \<open>The main loop. Every pass emits one entry; an entry enters the frontier when its count
  falls to zero, which happens once, so the loop ends.\<close>

function kahn ::
  "nat list list \<Rightarrow> (nat \<Rightarrow> nat) \<Rightarrow> nat list \<Rightarrow> int list \<Rightarrow> nat list option" where
  "kahn dependents key [] inDegree = Some []"
| "kahn dependents key (idx # available) inDegree =
     (case release (dependents ! idx) inDegree of
        None \<Rightarrow> None
      | Some (newAvail, inDegree') \<Rightarrow>
          (case kahn dependents key
                  (if newAvail \<noteq> [] then sort_key key (available @ newAvail) else available) inDegree' of
             None \<Rightarrow> None
           | Some result \<Rightarrow> Some (idx # result)))"
  by pat_completeness auto
termination
  by (relation "measure (\<lambda>(dependents, key, available, inDegree). length available + positives inDegree)")
     (auto dest: release_measure)

definition SortBlocksByDependencies ::
  "('b \<Rightarrow> (string \<times> diag list) option) \<Rightarrow> ('b \<Rightarrow> string list \<times> diag list) \<Rightarrow> 'b list \<Rightarrow>
     ('b list \<times> diag list) option" where
  "SortBlocksByDependencies ident getDeps blocks =
     (let (entries, others, ds) = classify ident 0 blocks
      in if HasErrors ds then Some ([], ds)
         else
          let n = length entries;
              ds1 = ds @ concat (map (\<lambda>e. snd (getDeps (e_block e))) entries)
          in if HasErrors ds1 then Some ([], ds1)
             else
              let deps = map (\<lambda>e. List.map_filter (idToIdx 0 entries) (fst (getDeps (e_block e)))) entries;
                  (dependents, inDegree) = build_graph 0 deps (replicate n [], replicate n 0);
                  key = (\<lambda>i. e_srcIdx (entries ! i));
                  available = sort_key key (filter (\<lambda>i. inDegree ! i = 0) [0..<n])
              in case kahn dependents key available inDegree of
                   None \<Rightarrow> None
                 | Some result \<Rightarrow>
                     if length result \<noteq> n
                     then Some ([], ds1 @ [DiagError ''Circular dependency between blocks''])
                     else Some (map (\<lambda>i. e_block (entries ! i)) result @ others, ds1))"

section \<open>Building the graph\<close>

lemma count_list_pos: "0 < count_list xs x \<longleftrightarrow> x \<in> set xs"
  by (metis count_list_0_iff neq0_conv)

lemma takeWhile_before: "d \<in> set as \<Longrightarrow> length (takeWhile (\<lambda>x. x \<noteq> d) (as @ ys)) < length as"
  by (induction as) auto

lemma add_deps_spec:
  assumes "\<forall>d \<in> set ds. d < length D" and "e < length I"
  shows "case add_deps e ds (D, I) of (D', I') \<Rightarrow>
           length D' = length D \<and> length I' = length I \<and>
           (\<forall>d < length D. \<forall>x. count_list (D' ! d) x = count_list (D ! d) x + (if x = e then count_list ds d else 0)) \<and>
           (\<forall>x < length I. I' ! x = I ! x + (if x = e then int (length ds) else 0))"
  using assms
proof (induction ds arbitrary: D I)
  case (Cons d ds)
  have "case add_deps e ds (D[d := D ! d @ [e]], I[e := I ! e + 1]) of (D', I') \<Rightarrow>
      length D' = length D \<and> length I' = length I \<and>
      (\<forall>k < length D. \<forall>x. count_list (D' ! k) x =
         count_list (D[d := D ! d @ [e]] ! k) x + (if x = e then count_list ds k else 0)) \<and>
      (\<forall>x < length I. I' ! x = I[e := I ! e + 1] ! x + (if x = e then int (length ds) else 0))"
    using Cons.IH[of "D[d := D ! d @ [e]]" "I[e := I ! e + 1]"] Cons.prems by simp
  then show ?case
    using Cons.prems by (auto simp: nth_list_update split: prod.splits)
qed simp

lemma build_graph_spec:
  assumes "\<forall>ds \<in> set dss. \<forall>d \<in> set ds. d < length D" and "e0 + length dss = length I"
  shows "case build_graph e0 dss (D, I) of (D', I') \<Rightarrow>
           length D' = length D \<and> length I' = length I \<and>
           (\<forall>d < length D. \<forall>x. count_list (D' ! d) x = count_list (D ! d) x +
              (if e0 \<le> x \<and> x < length I then count_list (dss ! (x - e0)) d else 0)) \<and>
           (\<forall>x < length I. I' ! x = I ! x + (if e0 \<le> x then int (length (dss ! (x - e0))) else 0))"
  using assms
proof (induction dss arbitrary: e0 D I)
  case (Cons ds dss)
  obtain D1 I1 where g: "add_deps e0 ds (D, I) = (D1, I1)" by (cases "add_deps e0 ds (D, I)")
  have a: "length D1 = length D" "length I1 = length I"
    "\<forall>d < length D. \<forall>x. count_list (D1 ! d) x = count_list (D ! d) x + (if x = e0 then count_list ds d else 0)"
    "\<forall>x < length I. I1 ! x = I ! x + (if x = e0 then int (length ds) else 0)"
    using add_deps_spec[of ds D e0 I] Cons.prems g by auto
  obtain D2 I2 where h: "build_graph (Suc e0) dss (D1, I1) = (D2, I2)"
    by (cases "build_graph (Suc e0) dss (D1, I1)")
  have b: "length D2 = length D" "length I2 = length I"
    "\<forall>d < length D. \<forall>x. count_list (D2 ! d) x = count_list (D1 ! d) x +
       (if Suc e0 \<le> x \<and> x < length I then count_list (dss ! (x - Suc e0)) d else 0)"
    "\<forall>x < length I. I2 ! x = I1 ! x + (if Suc e0 \<le> x then int (length (dss ! (x - Suc e0))) else 0)"
    using Cons.IH[of D1 "Suc e0" I1] Cons.prems a(1,2) h by auto
  have nth: "(ds # dss) ! (x - e0) = (if x = e0 then ds else dss ! (x - Suc e0))" if "e0 \<le> x" for x
    using that by (cases "x = e0") (auto simp: nth_Cons' diff_Suc split: nat.splits)
  show ?case
    using a b Cons.prems(2) by (simp add: g h nth)
qed simp

section \<open>Correctness of the loop\<close>

lemma release_spec:
  assumes "\<forall>d \<in> set ds. d < length xs"
  shows "\<exists>new r. release ds xs = Some (new, r) \<and> length r = length xs \<and>
           (\<forall>e < length xs. r ! e = xs ! e - int (count_list ds e)) \<and> distinct new \<and>
           set new = {e. e < length xs \<and> 1 \<le> xs ! e \<and> xs ! e \<le> int (count_list ds e)}"
  using assms
proof (induction ds arbitrary: xs)
  case (Cons d ds)
  let ?xs = "xs[d := xs ! d - 1]"
  have d: "d < length xs" using Cons.prems by simp
  obtain new r where r: "release ds ?xs = Some (new, r)" "length r = length xs"
    "\<forall>e < length xs. r ! e = ?xs ! e - int (count_list ds e)" "distinct new"
    "set new = {e. e < length xs \<and> 1 \<le> ?xs ! e \<and> ?xs ! e \<le> int (count_list ds e)}"
    using Cons.IH[of ?xs] Cons.prems by auto
  let ?new = "if ?xs ! d = 0 then d # new else new"
  have "release (d # ds) xs = Some (?new, r)" using r(1) d by (simp add: Let_def)
  moreover have "\<forall>e < length xs. r ! e = xs ! e - int (count_list (d # ds) e)"
    using r(3) d by (auto simp: nth_list_update)
  moreover have "distinct ?new" using r(4,5) d by auto
  moreover have "set ?new = {e. e < length xs \<and> 1 \<le> xs ! e \<and> xs ! e \<le> int (count_list (d # ds) e)}"
  proof (rule set_eqI)
    fix e
    show "e \<in> set ?new \<longleftrightarrow> e \<in> {e. e < length xs \<and> 1 \<le> xs ! e \<and> xs ! e \<le> int (count_list (d # ds) e)}"
    proof (cases "e = d")
      case True
      have "d \<in> set new \<longleftrightarrow> 1 \<le> xs ! d - 1 \<and> xs ! d - 1 \<le> int (count_list ds d)"
        unfolding r(5) using d by simp
      then show ?thesis using True d by auto
    next
      case False
      then show ?thesis using r(5) by simp
    qed
  qed
  ultimately show ?case using r(2) by blast
qed simp

definition pending :: "nat list list \<Rightarrow> nat \<Rightarrow> nat list \<Rightarrow> nat \<Rightarrow> nat" where
  "pending D n res e = (\<Sum>d \<in> {..<n} - set res. count_list (D ! d) e)"

text \<open>The invariant of the loop: \<open>res\<close> has been emitted, the counts are the dependencies not yet
  emitted, and the frontier holds, in key order, exactly the entries with none left.\<close>

definition kahn_inv :: "nat list list \<Rightarrow> nat \<Rightarrow> (nat \<Rightarrow> nat) \<Rightarrow> nat list \<Rightarrow> nat list \<Rightarrow> int list \<Rightarrow> bool" where
  "kahn_inv D n key res avail I \<longleftrightarrow>
     length D = n \<and> length I = n \<and> (\<forall>d < n. set (D ! d) \<subseteq> {..<n}) \<and>
     distinct (res @ avail) \<and> set (res @ avail) \<subseteq> {..<n} \<and> sorted (map key avail) \<and>
     (\<forall>e < n. I ! e = int (pending D n res e)) \<and>
     (\<forall>e. e \<in> set avail \<longleftrightarrow> e < n \<and> e \<notin> set res \<and> I ! e = 0) \<and> (\<forall>e \<in> set res. I ! e = 0)"

lemma pending_emit:
  assumes "idx < n" and "idx \<notin> set res"
  shows "pending D n res e = pending D n (res @ [idx]) e + count_list (D ! idx) e"
proof -
  let ?S = "{..<n} - set (res @ [idx])"
  have "{..<n} - set res = insert idx ?S" using assms by auto
  then have "pending D n res e = (\<Sum>d \<in> insert idx ?S. count_list (D ! d) e)"
    by (simp only: pending_def)
  also have "\<dots> = count_list (D ! idx) e + (\<Sum>d \<in> ?S. count_list (D ! d) e)"
    by (rule sum.insert) auto
  finally show ?thesis by (simp only: pending_def add.commute)
qed

lemma kahn_step:
  assumes inv: "kahn_inv D n key res (idx # avail) I"
  shows "\<exists>new I'. release (D ! idx) I = Some (new, I') \<and>
           kahn_inv D n key (res @ [idx]) (if new \<noteq> [] then sort_key key (avail @ new) else avail) I'"
proof -
  have I: "length I = n" "\<forall>e < n. I ! e = int (pending D n res e)"
    and Ds: "\<forall>d < n. set (D ! d) \<subseteq> {..<n}"
    and fr: "\<forall>e. e \<in> set (idx # avail) \<longleftrightarrow> e < n \<and> e \<notin> set res \<and> I ! e = 0"
    and done0: "\<forall>e \<in> set res. I ! e = 0" and dist: "distinct (res @ idx # avail)"
    and all: "set (res @ idx # avail) \<subseteq> {..<n}"
    using inv unfolding kahn_inv_def by blast+
  have idx: "idx < n" "idx \<notin> set res" and D: "set (D ! idx) \<subseteq> {..<n}" and I0: "I ! idx = 0"
    and sub: "set res \<subseteq> {..<n}"
    using fr[rule_format, of idx] Ds all by simp_all
  obtain new I' where r: "release (D ! idx) I = Some (new, I')" "length I' = n"
    "\<forall>e < n. I' ! e = I ! e - int (count_list (D ! idx) e)" "distinct new"
    "set new = {e. e < n \<and> 1 \<le> I ! e \<and> I ! e \<le> int (count_list (D ! idx) e)}"
    using release_spec[of "D ! idx" I] D I(1) by (auto simp only: subset_eq lessThan_iff)
  have p: "I' ! e = int (pending D n (res @ [idx]) e)" if "e < n" for e
    using r(3) I(2) that pending_emit[OF idx, of D e] by simp
  have new: "e \<in> set new \<longleftrightarrow> e < n \<and> 0 < I ! e \<and> I' ! e = 0" for e
    using p[of e] r(3)[rule_format, of e] unfolding r(5) by (cases "e < n") auto
  have mono: "I' ! e = 0" if "e < n" "I ! e = 0" for e
    using r(3) p[of e] that by simp
  have av: "e \<in> set avail \<union> set new \<longleftrightarrow> e < n \<and> e \<notin> set (res @ [idx]) \<and> I' ! e = 0" for e
  proof (cases "e < n \<and> I ! e = 0")
    case True
    then show ?thesis using fr[rule_format, of e] new[of e] mono[of e] dist by auto
  next
    case False
    then have "e \<notin> set avail" "e \<noteq> idx" "e < n \<longrightarrow> e \<notin> set res" "e < n \<longrightarrow> 0 < I ! e"
      using fr[rule_format, of e] I0 idx done0 I(2) by auto
    then show ?thesis using new[of e] by auto
  qed
  have av0: "\<forall>e \<in> set avail. I ! e = 0" using fr by (metis list.set_intros(2))
  have disj: "set new \<inter> set avail = {}" "set new \<inter> set res = {}" "idx \<notin> set new"
    using new done0 I0 av0 by auto
  let ?av = "if new \<noteq> [] then sort_key key (avail @ new) else avail"
  have avs: "set ?av = set avail \<union> set new" by auto
  have dav: "distinct ?av" using dist r(4) disj(1) by auto
  have done': "\<forall>e \<in> set (res @ [idx]). I' ! e = 0" using mono done0 I0 sub idx by (auto dest: subsetD)
  have "kahn_inv D n key (res @ [idx]) ?av I'"
    unfolding kahn_inv_def
  proof (intro conjI)
    show "length D = n" using inv by (simp add: kahn_inv_def)
    show "sorted (map key ?av)" using inv by (simp add: kahn_inv_def)
    show "distinct ((res @ [idx]) @ ?av)" using dist dav disj avs by auto
    show "set ((res @ [idx]) @ ?av) \<subseteq> {..<n}" using all avs av by auto
    show "\<forall>e < n. I' ! e = int (pending D n (res @ [idx]) e)" using p by blast
    show "\<forall>e. e \<in> set ?av \<longleftrightarrow> e < n \<and> e \<notin> set (res @ [idx]) \<and> I' ! e = 0" using av avs by blast
  qed (use r(2) Ds done' in blast)+
  then show ?thesis using r(1) by blast
qed

text \<open>A list of emitted entries in which every entry comes after the entries it depends on.\<close>

definition ordered :: "nat list list \<Rightarrow> nat list \<Rightarrow> nat list \<Rightarrow> bool" where
  "ordered D before xs \<longleftrightarrow>
     (\<forall>as e bs. xs = as @ e # bs \<longrightarrow> (\<forall>d < length D. e \<in> set (D ! d) \<longrightarrow> d \<in> set before \<union> set as))"

lemma ordered_Cons:
  "ordered D before (x # xs) \<longleftrightarrow>
     (\<forall>d < length D. x \<in> set (D ! d) \<longrightarrow> d \<in> set before) \<and> ordered D (before @ [x]) xs"
proof
  assume o: "ordered D before (x # xs)"
  then have "\<forall>d < length D. x \<in> set (D ! d) \<longrightarrow> d \<in> set before"
    unfolding ordered_def by (metis append_Nil empty_set sup_bot.right_neutral)
  moreover have "ordered D (before @ [x]) xs"
    unfolding ordered_def
  proof (intro allI impI)
    fix as e bs d
    assume "xs = as @ e # bs" "d < length D" "e \<in> set (D ! d)"
    then have "x # xs = (x # as) @ e # bs" by simp
    then show "d \<in> set (before @ [x]) \<union> set as"
      using o[unfolded ordered_def, rule_format, of "x # as" e bs d] \<open>d < length D\<close> \<open>e \<in> set (D ! d)\<close>
      by auto
  qed
  ultimately show "(\<forall>d < length D. x \<in> set (D ! d) \<longrightarrow> d \<in> set before) \<and> ordered D (before @ [x]) xs" ..
next
  assume r: "(\<forall>d < length D. x \<in> set (D ! d) \<longrightarrow> d \<in> set before) \<and> ordered D (before @ [x]) xs"
  show "ordered D before (x # xs)"
    unfolding ordered_def
  proof (intro allI impI)
    fix as e bs d
    assume a: "x # xs = as @ e # bs" "d < length D" "e \<in> set (D ! d)"
    show "d \<in> set before \<union> set as"
    proof (cases as)
      case Nil
      then show ?thesis using a r by auto
    next
      case (Cons y as')
      then have "xs = as' @ e # bs" "y = x" using a(1) by auto
      then have "d \<in> set (before @ [x]) \<union> set as'" using r a(2,3) unfolding ordered_def by blast
      then show ?thesis using Cons \<open>y = x\<close> by auto
    qed
  qed
qed

lemma ordered_Nil [simp]: "ordered D before []"
  by (simp add: ordered_def)

lemma pending_zero_iff:
  "pending D n res e = 0 \<longleftrightarrow> (\<forall>d < n. e \<in> set (D ! d) \<longrightarrow> d \<in> set res)"
  by (auto simp: pending_def count_list_0_iff)

lemma kahn_correct:
  "kahn_inv D n key res avail I \<Longrightarrow>
     \<exists>out. kahn D key avail I = Some out \<and> distinct (res @ out) \<and> set (res @ out) \<subseteq> {..<n} \<and>
       ordered D res out \<and>
       (\<forall>e < n. e \<notin> set (res @ out) \<longrightarrow> (\<exists>d < n. e \<in> set (D ! d) \<and> d \<notin> set (res @ out)))"
proof (induction D key avail I arbitrary: res rule: kahn.induct)
  case (1 D key I)
  have "\<forall>e < n. e \<notin> set res \<longrightarrow> pending D n res e \<noteq> 0"
    using 1 by (auto simp: kahn_inv_def)
  then show ?case using 1 by (auto simp: kahn_inv_def pending_zero_iff)
next
  case (2 D key idx avail I)
  obtain new I' where r: "release (D ! idx) I = Some (new, I')"
    and inv': "kahn_inv D n key (res @ [idx]) (if new \<noteq> [] then sort_key key (avail @ new) else avail) I'"
    using kahn_step[OF 2(2)] by blast
  obtain out where out: "kahn D key (if new \<noteq> [] then sort_key key (avail @ new) else avail) I' = Some out"
    "distinct ((res @ [idx]) @ out)" "set ((res @ [idx]) @ out) \<subseteq> {..<n}" "ordered D (res @ [idx]) out"
    "\<forall>e < n. e \<notin> set ((res @ [idx]) @ out) \<longrightarrow> (\<exists>d < n. e \<in> set (D ! d) \<and> d \<notin> set ((res @ [idx]) @ out))"
    using 2(1)[OF r refl inv'] by blast
  have "idx < n" "I ! idx = 0" "I ! idx = int (pending D n res idx)" "length D = n"
    using 2(2) unfolding kahn_inv_def by (auto dest: spec[of _ idx])
  then have "\<forall>d < length D. idx \<in> set (D ! d) \<longrightarrow> d \<in> set res"
    using pending_zero_iff[of D n res idx] by simp
  then have "ordered D res (idx # out)" using out(4) by (simp add: ordered_Cons)
  moreover have "kahn D key (idx # avail) I = Some (idx # out)" using r out(1) by simp
  ultimately show ?case using out(2,3,5) by auto
qed

lemma kahn_stable:
  assumes key: "\<forall>i j. i < j \<and> j < n \<longrightarrow> key i < key j"
    and deps: "\<forall>d < n. \<forall>e \<in> set (D ! d). d < e"
  shows "kahn_inv D n key [0..<k] avail I \<Longrightarrow> k \<le> n \<Longrightarrow> kahn D key avail I = Some [k..<n]"
proof (induction "n - k" arbitrary: k avail I)
  case 0
  have "\<forall>e. e \<in> set avail \<longleftrightarrow> e < n \<and> e \<notin> set [0..<k] \<and> I ! e = 0"
    using 0(2) unfolding kahn_inv_def by blast
  with 0 have "avail = []" by (cases avail) (auto dest: spec[of _ "hd avail"])
  then show ?case using 0 by simp
next
  case (Suc m)
  have k: "k < n" using Suc.hyps(2) by simp
  have fr: "\<forall>e. e \<in> set avail \<longleftrightarrow> e < n \<and> e \<notin> set [0..<k] \<and> I ! e = 0"
    and I: "\<forall>e < n. I ! e = int (pending D n [0..<k] e)" and srt: "sorted (map key avail)"
    using Suc.prems(1) unfolding kahn_inv_def by blast+
  have "pending D n [0..<k] k = 0" using deps by (auto simp: pending_zero_iff)
  then have kin: "k \<in> set avail" using fr I k by simp
  obtain x xs where av: "avail = x # xs" using kin by (cases avail) auto
  have "x = k"
  proof (rule ccontr)
    assume "x \<noteq> k"
    moreover have "k \<le> x" "x < n"
      using fr[rule_format, of x] av by simp_all
    ultimately have "key k < key x" using key by simp
    moreover have "key x \<le> key k" using srt kin av by auto
    ultimately show False by simp
  qed
  with kahn_step[of D n key "[0..<k]" x xs I] Suc.prems(1) av
  obtain new I' where r: "release (D ! k) I = Some (new, I')"
    and inv': "kahn_inv D n key ([0..<k] @ [k]) (if new \<noteq> [] then sort_key key (xs @ new) else xs) I'"
    by auto
  have "kahn D key (if new \<noteq> [] then sort_key key (xs @ new) else xs) I' = Some [Suc k..<n]"
    using inv' k Suc.hyps(2) by (intro Suc.hyps(1)) simp_all
  then show ?case using r av \<open>x = k\<close> k by (simp add: upt_conv_Cons)
qed

section \<open>Blocks\<close>

definition dep_indices :: "('b \<Rightarrow> string list \<times> diag list) \<Rightarrow> 'b entry list \<Rightarrow> nat list list" where
  "dep_indices getDeps entries =
     map (\<lambda>e. List.map_filter (idToIdx 0 entries) (fst (getDeps (e_block e)))) entries"

lemma idToIdx_range: "idToIdx i es x = Some j \<Longrightarrow> i \<le> j \<and> j < i + length es"
  by (induction es arbitrary: i) (fastforce split: option.splits if_splits)+

lemma length_dep_indices [simp]: "length (dep_indices getDeps entries) = length entries"
  by (simp add: dep_indices_def)

lemma dep_indices_range:
  "e < length entries \<Longrightarrow> set (dep_indices getDeps entries ! e) \<subseteq> {..<length entries}"
  using idToIdx_range[of 0 entries]
  by (fastforce simp: dep_indices_def List.map_filter_def)

lemma sum_count_list:
  "set xs \<subseteq> {..<n} \<Longrightarrow> (\<Sum>d \<in> {..<n}. count_list xs d) = length (xs :: nat list)"
proof (induction xs)
  case (Cons x xs)
  have "(\<Sum>d \<in> {..<n}. count_list (x # xs) d) = (\<Sum>d \<in> {..<n}. count_list xs d + (if d = x then 1 else 0))"
    by (rule sum.cong) auto
  then show ?case using Cons by (simp add: sum.distrib)
qed simp

lemma classify_mset:
  "classify ident i bs = (es, os, ds) \<Longrightarrow> mset (map e_block es) + mset os = mset bs"
  by (induction bs arbitrary: i es os ds) (fastforce split: prod.splits option.splits if_splits)+

lemma classify_src:
  "classify ident i bs = (es, os, ds) \<Longrightarrow> sorted_wrt (<) (map e_srcIdx es) \<and> (\<forall>e \<in> set es. i \<le> e_srcIdx e)"
proof (induction bs arbitrary: i es os ds)
  case (Cons b bs)
  obtain es1 os1 ds1 where c: "classify ident (Suc i) bs = (es1, os1, ds1)" by (cases "classify ident (Suc i) bs")
  show ?case
    using Cons.IH[OF c] Cons.prems c
    by (auto simp: Suc_le_eq intro: less_imp_le split: option.splits if_splits prod.splits)
qed simp

text \<open>The state in which the main loop starts.\<close>

lemma kahn_start:
  fixes entries :: "'b entry list" and getDeps :: "'b \<Rightarrow> string list \<times> diag list"
  defines "n \<equiv> length entries" and "deps \<equiv> dep_indices getDeps entries"
  assumes g: "build_graph 0 deps (replicate n [], replicate n 0) = (D, I)"
  shows "kahn_inv D n key [] (sort_key key (filter (\<lambda>i. I ! i = 0) [0..<n])) I \<and>
         (\<forall>d < n. \<forall>e. e \<in> set (D ! d) \<longleftrightarrow> e < n \<and> d \<in> set (deps ! e))"
proof -
  have len: "length deps = n" by (simp add: deps_def n_def)
  have rng: "set (deps ! e) \<subseteq> {..<n}" if "e < n" for e
    using that dep_indices_range by (simp add: deps_def n_def)
  have "\<forall>ds \<in> set deps. \<forall>d \<in> set ds. d < n" using rng len by (metis in_set_conv_nth lessThan_iff subsetD)
  then have b: "length D = n" "length I = n"
    "\<forall>d < n. \<forall>x. count_list (D ! d) x = (if x < n then count_list (deps ! x) d else 0)"
    "\<forall>x < n. I ! x = int (length (deps ! x))"
    using build_graph_spec[of deps "replicate n []" 0 "replicate n 0"] g len by auto
  have mem: "e \<in> set (D ! d) \<longleftrightarrow> e < n \<and> d \<in> set (deps ! e)" if "d < n" for d e
  proof -
    have "e \<in> set (D ! d) \<longleftrightarrow> 0 < count_list (D ! d) e" by (simp add: count_list_pos)
    also have "\<dots> \<longleftrightarrow> e < n \<and> d \<in> set (deps ! e)" using b(3) that by (simp add: count_list_pos)
    finally show ?thesis .
  qed
  have "pending D n [] e = length (deps ! e)" if "e < n" for e
    using sum_count_list[OF rng[OF that]] b(3) that by (simp add: pending_def)
  then show ?thesis
    using b mem by (auto simp: kahn_inv_def)
qed

definition handler_diags ::
  "('b \<Rightarrow> (string \<times> diag list) option) \<Rightarrow> ('b \<Rightarrow> string list \<times> diag list) \<Rightarrow> 'b list \<Rightarrow> diag list" where
  "handler_diags ident getDeps blocks =
     (case classify ident 0 blocks of (entries, others, ds) \<Rightarrow>
        ds @ concat (map (\<lambda>e. snd (getDeps (e_block e))) entries))"

text \<open>The loop on the graph of the blocks: its result lists entries in dependency order, and if it
  leaves some out, each of those depends on another that was left out.\<close>

definition block_order ::
  "('b \<Rightarrow> string list \<times> diag list) \<Rightarrow> 'b entry list \<Rightarrow> nat list option" where
  "block_order getDeps entries =
     (let n = length entries;
          (D, I) = build_graph 0 (dep_indices getDeps entries) (replicate n [], replicate n 0);
          key = (\<lambda>i. e_srcIdx (entries ! i))
      in kahn D key (sort_key key (filter (\<lambda>i. I ! i = 0) [0..<n])) I)"

definition dep_ordered :: "nat list list \<Rightarrow> nat list \<Rightarrow> bool" where
  "dep_ordered deps perm \<longleftrightarrow> (\<forall>as e bs. perm = as @ e # bs \<longrightarrow> set (deps ! e) \<subseteq> set as)"

lemma block_order_correct:
  "\<exists>out. block_order getDeps entries = Some out \<and> distinct out \<and> set out \<subseteq> {..<length entries} \<and>
     dep_ordered (dep_indices getDeps entries) out \<and>
     (\<forall>e < length entries. e \<notin> set out \<longrightarrow>
        (\<exists>d \<in> set (dep_indices getDeps entries ! e). d \<notin> set out))"
proof -
  let ?n = "length entries" and ?deps = "dep_indices getDeps entries"
  let ?key = "\<lambda>i. e_srcIdx (entries ! i)"
  obtain D I where g: "build_graph 0 ?deps (replicate ?n [], replicate ?n 0) = (D, I)"
    by (cases "build_graph 0 ?deps (replicate ?n [], replicate ?n 0)")
  note st = kahn_start[OF g, of ?key]
  have mem: "e \<in> set (D ! d) \<longleftrightarrow> e < ?n \<and> d \<in> set (?deps ! e)" if "d < ?n" for d e
    using st that by blast
  have len: "length D = ?n" using st by (simp add: kahn_inv_def)
  obtain out where out: "kahn D ?key (sort_key ?key (filter (\<lambda>i. I ! i = 0) [0..<?n])) I = Some out"
    "distinct ([] @ out)" "set ([] @ out) \<subseteq> {..<?n}" "ordered D [] out"
    "\<forall>e < ?n. e \<notin> set ([] @ out) \<longrightarrow> (\<exists>d < ?n. e \<in> set (D ! d) \<and> d \<notin> set ([] @ out))"
    using kahn_correct[OF conjunct1[OF st]] by blast
  have "dep_ordered ?deps out"
    unfolding dep_ordered_def
  proof (intro allI impI subsetI)
    fix as e bs d
    assume o: "out = as @ e # bs" and d: "d \<in> set (?deps ! e)"
    have e: "e < ?n" using o out(3) by auto
    then have dn: "d < ?n" using d dep_indices_range[of e entries getDeps] by auto
    then have "e \<in> set (D ! d)" using mem e d by blast
    then show "d \<in> set as"
      using out(4) o dn len unfolding ordered_def by auto
  qed
  moreover have "\<forall>e < ?n. e \<notin> set out \<longrightarrow> (\<exists>d \<in> set (?deps ! e). d \<notin> set out)"
    using out(5) mem by (metis append_Nil)
  moreover have "block_order getDeps entries = Some out"
    using out(1) g by (simp add: block_order_def Let_def)
  ultimately show ?thesis using out(2,3) by auto
qed

lemma SortBlocks_eq:
  assumes "classify ident 0 blocks = (entries, others, ds)"
  shows "SortBlocksByDependencies ident getDeps blocks =
           (if HasErrors ds then Some ([], ds)
            else if HasErrors (handler_diags ident getDeps blocks)
            then Some ([], handler_diags ident getDeps blocks)
            else case block_order getDeps entries of
                   None \<Rightarrow> None
                 | Some result \<Rightarrow>
                     if length result \<noteq> length entries
                     then Some ([], handler_diags ident getDeps blocks @
                                    [DiagError ''Circular dependency between blocks''])
                     else Some (map (\<lambda>i. e_block (entries ! i)) result @ others,
                                handler_diags ident getDeps blocks))"
  unfolding SortBlocksByDependencies_def handler_diags_def block_order_def dep_indices_def Let_def assms
    prod.case
  by (auto split: prod.split option.split)

lemma full_perm:
  assumes "distinct out" and "set out \<subseteq> {..<n}" and "length out = n"
  shows "set out = {..<n}"
  using assms by (metis card_lessThan card_subset_eq distinct_card finite_lessThan)

lemma perm_blocks:
  assumes "distinct out" and "set out = {..<length xs}"
  shows "mset (map (\<lambda>i. xs ! i) out) = mset xs"
proof -
  have "mset out = mset [0..<length xs]"
    using set_eq_iff_mset_eq_distinct[of out "[0..<length xs]"] assms
    by (metis atLeast0LessThan distinct_upt set_upt)
  then have "mset (map (\<lambda>i. xs ! i) out) = mset (map (\<lambda>i. xs ! i) [0..<length xs])"
    by (simp add: mset_map)
  then show ?thesis by (simp add: map_nth)
qed

lemma sort_order:
  assumes "classify ident 0 blocks = (entries, others, ds)"
  shows "\<exists>out ds'. SortBlocksByDependencies ident getDeps blocks = Some (out, ds') \<and>
           (if HasErrors ds' then out = []
            else mset out = mset blocks \<and>
                 (\<exists>perm. out = map (\<lambda>i. e_block (entries ! i)) perm @ others \<and> distinct perm \<and>
                         set perm = {..<length entries} \<and> dep_ordered (dep_indices getDeps entries) perm))"
proof -
  obtain perm where p: "block_order getDeps entries = Some perm" "distinct perm"
    "set perm \<subseteq> {..<length entries}" "dep_ordered (dep_indices getDeps entries) perm"
    using block_order_correct by blast
  have m: "mset (map (\<lambda>i. e_block (entries ! i)) perm @ others) = mset blocks"
    if "length perm = length entries"
  proof -
    have "set perm = {..<length entries}" by (rule full_perm[OF p(2,3) that])
    then have "mset (map (\<lambda>i. entries ! i) perm) = mset entries" using p(2) by (rule perm_blocks[rotated])
    then have "image_mset e_block (mset (map (\<lambda>i. entries ! i) perm)) = image_mset e_block (mset entries)" by simp
    then show ?thesis using classify_mset[OF assms] by (simp add: image_mset.compositionality comp_def)
  qed
  show ?thesis
    using p m full_perm[OF p(2,3)] by (auto simp: SortBlocks_eq[OF assms])
qed

text \<open>C8: Sorting blocks never crashes; if it reports an error it returns no blocks, and otherwise
  it returns a permutation of the blocks in which every block with a dependency id comes after
  all the blocks it depends on, followed by the blocks without an id in source order.\<close>

theorem sort_blocks_order:
  assumes "classify ident 0 blocks = (entries, others, ds)"
  shows "\<exists>out ds'. SortBlocksByDependencies ident getDeps blocks = Some (out, ds') \<and>
           (if HasErrors ds' then out = []
            else mset out = mset blocks \<and>
                 (\<exists>perm. out = map (\<lambda>i. e_block (entries ! i)) perm @ others \<and> distinct perm \<and>
                         set perm = {..<length entries} \<and> dep_ordered (dep_indices getDeps entries) perm))"
  by (rule sort_order [OF assms])

definition two_blocks :: "nat \<Rightarrow> (string \<times> diag list) option" where
  "two_blocks b = (if b = 0 then Some (''b'', []) else if b = 1 then Some (''a'', []) else None)"

definition b_needs_a :: "nat \<Rightarrow> string list \<times> diag list" where
  "b_needs_a b = (if b = 0 then ([''a''], []) else ([], []))"

theorem sort_blocks_order_witness:
  "\<exists>out ds. SortBlocksByDependencies two_blocks b_needs_a [0, 7, 1] = Some (out, ds) \<and>
            (HasErrors ds \<or> mset out = mset [0, 7, 1])"
proof -
  obtain es os ds where "classify two_blocks 0 [0, 7, 1] = (es, os, ds)"
    by (cases "classify two_blocks 0 [0, 7, 1]")
  from sort_blocks_order[OF this, of b_needs_a] show ?thesis by (auto split: if_splits)
qed

definition dep_rel :: "nat list list \<Rightarrow> (nat \<times> nat) set" where
  "dep_rel deps = {(d, e). e < length deps \<and> d \<in> set (deps ! e)}"

lemma finite_dep_rel: "\<forall>e < length deps. set (deps ! e) \<subseteq> {..<length deps} \<Longrightarrow> finite (dep_rel deps)"
  by (rule finite_subset[of _ "{..<length deps} \<times> {..<length deps}"]) (auto simp: dep_rel_def)

lemma dep_order_acyclic:
  assumes "dep_ordered deps perm" and "distinct perm" and "set perm = {..<length deps}"
  shows "acyclic (dep_rel deps)"
proof -
  define pos where "pos e = length (takeWhile (\<lambda>x. x \<noteq> e) perm)" for e
  have "dep_rel deps \<subseteq> measure pos"
  proof
    fix p
    assume "p \<in> dep_rel deps"
    then obtain d e where p: "p = (d, e)" "e < length deps" "d \<in> set (deps ! e)" by (auto simp: dep_rel_def)
    then obtain as bs where s: "perm = as @ e # bs" "e \<notin> set as"
      using assms(3) by (metis lessThan_iff split_list_first)
    then have "d \<in> set as" using assms(1) p(3) by (auto simp: dep_ordered_def)
    then have "pos d < length as" using s(1) takeWhile_before[of d as "e # bs"] unfolding pos_def by simp
    moreover have "pos e = length as"
    proof -
      have "takeWhile (\<lambda>x. x \<noteq> e) as = as" using s(2) by (auto simp: takeWhile_eq_all_conv)
      then show ?thesis using s(1) by (simp add: pos_def takeWhile_tail)
    qed
    ultimately show "p \<in> measure pos" by (simp add: p)
  qed
  then show ?thesis by (meson acyclic_subset wf_acyclic wf_measure)
qed

text \<open>C9: When the handlers report no errors of their own, sorting reports a circular dependency if
  and only if the dependency graph of the blocks has a cycle.\<close>

theorem sort_blocks_cycle_iff:
  assumes "classify ident 0 blocks = (entries, others, ds)"
    and "\<not> HasErrors (handler_diags ident getDeps blocks)"
  shows "(\<exists>out ds'. SortBlocksByDependencies ident getDeps blocks = Some (out, ds') \<and> HasErrors ds')
           \<longleftrightarrow> \<not> acyclic (dep_rel (dep_indices getDeps entries))"
proof -
  let ?deps = "dep_indices getDeps entries" and ?n = "length entries"
  obtain perm where p: "block_order getDeps entries = Some perm" "distinct perm"
    "set perm \<subseteq> {..<?n}" "dep_ordered ?deps perm"
    "\<forall>e < ?n. e \<notin> set perm \<longrightarrow> (\<exists>d \<in> set (?deps ! e). d \<notin> set perm)"
    using block_order_correct by blast
  have nd: "\<not> HasErrors ds" using assms by (auto simp: handler_diags_def)
  have "acyclic (dep_rel ?deps)" if "length perm = ?n"
    using p(4,2) full_perm[OF p(2,3) that] by (intro dep_order_acyclic) auto
  moreover have "\<not> acyclic (dep_rel ?deps)" if l: "length perm \<noteq> ?n"
  proof
    assume "acyclic (dep_rel ?deps)"
    moreover have "finite (dep_rel ?deps)" by (rule finite_dep_rel) (simp add: dep_indices_range)
    ultimately have wf: "wf (dep_rel ?deps)" by (rule finite_acyclic_wf[rotated])
    have "set perm \<noteq> {..<?n}" using l p(2) by (metis card_lessThan distinct_card)
    then obtain e0 where "e0 \<in> {..<?n} - set perm" using p(3) by blast
    from wfE_min[OF wf this] obtain e where e: "e \<in> {..<?n} - set perm"
      "\<And>d. (d, e) \<in> dep_rel ?deps \<Longrightarrow> d \<notin> {..<?n} - set perm" by blast
    obtain d where d: "d \<in> set (?deps ! e)" "d \<notin> set perm" using p(5) e(1) by auto
    then have "d < ?n" using dep_indices_range[of e entries getDeps] e(1) by auto
    moreover have "(d, e) \<in> dep_rel ?deps" using d(1) e(1) by (simp add: dep_rel_def)
    ultimately show False using e(2) d(2) by blast
  qed
  ultimately show ?thesis
    using p(1) assms(2) nd by (auto simp: SortBlocks_eq[OF assms(1)])
qed

definition mutual :: "nat \<Rightarrow> string list \<times> diag list" where
  "mutual b = (if b = 0 then ([''a''], []) else ([''b''], []))"

theorem sort_blocks_cycle_iff_witness:
  "\<exists>out ds. SortBlocksByDependencies two_blocks mutual [0, 1] = Some (out, ds) \<and> HasErrors ds"
proof -
  let ?es = "[\<lparr>e_id = ''b'', e_srcIdx = 0, e_block = 0\<rparr>, \<lparr>e_id = ''a'', e_srcIdx = 1, e_block = Suc 0\<rparr>]"
  have c: "classify two_blocks 0 [0, 1] = (?es, [], [])" by (simp add: two_blocks_def)
  have h: "\<not> HasErrors (handler_diags two_blocks mutual [0, 1])"
    by (simp add: handler_diags_def two_blocks_def mutual_def)
  have d: "dep_indices mutual ?es = [[1], [0]]"
    by (simp add: dep_indices_def mutual_def List.map_filter_def)
  have "(0, 1) \<in> dep_rel [[1], [0]]" "(1, 0) \<in> dep_rel [[1], [0]]" by (simp_all add: dep_rel_def)
  then have "\<not> acyclic (dep_rel [[1], [0]])" by (meson acyclic_def trancl.intros)
  then show ?thesis using sort_blocks_cycle_iff[OF c h] d by simp
qed

text \<open>Sorting is stable: blocks that are already written after everything they depend on keep
  their source order.\<close>

theorem sort_blocks_stable:
  assumes c: "classify ident 0 blocks = (entries, others, ds)"
    and "\<not> HasErrors (handler_diags ident getDeps blocks)"
    and fwd: "\<forall>e < length entries. \<forall>d \<in> set (dep_indices getDeps entries ! e). d < e"
  shows "SortBlocksByDependencies ident getDeps blocks =
           Some (map e_block entries @ others, handler_diags ident getDeps blocks)"
proof -
  let ?n = "length entries" and ?deps = "dep_indices getDeps entries"
  let ?key = "\<lambda>i. e_srcIdx (entries ! i)"
  obtain D I where g: "build_graph 0 ?deps (replicate ?n [], replicate ?n 0) = (D, I)"
    by (cases "build_graph 0 ?deps (replicate ?n [], replicate ?n 0)")
  note st = kahn_start[OF g, of ?key]
  have "\<forall>d < ?n. \<forall>e \<in> set (D ! d). d < e" using st fwd by blast
  moreover have "\<forall>i j. i < j \<and> j < ?n \<longrightarrow> ?key i < ?key j"
    using classify_src[OF c] by (simp add: sorted_wrt_iff_nth_less)
  moreover have "kahn_inv D ?n ?key [0..<0] (sort_key ?key (filter (\<lambda>i. I ! i = 0) [0..<?n])) I"
    using st by simp
  ultimately have "block_order getDeps entries = Some [0..<?n]"
    using kahn_stable[of ?n ?key D 0] g by (simp add: block_order_def Let_def)
  moreover have "map (\<lambda>i. e_block (entries ! i)) [0..<?n] = map e_block entries"
    by (rule nth_equalityI) simp_all
  moreover have "\<not> HasErrors ds" using assms(1,2) by (auto simp: handler_diags_def)
  ultimately show ?thesis using assms(2) by (simp add: SortBlocks_eq[OF c])
qed

theorem sort_blocks_stable_witness:
  "SortBlocksByDependencies two_blocks (\<lambda>b. if b = 1 then ([''b''], []) else ([], [])) [0, 7, 1]
     = Some ([0, 1, 7], [])"
proof -
  let ?es = "[\<lparr>e_id = ''b'', e_srcIdx = 0, e_block = 0\<rparr>, \<lparr>e_id = ''a'', e_srcIdx = 2, e_block = Suc 0\<rparr>]"
  let ?g = "\<lambda>b :: nat. if b = 1 then ([''b''], [] :: diag list) else ([], [])"
  have c: "classify two_blocks 0 [0, 7, 1] = (?es, [7], [])" by (simp add: two_blocks_def)
  have h: "handler_diags two_blocks ?g [0, 7, 1] = []"
    by (simp add: handler_diags_def two_blocks_def)
  have d: "dep_indices ?g ?es = [[], [0]]" by (simp add: dep_indices_def List.map_filter_def)
  have "\<forall>e < length ?es. \<forall>d \<in> set (dep_indices ?g ?es ! e). d < e"
    unfolding d by (simp add: less_Suc_eq)
  from sort_blocks_stable[OF c _ this] show ?thesis using h by simp
qed

end
