(* ===== verification/Proc_Spec.thy ===== *)
theory Proc_Spec
  imports Proc_Compiler Block_Deps
begin

text \<open>
  The \<open>spec\<close> block of a procedure, the function a procedure becomes (\<open>procedure/spec.go\<close>) and the
  extraction of all procedures of a configuration (\<open>config/procedure.go\<close>). Constant evaluation,
  the variables of an expression and the capsule type behind \<open>required\<close> are the fields of the
  record \<open>spec_api\<close>.
\<close>

section \<open>The specification of a procedure\<close>

record ('e, 'f, 'v) spec_api =
  const_value :: "'e \<Rightarrow> ('f, 'v) EvalContext \<Rightarrow> 'v \<times> diag list"
  expr_variables :: "'e \<Rightarrow> hcl_traversal list"
  RequiredVal :: 'v
  isRequired :: "'v \<Rightarrow> bool"
  TupleVal :: "'v list \<Rightarrow> 'v"

text \<open>A default of \<open>cty.NilVal\<close>, which marks a required parameter, is \<open>None\<close>; no variadic parameter
  is the empty name.\<close>

record 'v ProcSpec =
  ParamNames :: "string list"
  ParamDefaults :: "'v option list"
  VariadicParam :: string

definition ParamsEvalContext :: "('e, 'f, 'v) spec_api \<Rightarrow> ('f, 'v) EvalContext" where
  "ParamsEvalContext S = \<lparr>Variables = [''required'' \<mapsto> RequiredVal S], Functions = None\<rparr>"

definition reserved :: "string \<Rightarrow> bool" where
  "reserved name \<longleftrightarrow> name = ''return'' \<or> name = ''break'' \<or> name = ''continue''"

text \<open>The loop over the parameters in source order. The specification is changed in place, so it is
  returned with the diagnostics, also when these are errors.\<close>

definition add_param :: "'v ProcSpec \<Rightarrow> string \<Rightarrow> 'v option \<Rightarrow> 'v ProcSpec" where
  "add_param spec name dflt =
     spec\<lparr>ParamNames := ParamNames spec @ [name], ParamDefaults := ParamDefaults spec @ [dflt]\<rparr>"

fun params_loop :: "('e, 'f, 'v) spec_api \<Rightarrow> 'e hclAttribute list \<Rightarrow> bool \<Rightarrow> 'v ProcSpec \<Rightarrow>
    diag list \<times> 'v ProcSpec" where
  "params_loop S [] seenOptional spec = ([], spec)"
| "params_loop S (p # ps) seenOptional spec =
     (if reserved (attr_Name p) then ([DiagError ''Reserved parameter name''], spec)
      else if isDiscard (attr_Name p) then ([DiagError ''Discard parameter name''], spec)
      else (case const_value S (attr_Expr p) (ParamsEvalContext S) of (val, ds) \<Rightarrow>
        if HasErrors ds then (ds, spec)
        else if isRequired S val then
          (if seenOptional then ([DiagError ''Required parameter after optional''], spec)
           else params_loop S ps seenOptional (add_param spec (attr_Name p) None))
        else params_loop S ps True (add_param spec (attr_Name p) (Some val))))"

definition parseParams :: "('e, 'f, 'v) spec_api \<Rightarrow> 'e hclBody \<Rightarrow> 'v ProcSpec \<Rightarrow> diag list \<times> 'v ProcSpec" where
  "parseParams S body spec =
     (if Blocks body \<noteq> [] then ([DiagError ''Unexpected block in params''], spec)
      else params_loop S (sort_key attr_Start (Attributes body)) False spec)"

text \<open>The \<open>variadic_param\<close> attribute: diagnostics, or the name it gives.\<close>

definition variadic_name :: "('e, 'f, 'v) spec_api \<Rightarrow> 'e hclAttribute \<Rightarrow> diag list + string" where
  "variadic_name S attr =
     (case expr_variables S (attr_Expr attr) of
        [(name, [])] \<Rightarrow>
          (if reserved name then Inl [DiagError ''Reserved variadic parameter name'']
           else if isDiscard name then Inl [DiagError ''Discard variadic parameter name'']
           else Inr name)
      | _ \<Rightarrow> Inl [DiagError ''Invalid variadic_param''])"

definition unknown_attrs :: "'e hclBody \<Rightarrow> diag list" where
  "unknown_attrs body =
     map (\<lambda>a. DiagError ''Unsupported spec attribute'')
       (filter (\<lambda>a. attr_Name a \<noteq> ''variadic_param'' \<and> attr_Name a \<noteq> ''returns'') (Attributes body))"

fun params_blocks :: "('e, 'f, 'v) spec_api \<Rightarrow> 'e hclBlock list \<Rightarrow> diag list \<Rightarrow> 'v ProcSpec \<Rightarrow>
    diag list \<times> 'v ProcSpec" where
  "params_blocks S [] diags spec = (diags, spec)"
| "params_blocks S (b # bs) diags spec =
     (if Type b \<noteq> ''params'' then params_blocks S bs (diags @ [DiagError ''Unknown block in spec'']) spec
      else if Labels b \<noteq> [] then params_blocks S bs (diags @ [DiagError ''Invalid params block'']) spec
      else (case parseParams S (hclBlock.Body b) spec of (ds, spec') \<Rightarrow> params_blocks S bs (diags @ ds) spec'))"

text \<open>\<open>parseSpecBody\<close> after the variadic parameter has been read.\<close>

definition parse_rest :: "('e, 'f, 'v) spec_api \<Rightarrow> 'e hclBody \<Rightarrow> 'v ProcSpec \<Rightarrow> diag list \<times> 'v ProcSpec" where
  "parse_rest S body spec =
     (if HasErrors (unknown_attrs body) then (unknown_attrs body, spec)
      else (case params_blocks S (Blocks body) (unknown_attrs body) spec of (diags, spec') \<Rightarrow>
        if HasErrors diags then (diags, spec')
        else if VariadicParam spec' \<noteq> [] \<and> VariadicParam spec' \<in> set (ParamNames spec')
             then ([DiagError ''Variadic parameter name conflict''], spec')
        else (diags, spec')))"

definition parseSpecBody :: "('e, 'f, 'v) spec_api \<Rightarrow> 'e hclBody \<Rightarrow> 'v ProcSpec \<Rightarrow> diag list \<times> 'v ProcSpec" where
  "parseSpecBody S body spec =
     (case find (\<lambda>a. attr_Name a = ''variadic_param'') (Attributes body) of
        None \<Rightarrow> parse_rest S body spec
      | Some attr \<Rightarrow>
          (case variadic_name S attr of
             Inl ds \<Rightarrow> (ds, spec)
           | Inr name \<Rightarrow> parse_rest S body (spec\<lparr>VariadicParam := name\<rparr>)))"

definition empty_spec :: "'v ProcSpec" where
  "empty_spec = \<lparr>ParamNames = [], ParamDefaults = [], VariadicParam = []\<rparr>"

definition ParseSpec :: "('e, 'f, 'v) spec_api \<Rightarrow> 'e hclBody \<Rightarrow> diag list + ('v ProcSpec \<times> 'e hclBody)" where
  "ParseSpec S body =
     (let otherBlocks = filter (\<lambda>b. Type b \<noteq> ''spec'') (Blocks body) in
      case filter (\<lambda>b. Type b = ''spec'') (Blocks body) of
        [] \<Rightarrow> Inr (empty_spec, body)
      | [specBlock] \<Rightarrow>
          (if \<exists>a \<in> set (Attributes body). attr_Start a < End specBlock
           then Inl [DiagError ''Statement before spec'']
           else if \<exists>b \<in> set otherBlocks. Start b < End specBlock
           then Inl [DiagError ''Block before spec'']
           else if Labels specBlock \<noteq> [] then Inl [DiagError ''Invalid spec block'']
           else (case parseSpecBody S (hclBlock.Body specBlock) empty_spec of (diags, spec) \<Rightarrow>
                   if HasErrors diags then Inl diags
                   else Inr (spec, HBody (Attributes body) otherBlocks)))
      | _ \<Rightarrow> Inl [DiagError ''Duplicate spec block''])"

section \<open>The function a procedure becomes\<close>

definition numRequired :: "'v ProcSpec \<Rightarrow> nat" where
  "numRequired spec = length (filter (\<lambda>(name, dflt). dflt = None) (zip (ParamNames spec) (ParamDefaults spec)))"

text \<open>The loops that bind parameters: \<open>bind_required\<close> binds the first \<open>n\<close> names to the first \<open>n\<close>
  arguments, \<open>bind_optional\<close> the names from index \<open>i\<close> on to the extra arguments or the defaults.\<close>

fun bind_required :: "nat \<Rightarrow> string list \<Rightarrow> 'v list \<Rightarrow> 'v Scope \<Rightarrow> 'v Scope" where
  "bind_required (Suc n) (name # ns) (arg # args) scope =
     bind_required n ns args (Scope_Set scope name arg)"
| "bind_required _ _ _ scope = scope"

fun bind_optional :: "'v \<Rightarrow> string list \<Rightarrow> 'v option list \<Rightarrow> 'v list \<Rightarrow> 'v Scope \<Rightarrow> 'v Scope" where
  "bind_optional nil (name # ns) (dflt # dflts) (arg # extra) scope =
     bind_optional nil ns dflts extra (Scope_Set scope name arg)"
| "bind_optional nil (name # ns) (dflt # dflts) [] scope =
     bind_optional nil ns dflts [] (Scope_Set scope name (case dflt of Some v \<Rightarrow> v | None \<Rightarrow> nil))"
| "bind_optional nil _ _ _ scope = scope"

text \<open>The scope a call starts with: \<open>Panic\<close> where the slice of the arguments is out of range.\<close>

definition bind_args :: "('e, 'f, 'v) spec_api \<Rightarrow> 'v \<Rightarrow> 'v ProcSpec \<Rightarrow> 'v list \<Rightarrow> 'v Scope outcome" where
  "bind_args S nil spec args =
     (let n = numRequired spec;
          extraArgs = drop n args;
          numOptional = length (ParamNames spec) - n
      in if length args < n then Panic
         else if VariadicParam spec = [] \<and> numOptional < length extraArgs
         then Diags [DiagError ''too many arguments'']
         else
           (let s1 = bind_required n (ParamNames spec) args (NewScope None);
                s2 = bind_optional nil (drop n (ParamNames spec)) (drop n (ParamDefaults spec)) extraArgs s1
            in Done (if VariadicParam spec \<noteq> []
                     then Scope_Set s2 (VariadicParam spec) (TupleVal S (drop numOptional extraArgs))
                     else s2)))"

text \<open>The \<open>Impl\<close> closure of \<open>BuildFunction\<close>: the value of the call, or its error.\<close>

definition BuildFunction ::
  "('e, 'f, 'v) spec_api \<Rightarrow> ('e, 'f, 'v, 'w) hcl_api \<Rightarrow> 'v ProcSpec \<Rightarrow> 'e Statement list \<Rightarrow>
     ('f, 'v) EvalContext option \<Rightarrow> nat \<Rightarrow> 'v list \<Rightarrow> 'w \<Rightarrow> 'v outcome \<times> 'w" where
  "BuildFunction S A spec stmts ctx n args w =
     (case bind_args S (NilVal A) spec args of
        Done scope \<Rightarrow>
          (case Execute A ctx n stmts (scope, w) of
             (Done (v, sig), (_, w')) \<Rightarrow> (Done v, w')
           | (Diags ds, (_, w')) \<Rightarrow> (Diags ds, w')
           | (Panic, (_, w')) \<Rightarrow> (Panic, w')
           | (OutOfFuel, (_, w')) \<Rightarrow> (OutOfFuel, w'))
      | Diags ds \<Rightarrow> (Diags ds, w)
      | Panic \<Rightarrow> (Panic, w)
      | OutOfFuel \<Rightarrow> (OutOfFuel, w))"

section \<open>All procedures of a configuration\<close>

text \<open>A procedure block: its name and its body, \<open>None\<close> if it is not in native syntax. Each file is the
  result of HCL's \<open>PartialContent\<close>: its procedure blocks and the diagnostics of the split.\<close>

type_synonym 'e proc_block = "string \<times> 'e hclBody option"
type_synonym ('e, 'v) proc_table = "string \<rightharpoonup> 'v ProcSpec \<times> 'e Statement list"

definition extract_block ::
  "('e, 'l) hcl_syntax \<Rightarrow> ('e, 'f, 'v) spec_api \<Rightarrow> 'e proc_block \<Rightarrow>
     ('e, 'v) proc_table \<times> diag list \<Rightarrow> ('e, 'v) proc_table \<times> diag list" where
  "extract_block P S blk = (\<lambda>(funcs, diags).
     case blk of (name, body) \<Rightarrow>
       (case body of
          None \<Rightarrow> (funcs, diags @ [DiagError ''Unsupported HCL format''])
        | Some b \<Rightarrow>
            (case ParseSpec S b of
               Inl ds \<Rightarrow> (funcs, diags @ ds)
             | Inr (spec, remaining) \<Rightarrow>
                 (case Compile P (Some remaining) of (stmts, ds) \<Rightarrow>
                    if HasErrors ds then (funcs, diags @ ds)
                    else if funcs name \<noteq> None
                    then (funcs, diags @ ds @ [DiagError ''Duplicate procedure''])
                    else (funcs(name \<mapsto> (spec, stmts)),
                          diags @ ds @ [DiagWarning ''Deprecated procedure block''])))))"

definition extract_file ::
  "('e, 'l) hcl_syntax \<Rightarrow> ('e, 'f, 'v) spec_api \<Rightarrow> 'e proc_block list \<times> diag list \<Rightarrow>
     ('e, 'v) proc_table \<times> diag list \<Rightarrow> ('e, 'v) proc_table \<times> diag list" where
  "extract_file P S file = (\<lambda>(funcs, diags).
     fold (extract_block P S) (fst file) (funcs, diags @ snd file))"

definition extractProcedureFunctions ::
  "('e, 'l) hcl_syntax \<Rightarrow> ('e, 'f, 'v) spec_api \<Rightarrow> ('e proc_block list \<times> diag list) list \<Rightarrow>
     ('e, 'v) proc_table \<times> diag list" where
  "extractProcedureFunctions P S files = fold (extract_file P S) files (Map.empty, [])"

section \<open>What a parsed specification satisfies\<close>

definition spec_ok :: "'v ProcSpec \<Rightarrow> bool" where
  "spec_ok spec \<longleftrightarrow> length (ParamNames spec) = length (ParamDefaults spec) \<and>
     (\<forall>x \<in> set (ParamNames spec). \<not> reserved x \<and> \<not> isDiscard x) \<and>
     \<not> reserved (VariadicParam spec) \<and> \<not> isDiscard (VariadicParam spec) \<and>
     VariadicParam spec \<notin> set (ParamNames spec) - {[]}"

text \<open>Required parameters, which have no default, come first.\<close>

definition required_first :: "'v option list \<Rightarrow> bool" where
  "required_first dflts \<longleftrightarrow> sorted (map (\<lambda>d. d \<noteq> None) dflts)"

lemma params_loop_ok:
  "params_loop S ps seen spec = (ds, spec') \<Longrightarrow> \<not> HasErrors ds \<Longrightarrow>
   \<exists>new. ParamNames spec' = ParamNames spec @ map attr_Name ps \<and>
     ParamDefaults spec' = ParamDefaults spec @ new \<and> length new = length ps \<and>
     required_first new \<and> (seen \<longrightarrow> None \<notin> set new) \<and> VariadicParam spec' = VariadicParam spec \<and>
     (\<forall>p \<in> set ps. \<not> reserved (attr_Name p) \<and> \<not> isDiscard (attr_Name p))"
proof (induction S ps seen spec rule: params_loop.induct)
  case (1 S seen spec)
  then show ?case by (auto simp: required_first_def)
next
  case (2 S p ps seen spec)
  obtain val vds where v: "const_value S (attr_Expr p) (ParamsEvalContext S) = (val, vds)"
    by (cases "const_value S (attr_Expr p) (ParamsEvalContext S)")
  have ok: "\<not> reserved (attr_Name p)" "\<not> isDiscard (attr_Name p)" "\<not> HasErrors vds"
    using "2.prems" v by (auto split: if_splits)
  show ?case
  proof (cases "isRequired S val")
    case True
    then have ns: "\<not> seen" using "2.prems" v ok by (auto split: if_splits)
    from "2.IH"(1) [OF ok(1,2) v [symmetric] ok(3) True ns] "2.prems" ns ok v True
    show ?thesis by (auto simp: add_param_def required_first_def)
  next
    case False
    from "2.IH"(2) [OF ok(1,2) v [symmetric] ok(3) False] "2.prems" ok v False
    obtain new where new: "ParamNames spec' = ParamNames spec @ map attr_Name (p # ps)"
      "ParamDefaults spec' = ParamDefaults spec @ Some val # new" "length new = length ps"
      "required_first new" "None \<notin> set new" "VariadicParam spec' = VariadicParam spec"
      "\<forall>p \<in> set ps. \<not> reserved (attr_Name p) \<and> \<not> isDiscard (attr_Name p)"
      by (auto simp: add_param_def)
    then have "required_first (Some val # new)"
      by (auto simp: required_first_def) (metis not_None_eq)
    with new ok show ?thesis by (intro exI [of _ "Some val # new"]) auto
  qed
qed

lemma params_blocks_errors: "HasErrors es \<Longrightarrow> HasErrors (fst (params_blocks S bs es spec))"
  by (induction S bs es spec rule: params_blocks.induct) (auto split: prod.splits)

lemma params_blocks_ok:
  assumes "params_blocks S bs ds0 spec = (ds, spec')" and "\<not> HasErrors ds"
    and "length (ParamNames spec) = length (ParamDefaults spec)"
    and "\<forall>x \<in> set (ParamNames spec). \<not> reserved x \<and> \<not> isDiscard x"
  shows "length (ParamNames spec') = length (ParamDefaults spec') \<and>
     (\<forall>x \<in> set (ParamNames spec'). \<not> reserved x \<and> \<not> isDiscard x) \<and>
     VariadicParam spec' = VariadicParam spec \<and> \<not> HasErrors ds0 \<and>
     (length bs \<le> 1 \<and> ParamNames spec = [] \<and>
        (\<forall>b \<in> set bs. distinct (map attr_Name (Attributes (hclBlock.Body b)))) \<longrightarrow>
        required_first (ParamDefaults spec') \<and> distinct (ParamNames spec'))"
  using assms
proof (induction S bs ds0 spec rule: params_blocks.induct)
  case (1 S diags spec)
  then show ?case by (auto simp: required_first_def)
next
  case (2 S b bs diags spec)
  show ?case
  proof (cases "Type b = ''params'' \<and> Labels b = []")
    case False
    then show ?thesis using 2 by (auto split: if_splits)
  next
    case True
    obtain pds spec1 where p: "parseParams S (hclBlock.Body b) spec = (pds, spec1)"
      by (cases "parseParams S (hclBlock.Body b) spec")
    have run: "params_blocks S bs (diags @ pds) spec1 = (ds, spec')" using "2.prems"(1) True p by simp
    show ?thesis
    proof (cases "HasErrors pds")
      case True
      with params_blocks_errors [of "diags @ pds" S bs spec1] run "2.prems"(2) show ?thesis by simp
    next
      case noerr: False
      then have loop: "params_loop S (sort_key attr_Start (Attributes (hclBlock.Body b))) False spec = (pds, spec1)"
        using p by (auto simp: parseParams_def split: if_splits)
      from params_loop_ok [OF this noerr] obtain new where
        new: "ParamNames spec1 = ParamNames spec @ map attr_Name (sort_key attr_Start (Attributes (hclBlock.Body b)))"
        "ParamDefaults spec1 = ParamDefaults spec @ new"
        "length new = length (sort_key attr_Start (Attributes (hclBlock.Body b)))"
        "required_first new" "VariadicParam spec1 = VariadicParam spec"
        "\<forall>p \<in> set (Attributes (hclBlock.Body b)). \<not> reserved (attr_Name p) \<and> \<not> isDiscard (attr_Name p)"
        by auto
      have dist: "distinct (map attr_Name (sort_key attr_Start (Attributes (hclBlock.Body b)))) =
          distinct (map attr_Name (Attributes (hclBlock.Body b)))"
        by (rule mset_eq_imp_distinct_iff) simp
      have "length (ParamNames spec1) = length (ParamDefaults spec1)"
        "\<forall>x \<in> set (ParamNames spec1). \<not> reserved x \<and> \<not> isDiscard x"
        using new "2.prems"(3,4) by auto
      from "2.IH"(3) [OF _ _ p [symmetric] run "2.prems"(2) this] True
      have ih: "length (ParamNames spec') = length (ParamDefaults spec')"
        "\<forall>x \<in> set (ParamNames spec'). \<not> reserved x \<and> \<not> isDiscard x"
        "VariadicParam spec' = VariadicParam spec1" "\<not> HasErrors (diags @ pds)" by simp_all
      have "spec' = spec1" if "bs = []" using run that by simp
      with ih new dist "2.prems"(3) show ?thesis by auto
    qed
  qed
qed

text \<open>The map of attribute names a params block has is a Go map, so its names are distinct; the
  shape of a \<open>spec\<close> block with at most one block in it.\<close>

definition one_params :: "'e hclBody \<Rightarrow> bool" where
  "one_params body \<longleftrightarrow> length (Blocks body) \<le> 1 \<and>
     (\<forall>b \<in> set (Blocks body). distinct (map attr_Name (Attributes (hclBlock.Body b))))"

lemma parse_rest_ok:
  assumes "parse_rest S body spec = (ds, spec')" and "\<not> HasErrors ds"
    and "ParamNames spec = []" "ParamDefaults spec = []"
    and "\<not> reserved (VariadicParam spec)" "\<not> isDiscard (VariadicParam spec)"
  shows "spec_ok spec' \<and>
    (one_params body \<longrightarrow> required_first (ParamDefaults spec') \<and> distinct (ParamNames spec'))"
proof -
  obtain pds spec1 where p: "params_blocks S (Blocks body) (unknown_attrs body) spec = (pds, spec1)"
    by (cases "params_blocks S (Blocks body) (unknown_attrs body) spec")
  have "\<not> HasErrors pds" "spec' = spec1" "VariadicParam spec1 = [] \<or> VariadicParam spec1 \<notin> set (ParamNames spec1)"
    using assms(1,2) p by (auto simp: parse_rest_def split: if_splits)
  with params_blocks_ok [OF p] assms(3-6) show ?thesis
    by (auto simp: spec_ok_def one_params_def)
qed

lemma parseSpecBody_ok:
  assumes "parseSpecBody S body empty_spec = (ds, spec)" and "\<not> HasErrors ds"
  shows "spec_ok spec \<and>
    (one_params body \<longrightarrow> required_first (ParamDefaults spec) \<and> distinct (ParamNames spec))"
proof (cases "find (\<lambda>a. attr_Name a = ''variadic_param'') (Attributes body)")
  case None
  then show ?thesis
    using assms by (intro parse_rest_ok) (auto simp: parseSpecBody_def empty_spec_def reserved_def)
next
  case (Some attr)
  then obtain name where name: "variadic_name S attr = Inr name"
    using assms by (cases "variadic_name S attr")
      (auto simp: parseSpecBody_def variadic_name_def split: list.splits prod.splits if_splits)
  then have "\<not> reserved name" "\<not> isDiscard name"
    by (auto simp: variadic_name_def split: list.splits prod.splits if_splits)
  then show ?thesis
    using assms Some name
    by (intro parse_rest_ok [of S body "empty_spec\<lparr>VariadicParam := name\<rparr>"])
       (auto simp: parseSpecBody_def empty_spec_def)
qed

text \<open>A body whose \<open>spec\<close> blocks hold at most one block each.\<close>

definition plain_spec :: "'e hclBody \<Rightarrow> bool" where
  "plain_spec body \<longleftrightarrow> (\<forall>b \<in> set (Blocks body). Type b = ''spec'' \<longrightarrow> one_params (hclBlock.Body b))"

lemma ParseSpec_ok:
  assumes "ParseSpec S body = Inr (spec, rest)"
  shows "spec_ok spec \<and> Attributes rest = Attributes body \<and>
     Blocks rest = filter (\<lambda>b. Type b \<noteq> ''spec'') (Blocks body) \<and>
     (plain_spec body \<longrightarrow> required_first (ParamDefaults spec) \<and> distinct (ParamNames spec))"
proof (cases "filter (\<lambda>b. Type b = ''spec'') (Blocks body)")
  case Nil
  then have "filter (\<lambda>b. Type b \<noteq> ''spec'') (Blocks body) = Blocks body"
    by (auto simp: filter_empty_conv intro: filter_True)
  then show ?thesis
    using assms Nil
    by (auto simp: ParseSpec_def empty_spec_def spec_ok_def required_first_def reserved_def)
next
  case (Cons specBlock more)
  then have more: "more = []" using assms by (cases more) (auto simp: ParseSpec_def)
  obtain ds spec1 where b: "parseSpecBody S (hclBlock.Body specBlock) empty_spec = (ds, spec1)"
    by (cases "parseSpecBody S (hclBlock.Body specBlock) empty_spec")
  have r: "\<not> HasErrors ds" "spec = spec1"
      "rest = HBody (Attributes body) (filter (\<lambda>b. Type b \<noteq> ''spec'') (Blocks body))"
    using assms Cons more b by (auto simp: ParseSpec_def Let_def split: if_splits)
  have "specBlock \<in> set (filter (\<lambda>b. Type b = ''spec'') (Blocks body))"
    unfolding Cons by simp
  then have "specBlock \<in> set (Blocks body)" "Type specBlock = ''spec''" by simp_all
  with parseSpecBody_ok [OF b r(1)] r show ?thesis
    by (auto simp: plain_spec_def)
qed

section \<open>Binding arguments\<close>


lemma Get_root [simp]: "Get (NewScope None) = Map.empty"
  by (rule ext) (simp add: NewScope_def)







section \<open>All procedures\<close>

definition table_ok :: "('e, 'l) hcl_syntax \<Rightarrow> string list \<Rightarrow> ('e, 'v) proc_table \<times> diag list \<Rightarrow> bool" where
  "table_ok P seen st \<longleftrightarrow>
     (\<forall>x spec stmts. fst st x = Some (spec, stmts) \<longrightarrow> spec_ok spec \<and> wf_body P 0 stmts) \<and>
     (\<not> HasErrors (snd st) \<longrightarrow> distinct seen \<and> dom (fst st) = set seen)"

lemma ParseSpec_errors: "ParseSpec S b = Inl ds \<Longrightarrow> HasErrors ds"
  by (auto simp: ParseSpec_def Let_def split: list.splits if_splits prod.splits)

lemma Compile_wf: "Compile P (Some b) = (stmts, ds) \<Longrightarrow> \<not> HasErrors ds \<Longrightarrow> wf_body P 0 stmts"
  using compile_wf(1) [of P 0 False "[]" "sortBodyItems b" "[]"]
  by (simp add: Compile_def compileItems_def)

lemma extract_block_ok:
  assumes "table_ok P seen st"
  shows "table_ok P (seen @ [fst blk]) (extract_block P S blk st)"
proof -
  obtain name body funcs diags where [simp]: "blk = (name, body)" "st = (funcs, diags)"
    by (cases blk, cases st)
  show ?thesis
  proof (cases "\<exists>b spec remaining stmts ds. body = Some b \<and> ParseSpec S b = Inr (spec, remaining) \<and>
      Compile P (Some remaining) = (stmts, ds) \<and> \<not> HasErrors ds \<and> funcs name = None")
    case True
    then obtain b spec remaining stmts ds where r: "body = Some b" "ParseSpec S b = Inr (spec, remaining)"
      "Compile P (Some remaining) = (stmts, ds)" "\<not> HasErrors ds" "funcs name = None" by blast
    have "extract_block P S blk st =
        (funcs(name \<mapsto> (spec, stmts)), diags @ ds @ [DiagWarning ''Deprecated procedure block''])"
      using r by (simp add: extract_block_def)
    moreover have "name \<notin> dom funcs" using r(5) by (simp add: domIff)
    ultimately show ?thesis
      using ParseSpec_ok [OF r(2)] Compile_wf [OF r(3,4)] assms by (auto simp: table_ok_def)
  next
    case False
    then have "fst (extract_block P S blk st) = funcs" "HasErrors (snd (extract_block P S blk st))"
      by (auto simp: extract_block_def dest: ParseSpec_errors
          split: option.splits sum.splits prod.splits if_splits)
    then show ?thesis using assms by (simp add: table_ok_def)
  qed
qed

lemma extract_file_ok:
  assumes "table_ok P seen st"
  shows "table_ok P (seen @ map fst (fst file)) (extract_file P S file st)"
proof -
  have "table_ok P (seen @ map fst blks) (fold (extract_block P S) blks st')" if "table_ok P seen st'" for st' blks
    using that
  proof (induction blks arbitrary: seen st')
    case (Cons blk blks)
    from Cons.IH [OF extract_block_ok [OF Cons.prems, of blk S]] show ?case by simp
  qed simp
  moreover have "table_ok P seen (fst st, snd st @ snd file)"
    using assms by (auto simp: table_ok_def)
  ultimately show ?thesis by (simp add: extract_file_def case_prod_beta)
qed

section \<open>Properties\<close>


text \<open>An instance for examples: numbers, with \<open>-1\<close> behind \<open>required\<close>; an expression is a number
  or a name.\<close>

definition num_spec :: "(int + string, unit, int) spec_api" where
  "num_spec = \<lparr>
     const_value = (\<lambda>e c. case e of
        Inl i \<Rightarrow> (i, [])
      | Inr x \<Rightarrow> (case Variables c x of Some v \<Rightarrow> (v, []) | None \<Rightarrow> (0, [DiagError ''Unknown variable'']))),
     expr_variables = (\<lambda>e. case e of Inl _ \<Rightarrow> [] | Inr x \<Rightarrow> [(x, [])]),
     RequiredVal = -1,
     isRequired = (\<lambda>v. v = -1),
     TupleVal = (\<lambda>vs. int (length vs))\<rparr>"

definition num_attr :: "string \<Rightarrow> int + string \<Rightarrow> nat \<Rightarrow> (int + string) hclAttribute" where
  "num_attr x e i = \<lparr>attr_Name = x, attr_Expr = e, attr_Start = i\<rparr>"

definition spec_with :: "(int + string) hclBody list \<Rightarrow> (int + string) hclBody" where
  "spec_with ps = HBody [] [HBlock ''spec'' [] 0 50 (HBody [] (map (HBlock ''params'' [] 1 9) ps))]"

lemmas spec_simps = ParseSpec_def parseSpecBody_def parse_rest_def unknown_attrs_def parseParams_def
  spec_with_def num_attr_def num_spec_def empty_spec_def reserved_def ParamsEvalContext_def add_param_def
  numRequired_def plain_spec_def one_params_def




text \<open>The order of required and optional parameters is checked within each \<open>params\<close> block only:
  with an optional parameter in a first block and a required one in a second, the specification is
  accepted, and a call with the one required argument binds it to the optional parameter and leaves
  the required one without a value.\<close>

theorem two_params_blocks_misbind:
  "ParseSpec num_spec (spec_with [HBody [num_attr ''a'' (Inl 5) 3] [],
       HBody [num_attr ''b'' (Inr ''required'') 7] []]) =
     Inr (\<lparr>ParamNames = [''a'', ''b''], ParamDefaults = [Some 5, None], VariadicParam = []\<rparr>, HBody [] []) \<and>
   (\<exists>sc. bind_args num_spec nil
       \<lparr>ParamNames = [''a'', ''b''], ParamDefaults = [Some 5, None], VariadicParam = []\<rparr> [9] = Done sc \<and>
     Get sc ''a'' = Some 9 \<and> Get sc ''b'' = Some nil)"
  by (simp add: spec_simps bind_args_def Get_Set eval_nat_numeral)

text \<open>Every procedure that is extracted from a configuration has a well-formed body and a sound
  specification, and if extraction reports no error then the procedures have different names and all
  of them are there.\<close>

theorem procedures_extracted:
  assumes "extractProcedureFunctions P S files = (funcs, diags)"
  shows "(\<forall>x spec stmts. funcs x = Some (spec, stmts) \<longrightarrow> spec_ok spec \<and> wf_body P 0 stmts) \<and>
    (\<not> HasErrors diags \<longrightarrow> distinct (map fst (concat (map fst files))) \<and>
       dom funcs = set (map fst (concat (map fst files))))"
proof -
  have "table_ok P (seen @ map fst (concat (map fst fs))) (fold (extract_file P S) fs st)"
    if "table_ok P seen st" for seen fs st
    using that
  proof (induction fs arbitrary: seen st)
    case (Cons f fs)
    from Cons.IH [OF extract_file_ok [OF Cons.prems, of f S]] show ?case by simp
  qed simp
  from this [of "[]" "(Map.empty, [])" files] assms show ?thesis
    by (simp add: extractProcedureFunctions_def table_ok_def)
qed

definition text_spec :: "(string, unit, bool) spec_api" where
  "text_spec = \<lparr>const_value = (\<lambda>e c. (False, [])), expr_variables = (\<lambda>e. []), RequiredVal = True,
     isRequired = (\<lambda>v. v), TupleVal = (\<lambda>vs. vs \<noteq> [])\<rparr>"

lemma text_extract:
  "extractProcedureFunctions text_syntax text_spec [([(''p'', Some loop_body)], [])] =
     ([''p'' \<mapsto> (empty_spec, [Assignment ''x'' ''true'', While ''x'' [Break ''true''], Return ''x''])],
      [DiagWarning ''Deprecated procedure block''])"
proof -
  have "ParseSpec text_spec loop_body = Inr (empty_spec, loop_body)"
    by (simp add: ParseSpec_def loop_body_def)
  then show ?thesis
    by (simp add: extractProcedureFunctions_def extract_file_def extract_block_def loop_body_compiles)
qed

theorem procedures_extracted_witness:
  "wf_body text_syntax 0 [Assignment ''x'' ''true'', While ''x'' [Break ''true''], Return ''x''] \<and>
   dom [''p'' \<mapsto> (empty_spec :: bool ProcSpec, [Assignment ''x'' ''true'', While ''x'' [Break ''true''], Return ''x''])] =
     set (map fst (concat (map fst [([(''p'', Some loop_body)], [] :: diag list)])))"
  using procedures_extracted [OF text_extract, THEN conjunct1, rule_format, of "''p''"] by simp

end
