(* ===== verification/Suggest.thy ===== *)
theory Suggest
  imports Vinculum_Prelude "HOL-Library.List_Lexorder" "HOL-Library.Product_Lexorder"
begin

text \<open>
  The measure behind every "did you mean" (\<open>internal/suggest/suggest.go\<close>). Strings are lists of
  runes, a rune being its code point. The two-row computation of \<open>Distance\<close> is related to what an
  edit distance is: the least number of single-character edits.
\<close>

type_synonym rune = nat

section \<open>The code\<close>

text \<open>The inner loop writes one row into \<open>cur\<close>, from the row \<open>prev\<close>; the outer loop swaps them.\<close>

definition cell :: "rune list \<Rightarrow> rune list \<Rightarrow> nat \<Rightarrow> nat list \<Rightarrow> nat \<Rightarrow> nat list \<Rightarrow> nat list" where
  "cell ar br i prev j cur =
     (let cost = (if ar ! (i - 1) = br ! (j - 1) then 0 else 1)
      in cur[j := min (cur ! (j - 1) + 1) (min (prev ! j + 1) (prev ! (j - 1) + cost))])"

definition fill_row :: "rune list \<Rightarrow> rune list \<Rightarrow> nat \<Rightarrow> nat list \<Rightarrow> nat list \<Rightarrow> nat list" where
  "fill_row ar br i prev cur = fold (cell ar br i prev) [1..<Suc (length br)] (cur[0 := i])"

definition Distance :: "rune list \<Rightarrow> rune list \<Rightarrow> nat" where
  "Distance ar br =
     (if length ar = 0 then length br
      else if length br = 0 then length ar
      else
        (let rows = fold (\<lambda>i (prev, cur). (fill_row ar br i prev cur, prev)) [1..<Suc (length ar)]
               ([0..<Suc (length br)], replicate (Suc (length br)) 0)
         in fst rows ! length br))"

definition MaxDistance :: nat where
  "MaxDistance = 2"

text \<open>\<open>lower\<close> is the case folding of a rune that \<open>strings.ToLower\<close> applies.\<close>

definition Near :: "(rune \<Rightarrow> rune) \<Rightarrow> rune list \<Rightarrow> rune list list \<Rightarrow> rune list list" where
  "Near lower name candidates =
     (let folded = map lower name;
          near = filter (\<lambda>(d, c). d \<le> MaxDistance)
                   (map (\<lambda>c. (Distance folded (map lower c), c)) candidates)
      in map snd (sort near))"

definition Nearest :: "(rune \<Rightarrow> rune) \<Rightarrow> rune list \<Rightarrow> rune list list \<Rightarrow> rune list" where
  "Nearest lower name candidates =
     (case Near lower name candidates of c # cs \<Rightarrow> c | [] \<Rightarrow> [])"

section \<open>The recurrence\<close>

fun lev :: "'a list \<Rightarrow> 'a list \<Rightarrow> nat" where
  "lev [] ys = length ys"
| "lev xs [] = length xs"
| "lev (x # xs) (y # ys) =
     min (lev (x # xs) ys + 1) (min (lev xs (y # ys) + 1) (lev xs ys + (if x = y then 0 else 1)))"

lemma lev_Nil2 [simp]: "lev xs [] = length xs"
  by (cases xs) auto

text \<open>The entry of the table for the first \<open>i\<close> and \<open>j\<close> characters.\<close>

definition table :: "'a list \<Rightarrow> 'a list \<Rightarrow> nat \<Rightarrow> nat \<Rightarrow> nat" where
  "table ar br i j = lev (rev (take i ar)) (rev (take j br))"

lemma table_edges:
  "j \<le> length br \<Longrightarrow> table ar br 0 j = j"
  "i \<le> length ar \<Longrightarrow> table ar br i 0 = i"
  by (simp_all add: table_def)

lemma rev_take_Suc: "i < length xs \<Longrightarrow> rev (take (Suc i) xs) = xs ! i # rev (take i xs)"
  by (simp add: take_Suc_conv_app_nth)

lemma table_step:
  "i < length ar \<Longrightarrow> j < length br \<Longrightarrow> table ar br (Suc i) (Suc j) =
     min (table ar br (Suc i) j + 1) (min (table ar br i (Suc j) + 1)
       (table ar br i j + (if ar ! i = br ! j then 0 else 1)))"
  by (simp add: table_def rev_take_Suc)

definition is_row :: "rune list \<Rightarrow> rune list \<Rightarrow> nat \<Rightarrow> nat \<Rightarrow> nat list \<Rightarrow> bool" where
  "is_row ar br i m row \<longleftrightarrow> length row = Suc (length br) \<and> (\<forall>j \<le> m. row ! j = table ar br i j)"

lemma cell_row:
  assumes "is_row ar br i (length br) prev" and "is_row ar br (Suc i) m cur"
    and "i < length ar" and "m < length br"
  shows "is_row ar br (Suc i) (Suc m) (cell ar br (Suc i) prev (Suc m) cur)"
  using assms
  by (auto simp: is_row_def cell_def Let_def table_step nth_list_update le_Suc_eq)

lemma fill_row_row:
  assumes "is_row ar br i (length br) prev" and "length cur = Suc (length br)" and "i < length ar"
  shows "is_row ar br (Suc i) (length br) (fill_row ar br (Suc i) prev cur)"
proof -
  have "m \<le> length br \<Longrightarrow>
      is_row ar br (Suc i) m (fold (cell ar br (Suc i) prev) [1..<Suc m] (cur[0 := Suc i]))" for m
  proof (induction m)
    case 0
    then show ?case using assms by (simp add: is_row_def table_edges)
  next
    case (Suc m)
    then have "is_row ar br (Suc i) m (fold (cell ar br (Suc i) prev) [1..<Suc m] (cur[0 := Suc i]))"
      by simp
    from cell_row [OF assms(1) this assms(3)] Suc.prems show ?case by simp
  qed
  then show ?thesis by (simp add: fill_row_def)
qed

lemma Distance_lev: "Distance ar br = lev (rev ar) (rev br)"
proof (cases "ar = [] \<or> br = []")
  case True
  then show ?thesis by (cases "rev ar") (auto simp: Distance_def)
next
  case False
  let ?step = "\<lambda>i (prev, cur). (fill_row ar br i prev cur, prev)"
  let ?start = "([0..<Suc (length br)], replicate (Suc (length br)) 0)"
  have "i \<le> length ar \<Longrightarrow>
      is_row ar br i (length br) (fst (fold ?step [1..<Suc i] ?start)) \<and>
      length (snd (fold ?step [1..<Suc i] ?start)) = Suc (length br)" for i
  proof (induction i)
    case 0
    then show ?case by (simp add: is_row_def table_edges nth_append le_less_Suc_eq less_Suc_eq_le del: upt_Suc)
  next
    case (Suc i)
    then show ?case
      using fill_row_row [of ar br i] by (auto simp: case_prod_beta is_row_def)
  qed
  from this [of "length ar"] False show ?thesis
    by (auto simp: Distance_def is_row_def table_def Let_def)
qed

section \<open>Edits\<close>

text \<open>One edit inserts, deletes or replaces a character anywhere.\<close>

inductive edit :: "'a list \<Rightarrow> 'a list \<Rightarrow> bool" where
  insert: "edit (u @ v) (u @ x # v)"
| delete: "edit (u @ x # v) (u @ v)"
| replace: "edit (u @ x # v) (u @ y # v)"

text \<open>An alignment goes through both strings from left to right and counts what it changes.\<close>

inductive align :: "nat \<Rightarrow> 'a list \<Rightarrow> 'a list \<Rightarrow> bool" where
  nil: "align 0 [] []"
| keep: "align k xs ys \<Longrightarrow> align k (x # xs) (x # ys)"
| sub: "align k xs ys \<Longrightarrow> align (Suc k) (x # xs) (y # ys)"
| ins: "align k xs ys \<Longrightarrow> align (Suc k) xs (y # ys)"
| del: "align k xs ys \<Longrightarrow> align (Suc k) (x # xs) ys"

inductive_cases align_ConsE: "align k (x # xs) ys"
inductive_cases align_Cons2E: "align k xs (y # ys)"
inductive_simps align_Nil: "align k [] ys"

lemma align_refl: "align 0 xs xs"
  by (induction xs) (auto intro: align.intros)

lemma align_append: "align k xs ys \<Longrightarrow> align l us vs \<Longrightarrow> align (k + l) (xs @ us) (ys @ vs)"
  by (induction rule: align.induct) (auto intro: align.intros)

lemma align_sym: "align k xs ys \<Longrightarrow> align k ys xs"
  by (induction rule: align.induct) (auto intro: align.intros)

lemma align_rev: "align k xs ys \<Longrightarrow> align k (rev xs) (rev ys)"
proof (induction rule: align.induct)
  case (keep k xs ys x)
  from align_append [OF keep.IH align_refl [of "[x]"]] show ?case by simp
next
  case (sub k xs ys x y)
  from align_append [OF sub.IH, of 1 "[x]" "[y]"] show ?case by (simp add: align.intros)
next
  case (ins k xs ys y)
  from align_append [OF ins.IH, of 1 "[]" "[y]"] show ?case by (simp add: align.intros)
next
  case (del k xs ys x)
  from align_append [OF del.IH, of 1 "[x]" "[]"] show ?case by (simp add: align.intros)
qed (simp add: align.intros)

text \<open>The recurrence computes the cost of the cheapest alignment.\<close>

lemma align_only_ins: "align (length ys) [] ys"
  by (induction ys) (auto intro: align.intros)

lemma align_only_del: "align (length xs) xs []"
  by (induction xs) (auto intro: align.intros)

lemma lev_align: "align (lev xs ys) xs ys"
proof (induction xs ys rule: lev.induct)
  case (3 x xs y ys)
  consider "lev (x # xs) (y # ys) = Suc (lev (x # xs) ys)" | "lev (x # xs) (y # ys) = Suc (lev xs (y # ys))"
    | "lev (x # xs) (y # ys) = lev xs ys" "x = y" | "lev (x # xs) (y # ys) = Suc (lev xs ys)"
  proof -
    have "lev (x # xs) (y # ys) \<in>
        {Suc (lev (x # xs) ys), Suc (lev xs (y # ys)), lev xs ys + (if x = y then 0 else 1)}"
      by (simp add: min_def)
    then show ?thesis using that by (cases "x = y") auto
  qed
  then show ?case
    using 3 by cases (simp_all only: align.intros)
qed (simp_all only: lev.simps lev_Nil2 align_only_ins align_only_del)

lemma lev_le: "align k xs ys \<Longrightarrow> lev xs ys \<le> k"
proof (induction rule: align.induct)
  case (ins k xs ys y)
  then show ?case by (cases xs) auto
next
  case (del k xs ys x)
  then show ?case by (cases ys) auto
qed auto

section \<open>Alignments compose\<close>

text \<open>What an alignment of \<open>xs\<close> and \<open>zs\<close> may cost is closed under the rules.\<close>

lemma align_within:
  "(\<exists>m \<le> n. align m xs zs) \<Longrightarrow> n \<le> n' \<Longrightarrow> \<exists>m \<le> n'. align m (x # xs) (x # zs)"
  "(\<exists>m \<le> n. align m xs zs) \<Longrightarrow> Suc n \<le> n' \<Longrightarrow> \<exists>m \<le> n'. align m (x # xs) (z # zs)"
  "(\<exists>m \<le> n. align m xs zs) \<Longrightarrow> Suc n \<le> n' \<Longrightarrow> \<exists>m \<le> n'. align m xs (z # zs)"
  "(\<exists>m \<le> n. align m xs zs) \<Longrightarrow> Suc n \<le> n' \<Longrightarrow> \<exists>m \<le> n'. align m (x # xs) zs"
  "(\<exists>m \<le> n. align m xs zs) \<Longrightarrow> n \<le> n' \<Longrightarrow> \<exists>m \<le> n'. align m xs zs"
  by (meson align.intros le_trans Suc_le_mono)+

lemma align_trans:
  fixes xs ys zs :: "'a list"
  shows "align j xs ys \<Longrightarrow> align k ys zs \<Longrightarrow> \<exists>m \<le> j + k. align m xs zs"
proof (induction "length xs + length ys + length zs" arbitrary: j k xs ys zs rule: less_induct)
  case less
  note first = less.prems(1) and second = less.prems(2)
  have ih: "align j' xs' ys' \<Longrightarrow> align k' ys' zs' \<Longrightarrow>
      length xs' + length ys' + length zs' < length xs + length ys + length zs \<Longrightarrow>
      \<exists>m \<le> j' + k'. align m xs' zs'" for j' k' and xs' ys' zs' :: "'a list"
    using less.hyps [of xs' ys' zs' j' k'] by blast
  show ?case
  proof (cases "\<exists>k' z zs'. k = Suc k' \<and> zs = z # zs' \<and> align k' ys zs'")
    case True
    then obtain k' z zs' where z: "k = Suc k'" "zs = z # zs'" "align k' ys zs'" by blast
    from align_within(3) [OF ih [OF first z(3)]] show ?thesis by (simp add: z)
  next
    case no_ins: False
    have sec: "(\<exists>zs'. zs = b # zs' \<and> align k ys' zs') \<or>
        (\<exists>k' c zs'. k = Suc k' \<and> zs = c # zs' \<and> align k' ys' zs') \<or>
        (\<exists>k'. k = Suc k' \<and> align k' ys' zs)" if "ys = b # ys'" for b ys'
      using second [unfolded that] no_ins that by (auto elim: align_ConsE)
    from first show ?thesis
    proof (cases rule: align.cases)
      case nil
      with second show ?thesis by auto
    next
      case (del j' xs' x)
      from align_within(4) [OF ih [OF del(3) second]] show ?thesis by (simp add: del)
    next
      case (keep xs' ys' b)
      note hyp = ih [OF keep(3)]
      from sec [OF keep(2)] consider zs' where "zs = b # zs'" "align k ys' zs'"
        | k' c zs' where "k = Suc k'" "zs = c # zs'" "align k' ys' zs'" | k' where "k = Suc k'" "align k' ys' zs"
        by blast
      then show ?thesis
      proof cases
        case 1
        from align_within(1) [OF hyp [OF 1(2)]] show ?thesis by (simp add: keep 1(1))
      next
        case 2
        from align_within(2) [OF hyp [OF 2(3)]] show ?thesis by (simp add: keep 2(1,2))
      next
        case 3
        from align_within(4) [OF hyp [OF 3(2)]] show ?thesis by (simp add: keep 3(1))
      qed
    next
      case (sub j' xs' ys' a b)
      note hyp = ih [OF sub(4)]
      from sec [OF sub(3)] consider zs' where "zs = b # zs'" "align k ys' zs'"
        | k' c zs' where "k = Suc k'" "zs = c # zs'" "align k' ys' zs'" | k' where "k = Suc k'" "align k' ys' zs"
        by blast
      then show ?thesis
      proof cases
        case 1
        from align_within(2) [OF hyp [OF 1(2)]] show ?thesis by (simp add: sub 1(1))
      next
        case 2
        from align_within(2) [OF hyp [OF 2(3)]] show ?thesis by (simp add: sub 2(1,2))
      next
        case 3
        from align_within(4) [OF hyp [OF 3(2)]] show ?thesis by (simp add: sub 3(1))
      qed
    next
      case (ins j' ys' b)
      note hyp = ih [OF ins(3)]
      from sec [OF ins(2)] consider zs' where "zs = b # zs'" "align k ys' zs'"
        | k' c zs' where "k = Suc k'" "zs = c # zs'" "align k' ys' zs'" | k' where "k = Suc k'" "align k' ys' zs"
        by blast
      then show ?thesis
      proof cases
        case 1
        from align_within(3) [OF hyp [OF 1(2)]] show ?thesis by (simp add: ins 1(1))
      next
        case 2
        from align_within(3) [OF hyp [OF 2(3)]] show ?thesis by (simp add: ins 2(1,2))
      next
        case 3
        from align_within(5) [OF hyp [OF 3(2)]] show ?thesis by (simp add: ins 3(1))
      qed
    qed
  qed
qed

lemma edit_align: "edit xs ys \<Longrightarrow> align 1 xs ys"
proof (induction rule: edit.induct)
  case (insert u v x)
  from align_append [OF align_refl [of u] ins [OF align_refl [of v], of x]] show ?case by simp
next
  case (delete u x v)
  from align_append [OF align_refl [of u] del [OF align_refl [of v], of x]] show ?case by simp
next
  case (replace u x v y)
  from align_append [OF align_refl [of u] sub [OF align_refl [of v], of x y]] show ?case by simp
qed

lemma edit_Cons: "edit xs ys \<Longrightarrow> edit (x # xs) (x # ys)"
  by (induction rule: edit.induct)
     (metis append_Cons edit.insert, metis append_Cons edit.delete, metis append_Cons edit.replace)

lemma edits_Cons: "(edit ^^ k) xs ys \<Longrightarrow> (edit ^^ k) (x # xs) (x # ys)"
  by (induction k arbitrary: ys) (auto intro: edit_Cons)

lemma align_edits: "align k xs ys \<Longrightarrow> (edit ^^ k) xs ys"
proof (induction rule: align.induct)
  case (keep k xs ys x)
  then show ?case by (rule_tac edits_Cons)
next
  case (sub k xs ys x y)
  then have "(edit ^^ k) (x # xs) (x # ys)" by (rule_tac edits_Cons)
  then show ?case using edit.replace [of "[]" x ys y] by auto
next
  case (ins k xs ys y)
  then show ?case using edit.insert [of "[]" ys y] by auto
next
  case (del k xs ys x)
  then have "(edit ^^ k) (x # xs) (x # ys)" by (rule_tac edits_Cons)
  then show ?case using edit.delete [of "[]" x ys] by auto
qed simp

lemma edits_align: "(edit ^^ k) xs ys \<Longrightarrow> \<exists>m \<le> k. align m xs ys"
proof (induction k arbitrary: ys)
  case 0
  then show ?case using align_refl by auto
next
  case (Suc k)
  then obtain zs m where zs: "align m xs zs" "m \<le> k" "edit zs ys" by (metis relpowp_Suc_E)
  from align_trans [OF zs(1) edit_align [OF zs(3)]] obtain n where "n \<le> m + 1" "align n xs ys" by blast
  with zs(2) show ?case by (intro exI [of _ n]) auto
qed

lemma Distance_le_iff: "Distance a b \<le> k \<longleftrightarrow> (\<exists>m \<le> k. (edit ^^ m) a b)"
proof
  assume "Distance a b \<le> k"
  moreover have "align (Distance a b) a b"
    using align_rev [OF lev_align [of "rev a" "rev b"]] by (simp add: Distance_lev)
  ultimately show "\<exists>m \<le> k. (edit ^^ m) a b" using align_edits by blast
next
  assume "\<exists>m \<le> k. (edit ^^ m) a b"
  then obtain m where "m \<le> k" "align m a b" using edits_align le_trans by blast
  with lev_le [OF align_rev [OF this(2)]] show "Distance a b \<le> k" by (simp add: Distance_lev)
qed

lemma Distance_align: "align (Distance a b) a b" and Distance_le: "align k a b \<Longrightarrow> Distance a b \<le> k"
proof -
  show "align (Distance a b) a b"
    using align_rev [OF lev_align [of "rev a" "rev b"]] by (simp add: Distance_lev)
  show "align k a b \<Longrightarrow> Distance a b \<le> k"
    using lev_le [OF align_rev [of k a b]] by (simp add: Distance_lev)
qed

lemma align_zero: "align 0 a b \<Longrightarrow> a = b"
proof -
  have "align k a b \<Longrightarrow> k = 0 \<longrightarrow> a = b" for k by (induction rule: align.induct) auto
  then show "align 0 a b \<Longrightarrow> a = b" by blast
qed

lemma align_lengths: "align k a b \<Longrightarrow> length a \<le> length b + k \<and> length b \<le> length a + k"
  by (induction rule: align.induct) auto

lemma align_short: "\<exists>k \<le> max (length a) (length b). align k a b"
proof (induction a arbitrary: b)
  case Nil
  then show ?case using align_only_ins [of b] by auto
next
  case (Cons x a)
  show ?case
  proof (cases b)
    case Nil
    then show ?thesis using align_only_del [of "x # a"] by auto
  next
    case (Cons y b')
    then show ?thesis
      using align_within(2) [OF Cons.IH [of b'], of "max (length (x # a)) (length b)"] by simp
  qed
qed

section \<open>Properties\<close>

text \<open>C16: \<open>Distance\<close> is the Levenshtein distance: one string can be turned into the other with that many
  insertions, deletions and replacements of single characters, and with no fewer.\<close>

theorem distance_least_edits:
  "(edit ^^ Distance a b) a b \<and> (\<forall>k. (edit ^^ k) a b \<longrightarrow> Distance a b \<le> k)"
  using align_edits [OF Distance_align] Distance_le_iff by blast

theorem distance_least_edits_witness: "Distance [5, 6, 7] [5, 7] \<le> 1"
proof -
  have "(edit ^^ 1) [5, 6, 7] [5, 7 :: nat]" using edit.delete [of "[5 :: nat]" 6 "[7]"] by (simp add: eq_OO)
  with distance_least_edits [of "[5, 6, 7]" "[5, 7]"] show ?thesis by blast
qed

text \<open>\<open>Distance\<close> is a metric, and it lies between the difference of the lengths and the length of
  the longer string.\<close>

theorem distance_metric:
  "(Distance a b = 0 \<longleftrightarrow> a = b) \<and> Distance a b = Distance b a \<and>
   Distance a c \<le> Distance a b + Distance b c \<and>
   length a \<le> length b + Distance a b \<and> Distance a b \<le> max (length a) (length b)"
proof -
  have sym: "Distance x y \<le> Distance y x" for x y
    by (rule Distance_le [OF align_sym [OF Distance_align]])
  obtain m where "m \<le> Distance a b + Distance b c" "align m a c"
    using align_trans [OF Distance_align Distance_align] by blast
  then have "Distance a c \<le> Distance a b + Distance b c"
    using Distance_le le_trans by blast
  moreover obtain k where "k \<le> max (length a) (length b)" "align k a b"
    using align_short by blast
  then have "Distance a b \<le> max (length a) (length b)"
    using Distance_le le_trans by blast
  moreover have "Distance a b = 0 \<longleftrightarrow> a = b"
    using align_zero [of a b] Distance_align [of a b] Distance_le [OF align_refl, of a] by auto
  ultimately show ?thesis
    using sym [of a b] sym [of b a] align_lengths [OF Distance_align [of a b]] by simp
qed

text \<open>The candidates offered for a mistyped name are exactly those that differ from it, case folded,
  by at most two edits, each as often and spelled as given; closer ones come first, equally close
  ones in alphabetical order, and the order in which the candidates are given makes no difference.\<close>

theorem near_candidates:
  "mset (Near lower name cands) =
     filter_mset (\<lambda>c. \<exists>k \<le> 2. (edit ^^ k) (map lower name) (map lower c)) (mset cands) \<and>
   sorted (map (\<lambda>c. (Distance (map lower name) (map lower c), c)) (Near lower name cands)) \<and>
   (mset cands = mset cands' \<longrightarrow> Near lower name cands = Near lower name cands')"
proof -
  let ?k = "\<lambda>c. (Distance (map lower name) (map lower c), c)"
  let ?near = "\<lambda>cs. filter (\<lambda>(d, c). d \<le> MaxDistance) (map ?k cs)"
  have near: "Near lower name cs = map snd (sort (?near cs))" for cs
    by (simp add: Near_def Let_def)
  have keys: "map ?k (Near lower name cs) = sort (?near cs)" for cs
    unfolding near map_map by (rule map_idI) auto
  have m: "mset (Near lower name cs) =
      filter_mset (\<lambda>c. Distance (map lower name) (map lower c) \<le> 2) (mset cs)" for cs
    unfolding near by (induction cs) (auto simp: MaxDistance_def)
  have "Near lower name cands = Near lower name cands'" if "mset cands = mset cands'"
  proof -
    have "sort (?near cands) = sort (?near cands')"
      by (rule properties_for_sort) (use that in \<open>auto simp: \<close>)
    then show ?thesis by (simp add: near)
  qed
  moreover have "sorted (map ?k (Near lower name cands))" by (simp only: keys sorted_sort)
  ultimately show ?thesis using m Distance_le_iff by simp
qed

theorem near_candidates_witness:
  "Near id [1, 2] [[2, 1], [1, 2, 3], [7, 8, 9]] = Near id [1, 2] [[7, 8, 9], [1, 2, 3], [2, 1]]"
  using near_candidates [where lower = id and name = "[1, 2]" and
      cands = "[[2, 1], [1, 2, 3], [7, 8, 9]]" and cands' = "[[7, 8, 9], [1, 2, 3], [2, 1]]"]
  by simp

text \<open>The closest candidate is the head of the list, and none is offered when none is near.\<close>

lemma Nearest_in:
  "Nearest lower name cands = (if Near lower name cands = [] then [] else hd (Near lower name cands))"
  by (simp add: Nearest_def split: list.split)

end
