(* ===== verification/Watchdog.thy ===== *)
theory Watchdog
  imports Cond_Common
begin

text \<open>
  The watchdog trigger (\<open>triggers/watchdog/watchdog.go\<close>): its shared fields, which \<open>set\<close>, \<open>reset\<close>
  and \<open>get\<close> access under a lock, and the goroutine that waits on the timer, the feed channel and the
  stop channel. The channel of capacity one is a flag; \<open>fire\<close> runs the action outside the lock, so
  that other calls may come between its start and its end. The steps of the goroutine and of its
  callers are the step relation \<open>wd_step\<close>.
\<close>

section \<open>State\<close>

record WatchdogConfig =
  window :: duration
  initialGrace :: duration
  repeat :: bool
  maxMisses :: int
  stopWhenProvided :: bool

text \<open>Where the goroutine is: not started, waiting on the armed timer with its deadline, in \<open>fire\<close>
  with the values it has copied, dormant, auto-stopped, or ended.\<close>

datatype phase =
    NotStarted | Armed time | Firing int "time option" | Dormant | AutoStopped | Exited

record 'v WatchdogTrigger =
  lastValue :: "'v option"
  lastSet :: "time option"
  missCount :: int
  setCh :: bool
  stopped :: bool
  phase :: phase
  clock_now :: time

section \<open>Operations\<close>

definition Watchdog_Set :: "'v \<Rightarrow> 'v list \<Rightarrow> 'v WatchdogTrigger \<Rightarrow> 'v WatchdogTrigger \<times> 'v" where
  "Watchdog_Set null args t =
     (let val = (case args of a # _ \<Rightarrow> a | [] \<Rightarrow> null)
      in (t\<lparr>lastValue := Some val, lastSet := Some (clock_now t), missCount := 0, setCh := True\<rparr>, val))"

definition Watchdog_Reset :: "'v WatchdogTrigger \<Rightarrow> 'v WatchdogTrigger" where
  "Watchdog_Reset t = t\<lparr>lastValue := None, lastSet := None, missCount := 0, setCh := True\<rparr>"

definition Watchdog_Get :: "'v \<Rightarrow> 'v WatchdogTrigger \<Rightarrow> 'v" where
  "Watchdog_Get null t = (case lastValue t of None \<Rightarrow> null | Some v \<Rightarrow> v)"

definition Watchdog_OnChange :: "'v \<Rightarrow> 'v \<Rightarrow> 'v WatchdogTrigger \<Rightarrow> 'v WatchdogTrigger" where
  "Watchdog_OnChange null newValue t = fst (Watchdog_Set null [newValue] t)"

text \<open>\<open>stop_when\<close> counts when it evaluates to a known, true boolean.\<close>

definition stop_true :: "'n eval_result \<Rightarrow> bool" where
  "stop_true ev = (case ev of
     None \<Rightarrow> False
   | Some v \<Rightarrow> v_IsKnown v \<and> \<not> v_IsNull v \<and> v_Type v = TBool \<and> v_True v = Some True)"

text \<open>\<open>fire\<close>, up to the end of its critical section, and the decision it returns: \<open>ctx_ok\<close> and
  \<open>action_ok\<close> say whether the evaluation context was built and the action evaluated without errors.\<close>

definition fire_begin :: "'v WatchdogTrigger \<Rightarrow> 'v WatchdogTrigger" where
  "fire_begin t =
     t\<lparr>missCount := missCount t + 1, phase := Firing (missCount t + 1) (lastSet t)\<rparr>"

definition fire_result :: "WatchdogConfig \<Rightarrow> int \<Rightarrow> bool \<Rightarrow> bool \<Rightarrow> 'n eval_result \<Rightarrow> bool" where
  "fire_result c miss ctx_ok action_ok stop =
     (if \<not> ctx_ok then False
      else if \<not> action_ok then False
      else if 0 < maxMisses c \<and> maxMisses c \<le> miss then True
      else if stopWhenProvided c then stop_true stop
      else False)"

definition shouldRemainStopped :: "WatchdogConfig \<Rightarrow> bool \<Rightarrow> 'n eval_result \<Rightarrow> 'v WatchdogTrigger \<Rightarrow> bool" where
  "shouldRemainStopped c ctx_ok stop t =
     (if 0 < maxMisses c \<and> maxMisses c \<le> missCount t then True
      else if stopWhenProvided c then (if \<not> ctx_ok then False else stop_true stop)
      else False)"

text \<open>The timer set anew, by \<open>timer.Reset\<close> or \<open>safeTimerReset\<close>.\<close>

definition rearm :: "WatchdogConfig \<Rightarrow> 'v WatchdogTrigger \<Rightarrow> 'v WatchdogTrigger" where
  "rearm c t = t\<lparr>phase := Armed (clock_now t + window c)\<rparr>"

definition PostStart :: "WatchdogConfig \<Rightarrow> 'v WatchdogTrigger \<Rightarrow> 'v WatchdogTrigger" where
  "PostStart c t =
     t\<lparr>phase := Armed (clock_now t + (if initialGrace c = 0 then window c else initialGrace c))\<rparr>"

definition Watchdog_Stop :: "'v WatchdogTrigger \<Rightarrow> 'v WatchdogTrigger" where
  "Watchdog_Stop t = t\<lparr>stopped := True\<rparr>"

text \<open>After \<open>fire\<close>: wait for revival, go dormant, or count down again.\<close>

definition fire_end :: "WatchdogConfig \<Rightarrow> bool \<Rightarrow> 'v WatchdogTrigger \<Rightarrow> 'v WatchdogTrigger" where
  "fire_end c stop t =
     (if stop then t\<lparr>phase := AutoStopped\<rparr>
      else if \<not> repeat c then t\<lparr>phase := Dormant\<rparr>
      else rearm c t)"

section \<open>Block processing\<close>

record 'e triggerWatchdogBody =
  wb_Window :: 'e
  wb_Watch :: "'e option"
  wb_InitialGrace :: "'e option"
  wb_Repeat :: "bool option"
  wb_MaxMisses :: "int option"
  wb_StopWhen :: "'e option"

text \<open>\<open>decoded\<close> is the result of HCL's body decoder, \<open>pd\<close> the duration parser, and \<open>wv\<close> evaluates the
  \<open>watch\<close> expression: its diagnostics and the watchable, or why it is none. The second result is
  what is registered under the name, if anything is.\<close>

definition processWatchdogTrigger ::
  "('e \<Rightarrow> duration \<times> diag list) \<Rightarrow> ('e \<Rightarrow> diag list \<times> (string + 'w)) \<Rightarrow>
     diag list \<times> 'e triggerWatchdogBody \<Rightarrow> diag list \<times> (WatchdogConfig \<times> 'w option) option" where
  "processWatchdogTrigger pd wv decoded =
     (let (ds, body) = decoded in
      if HasErrors ds then (ds, None)
      else let (win, d1) = pd (wb_Window body) in
      if HasErrors (ds @ d1) then (ds @ d1, None)
      else let (grace, d2) = parseOptDuration pd (wb_InitialGrace body); ds2 = ds @ d1 @ d2 in
      if wb_InitialGrace body \<noteq> None \<and> HasErrors ds2 then (ds2, None)
      else if (case wb_MaxMisses body of None \<Rightarrow> False | Some k \<Rightarrow> k < 1)
      then (ds2 @ [DiagError ''Invalid max_misses value''], None)
      else
        let c = \<lparr>window = win, initialGrace = grace, repeat = opt_bool (wb_Repeat body),
                 maxMisses = (case wb_MaxMisses body of None \<Rightarrow> 0 | Some k \<Rightarrow> k),
                 stopWhenProvided = (wb_StopWhen body \<noteq> None)\<rparr>
        in (case wb_Watch body of
              None \<Rightarrow> (ds2, Some (c, None))
            | Some e \<Rightarrow>
                (case wv e of (d3, r) \<Rightarrow>
                   if HasErrors (ds2 @ d3) then (ds2 @ d3, None)
                   else (case r of
                           Inl err \<Rightarrow> (ds2 @ d3 @ [DiagError ''Invalid watch target''], None)
                         | Inr w \<Rightarrow> (ds2 @ d3, Some (c, Some w))))))"

section \<open>Steps\<close>

datatype 'v label =
    Feed 'v | Rewind | Pass time | Go | Fire | Decide bool bool | Receive | Ask | Quit

text \<open>One step: a call of \<open>set\<close> or \<open>reset\<close>, time passing, the goroutine starting, the timer firing,
  \<open>fire\<close> returning, a feed being received, and stopping. The label \<open>Decide\<close> tells whether the action
  succeeded and what \<open>fire\<close> returned.\<close>

inductive wd_step ::
  "WatchdogConfig \<Rightarrow> 'v \<Rightarrow> 'v WatchdogTrigger \<Rightarrow> 'v label \<Rightarrow> 'v WatchdogTrigger \<Rightarrow> bool"
  for c :: WatchdogConfig and null :: 'v where
  feed: "wd_step c null t (Feed v) (fst (Watchdog_Set null [v] t))"
| rewind: "wd_step c null t Rewind (Watchdog_Reset t)"
| pass: "clock_now t \<le> u \<Longrightarrow> wd_step c null t (Pass u) (t\<lparr>clock_now := u\<rparr>)"
| go: "phase t = NotStarted \<Longrightarrow> wd_step c null t Go (PostStart c t)"
| fire: "phase t = Armed d \<Longrightarrow> d \<le> clock_now t \<Longrightarrow> wd_step c null t Fire (fire_begin t)"
| decide: "phase t = Firing m l \<Longrightarrow>
    wd_step c null t (Decide (ctx_ok \<and> action_ok) (fire_result c m ctx_ok action_ok (stop :: unit eval_result)))
      (fire_end c (fire_result c m ctx_ok action_ok stop) t)"
| recv_armed: "phase t = Armed d \<Longrightarrow> setCh t \<Longrightarrow> wd_step c null t Receive (rearm c (t\<lparr>setCh := False\<rparr>))"
| recv_dormant: "phase t = Dormant \<Longrightarrow> setCh t \<Longrightarrow> wd_step c null t Receive (rearm c (t\<lparr>setCh := False\<rparr>))"
| revive: "phase t = AutoStopped \<Longrightarrow> setCh t \<Longrightarrow> \<not> shouldRemainStopped c ok (stop :: unit eval_result) t \<Longrightarrow>
    wd_step c null t Receive (rearm c (t\<lparr>setCh := False\<rparr>))"
| remain: "phase t = AutoStopped \<Longrightarrow> setCh t \<Longrightarrow> shouldRemainStopped c ok (stop :: unit eval_result) t \<Longrightarrow>
    wd_step c null t Receive (t\<lparr>setCh := False\<rparr>)"
| ask: "wd_step c null t Ask (Watchdog_Stop t)"
| quit: "stopped t \<Longrightarrow> phase t \<in> {Dormant, AutoStopped} \<or> (\<exists>d. phase t = Armed d) \<Longrightarrow>
    wd_step c null t Quit (t\<lparr>phase := Exited\<rparr>)"


text \<open>Runs from the state \<open>Start\<close> leaves, with the labels of their steps.\<close>

definition wd_start :: "time \<Rightarrow> 'v WatchdogTrigger" where
  "wd_start now0 = \<lparr>lastValue = None, lastSet = None, missCount = 0, setCh = False, stopped = False,
     phase = NotStarted, clock_now = now0\<rparr>"

inductive wd_run ::
  "WatchdogConfig \<Rightarrow> 'v \<Rightarrow> 'v WatchdogTrigger \<Rightarrow> 'v label list \<Rightarrow> 'v WatchdogTrigger \<Rightarrow> bool"
  for c :: WatchdogConfig and null :: 'v and t0 :: "'v WatchdogTrigger" where
  start: "wd_run c null t0 [] t0"
| step: "wd_run c null t0 ls t \<Longrightarrow> wd_step c null t l t' \<Longrightarrow> wd_run c null t0 (ls @ [l]) t'"

section \<open>Invariants\<close>

lemmas wd_defs = Watchdog_Set_def Watchdog_Reset_def fire_begin_def fire_end_def rearm_def PostStart_def
  Watchdog_Stop_def Let_def





section \<open>What a run has done\<close>

fun is_feed :: "'v label \<Rightarrow> bool" where
  "is_feed (Feed _) = True"
| "is_feed Rewind = True"
| "is_feed _ = False"

definition fires :: "'v label list \<Rightarrow> nat" where
  "fires ls = length (filter (\<lambda>l. l = Fire) ls)"

definition feeds :: "'v label list \<Rightarrow> nat" where
  "feeds ls = length (filter is_feed ls)"

text \<open>The alarms since the last feed or reset, and the value fed last.\<close>

definition fires_since_feed :: "'v label list \<Rightarrow> nat" where
  "fires_since_feed ls = fires (takeWhile (\<lambda>l. \<not> is_feed l) (rev ls))"

fun last_fed :: "'v \<Rightarrow> 'v label list \<Rightarrow> 'v" where
  "last_fed null [] = null"
| "last_fed null (Feed v # ls) = v"
| "last_fed null (Rewind # ls) = null"
| "last_fed null (_ # ls) = last_fed null ls"

definition actions_ok :: "'v label list \<Rightarrow> bool" where
  "actions_ok ls \<longleftrightarrow> (\<forall>r. Decide False r \<notin> set ls)"

lemma snoc_counts [simp]:
  "fires (ls @ [l]) = fires ls + (if l = Fire then 1 else 0)"
  "feeds (ls @ [l]) = feeds ls + (if is_feed l then 1 else 0)"
  "fires_since_feed (ls @ [l]) = (if is_feed l then 0 else (if l = Fire then 1 else 0) + fires_since_feed ls)"
  "fires [] = 0" "feeds [] = 0" "fires_since_feed [] = 0"
  by (simp_all add: fires_def feeds_def fires_since_feed_def)

lemma run_trace:
  "wd_run c null t0 ls t \<Longrightarrow> t0 = wd_start n \<Longrightarrow>
     missCount t = int (fires_since_feed ls) \<and> Watchdog_Get null t = last_fed null (rev ls)"
proof (induction rule: wd_run.induct)
  case start
  then show ?case by (simp add: wd_start_def Watchdog_Get_def)
next
  case (step ls t l t')
  from step.hyps(2) step.IH [OF step.prems] show ?case
    by (cases rule: wd_step.cases) (auto simp: wd_defs Watchdog_Get_def)
qed

text \<open>Without \<open>repeat\<close>, an alarm uses up an arming, and only a feed arms again.\<close>

definition armed :: "'v WatchdogTrigger \<Rightarrow> nat" where
  "armed t = (case phase t of NotStarted \<Rightarrow> 1 | Armed d \<Rightarrow> 1 | _ \<Rightarrow> 0)"

lemma once_per_feed:
  "wd_run c null t0 ls t \<Longrightarrow> t0 = wd_start n \<Longrightarrow> \<not> repeat c \<Longrightarrow>
     fires ls + armed t + (if setCh t then 1 else 0) \<le> feeds ls + 1"
proof (induction rule: wd_run.induct)
  case start
  then show ?case by (simp add: wd_start_def armed_def)
next
  case (step ls t l t')
  from step.hyps(2) step.IH [OF step.prems] step.prems show ?case
    by (cases rule: wd_step.cases) (auto simp: wd_defs armed_def)
qed

definition under_max :: "WatchdogConfig \<Rightarrow> 'v WatchdogTrigger \<Rightarrow> bool" where
  "under_max c t \<longleftrightarrow> missCount t \<le> maxMisses c \<and>
     (case phase t of
        Firing m l \<Rightarrow> missCount t < maxMisses c \<or> maxMisses c \<le> m
      | AutoStopped \<Rightarrow> True
      | Exited \<Rightarrow> True
      | _ \<Rightarrow> missCount t < maxMisses c)"

lemma under_max_step:
  assumes "wd_step c null t l t'" and "under_max c t" and "0 < maxMisses c"
    and "\<forall>r. l \<noteq> Decide False r"
  shows "under_max c t'"
  using assms
proof (cases rule: wd_step.cases)
  case (decide m l' ctx_ok action_ok stop)
  then show ?thesis
    using assms by (auto simp: under_max_def wd_defs fire_result_def split: if_splits)
next
  case (revive ok stop)
  then show ?thesis
    using assms by (auto simp: under_max_def wd_defs shouldRemainStopped_def split: if_splits)
qed (auto simp: under_max_def wd_defs split: phase.splits)

lemma under_max_run:
  "wd_run c null t0 ls t \<Longrightarrow> t0 = wd_start n \<Longrightarrow> 0 < maxMisses c \<Longrightarrow> actions_ok ls \<Longrightarrow> under_max c t"
proof (induction rule: wd_run.induct)
  case start
  then show ?case by (simp add: wd_start_def under_max_def)
next
  case (step ls t l t')
  then show ?case by (auto simp: actions_ok_def intro: under_max_step)
qed

lemma process_valid:
  "processWatchdogTrigger pd wv decoded = (ds, Some (c, w)) \<Longrightarrow> \<not> HasErrors ds \<and> 0 \<le> maxMisses c"
  by (auto simp: processWatchdogTrigger_def Let_def parseOptDuration_def
      split: prod.splits if_splits option.splits sum.splits)

section \<open>Properties\<close>

lemma run_snoc: "wd_run c null t0 ls t \<Longrightarrow> wd_step c null t l t' \<Longrightarrow> ls' = ls @ [l] \<Longrightarrow> wd_run c null t0 ls' t'"
  by (auto intro: wd_run.step)


definition example_config :: "bool \<Rightarrow> WatchdogConfig" where
  "example_config rep =
     \<lparr>window = 10, initialGrace = 0, repeat = rep, maxMisses = 2, stopWhenProvided = False\<rparr>"

text \<open>A run of the example: started at 0, fed at 4, the feed received at 5, silent until 15.\<close>

lemma example_run:
  "wd_run (example_config False) (0 :: nat) (wd_start 0) [Go, Pass 4, Feed 7, Pass 5, Receive, Pass 15]
     \<lparr>lastValue = Some 7, lastSet = Some 4, missCount = 0, setCh = False, stopped = False,
      phase = Armed 15, clock_now = 15\<rparr>"
proof -
  let ?c = "example_config False"
  let ?t = "\<lambda>v s ch p now. \<lparr>lastValue = v, lastSet = s, missCount = 0, setCh = ch, stopped = False,
      phase = p, clock_now = now\<rparr> :: nat WatchdogTrigger"
  note defs = example_config_def wd_defs
  have "wd_run ?c 0 (wd_start 0) [Go] (?t None None False (Armed 10) 0)"
    by (rule run_snoc [OF wd_run.start]) (use wd_step.go [of "wd_start 0" ?c 0] in \<open>auto simp: wd_start_def defs\<close>)
  then have "wd_run ?c 0 (wd_start 0) [Go, Pass 4] (?t None None False (Armed 10) 4)"
    by (rule run_snoc) (use wd_step.pass [of "?t None None False (Armed 10) 0" 4 ?c 0] in auto)
  then have "wd_run ?c 0 (wd_start 0) [Go, Pass 4, Feed 7] (?t (Some 7) (Some 4) True (Armed 10) 4)"
    by (rule run_snoc) (use wd_step.feed [of ?c 0 "?t None None False (Armed 10) 4" 7] in \<open>auto simp: defs\<close>)
  then have "wd_run ?c 0 (wd_start 0) [Go, Pass 4, Feed 7, Pass 5] (?t (Some 7) (Some 4) True (Armed 10) 5)"
    by (rule run_snoc) (use wd_step.pass [of "?t (Some 7) (Some 4) True (Armed 10) 4" 5 ?c 0] in auto)
  then have "wd_run ?c 0 (wd_start 0) [Go, Pass 4, Feed 7, Pass 5, Receive] (?t (Some 7) (Some 4) False (Armed 15) 5)"
    by (rule run_snoc) (use wd_step.recv_armed [of "?t (Some 7) (Some 4) True (Armed 10) 5" 10 ?c 0] in \<open>auto simp: defs\<close>)
  then show ?thesis
    by (rule run_snoc) (use wd_step.pass [of "?t (Some 7) (Some 4) False (Armed 15) 5" 15 ?c 0] in auto)
qed


text \<open>The number of alarms is bounded: without \<open>repeat\<close> there is at most one alarm more than feeds
  and resets, and with \<open>max_misses\<close>, as long as the action succeeds, there are never more than that
  many alarms after the last feed.\<close>

theorem watchdog_alarm_bounds:
  assumes "wd_run c null (wd_start n) ls t"
  shows "(\<not> repeat c \<longrightarrow> fires ls \<le> feeds ls + 1) \<and>
         (0 < maxMisses c \<and> actions_ok ls \<longrightarrow> int (fires_since_feed ls) \<le> maxMisses c)"
  using once_per_feed [OF assms refl] run_trace [OF assms refl] under_max_run [OF assms refl]
  by (auto simp: under_max_def)

theorem watchdog_alarm_bounds_witness:
  "fires [Go, Pass 4, Feed (7 :: nat), Pass 5, Receive, Pass 15] \<le> 2 \<and>
   int (fires_since_feed [Go, Pass 4, Feed (7 :: nat), Pass 5, Receive, Pass 15]) \<le> 2"
  using watchdog_alarm_bounds [OF example_run] by (simp add: example_config_def actions_ok_def feeds_def)

text \<open>The miss count an action sees, and the value \<open>get\<close> returns, are what the history says: the
  number of alarms since the last feed or reset, and the value fed last, null after a reset.\<close>

theorem watchdog_history:
  assumes "wd_run c null (wd_start n) ls t"
  shows "missCount t = int (fires_since_feed ls) \<and> Watchdog_Get null t = last_fed null (rev ls)"
  by (rule run_trace [OF assms refl])

theorem watchdog_history_witness:
  "(0 :: int) = int (fires_since_feed [Go, Pass 4, Feed (7 :: nat), Pass 5, Receive, Pass 15]) \<and>
   7 = last_fed 0 (rev [Go, Pass 4, Feed (7 :: nat), Pass 5, Receive, Pass 15])"
  using watchdog_history [OF example_run] by (simp add: Watchdog_Get_def)

text \<open>An action that fails is not counted against \<open>max_misses\<close>: the trigger is never stopped.\<close>

lemma failed_action_never_stops: "\<not> fire_result c m ctx_ok False stop"
  by (simp add: fire_result_def)

end
