(* ===== verification/Values.thy ===== *)
theory Values
  imports Vinculum_Prelude
begin

text \<open>
  Values of the configuration language as functions and triggers receive them. The arithmetic of
  \<open>float64\<close> is the record \<open>float64\<close>. A value is looked at through its view; values at call time are
  known. Durations are read from numbers, texts and duration values
  (\<open>ParseDurationFromValue\<close> of \<open>config/util.go\<close>).
\<close>

record 'f float64 =
  f_of_int :: "int \<Rightarrow> 'f"
  f_add :: "'f \<Rightarrow> 'f \<Rightarrow> 'f"
  f_sub :: "'f \<Rightarrow> 'f \<Rightarrow> 'f"
  f_mul :: "'f \<Rightarrow> 'f \<Rightarrow> 'f"
  f_div :: "'f \<Rightarrow> 'f \<Rightarrow> 'f"
  f_pow :: "'f \<Rightarrow> 'f \<Rightarrow> 'f"
  f_eq :: "'f \<Rightarrow> 'f \<Rightarrow> bool"
  f_lt :: "'f \<Rightarrow> 'f \<Rightarrow> bool"
  f_to_int :: "'f \<Rightarrow> int"

text \<open>A number is seen as \<open>Int64\<close> and as \<open>Float64\<close> read it; objects and maps, lists and tuples look the
  same.\<close>

datatype ('v, 'f) value_view =
    VaNull | VaBool bool | VaNumber int 'f | VaString string | VaDuration duration
  | VaObject "string \<rightharpoonup> 'v" | VaList "'v list" | VaOther

text \<open>\<open>va_duration\<close> reads the text of a duration.\<close>

record ('v, 'f) value_api =
  va_float :: "'f float64"
  va_view :: "'v \<Rightarrow> ('v, 'f) value_view"
  va_duration :: "string \<Rightarrow> duration option"

text \<open>\<open>ParseDurationFromValue\<close>: a number is a count of seconds, and only a duration value may be negative.\<close>

definition ParseDurationFromValue :: "('v, 'f, 'z) value_api_scheme \<Rightarrow> 'v \<Rightarrow> string + duration" where
  "ParseDurationFromValue W val =
     (let F = va_float W
      in case va_view W val of
           VaNumber _ secs \<Rightarrow>
             if f_lt F secs (f_of_int F 0) then Inl ''duration must be positive''
             else Inr (f_to_int F (f_mul F secs (f_of_int F 1000000000)))
         | VaString s \<Rightarrow>
             (case va_duration W s of
                None \<Rightarrow> Inl ''invalid duration''
              | Some d \<Rightarrow> if d < 0 then Inl ''duration must be positive'' else Inr d)
         | VaDuration d \<Rightarrow> Inr d
         | _ \<Rightarrow> Inl ''duration must be a number, string, or duration value'')"

end
