(* ===== verification/Trigger_Runs.thy ===== *)
theory Trigger_Runs
  imports Values Complex_Main
begin

text \<open>
  What the triggers with a goroutine of their own share: runs of a labelled step relation, counting
  the labels of a run, the context their expressions see, and two interfaces. \<open>wakeable\<close> is the
  contract of a trigger that sleeps until a call wakes it, \<open>one_shot\<close> that of one that acts at most once
  for each waking call. The attributes are those of \<open>buildEvalContext\<close> in \<open>triggers/interval\<close> and
  \<open>triggers/at\<close>.
\<close>

section \<open>Runs\<close>

inductive lts_run :: "('s \<Rightarrow> 'l \<Rightarrow> 's \<Rightarrow> bool) \<Rightarrow> 's \<Rightarrow> 'l list \<Rightarrow> 's \<Rightarrow> bool"
  for step :: "'s \<Rightarrow> 'l \<Rightarrow> 's \<Rightarrow> bool" and s0 :: 's where
  start: "lts_run step s0 [] s0"
| snoc: "lts_run step s0 ls s \<Longrightarrow> step s l s' \<Longrightarrow> lts_run step s0 (ls @ [l]) s'"

lemma lts_run_inv:
  assumes "lts_run step s ls s'" and "I s" and "\<And>s l s'. step s l s' \<Longrightarrow> I s \<Longrightarrow> I s'"
  shows "I s'"
  using assms by (induction rule: lts_run.induct) auto

text \<open>An invariant that only runs without some labels keep.\<close>

lemma lts_run_inv_labels:
  assumes "lts_run step s ls s'" and "\<forall>l \<in> set ls. P l" and "I s"
    and "\<And>s l s'. step s l s' \<Longrightarrow> P l \<Longrightarrow> I s \<Longrightarrow> I s'"
  shows "I s'"
  using assms by (induction rule: lts_run.induct) auto

lemma lts_run_then: "lts_run step s0 ls s \<Longrightarrow> step s l s' \<Longrightarrow> ls' = ls @ [l] \<Longrightarrow> lts_run step s0 ls' s'"
  by (auto intro: lts_run.snoc)

lemma lts_run_append:
  "lts_run step s1 ms s2 \<Longrightarrow> lts_run step s0 ls s1 \<Longrightarrow> lts_run step s0 (ls @ ms) s2"
proof (induction rule: lts_run.induct)
  case (snoc ms s l s')
  then show ?case using lts_run.snoc by (metis append.assoc)
qed simp

section \<open>Counting\<close>

definition count_labels :: "('l \<Rightarrow> bool) \<Rightarrow> 'l list \<Rightarrow> nat" where
  "count_labels P ls = length (filter P ls)"

text \<open>How often \<open>P\<close> since the last \<open>Q\<close>.\<close>

definition count_since :: "('l \<Rightarrow> bool) \<Rightarrow> ('l \<Rightarrow> bool) \<Rightarrow> 'l list \<Rightarrow> nat" where
  "count_since P Q ls = count_labels P (takeWhile (\<lambda>l. \<not> Q l) (rev ls))"

lemma count_snoc [simp]:
  "count_labels P (ls @ [l]) = count_labels P ls + (if P l then 1 else 0)"
  "count_since P Q (ls @ [l]) = (if Q l then 0 else (if P l then 1 else 0) + count_since P Q ls)"
  "count_labels P [] = 0" "count_since P Q [] = 0"
  by (simp_all add: count_labels_def count_since_def)

section \<open>Interfaces\<close>

locale wakeable =
  fixes step :: "'s \<Rightarrow> 'l \<Rightarrow> 's \<Rightarrow> bool"
    and asleep :: "'s \<Rightarrow> bool"
    and wakes :: "'l \<Rightarrow> bool"
    and acts :: "'l \<Rightarrow> bool"
  assumes sleeps: "step s l s' \<Longrightarrow> asleep s \<Longrightarrow> \<not> wakes l \<Longrightarrow> asleep s' \<and> \<not> acts l"
begin

lemma asleep_until_woken:
  "lts_run step s ls s' \<Longrightarrow> asleep s \<Longrightarrow> \<forall>l \<in> set ls. \<not> wakes l \<Longrightarrow> asleep s' \<and> (\<forall>l \<in> set ls. \<not> acts l)"
proof (induction rule: lts_run.induct)
  case (snoc ls s l s')
  then show ?case using sleeps by auto
qed simp

end

locale one_shot =
  fixes step :: "'s \<Rightarrow> 'l \<Rightarrow> 's \<Rightarrow> bool"
    and sound :: "'s \<Rightarrow> bool"
    and pending :: "'s \<Rightarrow> nat"
    and wakes :: "'l \<Rightarrow> bool"
    and acts :: "'l \<Rightarrow> bool"
  assumes stays_sound: "step s l s' \<Longrightarrow> sound s \<Longrightarrow> sound s'"
    and spends: "step s l s' \<Longrightarrow> sound s \<Longrightarrow>
      (if acts l then 1 else 0) + pending s' \<le> pending s + (if wakes l then 1 else 0)"
begin

lemma actions_bounded:
  "lts_run step s ls s' \<Longrightarrow> sound s \<Longrightarrow>
     sound s' \<and> count_labels acts ls + pending s' \<le> pending s + count_labels wakes ls"
proof (induction rule: lts_run.induct)
  case (snoc ls s l s')
  then show ?case using stays_sound [OF snoc.hyps(2)] spends [OF snoc.hyps(2)] by auto
qed simp

end

section \<open>The context of an expression\<close>

text \<open>What the trigger tells about its last run; without a result, and without an error, null.\<close>

record 'v run_view =
  rv_runCount :: int
  rv_lastResult :: "'v option"
  rv_lastError :: "string option"

datatype 'v attribute = AText string | AInt int | AValue 'v | ANull

definition buildEvalContext :: "string \<Rightarrow> string \<Rightarrow> 'v run_view \<Rightarrow> (string \<times> 'v attribute) list" where
  "buildEvalContext kind name view =
     [(''trigger'', AText kind), (''name'', AText name), (''run_count'', AInt (rv_runCount view)),
      (''last_result'', case rv_lastResult view of None \<Rightarrow> ANull | Some v \<Rightarrow> AValue v),
      (''last_error'', case rv_lastError view of None \<Rightarrow> ANull | Some e \<Rightarrow> AText e)]"

type_synonym ('e, 'v) evaluator = "'e \<Rightarrow> (string \<times> 'v attribute) list \<Rightarrow> string + 'v"

text \<open>A condition counts when it evaluates to true.\<close>

definition view_true :: "('v, 'f, 'z) value_api_scheme \<Rightarrow> string + 'v \<Rightarrow> bool" where
  "view_true W r = (case r of Inr v \<Rightarrow> va_view W v = VaBool True | Inl _ \<Rightarrow> False)"

text \<open>A send that does not block into a channel of capacity one, and \<open>rand.Int63n\<close>.\<close>

definition try_send :: "'a \<Rightarrow> 'a option \<Rightarrow> 'a option" where
  "try_send x ch = (case ch of None \<Rightarrow> Some x | Some y \<Rightarrow> Some y)"

lemma try_send_full [simp]: "try_send x ch = None \<longleftrightarrow> False"
  by (simp add: try_send_def split: option.split)

definition below :: "(int \<Rightarrow> int) \<Rightarrow> bool" where
  "below rnd \<longleftrightarrow> (\<forall>n > 0. 0 \<le> rnd n \<and> rnd n < n)"

section \<open>Values for examples\<close>

text \<open>Reals for floats, and numbers for values.\<close>

definition reals :: "real float64" where
  "reals = \<lparr>f_of_int = of_int, f_add = (+), f_sub = (-), f_mul = (*), f_div = (/), f_pow = (powr),
     f_eq = (=), f_lt = (<), f_to_int = floor\<rparr>"

definition numbers :: "(int, real) value_api" where
  "numbers = \<lparr>va_float = reals, va_view = (\<lambda>n. VaNumber n (of_int n)), va_duration = (\<lambda>_. None)\<rparr>"

end
