(* ===== verification/Interval.thy ===== *)
theory Interval
  imports Trigger_Runs
begin

text \<open>
  The interval trigger (\<open>triggers/interval/interval.go\<close>): the fields its callers share with its
  goroutine under a lock, the channels of capacity one, and the goroutine, taken apart where the lock is
  free or an expression runs. Evaluating an expression may give any result and take any time, so calls of
  \<open>set\<close>, \<open>reset\<close> and \<open>stop\<close> may come between any two steps. When several channels of a \<open>select\<close> are
  ready, any of them may be taken.
\<close>

section \<open>State\<close>

record ('e, 'f) IntervalConfig =
  ic_name :: string
  ic_delay :: "'e option"
  ic_initialDelay :: "'e option"
  ic_errorDelay :: "'e option"
  ic_action :: 'e
  ic_stopWhen :: "'e option"
  ic_jitter :: 'f
  ic_repeat :: bool

text \<open>Where the goroutine is: before \<open>PostStart\<close>, at the head of its loop, with the snapshot taken, with
  the delay computed, waiting on the timer with its deadline, running the action, with the result
  recorded, in \<open>waitForRevival\<close>, or ended.\<close>

datatype 'v iv_phase =
    IvNotStarted | IvLoop | IvSnap "'v run_view" | IvDelay duration "'v run_view"
  | IvWaiting time "'v run_view" | IvRunning "'v run_view" | IvDone "'v run_view" | IvDormant | IvExited

record 'v IntervalTrigger =
  iv_runCount :: int
  iv_lastResult :: "'v option"
  iv_lastError :: "string option"
  iv_delayOverride :: "duration option"
  iv_setCh :: "duration option option"
  iv_resetCh :: "unit option"
  iv_stopped :: bool
  iv_phase :: "'v iv_phase"
  iv_clock :: time

definition iv_view :: "'v IntervalTrigger \<Rightarrow> 'v run_view" where
  "iv_view t = \<lparr>rv_runCount = iv_runCount t, rv_lastResult = iv_lastResult t, rv_lastError = iv_lastError t\<rparr>"

section \<open>Operations\<close>

definition Interval_Count :: "'v IntervalTrigger \<Rightarrow> int" where
  "Interval_Count t = iv_runCount t"

definition Interval_Get :: "'v \<Rightarrow> 'v IntervalTrigger \<Rightarrow> string + 'v" where
  "Interval_Get null t =
     (case iv_lastError t of
        Some e \<Rightarrow> Inl e
      | None \<Rightarrow> (case iv_lastResult t of None \<Rightarrow> Inr null | Some v \<Rightarrow> Inr v))"

text \<open>\<open>Set\<close> returns the override it has taken, which it answers as a text, or nothing for null.\<close>

definition Interval_Set ::
  "('v, 'f, 'z) value_api_scheme \<Rightarrow> ('e, 'f) IntervalConfig \<Rightarrow> 'v list \<Rightarrow> 'v IntervalTrigger \<Rightarrow>
     (string + duration option) \<times> 'v IntervalTrigger" where
  "Interval_Set W c args t =
     (case (case args of
              a # _ \<Rightarrow> (case ParseDurationFromValue W a of
                           Inl e \<Rightarrow> Inl (''invalid duration for set(): '' @ e)
                         | Inr d \<Rightarrow> Inr (Some d))
            | [] \<Rightarrow> if ic_delay c = None then Inl ''set() with no duration requires a configured delay''
                    else Inr None) of
        Inl e \<Rightarrow> (Inl e, t)
      | Inr override \<Rightarrow>
          (Inr override,
           t\<lparr>iv_delayOverride := override, iv_runCount := 0, iv_lastError := None,
             iv_setCh := try_send override (iv_setCh t)\<rparr>))"

definition Interval_Reset :: "'v IntervalTrigger \<Rightarrow> 'v IntervalTrigger" where
  "Interval_Reset t =
     t\<lparr>iv_delayOverride := None, iv_runCount := 0, iv_lastResult := None, iv_lastError := None,
       iv_resetCh := try_send () (iv_resetCh t)\<rparr>"

definition Interval_Stop :: "'v IntervalTrigger \<Rightarrow> 'v IntervalTrigger" where
  "Interval_Stop t = t\<lparr>iv_stopped := True\<rparr>"

text \<open>What \<open>Start\<close> leaves of a new trigger; \<open>PostStart\<close> starts the goroutine, whose first act is to
  sleep when no delay is configured.\<close>

definition Interval_Start :: "time \<Rightarrow> 'v IntervalTrigger" where
  "Interval_Start now0 =
     \<lparr>iv_runCount = 0, iv_lastResult = None, iv_lastError = None, iv_delayOverride = None, iv_setCh = None,
      iv_resetCh = None, iv_stopped = False, iv_phase = IvNotStarted, iv_clock = now0\<rparr>"

definition Interval_PostStart :: "('e, 'f) IntervalConfig \<Rightarrow> 'v IntervalTrigger \<Rightarrow> 'v IntervalTrigger" where
  "Interval_PostStart c t = t\<lparr>iv_phase := (if ic_delay c = None then IvDormant else IvLoop)\<rparr>"

section \<open>The delay\<close>

definition jitter_min :: "'f float64 \<Rightarrow> 'f \<Rightarrow> duration \<Rightarrow> duration" where
  "jitter_min F j dur =
     f_to_int F (f_mul F (f_of_int F dur) (f_sub F (f_of_int F 1) (f_div F j (f_of_int F 2))))"

definition jitter_max :: "'f float64 \<Rightarrow> 'f \<Rightarrow> duration \<Rightarrow> duration" where
  "jitter_max F j dur =
     f_to_int F (f_mul F (f_of_int F dur) (f_add F (f_of_int F 1) (f_div F j (f_of_int F 2))))"

text \<open>\<open>rnd n\<close> is the number \<open>rand.Int63n\<close> draws below \<open>n\<close>.\<close>

definition applyJitter :: "'f float64 \<Rightarrow> 'f \<Rightarrow> (int \<Rightarrow> int) \<Rightarrow> duration \<Rightarrow> duration" where
  "applyJitter F j rnd dur =
     (if f_eq F j (f_of_int F 0) \<or> dur = 0 then dur
      else let spread = wrap64 (jitter_max F j dur - jitter_min F j dur)
           in if 0 < spread then wrap64 (jitter_min F j dur + rnd spread) else dur)"

definition pick_delay :: "('e, 'f) IntervalConfig \<Rightarrow> 'v IntervalTrigger \<Rightarrow> 'e option" where
  "pick_delay c t =
     (if iv_runCount t = 0 \<and> ic_initialDelay c \<noteq> None then ic_initialDelay c
      else if iv_lastError t \<noteq> None \<and> ic_errorDelay c \<noteq> None then ic_errorDelay c
      else ic_delay c)"

definition computeDelay ::
  "('v, 'f, 'z) value_api_scheme \<Rightarrow> ('e, 'f) IntervalConfig \<Rightarrow> (int \<Rightarrow> int) \<Rightarrow> ('e, 'v) evaluator \<Rightarrow>
     (string \<times> 'v attribute) list \<Rightarrow> 'v IntervalTrigger \<Rightarrow> string + duration" where
  "computeDelay W c rnd ev ctx t =
     (case iv_delayOverride t of
        Some d \<Rightarrow> Inr (applyJitter (va_float W) (ic_jitter c) rnd d)
      | None \<Rightarrow>
          (case pick_delay c t of
             None \<Rightarrow> Inl ''no delay configured and no override set''
           | Some expr \<Rightarrow>
               (case ev expr ctx of
                  Inl e \<Rightarrow> Inl (''error evaluating delay: '' @ e)
                | Inr v \<Rightarrow>
                    (case ParseDurationFromValue W v of
                       Inl e \<Rightarrow> Inl (''invalid delay value: '' @ e)
                     | Inr d \<Rightarrow> Inr (applyJitter (va_float W) (ic_jitter c) rnd d)))))"

section \<open>Stopping\<close>

text \<open>\<open>ctx_ok\<close> says whether the context could be built.\<close>

definition shouldStop ::
  "('v, 'f, 'z) value_api_scheme \<Rightarrow> ('e, 'f) IntervalConfig \<Rightarrow> bool \<Rightarrow> ('e, 'v) evaluator \<Rightarrow> 'v run_view \<Rightarrow> bool" where
  "shouldStop W c ctx_ok ev view =
     (if \<not> ic_repeat c then True
      else case ic_stopWhen c of
             None \<Rightarrow> False
           | Some e \<Rightarrow> ctx_ok \<and> view_true W (ev e (buildEvalContext ''interval'' (ic_name c) view)))"

definition shouldRemainStopped ::
  "('v, 'f, 'z) value_api_scheme \<Rightarrow> ('e, 'f) IntervalConfig \<Rightarrow> bool \<Rightarrow> ('e, 'v) evaluator \<Rightarrow>
     'v IntervalTrigger \<Rightarrow> bool" where
  "shouldRemainStopped W c ctx_ok ev t =
     (if \<not> ic_repeat c then False
      else case ic_stopWhen c of
             None \<Rightarrow> False
           | Some e \<Rightarrow> ctx_ok \<and> view_true W (ev e (buildEvalContext ''interval'' (ic_name c) (iv_view t))))"

text \<open>The critical section after the action, and the values it hands to \<open>shouldStop\<close>.\<close>

definition record_run :: "string + 'v \<Rightarrow> 'v IntervalTrigger \<Rightarrow> 'v IntervalTrigger" where
  "record_run r t =
     (let t' = t\<lparr>iv_runCount := iv_runCount t + 1,
                 iv_lastResult := (case r of Inl _ \<Rightarrow> None | Inr v \<Rightarrow> Some v),
                 iv_lastError := (case r of Inl e \<Rightarrow> Some e | Inr _ \<Rightarrow> None)\<rparr>
      in t'\<lparr>iv_phase := IvDone (iv_view t')\<rparr>)"

section \<open>Block processing\<close>

record ('e, 'f) triggerIntervalBody =
  tb_Delay :: "'e option"
  tb_InitialDelay :: "'e option"
  tb_ErrorDelay :: "'e option"
  tb_Jitter :: "'f option"
  tb_Repeat :: "bool option"
  tb_StopWhen :: "'e option"
  tb_Action :: 'e

text \<open>\<open>decoded\<close> is the result of HCL's body decoder; the second result is the trigger registered under
  the block's name, if any is.\<close>

definition processIntervalTrigger ::
  "'f float64 \<Rightarrow> string \<Rightarrow> diag list \<times> ('e, 'f) triggerIntervalBody \<Rightarrow>
     diag list \<times> ('e, 'f) IntervalConfig option" where
  "processIntervalTrigger F name decoded =
     (let (ds, body) = decoded in
      if HasErrors ds then (ds, None)
      else
        let ds1 = (if tb_Delay body \<noteq> None then ds
                   else ds
                     @ (if tb_InitialDelay body \<noteq> None then [DiagError ''initial_delay requires delay''] else [])
                     @ (if tb_ErrorDelay body \<noteq> None then [DiagError ''error_delay requires delay''] else []))
        in if HasErrors ds1 then (ds1, None)
           else if (case tb_Jitter body of
                      None \<Rightarrow> False
                    | Some j \<Rightarrow> f_lt F j (f_of_int F 0) \<or> f_lt F (f_of_int F 1) j)
           then ([DiagError ''Invalid jitter value''], None)
           else (ds1, Some
             \<lparr>ic_name = name, ic_delay = tb_Delay body, ic_initialDelay = tb_InitialDelay body,
              ic_errorDelay = tb_ErrorDelay body, ic_action = tb_Action body, ic_stopWhen = tb_StopWhen body,
              ic_jitter = (case tb_Jitter body of None \<Rightarrow> f_of_int F 0 | Some j \<Rightarrow> j),
              ic_repeat = (case tb_Repeat body of None \<Rightarrow> True | Some b \<Rightarrow> b)\<rparr>))"

section \<open>Steps\<close>

datatype 'v iv_label =
    IvSet bool | IvReset | IvPass time | IvGo | IvTau | IvFail | IvFire | IvComplete "string + 'v"
  | IvTake | IvAsk | IvQuit

text \<open>The label of \<open>set\<close> tells whether it was accepted, that of a completed action its outcome. \<open>IvFail\<close> is an
  error that ends the goroutine.\<close>

inductive iv_step ::
  "('v, 'f, 'z) value_api_scheme \<Rightarrow> ('e, 'f) IntervalConfig \<Rightarrow>
     'v IntervalTrigger \<Rightarrow> 'v iv_label \<Rightarrow> 'v IntervalTrigger \<Rightarrow> bool"
  for W :: "('v, 'f, 'z) value_api_scheme" and c :: "('e, 'f) IntervalConfig" where
  set_ok: "Interval_Set W c args t = (Inr r, t') \<Longrightarrow> iv_step W c t (IvSet True) t'"
| set_error: "Interval_Set W c args t = (Inl e, t') \<Longrightarrow> iv_step W c t (IvSet False) t'"
| reset: "iv_step W c t IvReset (Interval_Reset t)"
| pass: "iv_clock t \<le> u \<Longrightarrow> iv_step W c t (IvPass u) (t\<lparr>iv_clock := u\<rparr>)"
| go: "iv_phase t = IvNotStarted \<Longrightarrow> iv_step W c t IvGo (Interval_PostStart c t)"
| snapshot: "iv_phase t = IvLoop \<Longrightarrow> iv_step W c t IvTau (t\<lparr>iv_phase := IvSnap (iv_view t)\<rparr>)"
| no_context: "iv_phase t = IvSnap v \<Longrightarrow> iv_step W c t IvFail (t\<lparr>iv_phase := IvExited\<rparr>)"
| no_delay: "iv_phase t = IvSnap v \<Longrightarrow>
    computeDelay W c rnd ev (buildEvalContext ''interval'' (ic_name c) v) t = Inl e \<Longrightarrow> below rnd \<Longrightarrow>
    iv_step W c t IvFail (t\<lparr>iv_phase := IvExited\<rparr>)"
| delay: "iv_phase t = IvSnap v \<Longrightarrow>
    computeDelay W c rnd ev (buildEvalContext ''interval'' (ic_name c) v) t = Inr d \<Longrightarrow> below rnd \<Longrightarrow>
    iv_step W c t IvTau (t\<lparr>iv_phase := IvDelay d v\<rparr>)"
| arm: "iv_phase t = IvDelay d v \<Longrightarrow> iv_step W c t IvTau (t\<lparr>iv_phase := IvWaiting (iv_clock t + d) v\<rparr>)"
| fire: "iv_phase t = IvWaiting dl v \<Longrightarrow> dl \<le> iv_clock t \<Longrightarrow>
    iv_step W c t IvFire (t\<lparr>iv_phase := IvRunning v\<rparr>)"
| take_set: "iv_phase t = IvWaiting dl v \<Longrightarrow> iv_setCh t \<noteq> None \<Longrightarrow>
    iv_step W c t IvTake (t\<lparr>iv_setCh := None, iv_phase := IvLoop\<rparr>)"
| take_reset: "iv_phase t = IvWaiting dl v \<Longrightarrow> iv_resetCh t \<noteq> None \<Longrightarrow>
    iv_step W c t IvTake (t\<lparr>iv_resetCh := None, iv_phase := IvDormant\<rparr>)"
| no_action_context: "iv_phase t = IvRunning v \<Longrightarrow> iv_step W c t IvFail (t\<lparr>iv_phase := IvExited\<rparr>)"
| complete: "iv_phase t = IvRunning v \<Longrightarrow>
    ev (ic_action c) (buildEvalContext ''interval'' (ic_name c) v) = r \<Longrightarrow>
    iv_step W c t (IvComplete r) (record_run r t)"
| go_on: "iv_phase t = IvDone v \<Longrightarrow> \<not> shouldStop W c ctx_ok ev v \<Longrightarrow> iv_step W c t IvTau (t\<lparr>iv_phase := IvLoop\<rparr>)"
| rest: "iv_phase t = IvDone v \<Longrightarrow> shouldStop W c ctx_ok ev v \<Longrightarrow> iv_step W c t IvTau (t\<lparr>iv_phase := IvDormant\<rparr>)"
| revive: "iv_phase t = IvDormant \<Longrightarrow> iv_setCh t \<noteq> None \<Longrightarrow>
    \<not> shouldRemainStopped W c ctx_ok ev (t\<lparr>iv_setCh := None\<rparr>) \<Longrightarrow>
    iv_step W c t IvTake (t\<lparr>iv_setCh := None, iv_phase := IvLoop\<rparr>)"
| remain: "iv_phase t = IvDormant \<Longrightarrow> iv_setCh t \<noteq> None \<Longrightarrow>
    shouldRemainStopped W c ctx_ok ev (t\<lparr>iv_setCh := None\<rparr>) \<Longrightarrow>
    iv_step W c t IvTake (t\<lparr>iv_setCh := None\<rparr>)"
| drain: "iv_phase t = IvDormant \<Longrightarrow> iv_resetCh t \<noteq> None \<Longrightarrow> iv_step W c t IvTake (t\<lparr>iv_resetCh := None\<rparr>)"
| ask: "iv_step W c t IvAsk (Interval_Stop t)"
| quit: "iv_stopped t \<Longrightarrow> iv_phase t = IvDormant \<or> (\<exists>dl v. iv_phase t = IvWaiting dl v) \<Longrightarrow>
    iv_step W c t IvQuit (t\<lparr>iv_phase := IvExited\<rparr>)"

inductive_cases iv_fireE: "iv_step W c t IvFire t'"

lemmas iv_ops = Interval_Set_def Interval_Reset_def Interval_Stop_def Interval_PostStart_def record_run_def Let_def

section \<open>Sleeping\<close>

fun iv_wipes :: "'v iv_label \<Rightarrow> bool" where
  "iv_wipes (IvSet ok) = ok"
| "iv_wipes IvReset = True"
| "iv_wipes _ = False"

fun iv_wakes :: "'v iv_label \<Rightarrow> bool" where
  "iv_wakes (IvSet ok) = ok"
| "iv_wakes _ = False"

fun iv_fires :: "'v iv_label \<Rightarrow> bool" where
  "iv_fires IvFire = True"
| "iv_fires _ = False"

definition iv_asleep :: "'v IntervalTrigger \<Rightarrow> bool" where
  "iv_asleep t \<longleftrightarrow> iv_phase t = IvExited \<or> iv_phase t = IvDormant \<and> iv_setCh t = None"

interpretation iv_sleep: wakeable "iv_step W c" iv_asleep iv_wakes iv_fires for W c
proof
  fix t l t'
  assume "iv_step W c t l t'" "iv_asleep t" "\<not> iv_wakes l"
  then show "iv_asleep t' \<and> \<not> iv_fires l"
    by (cases rule: iv_step.cases) (auto simp: iv_asleep_def iv_ops split: sum.splits list.splits if_splits)
qed

text \<open>What may still lead to an action: an armed loop and a call of \<open>set\<close> not yet received.\<close>

definition iv_pending :: "('e, 'f) IntervalConfig \<Rightarrow> 'v IntervalTrigger \<Rightarrow> nat" where
  "iv_pending c t =
     (case iv_phase t of
        IvNotStarted \<Rightarrow> (if ic_delay c = None then 0 else 1)
      | IvLoop \<Rightarrow> 1 | IvSnap _ \<Rightarrow> 1 | IvDelay _ _ \<Rightarrow> 1 | IvWaiting _ _ \<Rightarrow> 1 | _ \<Rightarrow> 0)
     + (if iv_setCh t = None then 0 else 1)"

lemma pending_start: "iv_pending c (Interval_Start n) = (if ic_delay c = None then 0 else 1)"
  by (simp add: iv_pending_def Interval_Start_def)

definition once_only :: "('e, 'f) IntervalConfig \<Rightarrow> ('e, 'f) IntervalConfig" where
  "once_only c = c\<lparr>ic_repeat := False\<rparr>"

interpretation iv_once: one_shot "iv_step W (once_only c)" "\<lambda>_. True" "iv_pending c" iv_wakes iv_fires for W c
proof (rule one_shot.intro)
  fix t l t'
  assume "iv_step W (once_only c) t l t'"
  then show "(if iv_fires l then 1 else 0) + iv_pending c t' \<le> iv_pending c t + (if iv_wakes l then 1 else 0)"
    by (cases rule: iv_step.cases)
      (auto simp: iv_pending_def once_only_def iv_ops shouldStop_def
        split: sum.splits list.splits if_splits iv_phase.splits)
qed

section \<open>History\<close>

fun iv_completes :: "'v iv_label \<Rightarrow> bool" where
  "iv_completes (IvComplete _) = True"
| "iv_completes _ = False"

text \<open>The answer of \<open>get\<close> as the history tells it, latest label first: the outcome of the last action;
  \<open>reset\<close> forgets it, \<open>set\<close> forgets an error.\<close>

fun iv_answer :: "'v \<Rightarrow> 'v iv_label list \<Rightarrow> string + 'v" where
  "iv_answer null [] = Inr null"
| "iv_answer null (IvComplete r # ls) = r"
| "iv_answer null (IvReset # ls) = Inr null"
| "iv_answer null (IvSet True # ls) = (case iv_answer null ls of Inl _ \<Rightarrow> Inr null | Inr v \<Rightarrow> Inr v)"
| "iv_answer null (_ # ls) = iv_answer null ls"

lemma iv_history:
  "lts_run (iv_step W c) (Interval_Start n) ls t \<Longrightarrow>
     Interval_Count t = int (count_since iv_completes iv_wipes ls) \<and>
     (\<forall>e. iv_lastError t = Some e \<longrightarrow> iv_lastResult t = None) \<and>
     Interval_Get null t = iv_answer null (rev ls)"
proof (induction rule: lts_run.induct)
  case start
  then show ?case by (simp add: Interval_Start_def Interval_Count_def Interval_Get_def)
next
  case (snoc ls t l t')
  from snoc.hyps(2) snoc.IH show ?case
    by (cases rule: iv_step.cases)
      (auto simp: iv_ops Interval_Count_def Interval_Get_def split: sum.splits list.splits if_splits option.splits)
qed

section \<open>The wait after \<open>set\<close>\<close>

definition jitter_low :: "'f float64 \<Rightarrow> 'f \<Rightarrow> duration \<Rightarrow> duration" where
  "jitter_low F j dur = (if f_eq F j (f_of_int F 0) \<or> dur = 0 then dur else min dur (jitter_min F j dur))"

text \<open>The two ends of the range are durations, in this order.\<close>

definition jitter_range :: "'f float64 \<Rightarrow> 'f \<Rightarrow> duration \<Rightarrow> bool" where
  "jitter_range F j dur \<longleftrightarrow>
     int64 (jitter_min F j dur) \<and> int64 (jitter_max F j dur) \<and> jitter_min F j dur \<le> jitter_max F j dur"

lemma spread_exact:
  assumes "int64 a" "int64 b" "a \<le> b" "0 < wrap64 (b - a)"
  shows "wrap64 (b - a) = b - a"
proof (rule wrap64_id, rule ccontr)
  assume "\<not> int64 (b - a)"
  then have "2 ^ 63 \<le> b - a" "b - a < 2 ^ 64" using assms by (auto simp: int64_def)
  have "(b - a + 2 ^ 63) mod 2 ^ 64 = (b - a + 2 ^ 63 - 2 ^ 64) mod 2 ^ 64"
    by (rule minus_mod_self2 [symmetric])
  also have "\<dots> = b - a + 2 ^ 63 - 2 ^ 64"
    using \<open>2 ^ 63 \<le> b - a\<close> \<open>b - a < 2 ^ 64\<close> by (intro mod_pos_pos_trivial) auto
  finally have "wrap64 (b - a) = b - a - 2 ^ 64" by (simp add: wrap64_def)
  then show False using assms(4) \<open>b - a < 2 ^ 64\<close> by simp
qed

lemma applyJitter_bounds:
  assumes "below rnd" and "jitter_range F j dur"
  shows "jitter_low F j dur \<le> applyJitter F j rnd dur \<and>
         applyJitter F j rnd dur \<le> max dur (jitter_max F j dur)"
proof (cases "0 < wrap64 (jitter_max F j dur - jitter_min F j dur)")
  case True
  let ?mn = "jitter_min F j dur" and ?mx = "jitter_max F j dur"
  have spread: "wrap64 (?mx - ?mn) = ?mx - ?mn"
    using True assms(2) by (intro spread_exact) (auto simp: jitter_range_def)
  have r: "0 \<le> rnd (?mx - ?mn)" "rnd (?mx - ?mn) < ?mx - ?mn"
    using True assms(1) by (auto simp: spread below_def)
  then have "wrap64 (?mn + rnd (?mx - ?mn)) = ?mn + rnd (?mx - ?mn)"
    using assms(2) by (intro wrap64_id) (auto simp: jitter_range_def int64_def)
  then show ?thesis
    using r by (auto simp: applyJitter_def jitter_low_def spread Let_def)
qed (auto simp: applyJitter_def jitter_low_def Let_def)

text \<open>After a \<open>set\<close> to \<open>d\<close> at time \<open>s\<close>, and once it has been received, every delay is one for \<open>d\<close>.\<close>

definition iv_timed :: "time \<Rightarrow> duration \<Rightarrow> duration \<Rightarrow> 'v IntervalTrigger \<Rightarrow> bool" where
  "iv_timed s d low t \<longleftrightarrow> iv_delayOverride t = Some d \<and> s \<le> iv_clock t \<and>
     (iv_setCh t = None \<longrightarrow>
        (case iv_phase t of
           IvDelay dd _ \<Rightarrow> low \<le> dd
         | IvWaiting dl _ \<Rightarrow> s + low \<le> dl
         | _ \<Rightarrow> True))"

lemma iv_timed_step:
  assumes "iv_step W c t l t'" and "\<not> iv_wipes l" and "iv_timed s d low t"
    and "jitter_range (va_float W) (ic_jitter c) d" and "low = jitter_low (va_float W) (ic_jitter c) d"
  shows "iv_timed s d low t'"
  using assms(1)
proof (cases rule: iv_step.cases)
  case (delay v rnd ev dd)
  then show ?thesis
    using assms(3-) applyJitter_bounds [of rnd "va_float W" "ic_jitter c" d]
    by (auto simp: iv_timed_def computeDelay_def split: option.splits)
qed (use assms in \<open>auto simp: iv_timed_def iv_ops split: sum.splits list.splits if_splits\<close>)

lemma iv_timed_set:
  "Interval_Set W c args t = (Inr (Some d), t1) \<Longrightarrow> iv_timed (iv_clock t) d low t1"
  by (auto simp: Interval_Set_def iv_timed_def split: sum.splits list.splits if_splits)

section \<open>Ending\<close>

text \<open>The places from which, without a delay to compute, the goroutine can only end.\<close>

definition iv_doomed :: "'v IntervalTrigger \<Rightarrow> bool" where
  "iv_doomed t \<longleftrightarrow> iv_delayOverride t = None \<and>
     (case iv_phase t of
        IvRunning _ \<Rightarrow> True | IvDone _ \<Rightarrow> True | IvLoop \<Rightarrow> True | IvSnap _ \<Rightarrow> True | IvExited \<Rightarrow> True
      | _ \<Rightarrow> False)"

lemma process_delays:
  "processIntervalTrigger F name decoded = (ds, Some c) \<Longrightarrow> ic_delay c = None \<Longrightarrow>
     ic_initialDelay c = None \<and> ic_errorDelay c = None"
  by (auto simp: processIntervalTrigger_def Let_def split: prod.splits if_splits option.splits)

lemma iv_doomed_step:
  assumes "iv_step W c t l t'" and "iv_doomed t" and "\<not> iv_wakes l"
    and "ic_delay c = None" "ic_initialDelay c = None" "ic_errorDelay c = None"
    and "ic_repeat c" "ic_stopWhen c = None"
  shows "iv_doomed t'"
  using assms
  by (cases rule: iv_step.cases)
    (auto simp: iv_doomed_def iv_ops computeDelay_def pick_delay_def shouldStop_def
      split: sum.splits list.splits if_splits)

section \<open>Examples\<close>

text \<open>A trigger without a delay whose jitter is one half.\<close>

definition example_interval :: "bool \<Rightarrow> (nat, real) IntervalConfig" where
  "example_interval rep =
     \<lparr>ic_name = ''poll'', ic_delay = None, ic_initialDelay = None, ic_errorDelay = None, ic_action = 0,
      ic_stopWhen = None, ic_jitter = 1 / 2, ic_repeat = rep\<rparr>"

definition example_body :: "(nat, real) triggerIntervalBody" where
  "example_body = \<lparr>tb_Delay = None, tb_InitialDelay = None, tb_ErrorDelay = None, tb_Jitter = Some (1 / 2),
     tb_Repeat = None, tb_StopWhen = None, tb_Action = 0\<rparr>"

lemma example_processed: "processIntervalTrigger reals ''poll'' ([], example_body) = ([], Some (example_interval True))"
  by (simp add: processIntervalTrigger_def example_body_def example_interval_def reals_def)

text \<open>The state by run count, last result, override, \<open>setCh\<close>, phase and clock.\<close>

definition iv_at ::
  "int \<Rightarrow> int option \<Rightarrow> duration option \<Rightarrow> duration option option \<Rightarrow> int iv_phase \<Rightarrow> time \<Rightarrow> int IntervalTrigger" where
  "iv_at n res ov ch ph now0 =
     \<lparr>iv_runCount = n, iv_lastResult = res, iv_lastError = None, iv_delayOverride = ov, iv_setCh = ch,
      iv_resetCh = None, iv_stopped = False, iv_phase = ph, iv_clock = now0\<rparr>"

abbreviation fresh :: "int run_view" where
  "fresh \<equiv> \<lparr>rv_runCount = 0, rv_lastResult = None, rv_lastError = None\<rparr>"

lemma example_jitter:
  "jitter_min reals (1 / 2) 1000000000 = 750000000" "jitter_max reals (1 / 2) 1000000000 = 1250000000"
  "applyJitter reals (1 / 2) (\<lambda>_. 0) 1000000000 = 750000000"
  by (simp_all add: jitter_min_def jitter_max_def applyJitter_def reals_def wrap64_def)

lemma example_set:
  "Interval_Set numbers (example_interval rep) [1] (iv_at 0 None None None IvDormant 0) =
     (Inr (Some 1000000000), iv_at 0 None (Some 1000000000) (Some (Some 1000000000)) IvDormant 0)"
  by (simp add: Interval_Set_def ParseDurationFromValue_def numbers_def reals_def iv_at_def try_send_def)

text \<open>From the call of \<open>set\<close> to the timer: the shortest delay is drawn, and the goroutine is late.\<close>

definition wait_labels :: "int iv_label list" where
  "wait_labels = [IvTake, IvTau, IvTau, IvTau, IvPass 1000000000]"

lemma example_wait:
  "lts_run (iv_step numbers (example_interval rep))
     (iv_at 0 None (Some 1000000000) (Some (Some 1000000000)) IvDormant 0) wait_labels
     (iv_at 0 None (Some 1000000000) None (IvWaiting 750000000 fresh) 1000000000)"
proof -
  let ?c = "example_interval rep" and ?d = "1000000000 :: int"
  let ?s = "iv_at 0 None (Some ?d)" and ?run = "lts_run (iv_step numbers (example_interval rep))"
  note defs = iv_at_def shouldRemainStopped_def example_interval_def iv_view_def
  have "?run (?s (Some (Some ?d)) IvDormant 0) [IvTake] (?s None IvLoop 0)"
    by (rule lts_run_then [OF lts_run.start])
      (use iv_step.revive [of "?s (Some (Some ?d)) IvDormant 0" numbers ?c] in \<open>auto simp: defs\<close>)
  then have "?run (?s (Some (Some ?d)) IvDormant 0) [IvTake, IvTau] (?s None (IvSnap fresh) 0)"
    by (rule lts_run_then) (use iv_step.snapshot [of "?s None IvLoop 0" numbers ?c] in \<open>auto simp: defs\<close>)
  then have "?run (?s (Some (Some ?d)) IvDormant 0) [IvTake, IvTau, IvTau] (?s None (IvDelay 750000000 fresh) 0)"
    by (rule lts_run_then)
      (use iv_step.delay [of "?s None (IvSnap fresh) 0" fresh numbers ?c "\<lambda>_. 0" "\<lambda>_ _. Inl []" 750000000] example_jitter
        in \<open>auto simp: defs computeDelay_def numbers_def below_def\<close>)
  then have "?run (?s (Some (Some ?d)) IvDormant 0) [IvTake, IvTau, IvTau, IvTau]
      (?s None (IvWaiting 750000000 fresh) 0)"
    by (rule lts_run_then)
      (use iv_step.arm [of "?s None (IvDelay 750000000 fresh) 0" _ _ numbers ?c] in \<open>auto simp: defs\<close>)
  then show ?thesis
    by (rule lts_run_then)
      (use iv_step.pass [of "?s None (IvWaiting 750000000 fresh) 0" ?d numbers ?c] in \<open>auto simp: defs wait_labels_def\<close>)
qed

lemma example_fire:
  "iv_step numbers (example_interval rep) (iv_at 0 None (Some 1000000000) None (IvWaiting 750000000 fresh) 1000000000)
     IvFire (iv_at 0 None (Some 1000000000) None (IvRunning fresh) 1000000000)"
  using iv_step.fire [of "iv_at 0 None (Some 1000000000) None (IvWaiting 750000000 fresh) 1000000000"
      750000000 fresh numbers "example_interval rep"]
  by (simp add: iv_at_def)

definition whole_labels :: "int iv_label list" where
  "whole_labels = [IvGo, IvSet True] @ wait_labels @ [IvFire] @ [IvComplete (Inr 5)]"

lemma example_whole:
  "lts_run (iv_step numbers (example_interval rep)) (Interval_Start 0) whole_labels
     (iv_at 1 (Some 5) (Some 1000000000) None
        (IvDone \<lparr>rv_runCount = 1, rv_lastResult = Some 5, rv_lastError = None\<rparr>) 1000000000)"
proof -
  let ?c = "example_interval rep" and ?run = "lts_run (iv_step numbers (example_interval rep)) (Interval_Start 0)"
  have "?run [IvGo] (iv_at 0 None None None IvDormant 0)"
    by (rule lts_run_then [OF lts_run.start])
      (use iv_step.go [of "Interval_Start 0" numbers ?c] in
        \<open>auto simp: Interval_Start_def Interval_PostStart_def iv_at_def example_interval_def\<close>)
  then have "?run [IvGo, IvSet True] (iv_at 0 None (Some 1000000000) (Some (Some 1000000000)) IvDormant 0)"
    by (rule lts_run_then) (use iv_step.set_ok [OF example_set] in auto)
  then have "?run ([IvGo, IvSet True] @ wait_labels)
      (iv_at 0 None (Some 1000000000) None (IvWaiting 750000000 fresh) 1000000000)"
    by (rule lts_run_append [OF example_wait])
  then have "?run (([IvGo, IvSet True] @ wait_labels) @ [IvFire])
      (iv_at 0 None (Some 1000000000) None (IvRunning fresh) 1000000000)"
    by (rule lts_run.snoc) (rule example_fire)
  then show ?thesis
    by (rule lts_run_then)
      (use iv_step.complete [of "iv_at 0 None (Some 1000000000) None (IvRunning fresh) 1000000000" fresh
           "\<lambda>_ _. Inr 5" ?c "Inr 5" numbers]
        in \<open>auto simp: iv_at_def record_run_def iv_view_def whole_labels_def\<close>)
qed

text \<open>The run of a trigger reset while its action runs.\<close>

lemma example_end:
  "lts_run (iv_step numbers (example_interval True))
     (Interval_Reset (iv_at 0 None (Some 1000000000) None (IvRunning fresh) 1000000000))
     [IvComplete (Inr 5), IvTau, IvTau, IvFail]
     ((iv_at 1 (Some 5) None None IvExited 1000000000)\<lparr>iv_resetCh := Some ()\<rparr>)"
proof -
  let ?c = "example_interval True" and ?one = "\<lparr>rv_runCount = 1, rv_lastResult = Some 5, rv_lastError = None\<rparr>"
  let ?t = "Interval_Reset (iv_at 0 None (Some 1000000000) None (IvRunning fresh) 1000000000)"
  let ?s = "\<lambda>ph. (iv_at 1 (Some 5) None None ph 1000000000)\<lparr>iv_resetCh := Some ()\<rparr>"
  let ?run = "lts_run (iv_step numbers (example_interval True)) ?t"
  note defs = iv_at_def Interval_Reset_def record_run_def iv_view_def example_interval_def try_send_def
  have "?run [IvComplete (Inr 5)] (?s (IvDone ?one))"
    by (rule lts_run_then [OF lts_run.start])
      (use iv_step.complete [of ?t fresh "\<lambda>_ _. Inr 5" ?c "Inr 5" numbers] in \<open>auto simp: defs\<close>)
  then have "?run [IvComplete (Inr 5), IvTau] (?s IvLoop)"
    by (rule lts_run_then)
      (use iv_step.go_on [of "?s (IvDone ?one)" ?one numbers ?c True "\<lambda>_ _. Inl []"] in \<open>auto simp: defs shouldStop_def\<close>)
  then have "?run [IvComplete (Inr 5), IvTau, IvTau] (?s (IvSnap ?one))"
    by (rule lts_run_then) (use iv_step.snapshot [of "?s IvLoop" numbers ?c] in \<open>auto simp: defs\<close>)
  then show ?thesis
    by (rule lts_run_then)
      (use iv_step.no_delay [of "?s (IvSnap ?one)" ?one numbers ?c "\<lambda>_. 0" "\<lambda>_ _. Inl []"] in
        \<open>auto simp: defs computeDelay_def pick_delay_def below_def\<close>)
qed

section \<open>Properties\<close>

text \<open>A trigger with \<open>repeat = false\<close> acts at most once for every accepted call of \<open>set\<close>, and once more when a
  delay is configured.\<close>

theorem interval_one_shot:
  assumes "lts_run (iv_step W c) (Interval_Start n) ls t" and "\<not> ic_repeat c"
  shows "count_labels iv_fires ls \<le> count_labels iv_wakes ls + (if ic_delay c = None then 0 else 1)"
proof -
  have "once_only c = c" using assms(2) by (simp add: once_only_def)
  then show ?thesis using iv_once.actions_bounded [of W c "Interval_Start n" ls t] assms(1)
    by (auto simp: pending_start split: if_splits)
qed

theorem interval_one_shot_witness:
  "count_labels iv_fires whole_labels \<le> count_labels iv_wakes whole_labels + 0"
  using interval_one_shot [OF example_whole [of False]] by (simp add: example_interval_def)

text \<open>A received \<open>reset\<close> keeps: when the goroutine has taken it and no \<open>set\<close> is waiting, the trigger does not act
  before a \<open>set\<close> is accepted, whatever else happens.\<close>

theorem interval_reset_keeps:
  assumes "iv_step W c t IvTake t1" and "iv_resetCh t \<noteq> iv_resetCh t1" and "iv_setCh t = None"
    and "lts_run (iv_step W c) t1 ls t2" and "\<forall>l \<in> set ls. \<not> iv_wakes l"
  shows "\<forall>l \<in> set ls. \<not> iv_fires l"
proof -
  have "iv_asleep t1"
    using assms(1-3) by (cases rule: iv_step.cases) (auto simp: iv_asleep_def)
  then show ?thesis using iv_sleep.asleep_until_woken [OF assms(4)] assms(5) by blast
qed

theorem interval_reset_keeps_witness:
  "\<forall>l \<in> set [IvPass 9]. \<not> iv_fires (l :: int iv_label)"
proof -
  let ?c = "example_interval True"
  let ?t = "(iv_at 0 None None None (IvWaiting 8 fresh) 5)\<lparr>iv_resetCh := Some ()\<rparr>"
  have taken: "iv_step numbers ?c ?t IvTake (?t\<lparr>iv_resetCh := None, iv_phase := IvDormant\<rparr>)"
    by (rule iv_step.take_reset) (simp_all add: iv_at_def)
  have passed: "lts_run (iv_step numbers ?c) (?t\<lparr>iv_resetCh := None, iv_phase := IvDormant\<rparr>) [IvPass 9]
      (?t\<lparr>iv_resetCh := None, iv_phase := IvDormant, iv_clock := 9\<rparr>)"
    by (rule lts_run_then [OF lts_run.start])
      (use iv_step.pass [of "?t\<lparr>iv_resetCh := None, iv_phase := IvDormant\<rparr>" 9 numbers ?c] in \<open>auto simp: iv_at_def\<close>)
  show ?thesis using interval_reset_keeps [OF taken _ _ passed] by (simp add: iv_at_def)
qed

text \<open>What \<open>count\<close> and \<open>get\<close> answer is what the history says: the actions completed since the last accepted
  \<open>set\<close> or \<open>reset\<close>, and the outcome of the last action, forgotten by \<open>reset\<close>, and by \<open>set\<close> when it
  is an error.\<close>

theorem interval_history:
  assumes "lts_run (iv_step W c) (Interval_Start n) ls t"
  shows "Interval_Count t = int (count_since iv_completes iv_wipes ls) \<and>
         Interval_Get null t = iv_answer null (rev ls)"
  using iv_history [OF assms] by blast

theorem interval_history_witness:
  "1 = int (count_since iv_completes iv_wipes whole_labels) \<and> Inr 5 = iv_answer 0 (rev whole_labels)"
  using interval_history [OF example_whole [of False], of 0]
  by (simp add: Interval_Count_def Interval_Get_def iv_at_def)

text \<open>C30: After an accepted \<open>set\<close> to a duration, and once the goroutine has received it, the action does not begin
  before that duration, less its jitter, has passed.\<close>

theorem interval_not_early:
  assumes "Interval_Set W c args t = (Inr (Some d), t1)" and "lts_run (iv_step W c) t1 ls t2"
    and "\<forall>l \<in> set ls. \<not> iv_wipes l" and "iv_step W c t2 IvFire t3" and "iv_setCh t2 = None"
    and "jitter_range (va_float W) (ic_jitter c) d"
  shows "iv_clock t + jitter_low (va_float W) (ic_jitter c) d \<le> iv_clock t2"
proof -
  have "iv_timed (iv_clock t) d (jitter_low (va_float W) (ic_jitter c) d) t2"
    by (rule lts_run_inv_labels [where P = "\<lambda>l. \<not> iv_wipes l", OF assms(2,3)])
      (auto intro: iv_timed_set [OF assms(1)] iv_timed_step assms(6))
  then show ?thesis using assms(4,5) by (auto simp: iv_timed_def elim!: iv_fireE)
qed

theorem interval_not_early_witness: "(0 :: time) + 750000000 \<le> 1000000000"
  using interval_not_early [OF example_set example_wait _ example_fire, of True]
  by (simp add: wait_labels_def iv_at_def numbers_def example_interval_def example_jitter jitter_range_def int64_def
      jitter_low_def reals_def)

text \<open>A trigger without a delay that is reset while its action runs does not go to sleep: unless a \<open>set\<close> comes
  first, its goroutine neither waits nor sleeps again but ends, and after that no \<open>set\<close> makes it act.\<close>

theorem interval_reset_ends:
  assumes "processIntervalTrigger F name decoded = (ds, Some c)" and "ic_delay c = None"
    and "ic_repeat c" and "ic_stopWhen c = None"
    and "iv_phase t = IvRunning v" and "lts_run (iv_step W c) (Interval_Reset t) ls t'"
    and "\<forall>l \<in> set ls. \<not> iv_wakes l"
  shows "iv_phase t' \<noteq> IvDormant \<and> (\<forall>dl v. iv_phase t' \<noteq> IvWaiting dl v) \<and>
         (iv_phase t' = IvExited \<longrightarrow>
            (\<forall>ms t''. lts_run (iv_step W c) t' ms t'' \<longrightarrow> (\<forall>l \<in> set ms. \<not> iv_fires l)))"
proof -
  have "iv_doomed (Interval_Reset t)" using assms(5) by (simp add: iv_doomed_def Interval_Reset_def)
  then have "iv_doomed t'"
    by (rule lts_run_inv_labels [where P = "\<lambda>l. \<not> iv_wakes l", OF assms(6,7)])
      (use process_delays [OF assms(1,2)] assms(2-4) in \<open>blast intro: iv_doomed_step\<close>)
  moreover have "\<forall>l \<in> set ms. \<not> iv_fires l"
    if "lts_run (iv_step W c) t' ms t''" and ended: "iv_phase t' = IvExited" for ms t''
  proof -
    have "iv_phase t'' = IvExited \<and> (\<forall>l \<in> set ms. \<not> iv_fires l)" using that
    proof (induction rule: lts_run.induct)
      case (snoc ms s l s')
      from snoc.hyps(2) snoc.IH [OF snoc.prems] show ?case
        by (cases rule: iv_step.cases) (auto simp: iv_ops split: sum.splits list.splits if_splits)
    qed simp
    then show ?thesis by blast
  qed
  ultimately show ?thesis by (auto simp: iv_doomed_def)
qed

theorem interval_reset_ends_witness:
  "\<nexists>ms t'' l. lts_run (iv_step numbers (example_interval True))
       ((iv_at 1 (Some 5) None None IvExited 1000000000)\<lparr>iv_resetCh := Some ()\<rparr>) ms t'' \<and> l \<in> set ms \<and> iv_fires l"
  using interval_reset_ends [OF example_processed _ _ _ _ example_end]
  by (auto simp: example_interval_def iv_at_def)

end
