(* ===== verification/At_Time.thy ===== *)
theory At_Time
  imports Trigger_Runs
begin

text \<open>
  The trigger at absolute times (\<open>triggers/at/at.go\<close>), taken apart in the same way as the interval
  trigger: its shared fields, its channels, and the places of its goroutine. The pointer
  \<open>timeOverride\<close>, which the code compares by identity, is a number with the time it points to. Reading a
  time from a value is the argument \<open>gt\<close>.
\<close>

section \<open>State\<close>

record 'e AtConfig =
  tc_name :: string
  tc_time :: "'e option"
  tc_action :: 'e
  tc_stopWhen :: "'e option"
  tc_repeat :: bool

type_synonym time_ptr = "nat \<times> time"

text \<open>The places of the goroutine: with the snapshot taken; with a target; with the target published;
  waiting on the timer with deadline, target and the override it was armed for; in \<open>fire\<close> before and
  after its snapshot; before \<open>shouldStop\<close>; in \<open>waitForRetry\<close>; in \<open>waitForRevival\<close>; ended.\<close>

datatype 'v at_phase =
    AtNotStarted | AtLoop | AtPlan "time_ptr option" "'v run_view" | AtTarget time "time_ptr option"
  | AtArm time "time_ptr option" | AtWaiting time time "time_ptr option" | AtFired | AtRunning "'v run_view"
  | AtDecide | AtRetry time | AtDormant | AtExited

record 'v AtTrigger =
  at_scheduledTime :: "time option"
  at_runCount :: int
  at_lastResult :: "'v option"
  at_lastError :: "string option"
  at_timeOverride :: "time_ptr option"
  at_setCh :: "time_ptr option option"
  at_resetCh :: "unit option"
  at_stopped :: bool
  at_phase :: "'v at_phase"
  at_clock :: time
  at_next :: nat

definition at_view :: "'v AtTrigger \<Rightarrow> 'v run_view" where
  "at_view t = \<lparr>rv_runCount = at_runCount t, rv_lastResult = at_lastResult t, rv_lastError = at_lastError t\<rparr>"

section \<open>Operations\<close>

definition At_Count :: "'v AtTrigger \<Rightarrow> int" where
  "At_Count t = at_runCount t"

text \<open>Nothing stands for null.\<close>

definition At_Get :: "'v AtTrigger \<Rightarrow> time option" where
  "At_Get t = at_scheduledTime t"

definition At_Set ::
  "('v \<Rightarrow> string + time) \<Rightarrow> 'e AtConfig \<Rightarrow> 'v list \<Rightarrow> 'v AtTrigger \<Rightarrow> (string + time option) \<times> 'v AtTrigger" where
  "At_Set gt c args t =
     (case (case args of
              a # _ \<Rightarrow> (case gt a of
                           Inl e \<Rightarrow> Inl (''invalid time for set(): '' @ e)
                         | Inr tm \<Rightarrow> Inr (Some (at_next t, tm)))
            | [] \<Rightarrow> if tc_time c = None then Inl ''set() with no time requires a configured time expression''
                    else Inr None) of
        Inl e \<Rightarrow> (Inl e, t)
      | Inr override \<Rightarrow>
          (Inr (map_option snd override),
           t\<lparr>at_timeOverride := override, at_runCount := 0, at_lastError := None,
             at_setCh := try_send override (at_setCh t), at_next := Suc (at_next t)\<rparr>))"

definition At_Reset :: "'v AtTrigger \<Rightarrow> 'v AtTrigger" where
  "At_Reset t =
     t\<lparr>at_timeOverride := None, at_scheduledTime := None, at_runCount := 0, at_lastResult := None,
       at_lastError := None, at_resetCh := try_send () (at_resetCh t)\<rparr>"

definition At_Stop :: "'v AtTrigger \<Rightarrow> 'v AtTrigger" where
  "At_Stop t = t\<lparr>at_stopped := True\<rparr>"

definition At_Start :: "time \<Rightarrow> 'v AtTrigger" where
  "At_Start now0 =
     \<lparr>at_scheduledTime = None, at_runCount = 0, at_lastResult = None, at_lastError = None, at_timeOverride = None,
      at_setCh = None, at_resetCh = None, at_stopped = False, at_phase = AtNotStarted, at_clock = now0, at_next = 0\<rparr>"

definition At_PostStart :: "'e AtConfig \<Rightarrow> 'v AtTrigger \<Rightarrow> 'v AtTrigger" where
  "At_PostStart c t =
     t\<lparr>at_phase := (if tc_time c = None \<and> at_timeOverride t = None then AtDormant else AtLoop)\<rparr>"

text \<open>The target when there is no override. An attribute that is missing evaluates to null, which is no
  time.\<close>

definition target_time ::
  "('v \<Rightarrow> string + time) \<Rightarrow> 'e AtConfig \<Rightarrow> bool \<Rightarrow> ('e, 'v) evaluator \<Rightarrow> 'v run_view \<Rightarrow> string + time" where
  "target_time gt c ctx_ok ev view =
     (if \<not> ctx_ok then Inl ''error building eval context''
      else case tc_time c of
             None \<Rightarrow> Inl ''time expression did not produce a time value''
           | Some e \<Rightarrow>
               (case ev e (buildEvalContext ''at'' (tc_name c) view) of
                  Inl err \<Rightarrow> Inl (''time expression error: '' @ err)
                | Inr v \<Rightarrow>
                    (case gt v of
                       Inl err \<Rightarrow> Inl (''time expression did not produce a time value: '' @ err)
                     | Inr tm \<Rightarrow> Inr tm)))"

definition shouldStop ::
  "('v, 'f, 'z) value_api_scheme \<Rightarrow> 'e AtConfig \<Rightarrow> bool \<Rightarrow> ('e, 'v) evaluator \<Rightarrow> 'v AtTrigger \<Rightarrow> bool" where
  "shouldStop W c ctx_ok ev t =
     (if \<not> tc_repeat c then True
      else case tc_stopWhen c of
             None \<Rightarrow> False
           | Some e \<Rightarrow> ctx_ok \<and> view_true W (ev e (buildEvalContext ''at'' (tc_name c) (at_view t))))"

definition shouldRemainStopped ::
  "('v, 'f, 'z) value_api_scheme \<Rightarrow> 'e AtConfig \<Rightarrow> bool \<Rightarrow> ('e, 'v) evaluator \<Rightarrow> 'v AtTrigger \<Rightarrow> bool" where
  "shouldRemainStopped W c ctx_ok ev t =
     (case tc_stopWhen c of
        None \<Rightarrow> False
      | Some e \<Rightarrow> ctx_ok \<and> view_true W (ev e (buildEvalContext ''at'' (tc_name c) (at_view t))))"

text \<open>A call of \<open>set\<close> revives when there is something to fire and the stop condition is no longer met.\<close>

definition revived ::
  "('v, 'f, 'z) value_api_scheme \<Rightarrow> 'e AtConfig \<Rightarrow> bool \<Rightarrow> ('e, 'v) evaluator \<Rightarrow> 'v AtTrigger \<Rightarrow> bool" where
  "revived W c ctx_ok ev t \<longleftrightarrow>
     \<not> (at_timeOverride t = None \<and> tc_time c = None) \<and> \<not> shouldRemainStopped W c ctx_ok ev t"

text \<open>The timer has expired: the override it was armed for is used up, a newer one stays.\<close>

definition consume :: "time_ptr option \<Rightarrow> 'v AtTrigger \<Rightarrow> 'v AtTrigger" where
  "consume ov t =
     t\<lparr>at_timeOverride := (if map_option fst (at_timeOverride t) = map_option fst ov then None else at_timeOverride t)\<rparr>"

definition record_fire :: "string + 'v \<Rightarrow> 'v AtTrigger \<Rightarrow> 'v AtTrigger" where
  "record_fire r t =
     t\<lparr>at_runCount := at_runCount t + 1,
       at_lastResult := (case r of Inl _ \<Rightarrow> None | Inr v \<Rightarrow> Some v),
       at_lastError := (case r of Inl e \<Rightarrow> Some e | Inr _ \<Rightarrow> None)\<rparr>"

definition errorRetry :: duration where
  "errorRetry = 60 * 1000000000"

section \<open>Block processing\<close>

record 'e triggerAtBody =
  xb_Time :: "'e option"
  xb_Repeat :: "bool option"
  xb_StopWhen :: "'e option"
  xb_Action :: 'e

definition processAtTrigger ::
  "string \<Rightarrow> diag list \<times> 'e triggerAtBody \<Rightarrow> diag list \<times> 'e AtConfig option" where
  "processAtTrigger name decoded =
     (let (ds, body) = decoded in
      if HasErrors ds then (ds, None)
      else (ds, Some
        \<lparr>tc_name = name, tc_time = xb_Time body, tc_action = xb_Action body, tc_stopWhen = xb_StopWhen body,
         tc_repeat = (case xb_Repeat body of None \<Rightarrow> True | Some b \<Rightarrow> b)\<rparr>))"

section \<open>Steps\<close>

text \<open>The label of the timer carries the target it was armed for.\<close>

datatype 'v at_label =
    AtSet bool | AtReset | AtPass time | AtGo | AtTau | AtError | AtFire time | AtComplete "string + 'v"
  | AtTake | AtAsk | AtQuit

inductive at_step ::
  "('v, 'f, 'z) value_api_scheme \<Rightarrow> ('v \<Rightarrow> string + time) \<Rightarrow> 'e AtConfig \<Rightarrow>
     'v AtTrigger \<Rightarrow> 'v at_label \<Rightarrow> 'v AtTrigger \<Rightarrow> bool"
  for W :: "('v, 'f, 'z) value_api_scheme" and gt :: "'v \<Rightarrow> string + time" and c :: "'e AtConfig" where
  set_ok: "At_Set gt c args t = (Inr r, t') \<Longrightarrow> at_step W gt c t (AtSet True) t'"
| set_error: "At_Set gt c args t = (Inl e, t') \<Longrightarrow> at_step W gt c t (AtSet False) t'"
| reset: "at_step W gt c t AtReset (At_Reset t)"
| pass: "at_clock t \<le> u \<Longrightarrow> at_step W gt c t (AtPass u) (t\<lparr>at_clock := u\<rparr>)"
| go: "at_phase t = AtNotStarted \<Longrightarrow> at_step W gt c t AtGo (At_PostStart c t)"
| snapshot: "at_phase t = AtLoop \<Longrightarrow>
    at_step W gt c t AtTau (t\<lparr>at_phase := AtPlan (at_timeOverride t) (at_view t)\<rparr>)"
| overridden: "at_phase t = AtPlan (Some (i, tm)) v \<Longrightarrow>
    at_step W gt c t AtTau (t\<lparr>at_phase := AtTarget tm (Some (i, tm))\<rparr>)"
| target: "at_phase t = AtPlan None v \<Longrightarrow> target_time gt c ctx_ok ev v = Inr tm \<Longrightarrow>
    at_step W gt c t AtTau (t\<lparr>at_phase := AtTarget tm None\<rparr>)"
| no_target: "at_phase t = AtPlan None v \<Longrightarrow> target_time gt c ctx_ok ev v = Inl e \<Longrightarrow>
    at_step W gt c t AtError (t\<lparr>at_phase := AtRetry (at_clock t + errorRetry)\<rparr>)"
| publish: "at_phase t = AtTarget tm ov \<Longrightarrow>
    at_step W gt c t AtTau (t\<lparr>at_scheduledTime := Some tm, at_phase := AtArm tm ov\<rparr>)"
| arm: "at_phase t = AtArm tm ov \<Longrightarrow>
    at_step W gt c t AtTau (t\<lparr>at_phase := AtWaiting (at_clock t + max 0 (tm - at_clock t)) tm ov\<rparr>)"
| fire: "at_phase t = AtWaiting dl tm ov \<Longrightarrow> dl \<le> at_clock t \<Longrightarrow>
    at_step W gt c t (AtFire tm) ((consume ov t)\<lparr>at_phase := AtFired\<rparr>)"
| fire_snapshot: "at_phase t = AtFired \<Longrightarrow> at_step W gt c t AtTau (t\<lparr>at_phase := AtRunning (at_view t)\<rparr>)"
| no_context: "at_phase t = AtRunning v \<Longrightarrow> at_step W gt c t AtError (t\<lparr>at_phase := AtDecide\<rparr>)"
| complete: "at_phase t = AtRunning v \<Longrightarrow> ev (tc_action c) (buildEvalContext ''at'' (tc_name c) v) = r \<Longrightarrow>
    at_step W gt c t (AtComplete r) ((record_fire r t)\<lparr>at_phase := AtDecide\<rparr>)"
| go_on: "at_phase t = AtDecide \<Longrightarrow> \<not> shouldStop W c ctx_ok ev t \<Longrightarrow> at_step W gt c t AtTau (t\<lparr>at_phase := AtLoop\<rparr>)"
| rest: "at_phase t = AtDecide \<Longrightarrow> shouldStop W c ctx_ok ev t \<Longrightarrow> at_step W gt c t AtTau (t\<lparr>at_phase := AtDormant\<rparr>)"
| take_set: "at_phase t = AtWaiting dl tm ov \<or> at_phase t = AtRetry dl \<Longrightarrow> at_setCh t \<noteq> None \<Longrightarrow>
    at_step W gt c t AtTake (t\<lparr>at_setCh := None, at_phase := AtLoop\<rparr>)"
| take_reset: "at_phase t = AtWaiting dl tm ov \<or> at_phase t = AtRetry dl \<Longrightarrow> at_resetCh t \<noteq> None \<Longrightarrow>
    at_step W gt c t AtTake (t\<lparr>at_resetCh := None, at_phase := AtDormant\<rparr>)"
| retry: "at_phase t = AtRetry dl \<Longrightarrow> dl \<le> at_clock t \<Longrightarrow> at_step W gt c t AtTau (t\<lparr>at_phase := AtLoop\<rparr>)"
| revive: "at_phase t = AtDormant \<Longrightarrow> at_setCh t \<noteq> None \<Longrightarrow> revived W c ctx_ok ev (t\<lparr>at_setCh := None\<rparr>) \<Longrightarrow>
    at_step W gt c t AtTake (t\<lparr>at_setCh := None, at_phase := AtLoop\<rparr>)"
| remain: "at_phase t = AtDormant \<Longrightarrow> at_setCh t \<noteq> None \<Longrightarrow> \<not> revived W c ctx_ok ev (t\<lparr>at_setCh := None\<rparr>) \<Longrightarrow>
    at_step W gt c t AtTake (t\<lparr>at_setCh := None\<rparr>)"
| drain: "at_phase t = AtDormant \<Longrightarrow> at_resetCh t \<noteq> None \<Longrightarrow> at_step W gt c t AtTake (t\<lparr>at_resetCh := None\<rparr>)"
| ask: "at_step W gt c t AtAsk (At_Stop t)"
| quit: "at_stopped t \<Longrightarrow>
    at_phase t = AtDormant \<or> (\<exists>dl tm ov. at_phase t = AtWaiting dl tm ov) \<or> (\<exists>dl. at_phase t = AtRetry dl) \<Longrightarrow>
    at_step W gt c t AtQuit (t\<lparr>at_phase := AtExited\<rparr>)"

inductive_cases at_fireE: "at_step W gt c t (AtFire tm) t'"

lemmas at_ops = At_Set_def At_Reset_def At_Stop_def At_PostStart_def consume_def record_fire_def

section \<open>Sleeping\<close>

fun at_wipes :: "'v at_label \<Rightarrow> bool" where
  "at_wipes (AtSet ok) = ok"
| "at_wipes AtReset = True"
| "at_wipes _ = False"

fun at_wakes :: "'v at_label \<Rightarrow> bool" where
  "at_wakes (AtSet ok) = ok"
| "at_wakes _ = False"

fun at_fires :: "'v at_label \<Rightarrow> bool" where
  "at_fires (AtFire _) = True"
| "at_fires _ = False"

definition at_asleep :: "'v AtTrigger \<Rightarrow> bool" where
  "at_asleep t \<longleftrightarrow> at_phase t = AtExited \<or> at_phase t = AtDormant \<and> at_setCh t = None"

interpretation at_sleep: wakeable "at_step W gt c" at_asleep at_wakes at_fires for W gt c
proof
  fix t l t'
  assume "at_step W gt c t l t'" "at_asleep t" "\<not> at_wakes l"
  then show "at_asleep t' \<and> \<not> at_fires l"
    by (cases rule: at_step.cases) (auto simp: at_asleep_def at_ops split: sum.splits list.splits if_splits)
qed

text \<open>Without \<open>repeat\<close>: an armed loop and a call of \<open>set\<close> not yet received may lead to an action.\<close>

definition at_pending :: "'v AtTrigger \<Rightarrow> nat" where
  "at_pending t =
     (case at_phase t of
        AtNotStarted \<Rightarrow> 1 | AtLoop \<Rightarrow> 1 | AtPlan _ _ \<Rightarrow> 1 | AtTarget _ _ \<Rightarrow> 1 | AtArm _ _ \<Rightarrow> 1
      | AtWaiting _ _ _ \<Rightarrow> 1 | AtRetry _ \<Rightarrow> 1 | _ \<Rightarrow> 0)
     + (if at_setCh t = None then 0 else 1)"

definition once_only :: "'e AtConfig \<Rightarrow> 'e AtConfig" where
  "once_only c = c\<lparr>tc_repeat := False\<rparr>"

interpretation at_once: one_shot "at_step W gt (once_only c)" "\<lambda>_. True" at_pending at_wakes at_fires for W gt c
proof (rule one_shot.intro)
  fix t l t'
  assume "at_step W gt (once_only c) t l t'"
  then show "(if at_fires l then 1 else 0) + at_pending t' \<le> at_pending t + (if at_wakes l then 1 else 0)"
    by (cases rule: at_step.cases)
      (auto simp: at_pending_def once_only_def at_ops shouldStop_def
        split: sum.splits list.splits if_splits at_phase.splits)
qed

text \<open>Without a time expression: an override, and another one the timer is armed for, may lead to an action.\<close>

fun armed_for :: "'v at_phase \<Rightarrow> time_ptr option" where
  "armed_for (AtPlan ov _) = ov"
| "armed_for (AtTarget _ ov) = ov"
| "armed_for (AtArm _ ov) = ov"
| "armed_for (AtWaiting _ _ ov) = ov"
| "armed_for _ = None"

definition at_alarms :: "'v AtTrigger \<Rightarrow> nat" where
  "at_alarms t =
     (if at_timeOverride t = None then 0 else 1) +
     (if armed_for (at_phase t) = None \<or> map_option fst (armed_for (at_phase t)) = map_option fst (at_timeOverride t) then 0 else 1)"

text \<open>Pointers are older than the next one, and a timer armed without an override had a time expression.\<close>

definition target_of :: "'e AtConfig \<Rightarrow> time \<Rightarrow> time_ptr option \<Rightarrow> bool" where
  "target_of c tm ov \<longleftrightarrow> (case ov of None \<Rightarrow> tc_time c \<noteq> None | Some p \<Rightarrow> snd p = tm)"

fun target_ok :: "'e AtConfig \<Rightarrow> 'v at_phase \<Rightarrow> bool" where
  "target_ok c (AtTarget tm ov) = target_of c tm ov"
| "target_ok c (AtArm tm ov) = target_of c tm ov"
| "target_ok c (AtWaiting dl tm ov) = (tm \<le> dl \<and> target_of c tm ov)"
| "target_ok c _ = True"

definition at_wf :: "'e AtConfig \<Rightarrow> 'v AtTrigger \<Rightarrow> bool" where
  "at_wf c t \<longleftrightarrow>
     (\<forall>p. at_timeOverride t = Some p \<or> armed_for (at_phase t) = Some p \<longrightarrow> fst p < at_next t) \<and>
     (\<forall>i x y. at_timeOverride t = Some (i, x) \<and> armed_for (at_phase t) = Some (i, y) \<longrightarrow> x = y) \<and>
     target_ok c (at_phase t)"

lemma at_wf_start: "at_wf c (At_Start n)"
  by (simp add: at_wf_def At_Start_def)

lemma at_wf_step:
  assumes "at_step W gt c t l t'" and "at_wf c t"
  shows "at_wf c t'"
  using assms
proof (cases rule: at_step.cases)
  case (set_ok args r)
  then show ?thesis
    using assms(2) by (fastforce simp: at_wf_def At_Set_def split: sum.splits list.splits if_splits)
next
  case (target v ctx_ok ev tm)
  then show ?thesis
    using assms(2) by (auto simp: at_wf_def target_of_def target_time_def split: if_splits option.splits)
qed (auto simp: at_wf_def at_ops target_of_def split: sum.splits list.splits if_splits option.splits)

lemma at_wf_run: "lts_run (at_step W gt c) t ls t' \<Longrightarrow> at_wf c t \<Longrightarrow> at_wf c t'"
  by (erule lts_run_inv [where I = "at_wf c"]) (auto intro: at_wf_step)

text \<open>The configuration without its time expression.\<close>

definition no_time :: "'e AtConfig \<Rightarrow> 'e AtConfig" where
  "no_time c = c\<lparr>tc_time := None\<rparr>"

lemma alarms_step:
  assumes "at_step W gt (no_time c) t l t'" and "at_wf (no_time c) t"
  shows "(if at_fires l then 1 else 0) + at_alarms t' \<le> at_alarms t + (if at_wakes l then 1 else 0)"
  using assms
proof (cases rule: at_step.cases)
  case (set_ok args r)
  then show ?thesis
    using assms(2) by (auto simp: at_alarms_def At_Set_def no_time_def split: sum.splits list.splits)
next
  case (fire dl tm ov)
  then show ?thesis
    using assms(2) by (auto simp: at_alarms_def at_wf_def at_ops target_of_def no_time_def split: option.splits)
next
  case (target v ctx_ok ev tm)
  then show ?thesis by (auto simp: target_time_def no_time_def split: if_splits)
qed (auto simp: at_alarms_def at_ops split: sum.splits list.splits)

interpretation at_alarm: one_shot "at_step W gt (no_time c)" "at_wf (no_time c)" at_alarms at_wakes at_fires for W gt c
  by (rule one_shot.intro, erule at_wf_step, assumption, rule alarms_step)

lemma at_start_counts: "at_alarms (At_Start n) = 0" "at_pending (At_Start n) = 1"
  by (simp_all add: at_alarms_def at_pending_def At_Start_def)

section \<open>What was set and what is shown\<close>

lemma at_clock_step: "at_step W gt c t l t' \<Longrightarrow> at_clock t \<le> at_clock t'"
  by (cases rule: at_step.cases, assumption) (auto simp: at_ops split: sum.splits list.splits if_splits)

lemma override_step:
  assumes "at_step W gt c t l t'" and "\<not> at_wipes l" and "at_wf c t" and "at_timeOverride t = Some (i, tm)"
  shows "at_timeOverride t' = Some (i, tm) \<or> l = AtFire tm \<and> tm \<le> at_clock t'"
  using assms
proof (cases rule: at_step.cases)
  case (fire dl x ov)
  then show ?thesis
    using assms(3,4) by (cases ov) (auto simp: at_wf_def target_of_def consume_def)
qed (auto simp: at_ops split: sum.splits list.splits)

lemma override_run:
  "lts_run (at_step W gt c) t ls t' \<Longrightarrow> \<forall>l \<in> set ls. \<not> at_wipes l \<Longrightarrow> at_wf c t \<Longrightarrow>
     at_timeOverride t = Some (i, tm) \<Longrightarrow>
     at_timeOverride t' = Some (i, tm) \<or> AtFire tm \<in> set ls \<and> tm \<le> at_clock t'"
proof (induction rule: lts_run.induct)
  case (snoc ls s l s')
  have "at_wf c s" using at_wf_run [OF snoc.hyps(1) snoc.prems(2)] .
  moreover have "at_clock s \<le> at_clock s'" by (rule at_clock_step [OF snoc.hyps(2)])
  moreover have "\<not> at_wipes l" using snoc.prems(1) by simp
  ultimately show ?case
    using snoc.IH snoc.prems override_step [OF snoc.hyps(2), of i tm] by auto
qed simp

text \<open>\<open>get\<close> shows the target the timer is armed for, or null after a \<open>reset\<close>.\<close>

fun shown_ok :: "time option \<Rightarrow> 'v at_phase \<Rightarrow> bool" where
  "shown_ok sh (AtArm tm _) = (sh = Some tm \<or> sh = None)"
| "shown_ok sh (AtWaiting _ tm _) = (sh = Some tm \<or> sh = None)"
| "shown_ok sh _ = True"

lemma shown_none: "shown_ok None ph"
  by (cases ph) auto

lemma shown_step: "at_step W gt c t l t' \<Longrightarrow> shown_ok (at_scheduledTime t) (at_phase t) \<Longrightarrow>
    shown_ok (at_scheduledTime t') (at_phase t')"
  by (cases rule: at_step.cases, assumption)
    (auto simp: at_ops shown_none split: sum.splits list.splits if_splits)

lemma shown_run: "lts_run (at_step W gt c) (At_Start n) ls t \<Longrightarrow> shown_ok (at_scheduledTime t) (at_phase t)"
  by (erule lts_run_inv [where I = "\<lambda>t. shown_ok (at_scheduledTime t) (at_phase t)"])
    (auto intro: shown_step simp: At_Start_def)

text \<open>The places of a trigger that has nothing to fire and does not know it.\<close>

fun spinning :: "'v at_phase \<Rightarrow> bool" where
  "spinning AtDecide = True"
| "spinning AtLoop = True"
| "spinning (AtPlan ov _) = (ov = None)"
| "spinning (AtRetry _) = True"
| "spinning _ = False"

definition at_spins :: "'v AtTrigger \<Rightarrow> bool" where
  "at_spins t \<longleftrightarrow> at_timeOverride t = None \<and> at_resetCh t = None \<and>
     (spinning (at_phase t) \<or> at_phase t = AtExited \<and> at_stopped t)"

lemma at_spins_step:
  assumes "at_step W gt c t l t'" and "at_spins t" and "\<not> at_wipes l"
    and "tc_time c = None" and "tc_repeat c" and "tc_stopWhen c = None"
  shows "at_spins t'"
  using assms
  by (cases rule: at_step.cases)
    (auto simp: at_spins_def at_ops target_time_def shouldStop_def split: sum.splits list.splits if_splits)

section \<open>Examples\<close>

text \<open>An alarm without a time expression, and times that are numbers.\<close>

definition example_at :: "bool \<Rightarrow> nat AtConfig" where
  "example_at rep = \<lparr>tc_name = ''alarm'', tc_time = None, tc_action = 0, tc_stopWhen = None, tc_repeat = rep\<rparr>"

definition example_at_body :: "nat triggerAtBody" where
  "example_at_body = \<lparr>xb_Time = None, xb_Repeat = None, xb_StopWhen = None, xb_Action = 0\<rparr>"

lemma example_at_processed: "processAtTrigger ''alarm'' ([], example_at_body) = ([], Some (example_at True))"
  by (simp add: processAtTrigger_def example_at_body_def example_at_def)

abbreviation at_ex :: "bool \<Rightarrow> int AtTrigger \<Rightarrow> int at_label \<Rightarrow> int AtTrigger \<Rightarrow> bool" where
  "at_ex rep \<equiv> at_step numbers Inr (example_at rep)"

definition at_st ::
  "time option \<Rightarrow> int \<Rightarrow> int option \<Rightarrow> time_ptr option \<Rightarrow> time_ptr option option \<Rightarrow> int at_phase \<Rightarrow> time \<Rightarrow> nat \<Rightarrow>
     int AtTrigger" where
  "at_st sh n res ov ch ph now0 k =
     \<lparr>at_scheduledTime = sh, at_runCount = n, at_lastResult = res, at_lastError = None, at_timeOverride = ov,
      at_setCh = ch, at_resetCh = None, at_stopped = False, at_phase = ph, at_clock = now0, at_next = k\<rparr>"

abbreviation at_fresh_view :: "int run_view" where
  "at_fresh_view \<equiv> \<lparr>rv_runCount = 0, rv_lastResult = None, rv_lastError = None\<rparr>"

text \<open>Set to 9 at 0, and the time is 10 when the goroutine looks again.\<close>

lemma example_at_set:
  "At_Set Inr (example_at rep) [9] (at_st None 0 None None None AtDormant 0 0) =
     (Inr (Some 9), at_st None 0 None (Some (0, 9)) (Some (Some (0, 9))) AtDormant 0 1)"
  by (simp add: At_Set_def at_st_def try_send_def)

lemma example_at_go: "lts_run (at_ex rep) (At_Start 0) [AtGo] (at_st None 0 None None None AtDormant 0 0)"
  by (rule lts_run_then [OF lts_run.start])
    (use at_step.go [of "At_Start 0" numbers Inr "example_at rep"] in
      \<open>auto simp: At_Start_def At_PostStart_def at_st_def example_at_def\<close>)

definition alarm_wait :: "int at_label list" where
  "alarm_wait = [AtTake, AtTau, AtTau, AtTau, AtTau, AtPass 10]"

lemma example_at_wait:
  "lts_run (at_ex rep) (at_st None 0 None (Some (0, 9)) (Some (Some (0, 9))) AtDormant 0 1) alarm_wait
     (at_st (Some 9) 0 None (Some (0, 9)) None (AtWaiting 9 9 (Some (0, 9))) 10 1)"
proof -
  let ?c = "example_at rep"
  let ?t = "at_st None 0 None (Some (0, 9)) (Some (Some (0, 9))) AtDormant 0 1"
  let ?s = "\<lambda>sh ph. at_st sh 0 None (Some (0, 9)) None ph 0 1"
  let ?run = "lts_run (at_ex rep) ?t"
  have "?run [AtTake] (?s None AtLoop)"
    by (rule lts_run_then [OF lts_run.start])
      (use at_step.revive [of ?t numbers ?c] in \<open>auto simp: at_st_def revived_def shouldRemainStopped_def example_at_def\<close>)
  then have "?run [AtTake, AtTau] (?s None (AtPlan (Some (0, 9)) at_fresh_view))"
    by (rule lts_run_then)
      (use at_step.snapshot [of "?s None AtLoop" numbers Inr ?c] in \<open>auto simp: at_st_def at_view_def\<close>)
  then have "?run [AtTake, AtTau, AtTau] (?s None (AtTarget 9 (Some (0, 9))))"
    by (rule lts_run_then)
      (use at_step.overridden [of "?s None (AtPlan (Some (0, 9)) at_fresh_view)" 0 9 _ numbers Inr ?c]
        in \<open>auto simp: at_st_def\<close>)
  then have "?run [AtTake, AtTau, AtTau, AtTau] (?s (Some 9) (AtArm 9 (Some (0, 9))))"
    by (rule lts_run_then)
      (use at_step.publish [of "?s None (AtTarget 9 (Some (0, 9)))" 9 _ numbers Inr ?c] in \<open>auto simp: at_st_def\<close>)
  then have "?run [AtTake, AtTau, AtTau, AtTau, AtTau] (?s (Some 9) (AtWaiting 9 9 (Some (0, 9))))"
    by (rule lts_run_then)
      (use at_step.arm [of "?s (Some 9) (AtArm 9 (Some (0, 9)))" 9 _ numbers Inr ?c] in \<open>auto simp: at_st_def\<close>)
  then show ?thesis
    by (rule lts_run_then)
      (use at_step.pass [of "?s (Some 9) (AtWaiting 9 9 (Some (0, 9)))" 10 numbers Inr ?c] in
        \<open>auto simp: at_st_def alarm_wait_def\<close>)
qed

lemma example_at_fire:
  "at_ex rep (at_st (Some 9) 0 None (Some (0, 9)) None (AtWaiting 9 9 (Some (0, 9))) 10 1) (AtFire 9)
     (at_st (Some 9) 0 None None None AtFired 10 1)"
  using at_step.fire [of "at_st (Some 9) 0 None (Some (0, 9)) None (AtWaiting 9 9 (Some (0, 9))) 10 1" 9 9 "Some (0, 9)"
      numbers Inr "example_at rep"]
  by (simp add: at_st_def consume_def)

lemma example_at_waiting:
  "lts_run (at_ex rep) (At_Start 0) (([AtGo] @ [AtSet True]) @ alarm_wait)
     (at_st (Some 9) 0 None (Some (0, 9)) None (AtWaiting 9 9 (Some (0, 9))) 10 1)"
  by (rule lts_run_append [OF example_at_wait]) (rule lts_run.snoc [OF example_at_go at_step.set_ok [OF example_at_set]])

lemma example_at_wait_fire:
  "lts_run (at_ex rep) (at_st None 0 None (Some (0, 9)) (Some (Some (0, 9))) AtDormant 0 1) (alarm_wait @ [AtFire 9])
     (at_st (Some 9) 0 None None None AtFired 10 1)"
  by (rule lts_run.snoc, rule example_at_wait, rule example_at_fire)

lemma example_at_whole:
  "lts_run (at_ex rep) (At_Start 0) ((([AtGo] @ [AtSet True]) @ alarm_wait) @ [AtFire 9])
     (at_st (Some 9) 0 None None None AtFired 10 1)"
  by (rule lts_run.snoc, rule example_at_waiting, rule example_at_fire)

text \<open>After its alarm the trigger finds no target.\<close>

lemma example_at_spin:
  "lts_run (at_ex True) (at_st (Some 9) 1 (Some 5) None None AtDecide 10 1) [AtTau, AtTau, AtError]
     (at_st (Some 9) 1 (Some 5) None None (AtRetry (10 + errorRetry)) 10 1)"
proof -
  let ?c = "example_at True" and ?one = "\<lparr>rv_runCount = 1, rv_lastResult = Some 5, rv_lastError = None\<rparr>"
  let ?s = "\<lambda>ph. at_st (Some 9) 1 (Some 5) None None ph 10 1"
  let ?run = "lts_run (at_ex True) (?s AtDecide)"
  have "?run [AtTau] (?s AtLoop)"
    by (rule lts_run_then [OF lts_run.start])
      (use at_step.go_on [of "?s AtDecide" numbers ?c True] in \<open>auto simp: at_st_def shouldStop_def example_at_def\<close>)
  then have "?run [AtTau, AtTau] (?s (AtPlan None ?one))"
    by (rule lts_run_then)
      (use at_step.snapshot [of "?s AtLoop" numbers Inr ?c] in \<open>auto simp: at_st_def at_view_def\<close>)
  then show ?thesis
    by (rule lts_run_then)
      (use at_step.no_target [of "?s (AtPlan None ?one)" ?one Inr ?c True] in
        \<open>auto simp: at_st_def target_time_def example_at_def\<close>)
qed

section \<open>Properties\<close>

text \<open>A trigger without a time expression acts at most once for each accepted call of \<open>set\<close>, repeating or not;
  one with \<open>repeat = false\<close> at most once more.\<close>

theorem at_action_bound:
  assumes "lts_run (at_step W gt c) (At_Start n) ls t"
  shows "(tc_time c = None \<longrightarrow> count_labels at_fires ls \<le> count_labels at_wakes ls) \<and>
         (\<not> tc_repeat c \<longrightarrow> count_labels at_fires ls \<le> count_labels at_wakes ls + 1)"
proof (intro conjI impI)
  assume "tc_time c = None"
  then have "no_time c = c" by (simp add: no_time_def)
  then show "count_labels at_fires ls \<le> count_labels at_wakes ls"
    using at_alarm.actions_bounded [of W gt c "At_Start n" ls t] assms
    by (auto simp: at_wf_start at_start_counts)
next
  assume "\<not> tc_repeat c"
  then have "once_only c = c" by (simp add: once_only_def)
  then show "count_labels at_fires ls \<le> count_labels at_wakes ls + 1"
    using at_once.actions_bounded [of W gt c "At_Start n" ls t] assms
    by (auto simp: at_start_counts)
qed

theorem at_action_bound_witness:
  "count_labels at_fires ((([AtGo] @ [AtSet True]) @ alarm_wait) @ [AtFire 9]) \<le>
     count_labels at_wakes ((([AtGo] @ [AtSet True]) @ alarm_wait) @ [AtFire 9])"
  using at_action_bound [OF example_at_whole [of False]]
  by (simp add: example_at_def)

text \<open>The action never begins before its target, and the target is the time \<open>get\<close> shows, unless \<open>reset\<close> has
  cleared it.\<close>

theorem at_on_time:
  assumes "lts_run (at_step W gt c) (At_Start n) ls t" and "at_step W gt c t (AtFire tm) t'"
  shows "tm \<le> at_clock t \<and> (At_Get t = Some tm \<or> At_Get t = None)"
  using at_wf_run [OF assms(1) at_wf_start] shown_run [OF assms(1)] assms(2)
  by (auto simp: at_wf_def At_Get_def elim!: at_fireE)

theorem at_on_time_witness: "(9 :: time) \<le> 10 \<and> Some (9 :: time) = Some 9"
  using at_on_time [OF example_at_waiting [of True] example_at_fire] by (simp add: at_st_def At_Get_def)

text \<open>A time given to \<open>set\<close> is not lost: as long as no other \<open>set\<close> is accepted and no \<open>reset\<close> comes, it stays
  the next target until the action has begun for it, and it begins no earlier.\<close>

theorem at_set_kept:
  assumes "lts_run (at_step W gt c) (At_Start n) ks t" and "At_Set gt c args t = (Inr (Some tm), t1)"
    and "lts_run (at_step W gt c) t1 ls t2" and "\<forall>l \<in> set ls. \<not> at_wipes l"
  shows "(\<exists>i. at_timeOverride t2 = Some (i, tm)) \<or> AtFire tm \<in> set ls \<and> tm \<le> at_clock t2"
proof -
  have "at_wf c t1"
    by (rule at_wf_step [OF at_step.set_ok [OF assms(2)] at_wf_run [OF assms(1) at_wf_start]])
  moreover obtain i where "at_timeOverride t1 = Some (i, tm)"
    using assms(2) by (auto simp: At_Set_def split: sum.splits list.splits if_splits)
  ultimately show ?thesis using override_run [OF assms(3,4), of i tm] by auto
qed

theorem at_set_kept_witness: "AtFire 9 \<in> set (alarm_wait @ [AtFire 9]) \<and> (9 :: time) \<le> 10"
  using at_set_kept [OF example_at_go example_at_set example_at_wait_fire [of True]]
  by (simp add: alarm_wait_def at_st_def)

text \<open>A repeating trigger without a time expression does not go to sleep after its alarm: until the next \<open>set\<close> or
  \<open>reset\<close> it tries to find a target, fails and tries again, and ends only when it is stopped.\<close>

theorem at_alarm_spins:
  assumes "processAtTrigger name decoded = (ds, Some c)" and "xb_Time (snd decoded) = None"
    and "tc_repeat c" and "tc_stopWhen c = None"
    and "at_phase t = AtDecide" and "at_timeOverride t = None" and "at_resetCh t = None"
    and "lts_run (at_step W gt c) t ls t'" and "\<forall>l \<in> set ls. \<not> at_wipes l"
  shows "spinning (at_phase t') \<or> at_phase t' = AtExited \<and> at_stopped t'"
proof -
  have "tc_time c = None"
    using assms(1,2) by (auto simp: processAtTrigger_def split: prod.splits if_splits)
  moreover have "at_spins t" using assms(5-7) by (simp add: at_spins_def)
  ultimately have "at_spins t'"
    by (intro lts_run_inv_labels [where P = "\<lambda>l. \<not> at_wipes l" and I = at_spins, OF assms(8,9)])
      (auto intro: at_spins_step assms(3,4))
  then show ?thesis by (simp add: at_spins_def)
qed

theorem at_alarm_spins_witness: "spinning (AtRetry (10 + errorRetry) :: int at_phase)"
  using at_alarm_spins [OF example_at_processed _ _ _ _ _ _ example_at_spin]
  by (simp add: example_at_body_def example_at_def at_st_def)

end
