(* ===== verification/Loader.thy ===== *)
theory Loader
  imports Block_Deps
begin

text \<open>
  The passes of \<open>Build\<close> over the configuration blocks (\<open>config/config.go\<close>): preprocessing, the end of
  preprocessing, sorting, processing, the end of processing and the last checks, each with its check for
  errors. The handlers are one operation on a state that returns diagnostics, so that a pass is a run of
  operations; blocks of a type without a handler are passed over. The passes of the functy language, the
  registration of the health metrics and the check of deferred references are operations as well.
\<close>

section \<open>The passes\<close>

datatype 'b load_op =
    OpPreprocess 'b | OpFinishPreprocessing string | OpFunctyConsts | OpFunctyVars | OpProcess 'b
  | OpFinishProcessing string | OpHealthMetrics | OpCheckReferences "'b list"

text \<open>Why a build ends without a configuration: before anything was processed, or afterwards, when what was
  built is released.\<close>

datatype 's load_result = NoConfig | Discarded 's | Loaded 's

text \<open>A pass extends the diagnostics; the operations done are written down.\<close>

type_synonym ('b, 's) progress = "'s \<times> diag list \<times> 'b load_op list"

definition pass ::
  "('b load_op \<Rightarrow> 's \<Rightarrow> 's \<times> diag list) \<Rightarrow> 'b load_op list \<Rightarrow> ('b, 's) progress \<Rightarrow> ('b, 's) progress" where
  "pass exec ops x =
     (case x of (s, ds, log) \<Rightarrow> (case run_ops exec ops s of (s', ds') \<Rightarrow> (s', ds @ ds', log @ ops)))"

definition failed :: "('b, 's) progress \<Rightarrow> bool" where
  "failed x \<longleftrightarrow> HasErrors (fst (snd x))"

text \<open>The result with all diagnostics and the operations done, in their order. \<open>None\<close> is a panic of the
  sort. \<open>order\<close> is the sorted list of block types.\<close>

definition build_blocks ::
  "('b load_op \<Rightarrow> 's \<Rightarrow> 's \<times> diag list) \<Rightarrow> ('b \<Rightarrow> bool) \<Rightarrow> string list \<Rightarrow> ('b \<Rightarrow> (string \<times> diag list) option) \<Rightarrow>
     ('b \<Rightarrow> string list \<times> diag list) \<Rightarrow> 'b list \<Rightarrow> diag list \<times> 's \<Rightarrow>
     ('s load_result \<times> diag list \<times> 'b load_op list) option" where
  "build_blocks exec handled order ident getDeps blocks start =
     (let x1 = pass exec (map OpPreprocess (filter handled blocks)) (snd start, fst start, []);
          x2 = pass exec (map OpFinishPreprocessing order) x1;
          x3 = pass exec [OpFunctyConsts] x2;
          x4 = pass exec [OpFunctyVars] x3
      in if failed x1 then Some (NoConfig, snd x1)
         else if failed x2 then Some (NoConfig, snd x2)
         else if failed x3 then Some (NoConfig, snd x3)
         else if failed x4 then Some (NoConfig, snd x4)
         else
           (case SortBlocksByDependencies ident getDeps blocks of
              None \<Rightarrow> None
            | Some (sblocks, ds) \<Rightarrow>
                let x5 = pass exec (map OpProcess (filter handled sblocks)) (fst x4, fst (snd x4) @ ds, snd (snd x4));
                    x6 = pass exec (map OpFinishProcessing order) x5;
                    x7 = pass exec [OpHealthMetrics] x6;
                    x8 = pass exec [OpCheckReferences sblocks] x7
                in Some (if failed x5 then (Discarded (fst x5), snd x5)
                         else if failed x6 then (Discarded (fst x6), snd x6)
                         else if failed x7 then (Discarded (fst x7), snd x7)
                         else if failed x8 then (Discarded (fst x8), snd x8)
                         else (Loaded (fst x8), snd x8))))"

section \<open>What a build does\<close>

fun processed :: "'b load_op list \<Rightarrow> 'b list" where
  "processed [] = []"
| "processed (OpProcess b # ops) = b # processed ops"
| "processed (_ # ops) = processed ops"

lemma processed_append [simp]: "processed (xs @ ys) = processed xs @ processed ys"
  by (induction xs rule: processed.induct) auto

lemma processed_Process [simp]: "processed (map OpProcess bs) = bs"
  by (induction bs) auto

lemma processed_others [simp]:
  "processed (map OpPreprocess bs) = []" "processed (map OpFinishPreprocessing ts) = []"
  "processed (map OpFinishProcessing ts) = []"
  by (induction bs, simp_all) (induction ts, simp_all)+

lemma pass_log [simp]: "snd (snd (pass exec ops x)) = snd (snd x) @ ops"
  by (simp add: pass_def split: prod.splits)

lemma pass_state [simp]: "fst (pass exec ops x) = fst (run_ops exec ops (fst x))"
  by (simp add: pass_def split: prod.splits)

lemma pass_diags [simp]: "fst (snd (pass exec ops x)) = fst (snd x) @ snd (run_ops exec ops (fst x))"
  by (simp add: pass_def split: prod.splits)

lemma failed_pass: "failed x \<Longrightarrow> failed (pass exec ops x)"
  by (simp add: failed_def)

text \<open>The operations of a build that succeeds.\<close>

definition load_ops :: "('b \<Rightarrow> bool) \<Rightarrow> string list \<Rightarrow> 'b list \<Rightarrow> 'b list \<Rightarrow> 'b load_op list" where
  "load_ops handled order blocks sblocks =
     map OpPreprocess (filter handled blocks) @ map OpFinishPreprocessing order @ [OpFunctyConsts, OpFunctyVars] @
     map OpProcess (filter handled sblocks) @ map OpFinishProcessing order @ [OpHealthMetrics, OpCheckReferences sblocks]"

lemma build_loaded:
  assumes "build_blocks exec handled order ident getDeps blocks (ds0, s0) = Some (Loaded s, ds, log)"
  obtains sblocks ds4 where "SortBlocksByDependencies ident getDeps blocks = Some (sblocks, ds4)"
    "\<not> HasErrors ds4" "\<not> HasErrors ds" "log = load_ops handled order blocks sblocks"
    "s = fst (run_ops exec log s0)" "\<not> HasErrors (snd (run_ops exec log s0))"
proof -
  obtain sblocks ds4 where sort: "SortBlocksByDependencies ident getDeps blocks = Some (sblocks, ds4)"
    using assms by (auto simp: build_blocks_def Let_def split: if_splits option.splits)
  show thesis
    by (rule that [OF sort])
      (use assms sort in \<open>auto simp: build_blocks_def Let_def failed_def load_ops_def run_ops_append_fst
         run_ops_append_snd prod_eq_iff split: if_splits\<close>)
qed

text \<open>A list of blocks in an order that \<open>SortBlocksByDependencies\<close> may give.\<close>

definition in_order :: "('b \<Rightarrow> string list \<times> diag list) \<Rightarrow> 'b entry list \<Rightarrow> 'b list \<Rightarrow> 'b list \<Rightarrow> bool" where
  "in_order getDeps entries others bs \<longleftrightarrow>
     (\<exists>perm. bs = map (\<lambda>i. e_block (entries ! i)) perm @ others \<and> distinct perm \<and>
             set perm = {..<length entries} \<and> dep_ordered (dep_indices getDeps entries) perm)"

lemma sort_in_order:
  assumes "classify ident 0 blocks = (entries, others, d)"
  obtains sblocks ds where "SortBlocksByDependencies ident getDeps blocks = Some (sblocks, ds)"
    "HasErrors ds \<Longrightarrow> sblocks = []" "\<not> HasErrors ds \<Longrightarrow> in_order getDeps entries others sblocks"
  using sort_order [OF assms, of getDeps] unfolding in_order_def by (metis (full_types))

text \<open>C31: A build that meets an error gives no configuration; and either it has processed nothing, which is so
  for an error before the processing and for a circular dependency, or it has processed every block once,
  each after all the blocks it depends on, also when the processing of one has failed.\<close>

theorem build_order:
  assumes "classify ident 0 blocks = (entries, others, d)"
  shows "\<exists>res ds log. build_blocks exec handled order ident getDeps blocks start = Some (res, ds, log) \<and>
           (HasErrors ds \<longleftrightarrow> (\<forall>s. res \<noteq> Loaded s)) \<and>
           (processed log = [] \<or> (\<exists>bs. in_order getDeps entries others bs \<and> processed log = filter handled bs))"
proof -
  obtain sblocks ds where sort: "SortBlocksByDependencies ident getDeps blocks = Some (sblocks, ds)"
    and r: "HasErrors ds \<Longrightarrow> sblocks = []" "\<not> HasErrors ds \<Longrightarrow> in_order getDeps entries others sblocks"
    using sort_in_order [OF assms, of getDeps] by blast
  have "filter handled sblocks = [] \<or> (\<exists>bs. in_order getDeps entries others bs \<and> filter handled sblocks = filter handled bs)"
    using r by (cases "HasErrors ds") auto
  then show ?thesis
    by (cases start) (simp add: build_blocks_def Let_def sort failed_def prod_eq_iff)
qed

theorem build_order_witness:
  "\<exists>res ds log. build_blocks (\<lambda>op s. (s + 1, [])) (\<lambda>b. True) [''bus''] two_blocks b_needs_a [0, 7, 1] ([], 0 :: nat) =
       Some (res, ds, log) \<and> (HasErrors ds \<longleftrightarrow> (\<forall>s. res \<noteq> Loaded s))"
proof -
  obtain es os ds where "classify two_blocks 0 [0, 7, 1] = (es, os, ds)"
    by (cases "classify two_blocks 0 [0, 7, 1]")
  from build_order [OF this, of "\<lambda>op s. (s + 1, [])" "\<lambda>b. True" "[''bus'']" b_needs_a "([], 0 :: nat)"]
  show ?thesis by blast
qed

end
