(* ===== verification/Fsm_Block.thy ===== *)
theory Fsm_Block
  imports Cond_Common Loader Trigger_Runs
begin

text \<open>
  Blocks that declare finite state machines (\<open>config/fsm.go\<close>) and the implicit dependencies on metrics and
  tracing backends (\<open>config/blocks.go\<close>): the dependencies of a block, its parsing to the definition of a
  machine, the processing of the block, the context of a hook, and the edge detection of a \<open>when\<close>
  expression, whose callbacks run concurrently. The machine itself is a package outside the repository:
  whether it accepts a state, an event or a definition is the record \<open>fsm_package\<close>. Attributes come
  in any order; a topic is a text or no text.
\<close>

section \<open>Blocks and definitions\<close>

datatype 'e fsm_block =
    FsmBlock (fb_Type: string) (fb_Labels: "string list") (fb_Attrs: "(string \<times> 'e) list") (fb_Blocks: "'e fsm_block list")

record 'e StateDef =
  sd_Name :: string
  sd_OnInit :: "'e option"
  sd_OnEntry :: "'e option"
  sd_OnExit :: "'e option"
  sd_OnEvent :: "'e option"

record 'e TransitionDef =
  td_FromState :: string
  td_ToState :: string
  td_Guard :: "'e option"
  td_Action :: "'e option"

record 'e EventDef =
  ed_Name :: string
  ed_TopicPattern :: string
  ed_HasWhen :: bool
  ed_Transitions :: "'e TransitionDef list"

record 'e Definition =
  fd_InitialState :: string
  fd_QueueSize :: "int option"
  fd_ShutdownEvent :: "string option"
  fd_States :: "'e StateDef list"
  fd_Events :: "'e EventDef list"
  fd_OnChange :: "'e option"
  fd_OnError :: "'e option"

text \<open>The package: a reason to refuse, if there is one.\<close>

record 'e fsm_package =
  fp_AddState :: "'e Definition \<Rightarrow> 'e StateDef \<Rightarrow> string option"
  fp_AddEvent :: "'e Definition \<Rightarrow> 'e EventDef \<Rightarrow> string option"
  fp_Validate :: "'e Definition \<Rightarrow> string option"

definition NewDefinition :: "string \<Rightarrow> 'e Definition" where
  "NewDefinition initial =
     \<lparr>fd_InitialState = initial, fd_QueueSize = None, fd_ShutdownEvent = None, fd_States = [], fd_Events = [],
      fd_OnChange = None, fd_OnError = None\<rparr>"

text \<open>What the configuration's evaluator gives for an expression: a value of a storage key, a topic, and
  the references of a reactive expression.\<close>

record ('e, 'v, 'w) fsm_eval =
  fe_value :: "'e \<Rightarrow> diag list \<times> 'v"
  fe_topic :: "'v \<Rightarrow> string option"
  fe_refs :: "'e \<Rightarrow> 'w traversal list"

section \<open>Dependencies\<close>

record BackendBlockIDs =
  bb_All :: "string list"
  bb_Tracing :: "string list"

definition backend_add :: "string list \<Rightarrow> string list \<Rightarrow> string list \<Rightarrow> string list \<Rightarrow> string list" where
  "backend_add deps ids set_attrs attrs =
     (if length (filter (\<lambda>a. a \<in> set set_attrs) attrs) = length attrs then deps else deps @ ids)"

definition AddBackendDeps :: "BackendBlockIDs \<Rightarrow> string list \<Rightarrow> string list \<Rightarrow> string list \<Rightarrow> string list" where
  "AddBackendDeps b deps set_attrs attrs = backend_add deps (bb_All b) set_attrs attrs"

definition AddTracingBackendDeps :: "BackendBlockIDs \<Rightarrow> string list \<Rightarrow> string list \<Rightarrow> string list \<Rightarrow> string list" where
  "AddTracingBackendDeps b deps set_attrs attrs = backend_add deps (bb_Tracing b) set_attrs attrs"

definition IsBackendBlock :: "string \<Rightarrow> string list \<Rightarrow> bool" where
  "IsBackendBlock ty labels =
     (if length labels \<noteq> 2 then False
      else if ty = ''server'' then labels ! 0 = ''metrics''
      else if ty = ''client'' then labels ! 0 = ''otlp''
      else False)"

definition GetBlockDependencyId :: "string list \<Rightarrow> string" where
  "GetBlockDependencyId labels = (if length labels = 1 then ''fsm.'' @ labels ! 0 else [])"

definition hook_attrs :: "string list" where
  "hook_attrs = [''action'', ''guard'', ''on_init'', ''on_entry'', ''on_exit'', ''on_event'', ''on_change'', ''on_error'']"

text \<open>The names of the attributes that are set.\<close>

fun body_attrs :: "hcl_body \<Rightarrow> string list" where
  "body_attrs (Body attrs _) = map fst attrs"

text \<open>\<open>None\<close> is the panic of a block without labels.\<close>

definition GetBlockDependencies :: "BackendBlockIDs \<Rightarrow> string list \<Rightarrow> hcl_body \<Rightarrow> string list option" where
  "GetBlockDependencies b labels body =
     (case labels of
        [] \<Rightarrow> None
      | name # _ \<Rightarrow>
          Some (AddBackendDeps b (filter (\<lambda>d. d \<noteq> ''fsm.'' @ name) (ExtractBlockDependencies body hook_attrs))
                  (body_attrs body) [''tracing'']))"

section \<open>Parsing\<close>

fun state_attrs :: "(string \<times> 'e) list \<Rightarrow> 'e StateDef \<Rightarrow> diag list + 'e StateDef" where
  "state_attrs [] sd = Inr sd"
| "state_attrs ((a, e) # as) sd =
     (if a = ''on_init'' then state_attrs as (sd\<lparr>sd_OnInit := Some e\<rparr>)
      else if a = ''on_entry'' then state_attrs as (sd\<lparr>sd_OnEntry := Some e\<rparr>)
      else if a = ''on_exit'' then state_attrs as (sd\<lparr>sd_OnExit := Some e\<rparr>)
      else if a = ''on_event'' then state_attrs as (sd\<lparr>sd_OnEvent := Some e\<rparr>)
      else Inl [DiagError ''Unexpected attribute''])"

definition empty_state :: "string \<Rightarrow> 'e StateDef" where
  "empty_state name =
     \<lparr>sd_Name = name, sd_OnInit = None, sd_OnEntry = None, sd_OnExit = None, sd_OnEvent = None\<rparr>"

definition parseStateBlock :: "'e fsm_package \<Rightarrow> 'e fsm_block \<Rightarrow> 'e Definition \<Rightarrow> 'e Definition \<times> diag list" where
  "parseStateBlock P b def =
     (case fb_Labels b of
        [name] \<Rightarrow>
          (case state_attrs (fb_Attrs b) (empty_state name) of
             Inl ds \<Rightarrow> (def, ds)
           | Inr sd \<Rightarrow>
               (case fp_AddState P def sd of
                  Some e \<Rightarrow> (def, [DiagError ''Invalid state''])
                | None \<Rightarrow> (def\<lparr>fd_States := fd_States def @ [sd]\<rparr>, [])))
      | _ \<Rightarrow> (def, [DiagError ''Invalid state block'']))"

fun transition_attrs :: "(string \<times> 'e) list \<Rightarrow> 'e TransitionDef \<Rightarrow> diag list + 'e TransitionDef" where
  "transition_attrs [] td = Inr td"
| "transition_attrs ((a, e) # as) td =
     (if a = ''guard'' then transition_attrs as (td\<lparr>td_Guard := Some e\<rparr>)
      else if a = ''action'' then transition_attrs as (td\<lparr>td_Action := Some e\<rparr>)
      else Inl [DiagError ''Unexpected attribute''])"

definition empty_transition :: "string \<Rightarrow> string \<Rightarrow> 'e TransitionDef" where
  "empty_transition x y = \<lparr>td_FromState = x, td_ToState = y, td_Guard = None, td_Action = None\<rparr>"

definition parseTransitionBlock :: "'e fsm_block \<Rightarrow> 'e EventDef \<Rightarrow> 'e EventDef \<times> diag list" where
  "parseTransitionBlock b ed =
     (case fb_Labels b of
        [x, y] \<Rightarrow>
          (case transition_attrs (fb_Attrs b) (empty_transition x y) of
             Inl ds \<Rightarrow> (ed, ds)
           | Inr td \<Rightarrow> (ed\<lparr>ed_Transitions := ed_Transitions ed @ [td]\<rparr>, []))
      | _ \<Rightarrow> (ed, [DiagError ''Invalid transition block'']))"

fun transition_blocks :: "'e fsm_block list \<Rightarrow> 'e EventDef \<Rightarrow> 'e EventDef \<times> diag list" where
  "transition_blocks [] ed = (ed, [])"
| "transition_blocks (b # bs) ed =
     (let (ed1, ds1) = (if fb_Type b \<noteq> ''transition'' then (ed, [DiagError ''Unexpected block type''])
                        else parseTransitionBlock b ed);
          (ed2, ds2) = transition_blocks bs ed1
      in (ed2, ds1 @ ds2))"

text \<open>What the handler keeps while it parses: the storage of each machine, the reactive expressions with
  their event, and the edge state of each event.\<close>

record ('v, 'w) fsm_handler =
  fh_initialStorage :: "string \<Rightarrow> (string \<rightharpoonup> 'v)"
  fh_reactiveExprs :: "string \<Rightarrow> (string \<times> 'w ReactiveExpr) list"
  fh_edgeState :: "string \<Rightarrow> (string \<rightharpoonup> bool)"

definition wireReactiveEvent ::
  "('e, 'v, 'w) fsm_eval \<Rightarrow> string \<Rightarrow> string \<Rightarrow> 'e \<Rightarrow> ('v, 'w) fsm_handler \<Rightarrow> ('v, 'w) fsm_handler \<times> diag list" where
  "wireReactiveEvent E fsmName eventName expr h =
     (let (re, ds) = NewReactiveExpr (fe_refs E expr)
      in (h\<lparr>fh_edgeState := (fh_edgeState h)(fsmName := (fh_edgeState h fsmName)(eventName \<mapsto> False)),
            fh_reactiveExprs := (fh_reactiveExprs h)(fsmName := fh_reactiveExprs h fsmName @ [(eventName, re)])\<rparr>, ds))"

fun event_attrs ::
  "('e, 'v, 'w) fsm_eval \<Rightarrow> string \<Rightarrow> (string \<times> 'e) list \<Rightarrow> 'e EventDef \<Rightarrow> ('v, 'w) fsm_handler \<Rightarrow>
     (diag list + 'e EventDef) \<times> ('v, 'w) fsm_handler" where
  "event_attrs E fsmName [] ed h = (Inr ed, h)"
| "event_attrs E fsmName ((a, e) # as) ed h =
     (if a = ''topic'' then
        (let (ds, v) = fe_value E e
         in if HasErrors ds then (Inl ds, h)
            else case fe_topic E v of
                   None \<Rightarrow> (Inl [DiagError ''Invalid topic''], h)
                 | Some s \<Rightarrow> event_attrs E fsmName as (ed\<lparr>ed_TopicPattern := s\<rparr>) h)
      else if a = ''when'' then
        (let (h1, ds) = wireReactiveEvent E fsmName (ed_Name ed) e h
         in if HasErrors ds then (Inl ds, h1)
            else event_attrs E fsmName as (ed\<lparr>ed_HasWhen := True\<rparr>) h1)
      else (Inl [DiagError ''Unexpected attribute''], h))"

definition empty_event :: "string \<Rightarrow> 'e EventDef" where
  "empty_event name = \<lparr>ed_Name = name, ed_TopicPattern = [], ed_HasWhen = False, ed_Transitions = []\<rparr>"

definition parseEventBlock ::
  "'e fsm_package \<Rightarrow> ('e, 'v, 'w) fsm_eval \<Rightarrow> string \<Rightarrow> 'e fsm_block \<Rightarrow> 'e Definition \<times> ('v, 'w) fsm_handler \<Rightarrow>
     ('e Definition \<times> ('v, 'w) fsm_handler) \<times> diag list" where
  "parseEventBlock P E fsmName b s =
     (let (def, h) = s in
      case fb_Labels b of
        [name] \<Rightarrow>
          (case event_attrs E fsmName (fb_Attrs b) (empty_event name) h of
             (Inl ds, h1) \<Rightarrow> ((def, h1), ds)
           | (Inr ed, h1) \<Rightarrow>
               (let (ed1, ds) = transition_blocks (fb_Blocks b) ed
                in case fp_AddEvent P def ed1 of
                     Some e \<Rightarrow> ((def, h1), ds @ [DiagError ''Invalid event''])
                   | None \<Rightarrow> ((def\<lparr>fd_Events := fd_Events def @ [ed1]\<rparr>, h1), ds)))
      | _ \<Rightarrow> ((def, h), [DiagError ''Invalid event block'']))"

fun storage_attrs ::
  "('e, 'v, 'w) fsm_eval \<Rightarrow> string \<Rightarrow> (string \<times> 'e) list \<Rightarrow> ('v, 'w) fsm_handler \<Rightarrow>
     ('v, 'w) fsm_handler \<times> diag list" where
  "storage_attrs E fsmName [] h = (h, [])"
| "storage_attrs E fsmName ((a, e) # as) h =
     (let (ds, v) = fe_value E e;
          h1 = (if HasErrors ds then h
                else h\<lparr>fh_initialStorage := (fh_initialStorage h)(fsmName := (fh_initialStorage h fsmName)(a \<mapsto> v))\<rparr>);
          (h2, ds2) = storage_attrs E fsmName as h1
      in (h2, ds @ ds2))"

definition parseStorageBlock ::
  "('e, 'v, 'w) fsm_eval \<Rightarrow> string \<Rightarrow> 'e fsm_block \<Rightarrow> ('v, 'w) fsm_handler \<Rightarrow> ('v, 'w) fsm_handler \<times> diag list" where
  "parseStorageBlock E fsmName b h =
     (if fb_Labels b \<noteq> [] then (h, [DiagError ''Invalid storage block''])
      else storage_attrs E fsmName (fb_Attrs b) h)"

fun parseSubBlocks ::
  "'e fsm_package \<Rightarrow> ('e, 'v, 'w) fsm_eval \<Rightarrow> string \<Rightarrow> 'e fsm_block list \<Rightarrow> 'e Definition \<times> ('v, 'w) fsm_handler \<Rightarrow>
     ('e Definition \<times> ('v, 'w) fsm_handler) \<times> diag list" where
  "parseSubBlocks P E fsmName [] s = (s, [])"
| "parseSubBlocks P E fsmName (b # bs) s =
     (let (def, h) = s;
          (s1, ds1) =
            (if fb_Type b = ''state'' then (let (def1, ds) = parseStateBlock P b def in ((def1, h), ds))
             else if fb_Type b = ''event'' then parseEventBlock P E fsmName b s
             else if fb_Type b = ''storage'' then (let (h1, ds) = parseStorageBlock E fsmName b h in ((def, h1), ds))
             else (s, [DiagError ''Unexpected block type'']));
          (s2, ds2) = parseSubBlocks P E fsmName bs s1
      in (s2, ds1 @ ds2))"

section \<open>Processing a block\<close>

record 'e FsmTopLevel =
  ft_Initial :: string
  ft_QueueSize :: "int option"
  ft_ShutdownEvent :: "string option"
  ft_Disabled :: bool
  ft_Tracing :: "'e option"
  ft_OnChange :: "'e option"
  ft_OnError :: "'e option"
  ft_Body :: "'e fsm_block list option"

datatype 'e fsm_instance = Reserved | Placeholder | Configured "'e Definition"

text \<open>What the configuration holds of the machines. Capsules are known by their names: the keys of
  \<open>CtyFsmMap\<close>, and those of the constant \<open>fsm\<close> where there is one.\<close>

record ('e, 'v, 'w) fsm_config =
  fc_instances :: "string \<rightharpoonup> 'e fsm_instance"
  fc_CtyFsmMap :: "string set"
  fc_constant :: "string set option"
  fc_storage :: "string \<Rightarrow> (string \<rightharpoonup> 'v)"
  fc_Startables :: "(string \<times> (string \<times> 'w ReactiveExpr) list) list"
  fc_Stoppables :: "(string \<times> (string \<times> 'w ReactiveExpr) list) list"
  fc_InFlight :: "string list"

definition Preprocess :: "string list \<Rightarrow> ('e, 'v, 'w) fsm_config \<Rightarrow> ('e, 'v, 'w) fsm_config \<times> diag list" where
  "Preprocess labels st =
     (case labels of
        [name] \<Rightarrow>
          (if fc_instances st name \<noteq> None then (st, [DiagError ''Duplicate fsm''])
           else (st\<lparr>fc_instances := (fc_instances st)(name \<mapsto> Reserved)\<rparr>, []))
      | _ \<Rightarrow> (st, [DiagError ''Invalid fsm block'']))"

definition FinishPreprocessing :: "('e, 'v, 'w) fsm_config \<Rightarrow> ('e, 'v, 'w) fsm_config" where
  "FinishPreprocessing st =
     (let names = fc_CtyFsmMap st \<union> dom (fc_instances st)
      in st\<lparr>fc_instances := (\<lambda>n. if fc_instances st n = None then None else Some Placeholder),
            fc_CtyFsmMap := names,
            fc_constant := (if names = {} then fc_constant st else Some names)\<rparr>)"

definition disable_fsm :: "string \<Rightarrow> ('e, 'v, 'w) fsm_config \<Rightarrow> ('e, 'v, 'w) fsm_config" where
  "disable_fsm name st =
     (let names = fc_CtyFsmMap st - {name}
      in st\<lparr>fc_instances := (fc_instances st)(name := None), fc_CtyFsmMap := names,
            fc_constant := (if names = {} then None else Some names)\<rparr>)"

text \<open>The warnings of states that have \<open>on_init\<close> but are not the initial one.\<close>

definition init_warnings :: "'e Definition \<Rightarrow> diag list" where
  "init_warnings def =
     map (\<lambda>_. DiagWarning ''on_init on non-initial state'')
       (filter (\<lambda>sd. sd_Name sd \<noteq> fd_InitialState def \<and> sd_OnInit sd \<noteq> None) (fd_States def))"

definition base_definition :: "'e FsmTopLevel \<Rightarrow> 'e Definition" where
  "base_definition block =
     (NewDefinition (ft_Initial block))\<lparr>fd_QueueSize := ft_QueueSize block, fd_ShutdownEvent := ft_ShutdownEvent block\<rparr>"

text \<open>The instance becomes the machine, and is registered to be started, stopped and waited for.\<close>

definition install_fsm ::
  "string \<Rightarrow> 'e Definition \<Rightarrow> ('v, 'w) fsm_handler \<Rightarrow> ('e, 'v, 'w) fsm_config \<Rightarrow> ('e, 'v, 'w) fsm_config" where
  "install_fsm name def h st =
     st\<lparr>fc_instances := (fc_instances st)(name \<mapsto> Configured def),
        fc_storage := (fc_storage st)(name := fc_storage st name ++ fh_initialStorage h name),
        fc_Startables := fc_Startables st @ [(name, fh_reactiveExprs h name)],
        fc_Stoppables := fc_Stoppables st @ [(name, fh_reactiveExprs h name)],
        fc_InFlight := fc_InFlight st @ [''fsm.'' @ name]\<rparr>"

text \<open>\<open>decoded\<close> is the result of HCL's body decoder, and \<open>tracer\<close> the diagnostics of resolving the tracer
  provider.\<close>

definition Process ::
  "'e fsm_package \<Rightarrow> ('e, 'v, 'w) fsm_eval \<Rightarrow> ('e option \<Rightarrow> diag list) \<Rightarrow> string \<Rightarrow> diag list \<times> 'e FsmTopLevel \<Rightarrow>
     ('e, 'v, 'w) fsm_config \<times> ('v, 'w) fsm_handler \<Rightarrow>
     (('e, 'v, 'w) fsm_config \<times> ('v, 'w) fsm_handler) \<times> diag list" where
  "Process P E tracer name decoded s =
     (let (ds, block) = decoded; (st, h) = s in
      if HasErrors ds then ((st, h), ds)
      else if ft_Disabled block then ((disable_fsm name st, h), [])
      else case ft_Body block of
             None \<Rightarrow> ((st, h), [DiagError ''Internal error''])
           | Some blocks \<Rightarrow>
               (let ((def, h1), ds1) = parseSubBlocks P E name blocks (base_definition block, h) in
                if HasErrors (ds @ ds1) then ((st, h1), ds @ ds1)
                else if fp_Validate P def \<noteq> None then ((st, h1), [DiagError ''Invalid FSM definition''])
                else
                  let def1 = def\<lparr>fd_OnChange := ft_OnChange block, fd_OnError := ft_OnError block\<rparr>
                  in if HasErrors (tracer (ft_Tracing block)) then ((st, h1), tracer (ft_Tracing block))
                     else ((install_fsm name def1 h1 st, h1), ds @ ds1 @ init_warnings def)))"

section \<open>Hooks\<close>

record ('n, 'i, 'c) HookContext =
  hx_Event :: string
  hx_OldState :: string
  hx_NewState :: string
  hx_Topic :: string
  hx_Error :: string
  hx_Hook :: string
  hx_EventValue :: "'n cty_value option"
  hx_EventFields :: "(string \<times> string) list"
  hx_TopicParams :: "(string \<times> string) list"
  hx_Fsm :: "'i option"
  hx_UserData :: "'c option"

datatype ('n, 'i) hook_attr = HaText string | HaValue "'n cty_value" | HaObject "(string \<times> string) list" | HaNull | HaFsm 'i

definition text_attr :: "string \<Rightarrow> string \<Rightarrow> (string \<times> ('n, 'i) hook_attr) list" where
  "text_attr k v = (if v \<noteq> [] then [(k, HaText v)] else [])"

definition object_attr :: "(string \<times> string) list \<Rightarrow> ('n, 'i) hook_attr" where
  "object_attr kvs = (if 0 < length kvs then HaObject kvs else HaNull)"

definition buildHookEvalContext :: "('n, 'i, 'c) HookContext \<Rightarrow> (string \<times> ('n, 'i) hook_attr) list" where
  "buildHookEvalContext hx =
     text_attr ''event'' (hx_Event hx) @ text_attr ''old_state'' (hx_OldState hx) @
     text_attr ''new_state'' (hx_NewState hx) @ text_attr ''topic'' (hx_Topic hx) @
     text_attr ''error'' (hx_Error hx) @ text_attr ''hook'' (hx_Hook hx) @
     [(''event_value'',
         case hx_EventValue hx of
           None \<Rightarrow> HaNull
         | Some v \<Rightarrow> if v_IsKnown v \<and> \<not> v_IsNull v then HaValue v else HaNull),
      (''event_fields'', object_attr (hx_EventFields hx)), (''topic_params'', object_attr (hx_TopicParams hx))] @
     (case hx_Fsm hx of None \<Rightarrow> [] | Some i \<Rightarrow> [(''fsm'', HaFsm i)])"

text \<open>\<open>build\<close> makes the context of the expression from these attributes, or fails; \<open>ev\<close> evaluates. The context
  is kept for the other hooks that share the hook context.\<close>

definition evalHookExpr ::
  "((string \<times> ('n, 'i) hook_attr) list \<Rightarrow> string + 'c) \<Rightarrow> ('e \<Rightarrow> 'c \<Rightarrow> diag list) \<Rightarrow> 'e \<Rightarrow> ('n, 'i, 'c) HookContext \<Rightarrow>
     (string + diag list) \<times> ('n, 'i, 'c) HookContext" where
  "evalHookExpr build ev expr hx =
     (case (case hx_UserData hx of Some c \<Rightarrow> Inr c | None \<Rightarrow> build (buildHookEvalContext hx)) of
        Inl e \<Rightarrow> (Inl e, hx)
      | Inr c \<Rightarrow> (Inr (ev expr c), hx\<lparr>hx_UserData := Some c\<rparr>))"

text \<open>The guard of a transition; \<open>None\<close> is the panic of asking a value that is null or unknown.\<close>

definition eval_guard ::
  "((string \<times> ('n, 'i) hook_attr) list \<Rightarrow> string + 'c) \<Rightarrow> ('e \<Rightarrow> 'c \<Rightarrow> 'n eval_result) \<Rightarrow> 'e \<Rightarrow> ('n, 'i, 'c) HookContext \<Rightarrow>
     (string + bool) option" where
  "eval_guard build ev expr hx =
     (case build (buildHookEvalContext hx) of
        Inl e \<Rightarrow> Some (Inl e)
      | Inr c \<Rightarrow>
          (case ev expr c of
             None \<Rightarrow> Some (Inl ''guard evaluation failed'')
           | Some v \<Rightarrow>
               if v_Type v \<noteq> TBool then Some (Inl ''guard must return bool'') else map_option Inr (v_True v)))"

section \<open>Reactive events\<close>






section \<open>Start and stop\<close>

datatype fsm_action = StartInstance | StartReactive string | StopReactive string | StopInstance

text \<open>The actions of starting, up to the first that fails, and whether all went well.\<close>

fun start_reactive :: "(string \<Rightarrow> bool) \<Rightarrow> string list \<Rightarrow> fsm_action list \<times> bool" where
  "start_reactive ok [] = ([], True)"
| "start_reactive ok (e # es) =
     (if ok e then (let (as, r) = start_reactive ok es in (StartReactive e # as, r)) else ([StartReactive e], False))"

definition fsm_Start :: "bool \<Rightarrow> (string \<Rightarrow> bool) \<Rightarrow> string list \<Rightarrow> fsm_action list \<times> bool" where
  "fsm_Start inst_ok ok es =
     (if \<not> inst_ok then ([StartInstance], False)
      else (let (as, r) = start_reactive ok es in (StartInstance # as, r)))"

definition fsm_Stop :: "string list \<Rightarrow> fsm_action list" where
  "fsm_Stop es = map StopReactive es @ [StopInstance]"

section \<open>The handler in a build\<close>

record 'e fsm_source =
  fs_labels :: "string list"
  fs_decoded :: "diag list \<times> 'e FsmTopLevel"

fun fsm_exec ::
  "'e fsm_package \<Rightarrow> ('e, 'v, 'w) fsm_eval \<Rightarrow> ('e option \<Rightarrow> diag list) \<Rightarrow> 'e fsm_source load_op \<Rightarrow>
     ('e, 'v, 'w) fsm_config \<times> ('v, 'w) fsm_handler \<Rightarrow>
     (('e, 'v, 'w) fsm_config \<times> ('v, 'w) fsm_handler) \<times> diag list" where
  "fsm_exec P E tracer (OpPreprocess b) (st, h) = (case Preprocess (fs_labels b) st of (st', ds) \<Rightarrow> ((st', h), ds))"
| "fsm_exec P E tracer (OpFinishPreprocessing t) (st, h) =
     (if t = ''fsm'' then ((FinishPreprocessing st, h), []) else ((st, h), []))"
| "fsm_exec P E tracer (OpProcess b) (st, h) = Process P E tracer (fs_labels b ! 0) (fs_decoded b) (st, h)"
| "fsm_exec P E tracer _ s = (s, [])"

section \<open>Names\<close>

text \<open>The constant \<open>fsm\<close> is there exactly when there is a machine, and has the machines as its attributes;
  every machine has an instance.\<close>

definition fsm_names_ok :: "('e, 'v, 'w) fsm_config \<Rightarrow> bool" where
  "fsm_names_ok st \<longleftrightarrow>
     fc_constant st = (if fc_CtyFsmMap st = {} then None else Some (fc_CtyFsmMap st)) \<and>
     fc_CtyFsmMap st \<subseteq> dom (fc_instances st)"

lemma Process_fields:
  assumes "Process P E tracer name decoded (st, h) = ((st', h'), ds)"
  shows "st' = st \<or> st' = disable_fsm name st \<or> (\<exists>def h1. st' = install_fsm name def h1 st)"
  using assms by (auto simp: Process_def Let_def split: prod.splits if_splits option.splits)

lemma fsm_names_step: "fsm_names_ok (fst s) \<Longrightarrow> fsm_names_ok (fst (fst (fsm_exec P E tracer op s)))"
proof (cases op)
  case (OpProcess b)
  assume ok: "fsm_names_ok (fst s)"
  obtain st h where s: "s = (st, h)" by (cases s)
  obtain st' h' ds where p: "Process P E tracer (fs_labels b ! 0) (fs_decoded b) (st, h) = ((st', h'), ds)"
    by (metis surj_pair)
  show ?thesis
    using Process_fields [OF p] p ok
    by (auto simp: OpProcess s fsm_names_ok_def disable_fsm_def install_fsm_def Let_def)
qed (cases s; auto simp: fsm_names_ok_def Preprocess_def FinishPreprocessing_def Let_def
       split: list.splits if_splits prod.splits)+

interpretation fsm_names: invariant_machine "fsm_exec P E tracer" "\<lambda>s. fsm_names_ok (fst s)" "\<lambda>_. True" for P E tracer
  by unfold_locales (rule fsm_names_step)

text \<open>The machines a pass leaves.\<close>

definition fsm_name :: "'e fsm_source \<Rightarrow> string" where
  "fsm_name b = fs_labels b ! 0"

definition fsm_disabled :: "'e fsm_source \<Rightarrow> bool" where
  "fsm_disabled b = ft_Disabled (snd (fs_decoded b))"

lemma run_preprocess:
  "\<not> HasErrors (snd (run_ops (fsm_exec P E tracer) (map OpPreprocess bs) s)) \<Longrightarrow>
     (case fst (run_ops (fsm_exec P E tracer) (map OpPreprocess bs) s) of (st', h') \<Rightarrow>
        dom (fc_instances st') = dom (fc_instances (fst s)) \<union> fsm_name ` set bs \<and>
        fc_CtyFsmMap st' = fc_CtyFsmMap (fst s) \<and> distinct (map fsm_name bs) \<and>
        fsm_name ` set bs \<inter> dom (fc_instances (fst s)) = {})"
proof (induction bs arbitrary: s)
  case (Cons b bs)
  obtain st h where s: "s = (st, h)" by (cases s)
  have "\<not> HasErrors (snd (Preprocess (fs_labels b) st))"
    using Cons.prems by (auto simp: s split: prod.splits)
  then obtain name where name: "fs_labels b = [name]" "fc_instances st name = None"
    by (auto simp: Preprocess_def split: list.splits if_splits)
  then show ?case
    using Cons.IH [of "fst (fsm_exec P E tracer (OpPreprocess b) s)"] Cons.prems
    by (auto simp: s fsm_name_def Preprocess_def split: prod.splits)
qed (simp split: prod.split)

lemma finish_twice: "FinishPreprocessing (FinishPreprocessing st) = FinishPreprocessing st"
proof -
  have d: "dom (\<lambda>n. if fc_instances st n = None then None else Some Placeholder) = dom (fc_instances st)"
    by (auto split: if_splits)
  have i: "((if fc_instances st n = None then None else Some Placeholder) = None) = (fc_instances st n = None)" for n
    by simp
  show ?thesis by (simp add: FinishPreprocessing_def Let_def d i Un_assoc)
qed

lemma run_finish_preprocess:
  "fst (fst (run_ops (fsm_exec P E tracer) (map OpFinishPreprocessing ts) s)) =
     (if ''fsm'' \<in> set ts then FinishPreprocessing (fst s) else fst s)"
proof (induction ts arbitrary: s)
  case (Cons t ts)
  then show ?case by (cases s) (auto simp: finish_twice)
qed simp

lemma run_process:
  "\<not> HasErrors (snd (run_ops (fsm_exec P E tracer) (map OpProcess bs) s)) \<Longrightarrow>
     fc_CtyFsmMap (fst (fst (run_ops (fsm_exec P E tracer) (map OpProcess bs) s))) =
       fc_CtyFsmMap (fst s) - fsm_name ` {b \<in> set bs. fsm_disabled b}"
proof (induction bs arbitrary: s)
  case (Cons b bs)
  obtain st h where s: "s = (st, h)" by (cases s)
  let ?r = "Process P E tracer (fs_labels b ! 0) (fs_decoded b) (st, h)"
  have "\<not> HasErrors (snd ?r)" using Cons.prems by (simp add: s)
  then have "fc_CtyFsmMap (fst (fst ?r)) = (if fsm_disabled b then fc_CtyFsmMap st - {fsm_name b} else fc_CtyFsmMap st)"
    by (auto simp: Process_def Let_def fsm_disabled_def fsm_name_def disable_fsm_def install_fsm_def
        split: prod.splits option.splits if_splits)
  then show ?case using Cons.IH [of "fst ?r"] Cons.prems by (auto simp: s)
qed simp

lemma run_idle:
  "(\<And>op s. op \<in> set ops \<Longrightarrow> fsm_exec P E tracer op s = (s, [])) \<Longrightarrow>
     run_ops (fsm_exec P E tracer) ops s = (s, [])"
proof (induction ops)
  case (Cons op ops)
  then show ?case by (intro prod_eqI) simp_all
qed simp

section \<open>Properties of names\<close>

lemma sort_set:
  assumes "SortBlocksByDependencies ident getDeps blocks = Some (sblocks, ds)" and "\<not> HasErrors ds"
  shows "set sblocks = set blocks"
proof -
  obtain entries others d where "classify ident 0 blocks = (entries, others, d)" by (metis surj_pair)
  from sort_order [OF this, of getDeps] assms have "mset sblocks = mset blocks" by auto
  then show ?thesis by (rule mset_eq_setD)
qed

definition no_fsms :: "('e, 'v, 'w) fsm_config" where
  "no_fsms = \<lparr>fc_instances = Map.empty, fc_CtyFsmMap = {}, fc_constant = None, fc_storage = (\<lambda>_. Map.empty),
     fc_Startables = [], fc_Stoppables = [], fc_InFlight = []\<rparr>"

text \<open>When a configuration has loaded, the constant \<open>fsm\<close> has exactly the machines that are not disabled as
  its attributes, in whatever order the blocks were processed, and there is no such constant when all are
  disabled.\<close>

theorem fsm_names_loaded:
  assumes "build_blocks (fsm_exec P E tracer) handled order ident getDeps blocks ([], (no_fsms, h0)) =
             Some (Loaded (st, h), ds, ops)"
    and "''fsm'' \<in> set order"
  shows "fc_constant st =
           (let names = fsm_name ` {b \<in> set blocks. handled b \<and> \<not> fsm_disabled b}
            in if names = {} then None else Some names)"
proof -
  let ?X = "fsm_exec P E tracer" and ?bs = "filter handled blocks"
  obtain sblocks ds4 where l: "SortBlocksByDependencies ident getDeps blocks = Some (sblocks, ds4)"
    "\<not> HasErrors ds4" "ops = load_ops handled order blocks sblocks" "(st, h) = fst (run_ops ?X ops (no_fsms, h0))"
    "\<not> HasErrors (snd (run_ops ?X ops (no_fsms, h0)))"
    using build_loaded [OF assms(1)] by metis
  define s1 where "s1 = fst (run_ops ?X (map OpPreprocess ?bs) (no_fsms, h0))"
  define s2 where "s2 = fst (run_ops ?X (map OpFinishPreprocessing order) s1)"
  define s5 where "s5 = fst (run_ops ?X (map OpProcess (filter handled sblocks)) s2)"
  have idle: "run_ops ?X (map OpFinishProcessing order) s = (s, [])" for s
    by (rule run_idle) auto
  have last: "(st, h) = s5" "\<not> HasErrors (snd (run_ops ?X (map OpPreprocess ?bs) (no_fsms, h0)))"
    "\<not> HasErrors (snd (run_ops ?X (map OpProcess (filter handled sblocks)) s2))"
    using l(4,5) idle [of s5]
    by (simp_all add: l(3) load_ops_def run_ops_append_fst run_ops_append_snd s1_def s2_def s5_def)
  have s1: "dom (fc_instances (fst s1)) = fsm_name ` set ?bs" "fc_CtyFsmMap (fst s1) = {}" "distinct (map fsm_name ?bs)"
    using run_preprocess [OF last(2)] by (auto simp: s1_def no_fsms_def split: prod.splits)
  have "fst s2 = FinishPreprocessing (fst s1)"
    using run_finish_preprocess [of P E tracer order s1] assms(2) by (simp add: s2_def)
  then have "fc_CtyFsmMap (fst s2) = fsm_name ` set ?bs"
    using s1 by (simp add: FinishPreprocessing_def Let_def)
  then have "fc_CtyFsmMap st = fsm_name ` set ?bs - fsm_name ` {b \<in> set (filter handled sblocks). fsm_disabled b}"
    using run_process [OF last(3)] last(1) by (metis fst_conv s5_def)
  also have "{b \<in> set (filter handled sblocks). fsm_disabled b} = {b \<in> set ?bs. fsm_disabled b}"
    using sort_set [OF l(1,2)] by auto
  also have "fsm_name ` set ?bs - fsm_name ` {b \<in> set ?bs. fsm_disabled b} = fsm_name ` {b \<in> set ?bs. \<not> fsm_disabled b}"
    using s1(3) by (auto simp: distinct_map inj_on_def)
  finally have map: "fc_CtyFsmMap st = fsm_name ` {b \<in> set blocks. handled b \<and> \<not> fsm_disabled b}" by auto
  have "fsm_names_ok (fst (no_fsms :: ('a, 'b, 'c) fsm_config, h0))" by (simp add: fsm_names_ok_def no_fsms_def)
  from fsm_names.run_inv [where P = P and E = E and tracer = tracer and xs = ops, OF this] have "fsm_names_ok st"
    using l(4) by (metis fst_conv)
  then show ?thesis by (simp add: fsm_names_ok_def map Let_def)
qed

section \<open>Parsing\<close>

text \<open>What a block says, attribute by attribute.\<close>

definition state_of :: "'e fsm_block \<Rightarrow> 'e StateDef" where
  "state_of b =
     (let A = map_of (fb_Attrs b)
      in \<lparr>sd_Name = fb_Labels b ! 0, sd_OnInit = A ''on_init'', sd_OnEntry = A ''on_entry'',
          sd_OnExit = A ''on_exit'', sd_OnEvent = A ''on_event''\<rparr>)"

definition transition_of :: "'e fsm_block \<Rightarrow> 'e TransitionDef" where
  "transition_of b =
     \<lparr>td_FromState = fb_Labels b ! 0, td_ToState = fb_Labels b ! 1,
      td_Guard = map_of (fb_Attrs b) ''guard'', td_Action = map_of (fb_Attrs b) ''action''\<rparr>"

definition event_of :: "('e, 'v, 'w) fsm_eval \<Rightarrow> 'e fsm_block \<Rightarrow> 'e EventDef" where
  "event_of E b =
     \<lparr>ed_Name = fb_Labels b ! 0,
      ed_TopicPattern = (case map_of (fb_Attrs b) ''topic'' of
                           None \<Rightarrow> [] | Some e \<Rightarrow> the (fe_topic E (snd (fe_value E e)))),
      ed_HasWhen = (map_of (fb_Attrs b) ''when'' \<noteq> None),
      ed_Transitions = map transition_of (fb_Blocks b)\<rparr>"

text \<open>A body has every attribute once.\<close>

fun once_each :: "'e fsm_block \<Rightarrow> bool" where
  "once_each (FsmBlock ty labels attrs blocks) \<longleftrightarrow> distinct (map fst attrs) \<and> (\<forall>b \<in> set blocks. once_each b)"

lemma once_each_attrs: "once_each b \<Longrightarrow> distinct (map fst (fb_Attrs b)) \<and> (\<forall>x \<in> set (fb_Blocks b). once_each x)"
  by (cases b) auto

lemma map_of_absent: "distinct (map fst ((a, e) # as)) \<Longrightarrow> map_of as a = None"
  by (simp add: map_of_eq_None_iff)

lemma state_attrs_exact:
  "state_attrs as sd = Inr sd' \<Longrightarrow> distinct (map fst as) \<Longrightarrow>
     sd' = \<lparr>sd_Name = sd_Name sd,
       sd_OnInit = (case map_of as ''on_init'' of None \<Rightarrow> sd_OnInit sd | Some e \<Rightarrow> Some e),
       sd_OnEntry = (case map_of as ''on_entry'' of None \<Rightarrow> sd_OnEntry sd | Some e \<Rightarrow> Some e),
       sd_OnExit = (case map_of as ''on_exit'' of None \<Rightarrow> sd_OnExit sd | Some e \<Rightarrow> Some e),
       sd_OnEvent = (case map_of as ''on_event'' of None \<Rightarrow> sd_OnEvent sd | Some e \<Rightarrow> Some e)\<rparr>"
proof (induction as sd rule: state_attrs.induct)
  case (2 a e as sd)
  then show ?case using map_of_absent [OF 2(6)] by (auto cong: option.case_cong split: if_splits)
qed simp

lemma transition_attrs_exact:
  "transition_attrs as td = Inr td' \<Longrightarrow> distinct (map fst as) \<Longrightarrow>
     td' = \<lparr>td_FromState = td_FromState td, td_ToState = td_ToState td,
       td_Guard = (case map_of as ''guard'' of None \<Rightarrow> td_Guard td | Some e \<Rightarrow> Some e),
       td_Action = (case map_of as ''action'' of None \<Rightarrow> td_Action td | Some e \<Rightarrow> Some e)\<rparr>"
proof (induction as td rule: transition_attrs.induct)
  case (2 a e as td)
  then show ?case using map_of_absent [OF 2(4)] by (auto cong: option.case_cong split: if_splits)
qed simp

lemma event_attrs_exact:
  "event_attrs E n as ed h = (Inr ed', h') \<Longrightarrow> distinct (map fst as) \<Longrightarrow>
     ed' = \<lparr>ed_Name = ed_Name ed,
       ed_TopicPattern = (case map_of as ''topic'' of
          None \<Rightarrow> ed_TopicPattern ed | Some e \<Rightarrow> the (fe_topic E (snd (fe_value E e)))),
       ed_HasWhen = (ed_HasWhen ed \<or> map_of as ''when'' \<noteq> None), ed_Transitions = ed_Transitions ed\<rparr> \<and>
     fh_reactiveExprs h' n = fh_reactiveExprs h n @
       (case map_of as ''when'' of None \<Rightarrow> [] | Some e \<Rightarrow> [(ed_Name ed, fst (NewReactiveExpr (fe_refs E e)))])"
proof (induction E n as ed h rule: event_attrs.induct)
  case (2 E n a e as ed h)
  then show ?case using map_of_absent [OF 2(4)]
    by (auto simp: wireReactiveEvent_def Let_def cong: option.case_cong split: if_splits option.splits prod.splits)
qed simp

lemma transition_attrs_error: "transition_attrs as td = Inl ds \<Longrightarrow> HasErrors ds"
  by (induction as td rule: transition_attrs.induct) (auto split: if_splits)

lemma state_attrs_error: "state_attrs as sd = Inl ds \<Longrightarrow> HasErrors ds"
  by (induction as sd rule: state_attrs.induct) (auto split: if_splits)

lemma event_attrs_error: "event_attrs E n as ed h = (Inl ds, h') \<Longrightarrow> HasErrors ds"
  by (induction E n as ed h rule: event_attrs.induct)
    (auto simp: Let_def split: if_splits option.splits prod.splits)

lemma transition_blocks_exact:
  "transition_blocks bs ed = (ed', ds) \<Longrightarrow> \<not> HasErrors ds \<Longrightarrow> \<forall>b \<in> set bs. once_each b \<Longrightarrow>
     ed' = ed\<lparr>ed_Transitions := ed_Transitions ed @ map transition_of bs\<rparr>"
proof (induction bs arbitrary: ed ed' ds)
  case (Cons b bs)
  obtain ed1 ds1 where first: "(if fb_Type b \<noteq> ''transition'' then (ed, [DiagError ''Unexpected block type''])
      else parseTransitionBlock b ed) = (ed1, ds1)" by (metis surj_pair)
  obtain ed2 ds2 where rest: "transition_blocks bs ed1 = (ed2, ds2)" by (metis surj_pair)
  have parts: "ed' = ed2" "\<not> HasErrors ds1" "\<not> HasErrors ds2"
    using Cons.prems first rest by (auto simp: Let_def simp del: if_split)
  obtain x y td where td: "fb_Labels b = [x, y]" "transition_attrs (fb_Attrs b) (empty_transition x y) = Inr td"
      "ed1 = ed\<lparr>ed_Transitions := ed_Transitions ed @ [td]\<rparr>"
    using first parts(2)
    by (auto simp: parseTransitionBlock_def dest: transition_attrs_error split: if_splits list.splits sum.splits)
  have "td = transition_of b"
    using transition_attrs_exact [OF td(2)] once_each_attrs [of b] Cons.prems(3)
    by (simp add: transition_of_def empty_transition_def td(1) split: option.splits)
  then have "ed1 = ed\<lparr>ed_Transitions := ed_Transitions ed @ [transition_of b]\<rparr>" using td(3) by simp
  then show ?case using Cons.IH [OF rest parts(3)] Cons.prems(3) parts(1) by simp
qed simp

text \<open>The \<open>when\<close> of an event.\<close>

definition reactive_of :: "('e, 'v, 'w) fsm_eval \<Rightarrow> 'e fsm_block \<Rightarrow> (string \<times> 'w ReactiveExpr) list" where
  "reactive_of E b =
     (case map_of (fb_Attrs b) ''when'' of
        None \<Rightarrow> [] | Some e \<Rightarrow> [(fb_Labels b ! 0, fst (NewReactiveExpr (fe_refs E e)))])"

lemma parse_state_exact:
  assumes "parseStateBlock P b def = (def', ds)" and "\<not> HasErrors ds" and "once_each b"
  shows "def' = def\<lparr>fd_States := fd_States def @ [state_of b]\<rparr>"
proof -
  obtain name sd where sd: "fb_Labels b = [name]" "state_attrs (fb_Attrs b) (empty_state name) = Inr sd"
      "def' = def\<lparr>fd_States := fd_States def @ [sd]\<rparr>"
    using assms(1,2)
    by (auto simp: parseStateBlock_def dest: state_attrs_error split: list.splits sum.splits option.splits)
  have "sd = state_of b"
    using state_attrs_exact [OF sd(2)] once_each_attrs [OF assms(3)]
    by (simp add: state_of_def empty_state_def sd(1) split: option.splits)
  then show ?thesis using sd(3) by simp
qed

lemma parse_event_exact:
  assumes "parseEventBlock P E n b (def, h) = ((def', h'), ds)" and "\<not> HasErrors ds" and "once_each b"
  shows "def' = def\<lparr>fd_Events := fd_Events def @ [event_of E b]\<rparr> \<and>
         fh_reactiveExprs h' n = fh_reactiveExprs h n @ reactive_of E b"
proof -
  obtain name where name: "fb_Labels b = [name]"
    using assms(1,2) by (auto simp: parseEventBlock_def split: list.splits)
  obtain r h1 where attrs: "event_attrs E n (fb_Attrs b) (empty_event name) h = (r, h1)" by (metis surj_pair)
  obtain ed where ok: "r = Inr ed"
    using assms(1,2) attrs by (cases r) (auto simp: parseEventBlock_def name dest: event_attrs_error)
  obtain ed1 ds1 where tr: "transition_blocks (fb_Blocks b) ed = (ed1, ds1)" by (metis surj_pair)
  have res: "def' = def\<lparr>fd_Events := fd_Events def @ [ed1]\<rparr>" "h' = h1" "\<not> HasErrors ds1"
    using assms(1,2) attrs ok tr by (auto simp: parseEventBlock_def name Let_def split: option.splits)
  have ed: "ed = \<lparr>ed_Name = name,
      ed_TopicPattern = (case map_of (fb_Attrs b) ''topic'' of None \<Rightarrow> [] | Some e \<Rightarrow> the (fe_topic E (snd (fe_value E e)))),
      ed_HasWhen = (map_of (fb_Attrs b) ''when'' \<noteq> None), ed_Transitions = []\<rparr>"
    "fh_reactiveExprs h1 n = fh_reactiveExprs h n @ reactive_of E b"
    using event_attrs_exact [OF attrs [unfolded ok]] once_each_attrs [OF assms(3)]
    by (simp_all add: empty_event_def reactive_of_def name cong: option.case_cong)
  have "ed1 = ed\<lparr>ed_Transitions := ed_Transitions ed @ map transition_of (fb_Blocks b)\<rparr>"
    by (rule transition_blocks_exact [OF tr res(3)]) (use once_each_attrs [OF assms(3)] in blast)
  then show ?thesis using ed res by (simp add: event_of_def name)
qed

lemma storage_keeps: "fh_reactiveExprs (fst (storage_attrs E n as h)) = fh_reactiveExprs h"
proof (induction as arbitrary: h)
  case (Cons p as)
  obtain a e where "p = (a, e)" by (cases p)
  then show ?case by (simp add: Let_def case_prod_beta Cons.IH)
qed simp

definition of_type :: "string \<Rightarrow> 'e fsm_block list \<Rightarrow> 'e fsm_block list" where
  "of_type ty bs = filter (\<lambda>b. fb_Type b = ty) bs"

text \<open>C32: Parsing without errors gives exactly what the body declares: its states, and its events with their
  topics and transitions, each in the order of declaration and with the hooks, guards and actions written in
  its own block, and one reactive expression for each event with \<open>when\<close>. The order in which attributes
  are visited does not matter.\<close>

theorem fsm_parse_exact:
  assumes "parseSubBlocks P E n bs (def, h) = ((def', h'), ds)" and "\<not> HasErrors ds"
    and "\<forall>b \<in> set bs. once_each b"
  shows "def' = def\<lparr>fd_States := fd_States def @ map state_of (of_type ''state'' bs),
                    fd_Events := fd_Events def @ map (event_of E) (of_type ''event'' bs)\<rparr> \<and>
         fh_reactiveExprs h' n = fh_reactiveExprs h n @ concat (map (reactive_of E) (of_type ''event'' bs))"
  using assms
proof (induction bs arbitrary: def h def' h' ds)
  case (Cons b bs)
  let ?first = "if fb_Type b = ''state'' then (let (def1, ds) = parseStateBlock P b def in ((def1, h), ds))
      else if fb_Type b = ''event'' then parseEventBlock P E n b (def, h)
      else if fb_Type b = ''storage'' then (let (h1, ds) = parseStorageBlock E n b h in ((def, h1), ds))
      else ((def, h), [DiagError ''Unexpected block type''])"
  obtain def1 h1 ds1 where first: "?first = ((def1, h1), ds1)" by (metis surj_pair)
  obtain def2 h2 ds2 where rest: "parseSubBlocks P E n bs (def1, h1) = ((def2, h2), ds2)" by (metis surj_pair)
  have parts: "def' = def2" "h' = h2" "\<not> HasErrors ds1" "\<not> HasErrors ds2"
    using Cons.prems(1,2) first rest by (auto simp: Let_def simp del: if_split)
  have step: "def1 = def\<lparr>fd_States := fd_States def @ map state_of (of_type ''state'' [b]),
        fd_Events := fd_Events def @ map (event_of E) (of_type ''event'' [b])\<rparr> \<and>
      fh_reactiveExprs h1 n = fh_reactiveExprs h n @ concat (map (reactive_of E) (of_type ''event'' [b]))"
  proof -
    have once: "once_each b" using Cons.prems(3) by simp
    consider (st) "fb_Type b = ''state''" | (ev) "fb_Type b = ''event''" | (sto) "fb_Type b = ''storage''"
      using first parts(3) by (auto split: if_splits)
    then show ?thesis
    proof cases
      case st
      then have "parseStateBlock P b def = (def1, ds1)" "h1 = h" using first by (auto split: prod.splits)
      then show ?thesis using parse_state_exact [of P b def def1 ds1] parts(3) once by (simp add: of_type_def st)
    next
      case ev
      then have "parseEventBlock P E n b (def, h) = ((def1, h1), ds1)" using first by simp
      then show ?thesis using parse_event_exact parts(3) once by (simp add: of_type_def ev)
    next
      case sto
      then have "parseStorageBlock E n b h = (h1, ds1)" "def1 = def" using first by (auto split: prod.splits)
      then show ?thesis using storage_keeps [of E n "fb_Attrs b" h]
        by (auto simp: of_type_def sto parseStorageBlock_def split: if_splits)
    qed
  qed
  show ?case
    using Cons.IH [OF rest parts(4)] Cons.prems(3) step parts(1,2) by (simp add: of_type_def)
qed (simp add: of_type_def)

section \<open>Events of reactive expressions\<close>








section \<open>One block, its dependencies and its hooks\<close>

lemma init_warnings_only [simp]: "\<not> HasErrors (init_warnings def)"
  by (simp add: init_warnings_def HasErrors_def list_ex_iff)

text \<open>Processing a block that is not disabled either reports an error and registers nothing, or configures the
  instance with the definition parsed and registers it once to be started, stopped and waited for.\<close>

theorem process_outcome:
  assumes "Process P E tracer name (d0, blk) (st, h) = ((st', h'), ds)" and "\<not> ft_Disabled blk"
  shows "(HasErrors ds \<and> st' = st) \<or>
         (\<not> HasErrors ds \<and> (\<exists>def. st' = install_fsm name def h' st \<and>
            fd_OnChange def = ft_OnChange blk \<and> fd_OnError def = ft_OnError blk))"
  using assms by (auto simp: Process_def Let_def split: prod.splits if_splits option.splits)

text \<open>A machine never waits for itself, waits for every other block it refers to outside its hooks, and for
  the backends unless it names its tracer.\<close>

theorem fsm_dependencies:
  assumes "GetBlockDependencies b [name] body = Some deps" and "''fsm.'' @ name \<notin> set (bb_All b)"
  shows "set deps = (set (ExtractBlockDependencies body hook_attrs) - {''fsm.'' @ name}) \<union>
                    (if ''tracing'' \<in> set (body_attrs body) then {} else set (bb_All b))"
  using assms by (auto simp: GetBlockDependencies_def AddBackendDeps_def backend_add_def split: if_splits)

text \<open>A guard that evaluates to a null or unknown boolean panics.\<close>

theorem guard_panics_iff:
  assumes "build (buildHookEvalContext hx) = Inr c"
  shows "eval_guard build ev expr hx = None \<longleftrightarrow>
           (\<exists>v. ev expr c = Some v \<and> v_Type v = TBool \<and> (v_IsNull v \<or> \<not> v_IsKnown v))"
proof (cases "ev expr c")
  case (Some v)
  then show ?thesis using assms by (cases v) (auto simp: eval_guard_def)
qed (simp add: eval_guard_def assms)

text \<open>The hooks that share a hook context see the context of the first of them.\<close>

theorem hook_context_shared:
  assumes "evalHookExpr build ev e1 hx = (Inr r1, hx1)"
  shows "\<exists>c. (hx_UserData hx = Some c \<or> hx_UserData hx = None \<and> build (buildHookEvalContext hx) = Inr c) \<and>
             evalHookExpr build ev e2 (hx1\<lparr>hx_Error := err, hx_Hook := hook\<rparr>) =
               (Inr (ev e2 c), hx1\<lparr>hx_Error := err, hx_Hook := hook\<rparr>)"
  using assms by (auto simp: evalHookExpr_def split: option.splits sum.splits)

section \<open>Examples\<close>

definition accepting :: "nat fsm_package" where
  "accepting = \<lparr>fp_AddState = (\<lambda>_ _. None), fp_AddEvent = (\<lambda>_ _. None), fp_Validate = (\<lambda>_. None)\<rparr>"

definition plain_eval :: "(nat, nat, nat) fsm_eval" where
  "plain_eval = \<lparr>fe_value = (\<lambda>e. ([], e)), fe_topic = (\<lambda>_. Some ''a/b''), fe_refs = (\<lambda>_. [])\<rparr>"

definition door :: "nat fsm_block list" where
  "door = [FsmBlock ''event'' [''open''] [(''when'', 7), (''topic'', 3)]
             [FsmBlock ''transition'' [''closed'', ''opened''] [(''guard'', 5)] []],
           FsmBlock ''state'' [''closed''] [(''on_exit'', 1)] [], FsmBlock ''state'' [''opened''] [] []]"

definition empty_handler :: "(nat, nat) fsm_handler" where
  "empty_handler = \<lparr>fh_initialStorage = (\<lambda>_. Map.empty), fh_reactiveExprs = (\<lambda>_. []), fh_edgeState = (\<lambda>_. Map.empty)\<rparr>"

theorem fsm_parse_exact_witness:
  "map td_Guard (ed_Transitions (event_of plain_eval (door ! 0))) = [Some 5] \<and>
   (\<exists>def' h'. parseSubBlocks accepting plain_eval ''door'' door (NewDefinition ''closed'', empty_handler) = ((def', h'), []) \<and>
      map sd_OnExit (fd_States def') = [Some 1, None] \<and> map ed_TopicPattern (fd_Events def') = [''a/b''] \<and>
      map fst (fh_reactiveExprs h' ''door'') = [''open''])"
proof -
  obtain def' h' where p:
    "parseSubBlocks accepting plain_eval ''door'' door (NewDefinition ''closed'', empty_handler) = ((def', h'), [])"
    by (simp add: door_def accepting_def plain_eval_def parseStateBlock_def parseEventBlock_def wireReactiveEvent_def
        parseTransitionBlock_def empty_event_def empty_state_def empty_transition_def NewReactiveExpr_def Let_def)
  from fsm_parse_exact [OF p] show ?thesis
    by (simp add: p, simp add: door_def of_type_def state_of_def event_of_def transition_of_def reactive_of_def
        plain_eval_def NewDefinition_def empty_handler_def)
qed

definition door_source :: "string \<Rightarrow> bool \<Rightarrow> nat fsm_source" where
  "door_source name disabled =
     \<lparr>fs_labels = [name], fs_decoded = ([],
        \<lparr>ft_Initial = ''closed'', ft_QueueSize = None, ft_ShutdownEvent = None, ft_Disabled = disabled, ft_Tracing = None,
         ft_OnChange = None, ft_OnError = None, ft_Body = Some []\<rparr>)\<rparr>"

lemma door_build:
  "\<exists>st h ops. build_blocks (fsm_exec accepting plain_eval (\<lambda>_. [])) (\<lambda>_. True) [''fsm''] (\<lambda>_. None) (\<lambda>_. ([], []))
     [door_source ''front'' False, door_source ''back'' True] ([], (no_fsms, empty_handler)) = Some (Loaded (st, h), [], ops)"
  by (simp add: build_blocks_def pass_def failed_def door_source_def Preprocess_def FinishPreprocessing_def Process_def
      SortBlocksByDependencies_def no_fsms_def accepting_def base_definition_def NewDefinition_def init_warnings_def
      Let_def case_prod_beta)

theorem fsm_names_loaded_witness:
  "\<exists>st h ops. build_blocks (fsm_exec accepting plain_eval (\<lambda>_. [])) (\<lambda>_. True) [''fsm''] (\<lambda>_. None) (\<lambda>_. ([], []))
     [door_source ''front'' False, door_source ''back'' True] ([], (no_fsms, empty_handler)) = Some (Loaded (st, h), [], ops) \<and>
     fc_constant st = Some {''front''}"
proof -
  have "{b \<in> set [door_source ''front'' False, door_source ''back'' True]. True \<and> \<not> fsm_disabled b} =
      {door_source ''front'' False}"
    by (auto simp: door_source_def fsm_disabled_def)
  then have "fsm_name ` {b \<in> set [door_source ''front'' False, door_source ''back'' True]. True \<and> \<not> fsm_disabled b} =
      {''front''}"
    by (simp add: door_source_def fsm_name_def)
  moreover obtain st h ops where b: "build_blocks (fsm_exec accepting plain_eval (\<lambda>_. [])) (\<lambda>_. True) [''fsm''] (\<lambda>_. None)
      (\<lambda>_. ([], [])) [door_source ''front'' False, door_source ''back'' True] ([], (no_fsms, empty_handler)) =
      Some (Loaded (st, h), [], ops)"
    using door_build by blast
  ultimately have "fc_constant st = Some {''front''}" using fsm_names_loaded [OF b] by (simp only: Let_def) simp
  then show ?thesis using b by blast
qed

end
