(* ===== verification/Variable.thy ===== *)
theory Variable
  imports Values
begin

text \<open>
  Variables: the watchable container (\<open>types/variable.go\<close>) and the handler of \<open>var\<close> blocks
  (\<open>config/variable.go\<close>). Values are looked at through \<open>var_api\<close>; a type constraint is an argument, with
  what the code relies on stated as a law. A call writes under the lock of the variable and tells the
  watchers after it has released the lock, so the two are steps of their own and those of other calls may
  come between. Variables of the functy language join the same pool.
\<close>

section \<open>The container\<close>

text \<open>\<open>vr_type\<close> is the type of a value, also of a null; \<open>vr_null\<close> is the null of no particular type, \<open>vr_add\<close> adds numbers, \<open>vr_bool\<close> makes a boolean and \<open>vr_coerce\<close> is the method of a constraint.\<close>

datatype var_type = TyNumber | TyBool | TyString | TyOther

record ('v, 'f, 'c) var_api = "('v, 'f) value_api" +
  vr_null :: 'v
  vr_one :: 'v
  vr_type :: "'v \<Rightarrow> var_type"
  vr_add :: "'v \<Rightarrow> 'v \<Rightarrow> 'v"
  vr_bool :: "bool \<Rightarrow> 'v"
  vr_coerce :: "'c \<Rightarrow> 'v \<Rightarrow> string + 'v"

text \<open>\<open>vb_held\<close>: the lock is held for good, after a panic between \<open>Lock\<close> and \<open>Unlock\<close>. \<open>vb_telling\<close> holds the
  changes whose watchers have not been told, \<open>vb_told\<close> those that were told, each as the old and the new
  value.\<close>

record ('v, 'c) Variable =
  vb_value :: 'v
  vb_constraint :: "'c option"
  vb_nullable :: bool
  vb_held :: bool
  vb_telling :: "('v \<times> 'v) list"
  vb_told :: "('v \<times> 'v) list"

text \<open>What becomes of a call; a blocked one waits for the lock and never returns.\<close>

datatype 'v var_result = VrValue 'v | VrError string | VrPanic | VrBlocked

definition NewVariable :: "'v \<Rightarrow> ('v, 'c) Variable" where
  "NewVariable initial =
     \<lparr>vb_value = initial, vb_constraint = None, vb_nullable = True, vb_held = False, vb_telling = [],
      vb_told = []\<rparr>"

definition SetNullable :: "bool \<Rightarrow> ('v, 'c) Variable \<Rightarrow> ('v, 'c) Variable" where
  "SetNullable b v = v\<lparr>vb_nullable := b\<rparr>"

definition SetConstraint :: "'c \<Rightarrow> ('v, 'c) Variable \<Rightarrow> ('v, 'c) Variable" where
  "SetConstraint c v = v\<lparr>vb_constraint := Some c\<rparr>"

definition Variable_Get :: "('v, 'f, 'c) var_api \<Rightarrow> 'v list \<Rightarrow> ('v, 'c) Variable \<Rightarrow> 'v var_result" where
  "Variable_Get A args v =
     (if vb_held v then VrBlocked
      else if va_view A (vb_value v) = VaNull then
        VrValue (case args of [] \<Rightarrow> vr_null A | d # _ \<Rightarrow> d)
      else VrValue (vb_value v))"

text \<open>The write under the lock; the watchers are told later.\<close>

definition store :: "'v \<Rightarrow> ('v, 'c) Variable \<Rightarrow> ('v, 'c) Variable \<times> 'v var_result" where
  "store new v =
     (if vb_held v then (v, VrBlocked)
      else (v\<lparr>vb_value := new, vb_telling := vb_telling v @ [(vb_value v, new)]\<rparr>, VrValue new))"

definition Variable_Set ::
  "('v, 'f, 'c) var_api \<Rightarrow> 'v list \<Rightarrow> ('v, 'c) Variable \<Rightarrow> ('v, 'c) Variable \<times> 'v var_result" where
  "Variable_Set A args v =
     (let val = (case args of [] \<Rightarrow> vr_null A | x # _ \<Rightarrow> x)
      in if va_view A val = VaNull then
           (if \<not> vb_nullable v then (v, VrError ''variable is not nullable'') else store val v)
         else case vb_constraint v of
                None \<Rightarrow> store val v
              | Some c \<Rightarrow>
                  (case vr_coerce A c val of Inl e \<Rightarrow> (v, VrError e) | Inr coerced \<Rightarrow> store coerced v))"

definition incrementDelta :: "'v \<Rightarrow> 'v list \<Rightarrow> 'v" where
  "incrementDelta one args = (case args of [] \<Rightarrow> one | x # _ \<Rightarrow> x)"

text \<open>\<open>AsBigFloat\<close> panics for the null of type number, which passes the test of the type of the delta.\<close>

definition Variable_Increment ::
  "('v, 'f, 'c) var_api \<Rightarrow> 'v list \<Rightarrow> ('v, 'c) Variable \<Rightarrow> ('v, 'c) Variable \<times> 'v var_result" where
  "Variable_Increment A args v =
     (let delta = incrementDelta (vr_one A) args
      in if vb_held v then (v, VrBlocked)
         else if va_view A (vb_value v) = VaNull \<or> vr_type A (vb_value v) \<noteq> TyNumber then
           (v, VrError ''increment: current value is not a number'')
         else if vr_type A delta \<noteq> TyNumber then (v, VrError ''increment: delta is not a number'')
         else if va_view A delta = VaNull then (v\<lparr>vb_held := True\<rparr>, VrPanic)
         else store (vr_add A (vb_value v) delta) v)"

definition Variable_Toggle ::
  "('v, 'f, 'c) var_api \<Rightarrow> ('v, 'c) Variable \<Rightarrow> ('v, 'c) Variable \<times> 'v var_result" where
  "Variable_Toggle A v =
     (if vb_held v then (v, VrBlocked)
      else case va_view A (vb_value v) of
             VaBool b \<Rightarrow> store (vr_bool A (\<not> b)) v
           | _ \<Rightarrow> (v, VrError ''toggle: current value is not a bool''))"

text \<open>\<open>VTell n\<close>: the call with the n-th of the changes not told yet tells the watchers.\<close>

definition tell :: "nat \<Rightarrow> ('v, 'c) Variable \<Rightarrow> ('v, 'c) Variable" where
  "tell n v =
     (if n < length (vb_telling v) then
        v\<lparr>vb_telling := take n (vb_telling v) @ drop (Suc n) (vb_telling v),
          vb_told := vb_told v @ [vb_telling v ! n]\<rparr>
      else v)"

datatype 'v var_op = VGet "'v list" | VSet "'v list" | VIncrement "'v list" | VToggle | VTell nat

fun var_exec ::
  "('v, 'f, 'c) var_api \<Rightarrow> 'v var_op \<Rightarrow> ('v, 'c) Variable \<Rightarrow> ('v, 'c) Variable \<times> 'v var_result list" where
  "var_exec A (VGet args) v = (v, [Variable_Get A args v])"
| "var_exec A (VSet args) v = map_prod id (\<lambda>r. [r]) (Variable_Set A args v)"
| "var_exec A (VIncrement args) v = map_prod id (\<lambda>r. [r]) (Variable_Increment A args v)"
| "var_exec A VToggle v = map_prod id (\<lambda>r. [r]) (Variable_Toggle A v)"
| "var_exec A (VTell n) v = (tell n v, [])"

section \<open>What a variable can hold\<close>

text \<open>What the code relies on: a coerced value is not null and coerces to itself, the sum of numbers is a number,
  and a constraint that takes one number takes them all as they are, and so for booleans.\<close>

abbreviation a_number :: "('v, 'f, 'c) var_api \<Rightarrow> 'v \<Rightarrow> bool" where
  "a_number A x \<equiv> vr_type A x = TyNumber \<and> va_view A x \<noteq> VaNull"

definition constraint_laws :: "('v, 'f, 'c) var_api \<Rightarrow> bool" where
  "constraint_laws A \<longleftrightarrow>
     va_view A (vr_null A) = VaNull \<and>
     (\<forall>c v w. vr_coerce A c v = Inr w \<and> va_view A v \<noteq> VaNull \<longrightarrow>
        va_view A w \<noteq> VaNull \<and> vr_coerce A c w = Inr w) \<and>
     (\<forall>x y. a_number A x \<and> a_number A y \<longrightarrow> a_number A (vr_add A x y)) \<and>
     (\<forall>b. va_view A (vr_bool A b) = VaBool b) \<and>
     (\<forall>c x y. a_number A x \<and> a_number A y \<and> vr_coerce A c x = Inr x \<longrightarrow> vr_coerce A c y = Inr y) \<and>
     (\<forall>c x y a b. va_view A x = VaBool a \<and> va_view A y = VaBool b \<and> vr_coerce A c x = Inr x \<longrightarrow>
        vr_coerce A c y = Inr y)"

definition takes :: "('v, 'f, 'c) var_api \<Rightarrow> ('v, 'c) Variable \<Rightarrow> 'v \<Rightarrow> bool" where
  "takes A v x \<longleftrightarrow>
     (if va_view A x = VaNull then vb_nullable v
      else case vb_constraint v of None \<Rightarrow> True | Some c \<Rightarrow> vr_coerce A c x = Inr x)"

definition admissible :: "('v, 'f, 'c) var_api \<Rightarrow> ('v, 'c) Variable \<Rightarrow> bool" where
  "admissible A v \<longleftrightarrow> takes A v (vb_value v)"

lemma takes_iff:
  "takes A v x \<longleftrightarrow>
     (va_view A x = VaNull \<longrightarrow> vb_nullable v) \<and>
     (\<forall>c. va_view A x \<noteq> VaNull \<and> vb_constraint v = Some c \<longrightarrow> vr_coerce A c x = Inr x)"
  by (cases "vb_constraint v") (auto simp: takes_def)

lemma admissible_store: "takes A v new \<Longrightarrow> admissible A v \<Longrightarrow> admissible A (fst (store new v))"
  by (simp add: store_def admissible_def takes_iff)

lemma constraint_lawsD:
  assumes "constraint_laws A"
  shows "vr_coerce A c x = Inr w \<Longrightarrow> va_view A x \<noteq> VaNull \<Longrightarrow> va_view A w \<noteq> VaNull \<and> vr_coerce A c w = Inr w"
    and "a_number A x \<Longrightarrow> a_number A y \<Longrightarrow> a_number A (vr_add A x y)"
    and "va_view A (vr_bool A b) = VaBool b"
    and "a_number A x \<Longrightarrow> a_number A y \<Longrightarrow> vr_coerce A c x = Inr x \<Longrightarrow> vr_coerce A c y = Inr y"
    and "va_view A x = VaBool a \<Longrightarrow> va_view A y = VaBool b \<Longrightarrow> vr_coerce A c x = Inr x \<Longrightarrow> vr_coerce A c y = Inr y"
    and "va_view A (vr_null A) = VaNull"
  using assms unfolding constraint_laws_def by (blast, blast, blast, blast, blast, blast)

lemma takes_coerced:
  "constraint_laws A \<Longrightarrow> vb_constraint v = Some c \<Longrightarrow> vr_coerce A c x = Inr w \<Longrightarrow> va_view A x \<noteq> VaNull \<Longrightarrow> takes A v w"
  using constraint_lawsD(1) [of A c x w] by (simp add: takes_iff)

lemma admissible_Set:
  assumes "constraint_laws A" and "admissible A v"
  shows "admissible A (fst (Variable_Set A args v))"
proof -
  obtain val where val: "val = (case args of [] \<Rightarrow> vr_null A | x # _ \<Rightarrow> x)"
    by simp
  show ?thesis
  proof (cases "va_view A val = VaNull \<or> vb_constraint v = None")
    case True
    then show ?thesis
      using assms(2)
      by (auto simp: Variable_Set_def val [symmetric] Let_def takes_def intro: admissible_store split: option.split)
  next
    case False
    then show ?thesis
      using assms
      by (auto simp: Variable_Set_def val [symmetric] Let_def admissible_store [OF takes_coerced] split: sum.split)
  qed
qed

lemma takes_same_kind:
  assumes "constraint_laws A" and "admissible A v"
  shows "a_number A (vb_value v) \<Longrightarrow> a_number A y \<Longrightarrow> takes A v y"
    and "va_view A (vb_value v) = VaBool a \<Longrightarrow> va_view A y = VaBool b \<Longrightarrow> takes A v y"
proof -
  let ?x = "vb_value v"
  show "takes A v y" if n: "a_number A ?x" "a_number A y"
    using assms(2) n constraint_lawsD(4) [OF assms(1) n] by (simp add: admissible_def takes_iff)
  show "takes A v y" if b: "va_view A ?x = VaBool a" "va_view A y = VaBool b"
    using assms(2) b constraint_lawsD(5) [OF assms(1) b] by (simp add: admissible_def takes_iff)
qed

lemma admissible_held: "admissible A (v\<lparr>vb_held := b\<rparr>) = admissible A v"
  by (simp add: admissible_def takes_iff)

lemma admissible_Increment:
  assumes "constraint_laws A" and "admissible A v"
  shows "admissible A (fst (Variable_Increment A args v))"
proof -
  let ?x = "vb_value v" and ?d = "incrementDelta (vr_one A) args"
  have "takes A v (vr_add A ?x ?d)" if "a_number A ?x" "a_number A ?d"
    using takes_same_kind(1) [OF assms that(1)] constraint_lawsD(2) [OF assms(1) that] by blast
  then show ?thesis
    using assms(2) by (simp add: Variable_Increment_def Let_def admissible_held admissible_store)
qed

lemma admissible_Toggle:
  assumes "constraint_laws A" and "admissible A v"
  shows "admissible A (fst (Variable_Toggle A v))"
proof (cases "va_view A (vb_value v)")
  case (VaBool b)
  have "takes A v (vr_bool A (\<not> b))"
    by (rule takes_same_kind(2) [OF assms VaBool constraint_lawsD(3) [OF assms(1)]])
  then show ?thesis
    using VaBool assms(2) by (simp add: Variable_Toggle_def admissible_store)
qed (use assms(2) in \<open>auto simp: Variable_Toggle_def\<close>)

lemma admissible_tell: "admissible A (tell n v) = admissible A v"
  by (simp add: tell_def admissible_def takes_iff)

lemma admissible_exec: "constraint_laws A \<Longrightarrow> admissible A v \<Longrightarrow> admissible A (fst (var_exec A x v))"
  by (cases x) (simp_all add: admissible_Set admissible_Increment admissible_Toggle admissible_tell)

text \<open>The laws are those of the interface, so they are put into the states the machine runs over.\<close>

interpretation holding: invariant_machine "var_exec A" "\<lambda>v. constraint_laws A \<and> admissible A v" "\<lambda>_. True"
  by unfold_locales (simp add: admissible_exec)

text \<open>C39: whatever calls are made of a variable, and in whatever order their steps come, it holds what its
  declaration allows: no null if it is not nullable, and otherwise a value its type takes as it is. The
  operations that compute a new value keep to it without asking the constraint.\<close>

theorem variable_admissible:
  assumes "constraint_laws A" and "admissible A v"
  shows "admissible A (fst (run_ops (var_exec A) ops v))"
  using holding.run_inv [of A v ops] assms by simp

section \<open>What the watchers see\<close>

fun value_chain :: "'v \<Rightarrow> ('v \<times> 'v) list \<Rightarrow> 'v \<Rightarrow> bool" where
  "value_chain a [] b \<longleftrightarrow> a = b"
| "value_chain a ((x, y) # es) b \<longleftrightarrow> x = a \<and> value_chain y es b"

lemma value_chain_snoc: "value_chain a es b \<Longrightarrow> value_chain a (es @ [(b, c)]) c"
  by (induction a es b rule: value_chain.induct) auto

text \<open>One operation writes one value, or none, or tells about a change.\<close>

lemma var_call_cases:
  "(\<exists>new. fst (Variable_Set A args v) = fst (store new v)) \<or> fst (Variable_Set A args v) = v"
  "(\<exists>new. fst (Variable_Increment A args v) = fst (store new v)) \<or>
   fst (Variable_Increment A args v) = v \<or> fst (Variable_Increment A args v) = v\<lparr>vb_held := True\<rparr>"
  "(\<exists>new. fst (Variable_Toggle A v) = fst (store new v)) \<or> fst (Variable_Toggle A v) = v"
  by (auto simp: Variable_Set_def Variable_Increment_def Variable_Toggle_def Let_def
      split: option.split sum.split value_view.split)

lemma var_exec_cases:
  obtains (store) new where "fst (var_exec A x v) = fst (store new v)"
    | (same) "fst (var_exec A x v) = v"
    | (panic) "fst (var_exec A x v) = v\<lparr>vb_held := True\<rparr>"
    | (tell) n where "x = VTell n" "n < length (vb_telling v)" "fst (var_exec A x v) = tell n v"
proof (cases x)
  case (VSet args)
  then show thesis
    using that(1,2) var_call_cases(1) [of A args v] by auto
next
  case (VIncrement args)
  then show thesis
    using that(1,2,3) var_call_cases(2) [of A args v] by auto
next
  case VToggle
  then show thesis
    using that(1,2) var_call_cases(3) [of A v] by auto
next
  case (VTell n)
  then show thesis
    using that(2,4) by (cases "n < length (vb_telling v)") (auto simp: tell_def)
qed (use that(2) in simp)

definition accounted :: "'v \<Rightarrow> ('v, 'c) Variable \<Rightarrow> bool" where
  "accounted a v \<longleftrightarrow>
     (\<exists>ws. value_chain a ws (vb_value v) \<and> mset ws = mset (vb_told v) + mset (vb_telling v))"

lemma accounted_exec: "accounted a v \<Longrightarrow> accounted a (fst (var_exec A x v))"
proof (cases rule: var_exec_cases [of A x v])
  case (store new)
  assume "accounted a v"
  then obtain ws where "value_chain a ws (vb_value v)" "mset ws = mset (vb_told v) + mset (vb_telling v)"
    by (auto simp: accounted_def)
  then have "accounted a v" "accounted a (v\<lparr>vb_value := new, vb_telling := vb_telling v @ [(vb_value v, new)]\<rparr>)"
    unfolding accounted_def
    by (blast, intro exI [of _ "ws @ [(vb_value v, new)]"]) (simp add: value_chain_snoc)
  then show ?thesis
    by (simp add: store store_def)
next
  case (tell n)
  have "vb_telling v = take n (vb_telling v) @ vb_telling v ! n # drop (Suc n) (vb_telling v)"
    using tell(2) by (simp add: id_take_nth_drop)
  then have "mset (vb_telling v) =
      add_mset (vb_telling v ! n) (mset (take n (vb_telling v)) + mset (drop (Suc n) (vb_telling v)))"
    by (metis mset_append mset.simps(2) union_mset_add_mset_right)
  moreover assume "accounted a v"
  ultimately show ?thesis
    unfolding tell(3) by (auto simp: accounted_def tell_def tell(2))
qed (simp_all add: accounted_def)

interpretation accounts: invariant_machine "var_exec A" "accounted a" "\<lambda>_. True"
  by unfold_locales (rule accounted_exec)

text \<open>every change of a variable is told exactly once: what the watchers were told and what they are still
  to be told are the changes from the first value to the present one, however the calls overlap. Calls that
  do not overlap are told in their order.\<close>

theorem changes_told_once:
  fixes A :: "('v, 'f, 'c) var_api" and ops xs :: "'v var_op list" and v :: "('v, 'c) Variable"
  assumes "vb_told v = []" and "vb_telling v = []"
  defines "v' \<equiv> fst (run_ops (var_exec A) ops v)"
    and "u \<equiv> fst (run_ops (var_exec A) (concat (map (\<lambda>x. [x, VTell 0]) xs)) v)"
  shows "(\<exists>ws. value_chain (vb_value v) ws (vb_value v') \<and> mset ws = mset (vb_told v') + mset (vb_telling v')) \<and>
         vb_telling u = [] \<and> value_chain (vb_value v) (vb_told u) (vb_value u)"
proof -
  have "accounted (vb_value v) v"
    using assms(1,2) by (simp add: accounted_def)
  then have acc: "accounted (vb_value v) v'"
    using accounts.run_inv by (simp add: v'_def)
  have "vb_telling (fst (run_ops (var_exec A) (concat (map (\<lambda>x. [x, VTell 0]) xs)) w)) = [] \<and>
        value_chain a (vb_told (fst (run_ops (var_exec A) (concat (map (\<lambda>x. [x, VTell 0]) xs)) w)))
          (vb_value (fst (run_ops (var_exec A) (concat (map (\<lambda>x. [x, VTell 0]) xs)) w)))"
    if "vb_telling w = []" "value_chain a (vb_told w) (vb_value w)" for a w
    using that
  proof (induction xs arbitrary: w)
    case (Cons x xs)
    let ?w = "tell 0 (fst (var_exec A x w))"
    have "vb_telling ?w = [] \<and> value_chain a (vb_told ?w) (vb_value ?w)"
      by (cases rule: var_exec_cases [of A x w])
         (use Cons.prems in \<open>simp_all add: tell_def store_def value_chain_snoc\<close>)
    then show ?case
      using Cons.IH [of ?w] by simp
  qed simp
  from this [of v "vb_value v"] show ?thesis
    using acc assms(1,2) by (simp add: u_def accounted_def)
qed

section \<open>Blocks and declarations of variables\<close>

text \<open>The variables by name. \<open>vw_eval\<close> evaluates an expression, which may read variables; \<open>vw_ParseType\<close> and
  \<open>vw_ResolveType\<close> are the resolver of the functy language.\<close>

type_synonym ('v, 'c) pool = "string \<rightharpoonup> ('v, 'c) Variable"

record ('v, 'c, 'e) var_world =
  vw_eval :: "'e \<Rightarrow> ('v, 'c) pool \<Rightarrow> 'v \<times> diag list"
  vw_ParseType :: "string \<Rightarrow> 'c \<times> diag list"
  vw_ResolveType :: "'e \<Rightarrow> 'c \<times> diag list"

text \<open>\<open>bd_content\<close> are the diagnostics of splitting the body against its schema.\<close>

record 'e varBody =
  bd_content :: "diag list"
  bd_nullable :: "'e option"
  bd_type :: "'e option"
  bd_value :: "'e option"




text \<open>A call of \<open>Set\<close> with its watchers told at once; a result of \<open>None\<close> is a panic, or a call that does not
  return.\<close>

definition set_told :: "('v, 'f, 'c) var_api \<Rightarrow> string \<Rightarrow> 'v \<Rightarrow> ('v, 'c) pool \<Rightarrow> (('v, 'c) pool \<times> diag list) option" where
  "set_told A name val p =
     (case p name of
        None \<Rightarrow> None
      | Some v \<Rightarrow>
          (case Variable_Set A [val] v of
             (v', VrValue _) \<Rightarrow> Some (p(name \<mapsto> tell (length (vb_telling v)) v'), [])
           | (v', VrError _) \<Rightarrow> Some (p, [DiagError ''Failed to set variable initial value''])
           | _ \<Rightarrow> None))"


definition resolveVarTypeConstraint ::
  "('v, 'f, 'c) var_api \<Rightarrow> ('v, 'c, 'e) var_world \<Rightarrow> 'e \<Rightarrow> ('v, 'c) pool \<Rightarrow> ('c \<times> diag list) option" where
  "resolveVarTypeConstraint A W e p =
     (case vw_eval W e p of
        (val, valDiags) \<Rightarrow>
          if \<not> HasErrors valDiags \<and> vr_type A val = TyString then
            (case va_view A val of
               VaString s \<Rightarrow>
                 (case vw_ParseType W s of
                    (c, diags) \<Rightarrow> Some (c, diags @ [DiagWarning ''Deprecated var type string'']))
             | _ \<Rightarrow> None)
          else Some (vw_ResolveType W e))"

text \<open>The parts of \<open>Process\<close>: each returns the variable and the diagnostics so far, and the handler goes on
  while there is no error among them.\<close>

definition process_nullable ::
  "('v, 'f, 'c) var_api \<Rightarrow> ('v, 'c, 'e) var_world \<Rightarrow> 'e option \<Rightarrow> ('v, 'c) pool \<Rightarrow> diag list \<Rightarrow> ('v, 'c) Variable \<Rightarrow>
     (('v, 'c) Variable \<times> diag list) option" where
  "process_nullable A W attr p diags v =
     (case attr of
        None \<Rightarrow> Some (v, diags)
      | Some e \<Rightarrow>
          (case vw_eval W e p of
             (val, ds) \<Rightarrow>
               if HasErrors (diags @ ds) then Some (v, diags @ ds)
               else if vr_type A val \<noteq> TyBool then Some (v, diags @ ds @ [DiagError ''Invalid nullable value''])
               else (case va_view A val of VaBool b \<Rightarrow> Some (SetNullable b v, diags @ ds) | _ \<Rightarrow> None)))"

definition process_type ::
  "('v, 'f, 'c) var_api \<Rightarrow> ('v, 'c, 'e) var_world \<Rightarrow> 'e option \<Rightarrow> ('v, 'c) pool \<Rightarrow> diag list \<Rightarrow> ('v, 'c) Variable \<Rightarrow>
     (('v, 'c) Variable \<times> diag list) option" where
  "process_type A W attr p diags v =
     (case attr of
        None \<Rightarrow> Some (v, diags)
      | Some e \<Rightarrow>
          (case resolveVarTypeConstraint A W e p of
             None \<Rightarrow> None
           | Some (c, ds) \<Rightarrow>
               if HasErrors (diags @ ds) then Some (v, diags @ ds) else Some (SetConstraint c v, diags @ ds)))"

definition VariableProcess ::
  "('v, 'f, 'c) var_api \<Rightarrow> ('v, 'c, 'e) var_world \<Rightarrow> string \<Rightarrow> 'e varBody \<Rightarrow> ('v, 'c) pool \<Rightarrow>
     (('v, 'c) pool \<times> diag list) option" where
  "VariableProcess A W name body p =
     (if HasErrors (bd_content body) then Some (p, bd_content body)
      else case p name of
        None \<Rightarrow> None
      | Some v \<Rightarrow>
          (let v1 = SetNullable True v
           in case process_nullable A W (bd_nullable body) (p(name \<mapsto> v1)) (bd_content body) v1 of
                None \<Rightarrow> None
              | Some (v2, ds2) \<Rightarrow>
                  if HasErrors ds2 then Some (p(name \<mapsto> v2), ds2)
                  else
                    (case process_type A W (bd_type body) (p(name \<mapsto> v2)) ds2 v2 of
                       None \<Rightarrow> None
                     | Some (v3, ds3) \<Rightarrow>
                         if HasErrors ds3 then Some (p(name \<mapsto> v3), ds3)
                         else
                           (case bd_value body of
                              None \<Rightarrow> Some (p(name \<mapsto> v3), [])
                            | Some e \<Rightarrow>
                                (case vw_eval W e (p(name \<mapsto> v3)) of
                                   (val, ds) \<Rightarrow>
                                     if HasErrors (ds3 @ ds) then Some (p(name \<mapsto> v3), ds3 @ ds)
                                     else map_option (map_prod id (\<lambda>ds'. ds3 @ ds @ ds'))
                                            (set_told A name val (p(name \<mapsto> v3))))))))"


section \<open>What loading gives\<close>












section \<open>Examples\<close>

text \<open>Numbers, booleans and nulls with their types; a constraint is the type it asks for.\<close>

datatype demo_value = DvNum int | DvBool bool | DvNull var_type

definition demo_view :: "demo_value \<Rightarrow> (demo_value, int) value_view" where
  "demo_view x = (case x of DvNum n \<Rightarrow> VaNumber n n | DvBool b \<Rightarrow> VaBool b | DvNull _ \<Rightarrow> VaNull)"

fun demo_type :: "demo_value \<Rightarrow> var_type" where
  "demo_type (DvNum _) = TyNumber"
| "demo_type (DvBool _) = TyBool"
| "demo_type (DvNull t) = t"

definition demo_add :: "demo_value \<Rightarrow> demo_value \<Rightarrow> demo_value" where
  "demo_add x y = (case (x, y) of (DvNum m, DvNum n) \<Rightarrow> DvNum (m + n) | _ \<Rightarrow> DvNum 0)"

definition demo_float :: "int float64" where
  "demo_float = \<lparr>f_of_int = id, f_add = (+), f_sub = (-), f_mul = (*), f_div = (div), f_pow = (\<lambda>x y. x ^ nat y),
     f_eq = (=), f_lt = (<), f_to_int = id\<rparr>"

definition demo_var_api :: "(demo_value, int, var_type) var_api" where
  "demo_var_api = \<lparr>va_float = demo_float, va_view = demo_view, va_duration = (\<lambda>_. None),
     vr_null = DvNull TyOther, vr_one = DvNum 1, vr_type = demo_type, vr_add = demo_add, vr_bool = DvBool,
     vr_coerce = (\<lambda>c x. if demo_type x = c then Inr x else Inl ''type mismatch'')\<rparr>"

lemma demo_var_laws: "constraint_laws demo_var_api"
  unfolding constraint_laws_def
  by (intro conjI) (auto simp: demo_var_api_def demo_view_def demo_add_def split: demo_value.splits if_splits)

definition counter_var :: "(demo_value, var_type) Variable" where
  "counter_var = SetNullable False (SetConstraint TyNumber (NewVariable (DvNum 0)))"

lemma variable_admissible_witness:
  "admissible demo_var_api
     (fst (run_ops (var_exec demo_var_api)
        [VSet [DvBool True], VSet [], VIncrement [DvNum 5], VToggle, VTell 0] counter_var))"
  by (rule variable_admissible [OF demo_var_laws])
    (simp add: admissible_def takes_def counter_var_def SetNullable_def SetConstraint_def NewVariable_def
      demo_var_api_def demo_view_def)

text \<open>Two overlapping calls: the later change is told first.\<close>

lemma overlapping_told_reversed:
  "run_ops (var_exec demo_var_api) [VSet [DvNum 1], VSet [DvNum 2], VTell 1, VTell 0] counter_var =
   (counter_var\<lparr>vb_value := DvNum 2, vb_told := [(DvNum 1, DvNum 2), (DvNum 0, DvNum 1)]\<rparr>,
    [VrValue (DvNum 1), VrValue (DvNum 2)])"
  by (simp add: counter_var_def SetNullable_def SetConstraint_def NewVariable_def demo_var_api_def demo_view_def
      run_ops.simps(2) Variable_Set_def store_def tell_def Let_def)

lemma changes_told_once_witness:
  "\<exists>ws. value_chain (DvNum 0) ws (DvNum 2) \<and> mset ws = mset [(DvNum 1, DvNum 2), (DvNum 0, DvNum 1)]"
  using changes_told_once [of counter_var demo_var_api "[VSet [DvNum 1], VSet [DvNum 2], VTell 1, VTell 0]" "[]"]
  unfolding overlapping_told_reversed
  by (simp add: counter_var_def SetNullable_def SetConstraint_def NewVariable_def)

text \<open>A delta that is a null number: the call panics with the lock held, and every later call waits for good.\<close>

lemma null_delta_blocks:
  "snd (run_ops (var_exec demo_var_api)
     [VIncrement [DvNull TyNumber], VGet [], VSet [DvNum 1], VIncrement [], VToggle] counter_var) =
   [VrPanic, VrBlocked, VrBlocked, VrBlocked, VrBlocked]"
  by (simp add: counter_var_def SetNullable_def SetConstraint_def NewVariable_def demo_var_api_def demo_view_def
      Variable_Set_def Variable_Get_def Variable_Increment_def Variable_Toggle_def incrementDelta_def store_def Let_def)

text \<open>Expressions are constants here.\<close>

definition demo_var_world :: "(demo_value, var_type, demo_value) var_world" where
  "demo_var_world = \<lparr>vw_eval = (\<lambda>e _. (e, [])), vw_ParseType = (\<lambda>_. (TyNumber, [])),
     vw_ResolveType = (\<lambda>e. (demo_type e, []))\<rparr>"

definition count_block :: "demo_value varBody" where
  "count_block = \<lparr>bd_content = [], bd_nullable = Some (DvBool False), bd_type = Some (DvNum 0), bd_value = Some (DvNum 3)\<rparr>"


definition null_var :: "(demo_value, var_type) Variable" where
  "null_var = NewVariable (DvNull TyOther)"




lemmas demo_var_simps = demo_var_api_def demo_var_world_def demo_view_def null_var_def NewVariable_def
  SetNullable_def SetConstraint_def Variable_Set_def store_def tell_def set_told_def Let_def



text \<open>A block without a value reports nothing at all: the warning about a type written as a text is lost.\<close>

lemma warning_lost:
  assumes "VariableProcess A W n body p = Some (p', ds)" and "\<not> HasErrors ds" and "bd_value body = None"
  shows "ds = []"
proof (rule ccontr)
  assume "ds \<noteq> []"
  then show False
    using assms by (auto simp: VariableProcess_def Let_def split: option.splits if_splits)
qed

text \<open>A null boolean in \<open>nullable\<close> passes the check of its type, and asking it for its truth panics.\<close>

lemma null_nullable_panics:
  "VariableProcess demo_var_api demo_var_world ''count''
     (count_block\<lparr>bd_nullable := Some (DvNull TyBool)\<rparr>) [''count'' \<mapsto> null_var] = None"
  by (simp add: VariableProcess_def process_nullable_def count_block_def demo_var_simps)

end
