(* ===== verification/Health.thy ===== *)
theory Health
  imports Vinculum_Prelude "HOL-Library.List_Lexorder" "HOL-Library.Char_ord"
begin

text \<open>
  The aggregation of readiness and liveness (\<open>config/health.go\<close>, \<open>config/healthmetrics.go\<close>):
  contributors, the process gate, the shared evaluation with its cache, pushed reports, the
  \<open>sys.ready\<close> watchable and the transitions that are logged. What a contributor's \<open>Ready\<close> returns is
  decided outside, so an evaluation takes a function giving the outcome of each call. A method is one
  step, except that an evaluation may be left in flight: it begins in one step and ends in another,
  and other calls come between. The receiver is never nil.
\<close>

section \<open>State\<close>

datatype processState = processStarting | processServing | processDraining

definition ProbeReady :: string where "ProbeReady = ''ready''"
definition ProbeLive :: string where "ProbeLive = ''live''"

definition contributorTimeout :: duration where "contributorTimeout = 2 * 10 ^ 9"
definition healthCacheTTL :: duration where "healthCacheTTL = 5 * 10 ^ 9"

text \<open>A reason before it is formatted; a passing entry has the empty one.\<close>

datatype reason = NoReason | Message string | Panicked string | TimedOut duration

record ComponentStatus =
  cs_Component :: string
  cs_Type :: string
  cs_Ready :: bool
  cs_Reason :: reason
  cs_Since :: "time option"
  cs_probe :: string

record 'r readyContributor =
  rc_probe :: string
  rc_kind :: string
  rc_typ :: string
  rc_name :: string
  rc_r :: 'r
  rc_timeout :: duration

record verdictSince =
  vs_ready :: bool
  vs_at :: time

record ReadyHandle =
  rh_known :: bool
  rh_value :: bool

datatype log_entry = LogInfo string | LogWarn string "(string \<times> reason) list"

text \<open>\<open>hl_inflight\<close> holds the contributors the evaluation in flight was started with. The map
  \<open>hl_since\<close> is the field \<open>since\<close>; \<open>hl_log\<close> is what the logger was given, if there is one.\<close>

record 'r Health =
  hl_state :: processState
  hl_contributors :: "'r readyContributor list"
  hl_results :: "ComponentStatus list option"
  hl_computedAt :: "time option"
  hl_inflight :: "'r readyContributor list option"
  hl_ready :: ReadyHandle
  hl_logger :: bool
  hl_observed :: "string \<rightharpoonup> bool"
  hl_since :: "string \<rightharpoonup> verdictSince"
  hl_log :: "log_entry list"

definition NewHealth :: "bool \<Rightarrow> 'r Health" where
  "NewHealth logger =
     \<lparr>hl_state = processStarting, hl_contributors = [], hl_results = None, hl_computedAt = None,
      hl_inflight = None, hl_ready = \<lparr>rh_known = False, rh_value = False\<rparr>, hl_logger = logger,
      hl_observed = Map.empty, hl_since = Map.empty, hl_log = []\<rparr>"

definition component :: "'r readyContributor \<Rightarrow> string" where
  "component c = (if rc_kind c = [] then rc_name c else rc_kind c @ ''.'' @ rc_name c)"

section \<open>Operations\<close>

text \<open>A contributor that is a \<open>ReadyNotifier\<close> is given a reporter bound to it: the second result.\<close>

definition Health_register ::
  "string \<Rightarrow> string \<Rightarrow> string \<Rightarrow> string \<Rightarrow> 'r option \<Rightarrow> bool \<Rightarrow> duration \<Rightarrow> 'r Health
     \<Rightarrow> 'r Health \<times> 'r readyContributor option" where
  "Health_register probe kind typ name r notifier timeout h =
     (case r of
        None \<Rightarrow> (h, None)
      | Some r' \<Rightarrow>
          let c = \<lparr>rc_probe = probe, rc_kind = kind, rc_typ = typ, rc_name = name, rc_r = r',
                   rc_timeout = timeout\<rparr>
          in (h\<lparr>hl_contributors := hl_contributors h @ [c]\<rparr>, if notifier then Some c else None))"

definition RegisterReady ::
  "string \<Rightarrow> string \<Rightarrow> string \<Rightarrow> 'r option \<Rightarrow> bool \<Rightarrow> 'r Health \<Rightarrow> 'r Health \<times> 'r readyContributor option"
where
  "RegisterReady kind typ name r notifier h = Health_register ProbeReady kind typ name r notifier 0 h"

definition RegisterProbe ::
  "string \<Rightarrow> string \<Rightarrow> string \<Rightarrow> string \<Rightarrow> 'r option \<Rightarrow> bool \<Rightarrow> duration \<Rightarrow> 'r Health
     \<Rightarrow> 'r Health \<times> 'r readyContributor option" where
  "RegisterProbe probe kind typ name r notifier timeout h =
     Health_register probe kind typ name r notifier timeout h"

definition observe :: "bool \<Rightarrow> ReadyHandle \<Rightarrow> ReadyHandle \<times> edge list" where
  "observe value r =
     (let old = rh_value r; known = rh_known r; r' = r\<lparr>rh_value := value, rh_known := True\<rparr>
      in if known \<and> old = value then (r', [])
         else if \<not> known then (r', [])
         else (r', [(old, value)]))"

text \<open>\<open>h.ready.observe(ctx, value)\<close>.\<close>

definition ready_observe :: "bool \<Rightarrow> 'r Health \<Rightarrow> 'r Health \<times> edge list" where
  "ready_observe value h = (let (r, es) = observe value (hl_ready h) in (h\<lparr>hl_ready := r\<rparr>, es))"

definition logHealthTransition ::
  "string \<Rightarrow> bool \<Rightarrow> ComponentStatus list \<Rightarrow> 'r Health \<Rightarrow> 'r Health" where
  "logHealthTransition probe passing failing h =
     (if \<not> hl_logger h then h
      else if passing then h\<lparr>hl_log := hl_log h @ [LogInfo probe]\<rparr>
      else h\<lparr>hl_log := hl_log h @
               [LogWarn probe (map (\<lambda>f. (cs_Component f, cs_Reason f)) failing)]\<rparr>)"

definition noteSinceLocked :: "string \<Rightarrow> bool \<Rightarrow> time \<Rightarrow> 'r Health \<Rightarrow> 'r Health \<times> time" where
  "noteSinceLocked nm ready now h =
     (let note = (h\<lparr>hl_since := (hl_since h)(nm \<mapsto> \<lparr>vs_ready = ready, vs_at = now\<rparr>)\<rparr>, now)
      in case hl_since h nm of
           Some prev \<Rightarrow> if vs_ready prev = ready then (h, vs_at prev) else note
         | None \<Rightarrow> note)"

definition fail_entry :: "string \<Rightarrow> string \<Rightarrow> ComponentStatus \<Rightarrow> ComponentStatus" where
  "fail_entry nm err s =
     (if cs_Component s = nm then s\<lparr>cs_Ready := False, cs_Reason := Message err\<rparr> else s)"

text \<open>\<open>Health_report c err now\<close>: the error a contributor pushes, or \<open>None\<close> for recovery.\<close>

definition Health_report :: "'r readyContributor \<Rightarrow> string option \<Rightarrow> time \<Rightarrow> 'r Health \<Rightarrow> 'r Health \<times> edge list"
where
  "Health_report c err now h =
     (let h1 = fst (noteSinceLocked (component c) (err = None) now h)
      in case err of
           None \<Rightarrow> (h1\<lparr>hl_results := None, hl_computedAt := None\<rparr>, [])
         | Some e \<Rightarrow>
             let previous = hl_observed h1 (rc_probe c);
                 h2 = h1\<lparr>hl_results := map_option (map (fail_entry (component c) e)) (hl_results h1),
                         hl_observed := (hl_observed h1)(rc_probe c \<mapsto> False)\<rparr>;
                 (h3, es) = (if rc_probe c = ProbeReady then ready_observe False h2 else (h2, []));
                 h4 = (if previous = Some True
                       then logHealthTransition (rc_probe c) False
                              [\<lparr>cs_Component = component c, cs_Type = rc_typ c, cs_Ready = False,
                                cs_Reason = Message e, cs_Since = None, cs_probe = []\<rparr>] h3
                       else h3)
             in (h4, es))"

fun stampSince :: "time \<Rightarrow> ComponentStatus list \<Rightarrow> 'r Health \<Rightarrow> 'r Health \<times> ComponentStatus list" where
  "stampSince now [] h = (h, [])"
| "stampSince now (s # ss) h =
     (let (h1, at) = noteSinceLocked (cs_Component s) (cs_Ready s) now h;
          (h2, ss') = stampSince now ss h1
      in (h2, s\<lparr>cs_Since := Some at\<rparr> # ss'))"

definition SetBooted :: "'r Health \<Rightarrow> 'r Health" where
  "SetBooted h = (if hl_state h = processStarting then h\<lparr>hl_state := processServing\<rparr> else h)"

definition BeginDrain :: "'r Health \<Rightarrow> 'r Health \<times> edge list" where
  "BeginDrain h = ready_observe False (h\<lparr>hl_state := processDraining\<rparr>)"

definition process_entry :: "bool \<Rightarrow> reason \<Rightarrow> ComponentStatus" where
  "process_entry ready r =
     \<lparr>cs_Component = ''process'', cs_Type = [], cs_Ready = ready, cs_Reason = r, cs_Since = None,
      cs_probe = []\<rparr>"

definition processStatus :: "string \<Rightarrow> 'r Health \<Rightarrow> ComponentStatus \<times> bool" where
  "processStatus probe h =
     (case hl_state h of
        processStarting \<Rightarrow> (process_entry False (Message ''starting''), True)
      | processDraining \<Rightarrow>
          (if probe = ProbeLive then (process_entry True NoReason, False)
           else (process_entry False (Message ''shutting down''), True))
      | processServing \<Rightarrow> (process_entry True NoReason, False))"

text \<open>What a call of \<open>Ready\<close> does: return nil, return an error, with whether the deadline of the probe
  has passed by then, or panic.\<close>

datatype ready_outcome = ReadyNil | ReadyErr string bool | ReadyPanic string

definition probeOne :: "('r readyContributor \<Rightarrow> ready_outcome) \<Rightarrow> 'r readyContributor \<Rightarrow> ComponentStatus"
where
  "probeOne env c =
     (let status = \<lparr>cs_Component = component c, cs_Type = rc_typ c, cs_Ready = False,
                    cs_Reason = NoReason, cs_Since = None, cs_probe = rc_probe c\<rparr>;
          timeout = (if rc_timeout c \<le> 0 then contributorTimeout else rc_timeout c)
      in case env c of
           ReadyNil \<Rightarrow> status\<lparr>cs_Ready := True\<rparr>
         | ReadyErr e late \<Rightarrow> status\<lparr>cs_Reason := (if late then TimedOut timeout else Message e)\<rparr>
         | ReadyPanic p \<Rightarrow> status\<lparr>cs_Reason := Panicked p\<rparr>)"

definition runContributors ::
  "('r readyContributor \<Rightarrow> ready_outcome) \<Rightarrow> 'r readyContributor list \<Rightarrow> ComponentStatus list" where
  "runContributors env cs = map (probeOne env) cs"

definition allReady :: "ComponentStatus list \<Rightarrow> string \<Rightarrow> bool" where
  "allReady results probe \<longleftrightarrow> list_all (\<lambda>r. \<not> (cs_probe r = probe \<and> \<not> cs_Ready r)) results"

definition lastResults :: "'r Health \<Rightarrow> ComponentStatus list" where
  "lastResults h = (case hl_results h of None \<Rightarrow> [] | Some rs \<Rightarrow> rs)"

text \<open>The cache is served when it is younger than the TTL.\<close>

definition cache_fresh :: "time \<Rightarrow> 'r Health \<Rightarrow> bool" where
  "cache_fresh now h \<longleftrightarrow>
     (case hl_computedAt h of Some t \<Rightarrow> hl_results h \<noteq> None \<and> now - t < healthCacheTTL | None \<Rightarrow> False)"

fun note_results :: "time \<Rightarrow> ComponentStatus list \<Rightarrow> 'r Health \<Rightarrow> 'r Health" where
  "note_results now [] h = h"
| "note_results now (s # ss) h =
     note_results now ss (fst (noteSinceLocked (cs_Component s) (cs_Ready s) now h))"

text \<open>The two locked sections of an evaluation that is run, and the notification after them.\<close>

definition evaluate_begin :: "'r Health \<Rightarrow> 'r Health" where
  "evaluate_begin h = h\<lparr>hl_inflight := Some (hl_contributors h)\<rparr>"

definition evaluate_end ::
  "('r readyContributor \<Rightarrow> ready_outcome) \<Rightarrow> 'r readyContributor list \<Rightarrow> time \<Rightarrow> 'r Health
     \<Rightarrow> 'r Health \<times> edge list \<times> ComponentStatus list" where
  "evaluate_end env cs now h =
     (let results = runContributors env cs;
          h1 = note_results now results (h\<lparr>hl_results := Some results, hl_computedAt := Some now\<rparr>);
          (h2, es) = ready_observe (allReady results ProbeReady) (h1\<lparr>hl_inflight := None\<rparr>)
      in (h2, es, results))"

text \<open>\<open>evaluate\<close> at the times \<open>t0\<close> (the look at the cache) and \<open>t1\<close> (the end). A caller that finds an
  evaluation in flight waits; \<open>joined\<close> is what it gets, \<open>None\<close> when its context ends first.\<close>

definition evaluate ::
  "bool \<Rightarrow> ('r readyContributor \<Rightarrow> ready_outcome) \<Rightarrow> ComponentStatus list option \<Rightarrow> time \<Rightarrow> time
     \<Rightarrow> 'r Health \<Rightarrow> 'r Health \<times> edge list \<times> ComponentStatus list" where
  "evaluate force env joined t0 t1 h =
     (if \<not> force \<and> cache_fresh t0 h then (h, [], lastResults h)
      else if hl_inflight h \<noteq> None
      then (case joined of Some rs \<Rightarrow> (h, [], rs) | None \<Rightarrow> (h, [], lastResults h))
      else evaluate_end env (hl_contributors h) t1 (evaluate_begin h))"

definition noteVerdict :: "string \<Rightarrow> ComponentStatus list \<Rightarrow> 'r Health \<Rightarrow> 'r Health" where
  "noteVerdict probe statuses h =
     (let failing = filter (\<lambda>s. \<not> cs_Ready s) statuses;
          passing = (failing = []);
          previous = hl_observed h probe;
          h1 = h\<lparr>hl_observed := (hl_observed h)(probe \<mapsto> passing)\<rparr>
      in if previous = None \<or> previous = Some passing then h1
         else logHealthTransition probe passing failing h1)"

text \<open>The end of \<open>Status\<close>: the entries of the probe, dated, and the verdict noted.\<close>

definition status_tail ::
  "string \<Rightarrow> ComponentStatus list \<Rightarrow> time \<Rightarrow> 'r Health \<Rightarrow> 'r Health \<times> ComponentStatus list" where
  "status_tail probe out t h =
     (let (h1, out') = stampSince t out h in (noteVerdict probe out' h1, out'))"

definition Status ::
  "string \<Rightarrow> bool \<Rightarrow> ('r readyContributor \<Rightarrow> ready_outcome) \<Rightarrow> ComponentStatus list option
     \<Rightarrow> time \<Rightarrow> time \<Rightarrow> time \<Rightarrow> 'r Health \<Rightarrow> 'r Health \<times> edge list \<times> ComponentStatus list" where
  "Status probe force env joined t0 t1 t2 h =
     (let (gate, gated) = processStatus probe h
      in if gated then
           let (h1, es) = (if probe = ProbeReady then ready_observe (cs_Ready gate) h else (h, []));
               (h2, out) = status_tail probe [gate] t2 h1
           in (h2, es, out)
         else
           let (h1, es, results) = evaluate force env joined t0 t1 h;
               (h2, out) = status_tail probe (gate # filter (\<lambda>r. cs_probe r = probe) results) t2 h1
           in (h2, es, out))"

definition Failing ::
  "string \<Rightarrow> bool \<Rightarrow> ('r readyContributor \<Rightarrow> ready_outcome) \<Rightarrow> ComponentStatus list option
     \<Rightarrow> time \<Rightarrow> time \<Rightarrow> time \<Rightarrow> 'r Health \<Rightarrow> 'r Health \<times> edge list \<times> ComponentStatus list" where
  "Failing probe force env joined t0 t1 t2 h =
     (let (h', es, all) = Status probe force env joined t0 t1 t2 h
      in (h', es, filter (\<lambda>s. \<not> cs_Ready s) all))"

definition IsReady ::
  "('r readyContributor \<Rightarrow> ready_outcome) \<Rightarrow> ComponentStatus list option
     \<Rightarrow> time \<Rightarrow> time \<Rightarrow> time \<Rightarrow> 'r Health \<Rightarrow> 'r Health \<times> edge list \<times> bool" where
  "IsReady env joined t0 t1 t2 h =
     (let (h', es, failing) = Failing ProbeReady False env joined t0 t1 t2 h
      in (h', es, length failing = 0))"

definition ValidProbe :: "string \<Rightarrow> bool" where
  "ValidProbe name \<longleftrightarrow> name = ProbeReady \<or> name = ProbeLive"

definition RegisteredComponents :: "'r Health \<Rightarrow> string list" where
  "RegisteredComponents h = sort (map component (hl_contributors h))"

section \<open>Executions\<close>

text \<open>One operation of a caller. \<open>HEvalBegin\<close> and \<open>HEvalEnd\<close> are the two parts of an evaluation left in
  flight; \<open>HResume\<close> is the end of a \<open>Status\<close> call that waited for one and got \<open>rs\<close>.\<close>

datatype 'r health_op =
    HRegister string string string string "'r option" bool duration
  | HReport "'r readyContributor" "string option" time
  | HBoot
  | HDrain
  | HStatus string bool "'r readyContributor \<Rightarrow> ready_outcome" "ComponentStatus list option" time time time
  | HEvalBegin
  | HEvalEnd "'r readyContributor \<Rightarrow> ready_outcome" time
  | HResume string "ComponentStatus list" time

fun health_exec :: "'r health_op \<Rightarrow> 'r Health \<Rightarrow> 'r Health \<times> edge list" where
  "health_exec (HRegister probe kind typ name r notifier timeout) h =
     (fst (Health_register probe kind typ name r notifier timeout h), [])"
| "health_exec (HReport c err t) h = Health_report c err t h"
| "health_exec HBoot h = (SetBooted h, [])"
| "health_exec HDrain h = BeginDrain h"
| "health_exec (HStatus probe force env joined t0 t1 t2) h =
     (let (h', es, _) = Status probe force env joined t0 t1 t2 h in (h', es))"
| "health_exec HEvalBegin h = (if hl_inflight h = None then evaluate_begin h else h, [])"
| "health_exec (HEvalEnd env t) h =
     (case hl_inflight h of
        None \<Rightarrow> (h, [])
      | Some cs \<Rightarrow> let (h', es, _) = evaluate_end env cs t h in (h', es))"
| "health_exec (HResume probe rs t) h =
     (fst (status_tail probe (process_entry True NoReason # filter (\<lambda>r. cs_probe r = probe) rs) t h), [])"


section \<open>What each operation touches\<close>

named_theorems health_frame \<open>the fields an operation of Health changes\<close>

text \<open>Noting a verdict concerns the map of verdicts alone.\<close>

definition since_note ::
  "string \<times> bool \<times> time \<Rightarrow> (string \<rightharpoonup> verdictSince) \<Rightarrow> (string \<rightharpoonup> verdictSince)" where
  "since_note ob m =
     (case ob of (k, ready, now) \<Rightarrow>
        if map_option vs_ready (m k) = Some ready then m
        else m(k \<mapsto> \<lparr>vs_ready = ready, vs_at = now\<rparr>))"

definition entry_note :: "time \<Rightarrow> ComponentStatus \<Rightarrow> string \<times> bool \<times> time" where
  "entry_note now s = (cs_Component s, cs_Ready s, now)"

definition strip :: "ComponentStatus \<Rightarrow> ComponentStatus" where
  "strip s = s\<lparr>cs_Since := None\<rparr>"

lemma strip_sel [simp]:
  "cs_Ready (strip s) = cs_Ready s" "cs_Component (strip s) = cs_Component s"
  "cs_probe (strip s) = cs_probe s" "cs_Reason (strip s) = cs_Reason s"
  by (simp_all add: strip_def)

lemma noteSinceLocked_fst [health_frame]:
  "fst (noteSinceLocked nm ready now h) = h\<lparr>hl_since := since_note (nm, ready, now) (hl_since h)\<rparr>"
  by (auto simp: noteSinceLocked_def since_note_def Let_def split: option.splits)

lemma noteSinceLocked_snd:
  "map_option vs_at (since_note (nm, ready, now) (hl_since h) nm) = Some (snd (noteSinceLocked nm ready now h))"
  by (auto simp: noteSinceLocked_def since_note_def Let_def split: option.splits)

lemma note_results_eq [health_frame]:
  "note_results now ss h = h\<lparr>hl_since := fold since_note (map (entry_note now) ss) (hl_since h)\<rparr>"
  by (induction ss arbitrary: h) (simp_all add: health_frame entry_note_def)

lemma stampSince_fst [health_frame]:
  "fst (stampSince now ss h) = h\<lparr>hl_since := fold since_note (map (entry_note now) ss) (hl_since h)\<rparr>"
  by (induction ss arbitrary: h)
     (simp_all add: health_frame entry_note_def case_prod_beta Let_def)

lemma stampSince_strip: "map strip (snd (stampSince now ss h)) = map strip ss"
  by (induction ss arbitrary: h) (simp_all add: case_prod_beta Let_def strip_def)

lemma stampSince_filter:
  "map strip (filter (\<lambda>s. P (strip s)) (snd (stampSince now ss h))) = map strip (filter (\<lambda>s. P (strip s)) ss)"
proof -
  have "map strip (filter (\<lambda>s. P (strip s)) xs) = filter P (map strip xs)" for xs
    by (induction xs) simp_all
  then show ?thesis by (simp add: stampSince_strip)
qed

declare stampSince.simps(2) [simp del]

lemma logHealthTransition_eq [health_frame]:
  "logHealthTransition probe passing failing h =
     h\<lparr>hl_log := hl_log h @ (if hl_logger h then [if passing then LogInfo probe else
         LogWarn probe (map (\<lambda>f. (cs_Component f, cs_Reason f)) failing)] else [])\<rparr>"
  by (simp add: logHealthTransition_def)

lemma ready_observe_eq [health_frame]:
  "ready_observe v h =
     (h\<lparr>hl_ready := \<lparr>rh_known = True, rh_value = v\<rparr>\<rparr>,
      if rh_known (hl_ready h) \<and> rh_value (hl_ready h) \<noteq> v then [(rh_value (hl_ready h), v)] else [])"
  by (simp add: ready_observe_def observe_def Let_def)

text \<open>The ghost-free fields: everything a reader of the cache and of the gate depends on.\<close>

lemma noteVerdict_frame [health_frame]:
  "hl_state (noteVerdict p ss h) = hl_state h"
  "hl_contributors (noteVerdict p ss h) = hl_contributors h"
  "hl_results (noteVerdict p ss h) = hl_results h"
  "hl_computedAt (noteVerdict p ss h) = hl_computedAt h"
  "hl_inflight (noteVerdict p ss h) = hl_inflight h"
  "hl_ready (noteVerdict p ss h) = hl_ready h"
  "hl_logger (noteVerdict p ss h) = hl_logger h"
  "hl_since (noteVerdict p ss h) = hl_since h"
  by (simp_all add: noteVerdict_def Let_def health_frame)

lemma status_tail_frame [health_frame]:
  "hl_state (fst (status_tail p out t h)) = hl_state h"
  "hl_contributors (fst (status_tail p out t h)) = hl_contributors h"
  "hl_results (fst (status_tail p out t h)) = hl_results h"
  "hl_computedAt (fst (status_tail p out t h)) = hl_computedAt h"
  "hl_inflight (fst (status_tail p out t h)) = hl_inflight h"
  "hl_ready (fst (status_tail p out t h)) = hl_ready h"
  "hl_since (fst (status_tail p out t h)) = fold since_note (map (entry_note t) out) (hl_since h)"
  by (simp_all add: status_tail_def case_prod_beta Let_def health_frame)

lemma status_tail_snd: "snd (status_tail p out t h) = snd (stampSince t out h)"
  by (simp add: status_tail_def case_prod_beta Let_def)

lemma report_frame [health_frame]:
  "hl_state (fst (Health_report c err t h)) = hl_state h"
  "hl_contributors (fst (Health_report c err t h)) = hl_contributors h"
  "hl_inflight (fst (Health_report c err t h)) = hl_inflight h"
  "hl_since (fst (Health_report c err t h)) = since_note (component c, err = None, t) (hl_since h)"
  "hl_results (fst (Health_report c err t h)) =
     (case err of None \<Rightarrow> None | Some e \<Rightarrow> map_option (map (fail_entry (component c) e)) (hl_results h))"
  "hl_computedAt (fst (Health_report c err t h)) = (case err of None \<Rightarrow> None | Some e \<Rightarrow> hl_computedAt h)"
  by (simp_all add: Health_report_def case_prod_beta Let_def health_frame split: option.split)

lemma evaluate_end_frame [health_frame]:
  "hl_state (fst (evaluate_end env cs t h)) = hl_state h"
  "hl_contributors (fst (evaluate_end env cs t h)) = hl_contributors h"
  "hl_results (fst (evaluate_end env cs t h)) = Some (runContributors env cs)"
  "hl_computedAt (fst (evaluate_end env cs t h)) = Some t"
  "hl_inflight (fst (evaluate_end env cs t h)) = None"
  "hl_logger (fst (evaluate_end env cs t h)) = hl_logger h"
  "hl_log (fst (evaluate_end env cs t h)) = hl_log h"
  "hl_observed (fst (evaluate_end env cs t h)) = hl_observed h"
  "hl_since (fst (evaluate_end env cs t h)) =
     fold since_note (map (entry_note t) (runContributors env cs)) (hl_since h)"
  "snd (snd (evaluate_end env cs t h)) = runContributors env cs"
  by (simp_all add: evaluate_end_def case_prod_beta Let_def health_frame)

lemma evaluate_state [health_frame]:
  "hl_state (fst (evaluate force env joined t0 t1 h)) = hl_state h"
  "hl_contributors (fst (evaluate force env joined t0 t1 h)) = hl_contributors h"
  by (simp_all add: evaluate_def evaluate_begin_def health_frame split: option.split)

lemma evaluate_cached:
  "cache_fresh t0 h \<Longrightarrow> evaluate False env joined t0 t1 h = (h, [], lastResults h)"
  by (simp add: evaluate_def)

lemma evaluate_fresh:
  "force \<or> \<not> cache_fresh t0 h \<Longrightarrow> hl_inflight h = None \<Longrightarrow>
     evaluate force env joined t0 t1 h = evaluate_end env (hl_contributors h) t1 (evaluate_begin h)"
  by (auto simp: evaluate_def)

lemma Status_gated:
  "processStatus p h = (gate, True) \<Longrightarrow>
     Status p force env joined t0 t1 t2 h =
       (let h1 = if p = ProbeReady then fst (ready_observe (cs_Ready gate) h) else h
        in (fst (status_tail p [gate] t2 h1),
            if p = ProbeReady then snd (ready_observe (cs_Ready gate) h) else [],
            snd (status_tail p [gate] t2 h1)))"
  by (simp add: Status_def case_prod_beta Let_def)

lemma Status_open:
  "processStatus p h = (gate, False) \<Longrightarrow>
     Status p force env joined t0 t1 t2 h =
       (let h1 = fst (evaluate force env joined t0 t1 h);
            es = fst (snd (evaluate force env joined t0 t1 h));
            out = gate # filter (\<lambda>r. cs_probe r = p) (snd (snd (evaluate force env joined t0 t1 h)))
        in (fst (status_tail p out t2 h1), es, snd (status_tail p out t2 h1)))"
  by (simp add: Status_def case_prod_beta Let_def)

text \<open>The gate is open while serving, and for liveness while draining.\<close>

definition gate_open :: "string \<Rightarrow> processState \<Rightarrow> bool" where
  "gate_open p st \<longleftrightarrow> st = processServing \<or> st = processDraining \<and> p = ProbeLive"

lemma processStatus_open:
  "gate_open p (hl_state h) \<Longrightarrow> processStatus p h = (process_entry True NoReason, False)"
  by (auto simp: processStatus_def gate_open_def)

lemma processStatus_gated:
  "\<not> gate_open p (hl_state h) \<Longrightarrow>
     processStatus p h =
       (process_entry False (Message (if hl_state h = processStarting then ''starting'' else ''shutting down'')), True)"
  by (auto simp: processStatus_def gate_open_def split: processState.splits)

lemmas Status_by_gate = Status_gated[OF processStatus_gated] Status_open[OF processStatus_open]

lemma Status_state [health_frame]:
  "hl_state (fst (Status p force env joined t0 t1 t2 h)) = hl_state h"
  "hl_contributors (fst (Status p force env joined t0 t1 t2 h)) = hl_contributors h"
proof -
  show "hl_state (fst (Status p force env joined t0 t1 t2 h)) = hl_state h"
    by (cases "gate_open p (hl_state h)")
       (simp_all add: Status_by_gate Let_def health_frame)
  show "hl_contributors (fst (Status p force env joined t0 t1 t2 h)) = hl_contributors h"
    by (cases "gate_open p (hl_state h)")
       (simp_all add: Status_by_gate Let_def health_frame)
qed

section \<open>Verdicts\<close>

lemma probeOne_sel [simp]:
  "cs_probe (probeOne env c) = rc_probe c"
  "cs_Component (probeOne env c) = component c"
  "cs_Ready (probeOne env c) = (env c = ReadyNil)"
  "cs_Since (probeOne env c) = None"
  by (simp_all add: probeOne_def Let_def split: ready_outcome.split)

lemma strip_probeOne [simp]: "strip (probeOne env c) = probeOne env c"
  by (simp add: strip_def probeOne_def Let_def split: ready_outcome.split)

lemma strip_process_entry [simp]: "strip (process_entry r m) = process_entry r m"
  by (simp add: strip_def process_entry_def)

lemma process_entry_sel [simp]:
  "cs_Ready (process_entry r m) = r" "cs_Component (process_entry r m) = ''process''"
  "cs_Reason (process_entry r m) = m"
  by (simp_all add: process_entry_def)

lemma filter_runContributors:
  "filter (\<lambda>r. cs_probe r = p) (runContributors env cs) =
     map (probeOne env) (filter (\<lambda>c. rc_probe c = p) cs)"
  by (simp add: runContributors_def filter_map comp_def)

lemma Failing_eq:
  "Failing p force env joined t0 t1 t2 h =
     (fst (Status p force env joined t0 t1 t2 h), fst (snd (Status p force env joined t0 t1 t2 h)),
      filter (\<lambda>s. \<not> cs_Ready s) (snd (snd (Status p force env joined t0 t1 t2 h))))"
  by (simp add: Failing_def case_prod_beta Let_def)

lemma not_ready_strip: "filter (\<lambda>s. \<not> cs_Ready s) xs = [] \<longleftrightarrow> filter (\<lambda>s. \<not> cs_Ready s) (map strip xs) = []"
  by (induction xs) auto

lemma not_ready_stamped:
  "(filter (\<lambda>s. \<not> cs_Ready s) (snd (stampSince t out h)) = []) \<longleftrightarrow> list_all cs_Ready out"
proof -
  have "(filter (\<lambda>s. \<not> cs_Ready s) (snd (stampSince t out h)) = []) \<longleftrightarrow>
        filter (\<lambda>s. \<not> cs_Ready s) (map strip out) = []"
    by (subst not_ready_strip) (simp add: stampSince_strip)
  then show ?thesis by (simp add: filter_empty_conv list_all_iff)
qed

lemma Status_evaluates:
  assumes "gate_open p (hl_state h)" and "hl_inflight h = None" and "force \<or> \<not> cache_fresh t0 h"
  shows "map strip (snd (snd (Status p force env joined t0 t1 t2 h))) =
           process_entry True NoReason # map (probeOne env) (filter (\<lambda>c. rc_probe c = p) (hl_contributors h))"
  using assms
  by (simp add: Status_by_gate evaluate_fresh health_frame status_tail_snd stampSince_strip
      filter_runContributors comp_def Let_def)

lemma Failing_evaluates:
  assumes "gate_open p (hl_state h)" and "hl_inflight h = None" and "force \<or> \<not> cache_fresh t0 h"
  shows "snd (snd (Failing p force env joined t0 t1 t2 h)) = [] \<longleftrightarrow>
           (\<forall>c \<in> set (hl_contributors h). rc_probe c = p \<longrightarrow> env c = ReadyNil)"
  using assms
  by (auto simp: Failing_eq Status_by_gate evaluate_fresh health_frame status_tail_snd
      filter_runContributors Let_def not_ready_stamped list_all_iff)

text \<open>A read that evaluates reports, in registration order after the built-in entry, exactly the
  contributors of its probe, each with what its own check said (ready, the error, a timeout or a
  panic); so the probe passes exactly when every one of its contributors is ready, and the other
  probe's contributors have no say.\<close>

theorem status_exact:
  assumes "gate_open p (hl_state h)" and "hl_inflight h = None" and "force \<or> \<not> cache_fresh t0 h"
  shows "map strip (snd (snd (Status p force env joined t0 t1 t2 h))) =
           process_entry True NoReason # map (probeOne env) (filter (\<lambda>c. rc_probe c = p) (hl_contributors h)) \<and>
         (snd (snd (Failing p force env joined t0 t1 t2 h)) = [] \<longleftrightarrow>
           (\<forall>c \<in> set (hl_contributors h). rc_probe c = p \<longrightarrow> env c = ReadyNil))"
  using Status_evaluates[OF assms] Failing_evaluates[OF assms] by blast

definition demo_contributor :: "string \<Rightarrow> string \<Rightarrow> unit readyContributor" where
  "demo_contributor p n =
     \<lparr>rc_probe = p, rc_kind = ''client'', rc_typ = ''mqtt'', rc_name = n, rc_r = (), rc_timeout = 0\<rparr>"

definition demo_health :: "processState \<Rightarrow> unit Health" where
  "demo_health st =
     (NewHealth True)\<lparr>hl_state := st,
        hl_contributors := [demo_contributor ProbeReady ''a'', demo_contributor ProbeLive ''b'']\<rparr>"

lemmas demo_defs = demo_health_def demo_contributor_def NewHealth_def cache_fresh_def gate_open_def
  ProbeReady_def ProbeLive_def healthCacheTTL_def component_def

theorem status_exact_witness:
  "snd (snd (Failing ProbeReady False (\<lambda>c. if rc_name c = ''b'' then ReadyPanic ''x'' else ReadyNil) None 0 1 2
     (demo_health processServing))) = []"
  using status_exact[of ProbeReady "demo_health processServing" False 0
      "\<lambda>c. if rc_name c = ''b'' then ReadyPanic ''x'' else ReadyNil" None 1 2]
  by (simp add: demo_defs)

section \<open>The cache\<close>

fun reported_failures :: "'r health_op list \<Rightarrow> string set" where
  "reported_failures [] = {}"
| "reported_failures (HReport c (Some e) t # xs) = insert (component c) (reported_failures xs)"
| "reported_failures (x # xs) = reported_failures xs"

text \<open>Reads that may be served from a report computed at \<open>t\<close>, and pushed failures.\<close>

fun cache_op :: "time \<Rightarrow> 'r health_op \<Rightarrow> bool" where
  "cache_op t (HReport c err t') = (err \<noteq> None)"
| "cache_op t (HStatus p force env joined t0 t1 t2) = (\<not> force \<and> t0 - t < healthCacheTTL)"
| "cache_op t _ = False"

lemma Status_cached:
  assumes "hl_state h = processServing" and "cache_fresh t0 h"
  shows "hl_results (fst (Status p False env joined t0 t1 t2 h)) = hl_results h"
    and "hl_computedAt (fst (Status p False env joined t0 t1 t2 h)) = hl_computedAt h"
  using assms by (simp_all add: Status_by_gate gate_open_def evaluate_cached Let_def health_frame)

lemma fail_entry_sel [simp]:
  "cs_probe (fail_entry nm e s) = cs_probe s" "cs_Component (fail_entry nm e s) = cs_Component s"
  "cs_Ready (fail_entry nm e s) = (cs_Ready s \<and> cs_Component s \<noteq> nm)"
  by (simp_all add: fail_entry_def)

text \<open>The verdicts a report holds.\<close>

definition verdicts :: "ComponentStatus list \<Rightarrow> (string \<times> string \<times> bool) list" where
  "verdicts rs = map (\<lambda>s. (cs_probe s, cs_Component s, cs_Ready s)) rs"

lemma cache_run:
  assumes "hl_state h = processServing" and "hl_results h = Some rs" and "hl_computedAt h = Some t"
    and "list_all (cache_op t) ops"
  shows "\<exists>rs'. hl_results (fst (run_ops health_exec ops h)) = Some rs' \<and>
           verdicts rs' = map (\<lambda>(q, k, b). (q, k, b \<and> k \<notin> reported_failures ops)) (verdicts rs) \<and>
           hl_computedAt (fst (run_ops health_exec ops h)) = Some t \<and>
           hl_state (fst (run_ops health_exec ops h)) = processServing"
  using assms
proof (induction ops arbitrary: h rs)
  case Nil
  then show ?case by (simp add: verdicts_def)
next
  case (Cons x xs)
  show ?case
  proof (cases x)
    case (HReport c err t')
    then obtain e where e: "err = Some e" using Cons.prems(4) by auto
    let ?h = "fst (Health_report c err t' h)"
    have "hl_results ?h = Some (map (fail_entry (component c) e) rs)"
      using Cons.prems e by (simp add: health_frame)
    then show ?thesis
      using Cons.IH[of ?h "map (fail_entry (component c) e) rs"] Cons.prems e HReport
      by (auto simp: health_frame verdicts_def)
  next
    case (HStatus p force env joined t0 t1 t2)
    then have "cache_fresh t0 h" "\<not> force" using Cons.prems by (auto simp: cache_fresh_def)
    then show ?thesis
      using Cons.IH[of "fst (Status p False env joined t0 t1 t2 h)" rs] Cons.prems HStatus
      by (simp add: Status_cached health_frame case_prod_beta Let_def)
  qed (use Cons.prems in simp_all)
qed

text \<open>C17: While a report is younger than the TTL, a read of a serving process passes exactly when every
  contributor of its probe was ready when the report was computed and has not pushed a failure
  since: the cache never goes on claiming that a component which reported its own failure is fine,
  whatever the checks would say now.\<close>

theorem cache_tracks_reports:
  assumes "hl_state h = processServing" and "hl_results h = Some rs" and "hl_computedAt h = Some t"
    and "list_all (cache_op t) ops" and "t0 - t < healthCacheTTL"
  shows "snd (snd (Failing p False env joined t0 t1 t2 (fst (run_ops health_exec ops h)))) = [] \<longleftrightarrow>
           (\<forall>s \<in> set rs. cs_probe s = p \<longrightarrow> cs_Ready s \<and> cs_Component s \<notin> reported_failures ops)"
proof -
  define h' where "h' = fst (run_ops health_exec ops h)"
  obtain rs' where rs': "hl_results h' = Some rs'" "hl_computedAt h' = Some t" "hl_state h' = processServing"
    and v: "verdicts rs' = map (\<lambda>(q, k, b). (q, k, b \<and> k \<notin> reported_failures ops)) (verdicts rs)"
    unfolding h'_def using cache_run[OF assms(1-4)] by blast
  have fresh: "cache_fresh t0 h'" using rs' assms(5) by (simp add: cache_fresh_def)
  have "snd (snd (Failing p False env joined t0 t1 t2 h')) = [] \<longleftrightarrow>
        (\<forall>s \<in> set rs'. cs_probe s = p \<longrightarrow> cs_Ready s)"
    using rs' fresh
    by (auto simp: Failing_eq Status_by_gate gate_open_def evaluate_cached lastResults_def Let_def
        status_tail_snd not_ready_stamped list_all_iff)
  also have "\<dots> \<longleftrightarrow> (\<forall>(q, k, b) \<in> set (verdicts rs'). q = p \<longrightarrow> b)"
    by (auto simp: verdicts_def)
  also have "\<dots> \<longleftrightarrow> (\<forall>s \<in> set rs. cs_probe s = p \<longrightarrow> cs_Ready s \<and> cs_Component s \<notin> reported_failures ops)"
    unfolding v by (auto simp: verdicts_def)
  finally show ?thesis by (simp add: h'_def)
qed

theorem cache_tracks_reports_witness:
  "snd (snd (Failing ProbeReady False (\<lambda>_. ReadyNil) None 3 3 3 (fst (run_ops health_exec
     [HReport (demo_contributor ProbeReady ''a'') (Some ''lost'') 2]
     ((demo_health processServing)\<lparr>hl_results := Some [probeOne (\<lambda>_. ReadyNil) (demo_contributor ProbeReady ''a'')],
        hl_computedAt := Some 1\<rparr>))))) \<noteq> []"
  using cache_tracks_reports[of "(demo_health processServing)\<lparr>hl_results :=
      Some [probeOne (\<lambda>_. ReadyNil) (demo_contributor ProbeReady ''a'')], hl_computedAt := Some 1\<rparr>"
      "[probeOne (\<lambda>_. ReadyNil) (demo_contributor ProbeReady ''a'')]" 1
      "[HReport (demo_contributor ProbeReady ''a'') (Some ''lost'') 2]" 3 ProbeReady "\<lambda>_. ReadyNil" None 3 3]
  by (simp add: demo_defs)

text \<open>An evaluation in flight does not see what is pushed while it runs: its own outcome replaces the
  corrected entry, and is served for the whole TTL.\<close>

lemma inflight_overrules_report:
  assumes "hl_state h = processServing" and "hl_inflight h = Some cs" and "\<forall>c \<in> set cs. env c = ReadyNil"
    and "t0 - t1 < healthCacheTTL"
  shows "snd (snd (Failing p False env' joined t0 t2 t3
           (fst (run_ops health_exec [HReport c (Some e) t, HEvalEnd env t1] h)))) = []"
  using assms
  by (auto simp: case_prod_beta Let_def health_frame Failing_eq Status_by_gate gate_open_def
      evaluate_cached cache_fresh_def lastResults_def status_tail_snd not_ready_stamped list_all_iff
      runContributors_def)

section \<open>The process gate\<close>

lemma exec_state:
  "hl_state (fst (health_exec x h)) =
     (case x of HBoot \<Rightarrow> (if hl_state h = processStarting then processServing else hl_state h)
      | HDrain \<Rightarrow> processDraining | _ \<Rightarrow> hl_state h)"
  by (cases x)
     (auto simp: Health_register_def SetBooted_def BeginDrain_def evaluate_begin_def case_prod_beta Let_def
      health_frame split: option.split)

interpretation draining: invariant_machine health_exec "\<lambda>h. hl_state h = processDraining" "\<lambda>_. True"
  by unfold_locales (simp add: exec_state split: health_op.split)

interpretation starting: invariant_machine health_exec "\<lambda>h. hl_state h = processStarting"
    "\<lambda>x. x \<noteq> HBoot \<and> x \<noteq> HDrain"
  by unfold_locales (simp add: exec_state split: health_op.split)

lemma Status_gate_closed:
  assumes "\<not> gate_open p (hl_state h)"
  shows "map strip (snd (snd (Status p force env joined t0 t1 t2 h))) =
           [process_entry False (Message (if hl_state h = processStarting then ''starting'' else ''shutting down''))]"
  using assms by (simp add: Status_by_gate Let_def status_tail_snd stampSince_strip)

text \<open>The life cycle never runs backwards. From the start of draining on, whatever is booted,
  reported, registered or evaluated, a readiness read is refused with \<open>shutting down\<close>, before any
  check is consulted; and until boot completes both probes are refused with \<open>starting\<close>.\<close>

theorem process_gate:
  "map strip (snd (snd (Status ProbeReady force env joined t0 t1 t2
       (fst (run_ops health_exec ops (fst (BeginDrain h))))))) =
     [process_entry False (Message ''shutting down'')] \<and>
   (HBoot \<notin> set ops \<and> HDrain \<notin> set ops \<longrightarrow>
      map strip (snd (snd (Status p force env joined t0 t1 t2
        (fst (run_ops health_exec ops (NewHealth logger)))))) =
      [process_entry False (Message ''starting'')])"
proof
  have "hl_state (fst (run_ops health_exec ops (fst (BeginDrain h)))) = processDraining"
    by (rule draining.run_inv) (simp_all add: BeginDrain_def health_frame)
  then show "map strip (snd (snd (Status ProbeReady force env joined t0 t1 t2
       (fst (run_ops health_exec ops (fst (BeginDrain h))))))) =
     [process_entry False (Message ''shutting down'')]"
    by (simp add: Status_gate_closed gate_open_def ProbeReady_def ProbeLive_def)
  show "HBoot \<notin> set ops \<and> HDrain \<notin> set ops \<longrightarrow>
      map strip (snd (snd (Status p force env joined t0 t1 t2
        (fst (run_ops health_exec ops (NewHealth logger)))))) =
      [process_entry False (Message ''starting'')]"
  proof
    assume "HBoot \<notin> set ops \<and> HDrain \<notin> set ops"
    then have "hl_state (fst (run_ops health_exec ops (NewHealth logger :: 'a Health))) = processStarting"
      by (intro starting.run_inv) (auto simp: NewHealth_def)
    then show "map strip (snd (snd (Status p force env joined t0 t1 t2
        (fst (run_ops health_exec ops (NewHealth logger)))))) =
      [process_entry False (Message ''starting'')]"
      by (simp add: Status_gate_closed gate_open_def)
  qed
qed

theorem process_gate_witness:
  "map strip (snd (snd (Status ProbeLive True (\<lambda>_. ReadyNil) None 0 0 0
     (fst (run_ops health_exec [HEvalBegin] (NewHealth True :: unit Health)))))) =
   [process_entry False (Message ''starting'')]"
  using process_gate[of True "\<lambda>_. ReadyNil" None 0 0 0 "[HEvalBegin]" "NewHealth True :: unit Health" ProbeLive True]
  by simp

section \<open>The watchable \<open>sys.ready\<close>\<close>

text \<open>Draining makes the readiness probe fail for good, but not \<open>sys.ready\<close>: a liveness probe of a
  draining process evaluates the contributors, and when they are all well its evaluation reports
  readiness to the watchers again.\<close>

theorem drain_undone_for_watchers:
  assumes "hl_inflight h = None" and "\<not> cache_fresh t0 h"
    and "\<forall>c \<in> set (hl_contributors h). rc_probe c = ProbeReady \<longrightarrow> env c = ReadyNil"
  shows "snd (run_ops health_exec [HDrain, HStatus ProbeLive False env joined t0 t1 t2] h) =
           (if rh_known (hl_ready h) \<and> rh_value (hl_ready h) then [(True, False)] else []) @ [(False, True)]"
proof -
  let ?h = "fst (BeginDrain h)"
  have h: "hl_state ?h = processDraining" "hl_inflight ?h = None" "\<not> cache_fresh t0 ?h"
    "hl_contributors ?h = hl_contributors h" "hl_ready ?h = \<lparr>rh_known = True, rh_value = False\<rparr>"
    using assms by (simp_all add: BeginDrain_def health_frame cache_fresh_def split: option.splits)
  have "allReady (runContributors env (hl_contributors h)) ProbeReady"
    using assms(3) by (auto simp: allReady_def runContributors_def list_all_iff)
  then have "fst (snd (Status ProbeLive False env joined t0 t1 t2 ?h)) = [(False, True)]"
    using h by (simp add: Status_by_gate gate_open_def evaluate_fresh Let_def evaluate_end_def
        evaluate_begin_def case_prod_beta health_frame)
  then show ?thesis by (simp add: case_prod_beta Let_def BeginDrain_def health_frame)
qed

theorem drain_undone_for_watchers_witness:
  "snd (run_ops health_exec [HDrain, HStatus ProbeLive False (\<lambda>_. ReadyNil) None 0 1 2]
     (demo_health processServing)) = [(False, True)]"
  using drain_undone_for_watchers[of "demo_health processServing" 0 "\<lambda>_. ReadyNil" None 1 2]
  by (simp add: demo_defs)

text \<open>Each operation observes the aggregate at most once.\<close>

definition observes :: "'r Health \<Rightarrow> 'r Health \<times> edge list \<Rightarrow> bool" where
  "observes h res \<longleftrightarrow>
     hl_ready (fst res) = hl_ready h \<and> snd res = [] \<or> (\<exists>v. (hl_ready (fst res), snd res) = observe v (hl_ready h))"

lemma observe_eq:
  "observe v r =
     (\<lparr>rh_known = True, rh_value = v\<rparr>, if rh_known r \<and> rh_value r \<noteq> v then [(rh_value r, v)] else [])"
  by (simp add: observe_def Let_def)

lemma observes_none: "hl_ready h' = hl_ready h \<Longrightarrow> observes h (h', [])"
  by (simp add: observes_def)

lemma observes_value:
  "hl_ready h' = \<lparr>rh_known = True, rh_value = v\<rparr> \<Longrightarrow>
   es = (if rh_known (hl_ready h) \<and> rh_value (hl_ready h) \<noteq> v then [(rh_value (hl_ready h), v)] else []) \<Longrightarrow>
     observes h (h', es)"
  by (auto simp: observes_def observe_eq)

lemma ready_observe_observes: "observes h (ready_observe v h)"
  unfolding ready_observe_eq by (rule observes_value[where v = v]) simp_all

lemma evaluate_end_observes:
  "hl_ready h = hl_ready h0 \<Longrightarrow>
     observes h0 (fst (evaluate_end env cs t h), fst (snd (evaluate_end env cs t h)))"
  by (rule observes_value[where v = "allReady (runContributors env cs) ProbeReady"])
     (simp_all add: evaluate_end_def case_prod_beta Let_def health_frame)

lemma evaluate_observes:
  "observes h (fst (evaluate force env joined t0 t1 h), fst (snd (evaluate force env joined t0 t1 h)))"
  by (simp add: evaluate_def evaluate_end_observes evaluate_begin_def observes_none split: option.split)

lemma observes_tail: "observes h0 (h, es) \<Longrightarrow> observes h0 (fst (status_tail p out t h), es)"
  by (simp add: observes_def health_frame)

lemma Status_observes:
  "observes h (fst (Status p force env joined t0 t1 t2 h), fst (snd (Status p force env joined t0 t1 t2 h)))"
proof (cases "gate_open p (hl_state h)")
  case True
  then show ?thesis by (simp add: Status_by_gate Let_def observes_tail evaluate_observes)
next
  case False
  then show ?thesis
    by (cases "p = ProbeReady")
       (simp_all add: Status_by_gate Let_def observes_tail ready_observe_observes observes_none)
qed

lemma report_observes: "observes h (fst (Health_report c err t h), snd (Health_report c err t h))"
proof (cases "err \<noteq> None \<and> rc_probe c = ProbeReady")
  case True
  then show ?thesis
    by (intro observes_value[where v = False]) (auto simp: Health_report_def case_prod_beta Let_def health_frame)
next
  case False
  then have "hl_ready (fst (Health_report c err t h)) = hl_ready h" and "snd (Health_report c err t h) = []"
    by (auto simp: Health_report_def case_prod_beta Let_def health_frame split: option.split)
  then show ?thesis by (simp add: observes_none)
qed

lemma exec_observes: "observes h (health_exec x h)"
proof (cases x)
  case (HReport c err t)
  then show ?thesis using report_observes[of h c err t] by simp
next
  case HDrain
  have "observes h (fst (BeginDrain h), snd (BeginDrain h))"
    by (rule observes_value[where v = False]) (simp_all add: BeginDrain_def health_frame)
  then show ?thesis using HDrain by simp
next
  case (HStatus p force env joined t0 t1 t2)
  then show ?thesis by (simp add: case_prod_beta Let_def Status_observes)
next
  case (HEvalEnd env t)
  then show ?thesis
    by (auto simp: case_prod_beta Let_def evaluate_end_observes observes_none split: option.split)
qed (simp_all add: observes_none Health_register_def SetBooted_def evaluate_begin_def health_frame Let_def
      split: option.split)

interpretation sys_ready: notifying_when health_exec "\<lambda>h. rh_value (hl_ready h)" "\<lambda>h. rh_known (hl_ready h)"
proof
  fix h :: "'a Health" and x
  assume "rh_known (hl_ready h)"
  then show "rh_known (hl_ready (fst (health_exec x h)))"
    and "edge_chain (rh_value (hl_ready h)) (snd (health_exec x h)) (rh_value (hl_ready (fst (health_exec x h))))"
    using exec_observes[of h x] by (auto simp: observes_def observe_eq split: if_splits)
qed

text \<open>However probes, pushed reports, registrations and the life cycle interleave, the watchers of
  \<open>sys.ready\<close> see one chain of edges that alternate and end in the value the handle holds; the first
  observation sets the baseline and is not an edge.\<close>

theorem ready_edges_alternate:
  "\<exists>b. edge_chain b (snd (run_ops health_exec ops h)) (rh_value (hl_ready (fst (run_ops health_exec ops h))))"
proof (rule sys_ready.run_chain_baseline)
  fix h :: "'a Health" and x
  show "\<not> rh_known (hl_ready h) \<Longrightarrow> snd (health_exec x h) = []"
    using exec_observes[of h x] by (auto simp: observes_def observe_eq)
qed

section \<open>Logged transitions\<close>

fun log_verdict :: "string \<Rightarrow> log_entry \<Rightarrow> bool list" where
  "log_verdict p (LogInfo q) = (if p = q then [True] else [])"
| "log_verdict p (LogWarn q _) = (if p = q then [False] else [])"

definition log_verdicts :: "string \<Rightarrow> log_entry list \<Rightarrow> bool list" where
  "log_verdicts p ls = concat (map (log_verdict p) ls)"

text \<open>The verdicts logged for a probe alternate, and the last one is the one on record.\<close>

definition log_inv :: "'r Health \<Rightarrow> bool" where
  "log_inv h \<longleftrightarrow>
     (hl_logger h \<or> hl_log h = []) \<and>
     (\<forall>p. distinct_adj (log_verdicts p (hl_log h)) \<and>
          (log_verdicts p (hl_log h) \<noteq> [] \<longrightarrow>
             hl_observed h p = Some (last (log_verdicts p (hl_log h)))))"

lemma log_verdicts_append [simp]:
  "log_verdicts p [] = []" "log_verdicts p (ls @ ms) = log_verdicts p ls @ log_verdicts p ms"
  "log_verdicts p (l # ls) = log_verdict p l @ log_verdicts p ls"
  by (simp_all add: log_verdicts_def)

lemma log_inv_same:
  "hl_logger h' = hl_logger h \<Longrightarrow> hl_log h' = hl_log h \<Longrightarrow> hl_observed h' = hl_observed h \<Longrightarrow>
     log_inv h \<Longrightarrow> log_inv h'"
  by (simp add: log_inv_def)

lemma log_inv_verdict:
  assumes "log_inv h"
    and "hl_observed h' = (hl_observed h)(p \<mapsto> v)"
    and "hl_log h' = hl_log h @ ls" and "hl_logger h' = hl_logger h" and "hl_logger h \<or> ls = []"
    and "ls = [] \<and> (hl_observed h p = None \<or> hl_observed h p = Some v \<or> log_verdicts p (hl_log h) = []) \<or>
         (\<exists>l. ls = [l] \<and> hl_observed h p = Some (\<not> v) \<and> (\<forall>q. log_verdict q l = (if q = p then [v] else [])))"
  shows "log_inv h'"
  unfolding log_inv_def
proof (intro allI conjI impI)
  show "hl_logger h' \<or> hl_log h' = []" using assms(1,3-5) by (auto simp: log_inv_def)
  fix q
  have inv: "distinct_adj (log_verdicts q (hl_log h))"
    "log_verdicts q (hl_log h) \<noteq> [] \<Longrightarrow> hl_observed h q = Some (last (log_verdicts q (hl_log h)))"
    using assms(1) by (simp_all add: log_inv_def)
  show "distinct_adj (log_verdicts q (hl_log h'))"
    using inv assms(3,6) by (cases "log_verdicts q (hl_log h) = []"; cases "q = p") (auto simp: distinct_adj_append_iff)
  show "log_verdicts q (hl_log h') \<noteq> [] \<Longrightarrow> hl_observed h' q = Some (last (log_verdicts q (hl_log h')))"
    using inv assms(2,3,6) by (cases "log_verdicts q (hl_log h) = []"; cases "q = p") auto
qed

lemma noteVerdict_log: "log_inv h \<Longrightarrow> log_inv (noteVerdict p ss h)"
  by (rule log_inv_verdict[where h = h and p = p and v = "filter (\<lambda>s. \<not> cs_Ready s) ss = []"
        and ls = "drop (length (hl_log h)) (hl_log (noteVerdict p ss h))"])
     (auto simp: noteVerdict_def Let_def health_frame log_inv_def)

lemma status_tail_log: "log_inv h \<Longrightarrow> log_inv (fst (status_tail p out t h))"
  unfolding status_tail_def by (simp add: case_prod_beta Let_def health_frame)
     (rule noteVerdict_log, simp add: log_inv_def)

lemma report_log_eq:
  "hl_logger (fst (Health_report c err t h)) = hl_logger h"
  "hl_observed (fst (Health_report c err t h)) =
     (if err = None then hl_observed h else (hl_observed h)(rc_probe c \<mapsto> False))"
  "hl_log (fst (Health_report c err t h)) =
     hl_log h @ (case err of None \<Rightarrow> [] | Some e \<Rightarrow>
       if hl_observed h (rc_probe c) = Some True \<and> hl_logger h
       then [LogWarn (rc_probe c) [(component c, Message e)]] else [])"
  by (simp_all add: Health_report_def case_prod_beta Let_def health_frame split: option.split)

lemma report_log:
  assumes "log_inv h"
  shows "log_inv (fst (Health_report c err t h))"
proof (cases err)
  case None
  then have "hl_log (fst (Health_report c err t h)) = hl_log h" "hl_observed (fst (Health_report c err t h)) = hl_observed h"
    by (simp_all add: report_log_eq)
  then show ?thesis using log_inv_same report_log_eq(1) assms by blast
next
  case (Some e)
  have "hl_observed (fst (Health_report c err t h)) = (hl_observed h)(rc_probe c \<mapsto> False)"
    by (simp add: report_log_eq Some)
  then show ?thesis
    by (rule log_inv_verdict[OF assms _ report_log_eq(3,1)])
       (use assms in \<open>auto simp: Some log_inv_def\<close>)
qed

lemma evaluate_log:
  "hl_logger (fst (evaluate force env joined t0 t1 h)) = hl_logger h"
  "hl_log (fst (evaluate force env joined t0 t1 h)) = hl_log h"
  "hl_observed (fst (evaluate force env joined t0 t1 h)) = hl_observed h"
  by (simp_all add: evaluate_def evaluate_begin_def health_frame split: option.split)

lemma Status_log: "log_inv h \<Longrightarrow> log_inv (fst (Status p force env joined t0 t1 t2 h))"
  by (cases "gate_open p (hl_state h)")
     (simp_all add: Status_by_gate Let_def status_tail_log evaluate_log health_frame
      log_inv_same[of "fst (evaluate force env joined t0 t1 h)" h]
      log_inv_same[of "h\<lparr>hl_ready := \<lparr>rh_known = True, rh_value = False\<rparr>\<rparr>" h])

interpretation health_log: invariant_machine health_exec log_inv "\<lambda>_. True"
proof
  fix h :: "'a Health" and x
  assume inv: "log_inv h"
  show "log_inv (fst (health_exec x h))"
  proof (cases x)
    case (HStatus p force env joined t0 t1 t2)
    then show ?thesis using inv by (simp add: case_prod_beta Let_def Status_log)
  next
    case (HReport c err t)
    then show ?thesis using inv by (simp add: report_log)
  next
    case (HResume p rs t)
    then show ?thesis using inv by (simp add: status_tail_log)
  qed (use inv in \<open>auto simp: Health_register_def SetBooted_def BeginDrain_def evaluate_begin_def case_prod_beta
         Let_def health_frame log_inv_def split: option.split\<close>)
qed

text \<open>Transitions are logged once: for each probe the logged verdicts alternate, whatever is read or
  pushed in which order, and the last one logged is the verdict on record.\<close>

theorem probe_log_alternates:
  "let h = fst (run_ops health_exec ops (NewHealth logger)) in
     distinct_adj (log_verdicts p (hl_log h)) \<and>
     (log_verdicts p (hl_log h) = [] \<or> hl_observed h p = Some (last (log_verdicts p (hl_log h))))"
proof -
  have "log_inv (fst (run_ops health_exec ops (NewHealth logger :: 'a Health)))"
    by (rule health_log.run_inv) (simp_all add: NewHealth_def log_inv_def)
  then show ?thesis by (auto simp: log_inv_def Let_def)
qed

section \<open>How long a verdict has held\<close>

text \<open>The verdict a component was last observed with, and when the run of observations with that
  verdict began.\<close>

definition verdict_start :: "(bool \<times> time) list \<Rightarrow> verdictSince option" where
  "verdict_start obs =
     (if obs = [] then None
      else let v = fst (last obs)
           in Some \<lparr>vs_ready = v, vs_at = snd (last (takeWhile (\<lambda>x. fst x = v) (rev obs)))\<rparr>)"

definition obs_of :: "string \<Rightarrow> (string \<times> bool \<times> time) list \<Rightarrow> (bool \<times> time) list" where
  "obs_of k os = map snd (filter (\<lambda>x. fst x = k) os)"

lemma obs_of_simps [simp]:
  "obs_of k [] = []" "obs_of k (os @ ps) = obs_of k os @ obs_of k ps"
  "obs_of k ((k', x) # os) = (if k' = k then [x] else []) @ obs_of k os"
  by (simp_all add: obs_of_def)

lemma verdict_start_snoc:
  "verdict_start (obs @ [(v, t)]) =
     (if map_option vs_ready (verdict_start obs) = Some v then verdict_start obs
      else Some \<lparr>vs_ready = v, vs_at = t\<rparr>)"
  by (cases obs rule: rev_cases) (auto simp: verdict_start_def Let_def)

lemma since_notes:
  "(\<forall>k. m k = verdict_start (obs_of k os)) \<Longrightarrow>
     fold since_note ns m k = verdict_start (obs_of k (os @ ns))"
proof (induction ns arbitrary: os m)
  case Nil
  then show ?case by simp
next
  case (Cons n ns)
  obtain k' v t where n: "n = (k', v, t)" by (cases n)
  have "\<forall>k. since_note n m k = verdict_start (obs_of k (os @ [n]))"
    using Cons.prems by (auto simp: n since_note_def verdict_start_snoc)
  from Cons.IH[OF this] show ?case by simp
qed

text \<open>What is observed of which component in one operation: a pushed change, the outcomes of an
  evaluation, and the entries of every report handed out.\<close>

definition status_notes ::
  "string \<Rightarrow> bool \<Rightarrow> ('r readyContributor \<Rightarrow> ready_outcome) \<Rightarrow> ComponentStatus list option
     \<Rightarrow> time \<Rightarrow> time \<Rightarrow> time \<Rightarrow> 'r Health \<Rightarrow> (string \<times> bool \<times> time) list" where
  "status_notes p force env joined t0 t1 t2 h =
     (if gate_open p (hl_state h) \<and> (force \<or> \<not> cache_fresh t0 h) \<and> hl_inflight h = None
      then map (entry_note t1) (runContributors env (hl_contributors h)) else []) @
     map (entry_note t2) (snd (snd (Status p force env joined t0 t1 t2 h)))"

fun health_notes :: "'r health_op \<Rightarrow> 'r Health \<Rightarrow> (string \<times> bool \<times> time) list" where
  "health_notes (HReport c err t) h = [(component c, err = None, t)]"
| "health_notes (HStatus p force env joined t0 t1 t2) h = status_notes p force env joined t0 t1 t2 h"
| "health_notes (HEvalEnd env t) h =
     (case hl_inflight h of None \<Rightarrow> [] | Some cs \<Rightarrow> map (entry_note t) (runContributors env cs))"
| "health_notes (HResume p rs t) h =
     map (entry_note t) (process_entry True NoReason # filter (\<lambda>r. cs_probe r = p) rs)"
| "health_notes _ h = []"

fun run_notes :: "'r health_op list \<Rightarrow> 'r Health \<Rightarrow> (string \<times> bool \<times> time) list" where
  "run_notes [] h = []"
| "run_notes (x # xs) h = health_notes x h @ run_notes xs (fst (health_exec x h))"

lemma entry_note_stamped: "map (entry_note t) (snd (stampSince t' ss h)) = map (entry_note t) ss"
proof -
  have "map (entry_note t) xs = map (entry_note t) (map strip xs)" for xs by (simp add: entry_note_def)
  then show ?thesis by (metis stampSince_strip)
qed

lemma evaluate_since:
  "hl_since (fst (evaluate force env joined t0 t1 h)) =
     fold since_note
       (if (force \<or> \<not> cache_fresh t0 h) \<and> hl_inflight h = None
        then map (entry_note t1) (runContributors env (hl_contributors h)) else []) (hl_since h)"
  by (auto simp: evaluate_def evaluate_begin_def health_frame split: option.split)

lemma Status_since:
  "hl_since (fst (Status p force env joined t0 t1 t2 h)) =
     fold since_note (status_notes p force env joined t0 t1 t2 h) (hl_since h)"
  by (cases "gate_open p (hl_state h)")
     (simp_all add: Status_by_gate Let_def status_notes_def status_tail_snd entry_note_stamped
      health_frame evaluate_since)

lemma exec_since: "hl_since (fst (health_exec x h)) = fold since_note (health_notes x h) (hl_since h)"
  by (cases x)
     (simp_all add: Status_since health_frame Health_register_def SetBooted_def BeginDrain_def evaluate_begin_def
      case_prod_beta Let_def split: option.split)

lemma run_since: "hl_since (fst (run_ops health_exec ops h)) = fold since_note (run_notes ops h) (hl_since h)"
  by (induction ops arbitrary: h) (simp_all add: exec_since)

lemma since_NewHealth:
  "hl_since (fst (run_ops health_exec ops (NewHealth logger))) k =
     verdict_start (obs_of k (run_notes ops (NewHealth logger)))"
  using since_notes[of Map.empty "[]" "run_notes ops (NewHealth logger)" k]
  by (simp add: run_since NewHealth_def verdict_start_def)

lemma since_notes_other:
  "k \<notin> fst ` set ns \<Longrightarrow> fold since_note ns m k = m k"
  by (induction ns arbitrary: m) (auto simp: since_note_def)

lemma stampSince_at:
  "distinct (map cs_Component ss) \<Longrightarrow> s \<in> set (snd (stampSince t ss h)) \<Longrightarrow>
     cs_Since s = map_option vs_at (hl_since (fst (stampSince t ss h)) (cs_Component s))"
proof (induction ss arbitrary: h)
  case Nil
  then show ?case by simp
next
  case (Cons a ss)
  let ?h = "fst (noteSinceLocked (cs_Component a) (cs_Ready a) t h)"
  have head: "snd (stampSince t (a # ss) h) =
      a\<lparr>cs_Since := Some (snd (noteSinceLocked (cs_Component a) (cs_Ready a) t h))\<rparr> # snd (stampSince t ss ?h)"
    and rest: "fst (stampSince t (a # ss) h) = fst (stampSince t ss ?h)"
    by (simp_all add: stampSince.simps(2) case_prod_beta Let_def)
  have "hl_since (fst (stampSince t ss ?h)) (cs_Component a) = hl_since ?h (cs_Component a)"
    using Cons.prems(1) since_notes_other[of "cs_Component a" "map (entry_note t) ss"]
    by (auto simp: health_frame entry_note_def image_iff)
  then show ?case
    using Cons.IH[of ?h] Cons.prems noteSinceLocked_snd[of "cs_Component a" "cs_Ready a" t h] head rest
    by (auto simp: noteSinceLocked_fst)
qed

lemma Status_out:
  fixes h :: "'r Health"
  shows "\<exists>ss (h' :: 'r Health). snd (snd (Status p force env joined t0 t1 t2 h)) = snd (stampSince t2 ss h') \<and>
           hl_since (fst (Status p force env joined t0 t1 t2 h)) = hl_since (fst (stampSince t2 ss h'))"
proof -
  have "\<exists>ss h'. fst (Status p force env joined t0 t1 t2 h) = fst (status_tail p ss t2 h') \<and>
           snd (snd (Status p force env joined t0 t1 t2 h)) = snd (status_tail p ss t2 h')"
    by (cases "gate_open p (hl_state h)") (simp add: Status_by_gate Let_def, blast)+
  then obtain ss h' where "fst (Status p force env joined t0 t1 t2 h) = fst (status_tail p ss t2 h')"
    and "snd (snd (Status p force env joined t0 t1 t2 h)) = snd (status_tail p ss t2 h')" by blast
  then have "snd (snd (Status p force env joined t0 t1 t2 h)) = snd (stampSince t2 ss h') \<and>
      hl_since (fst (Status p force env joined t0 t1 t2 h)) = hl_since (fst (stampSince t2 ss h'))"
    by (simp add: status_tail_snd health_frame)
  then show ?thesis by blast
qed

lemma map_component_stamped: "map cs_Component (snd (stampSince t ss h)) = map cs_Component ss"
proof -
  have "map cs_Component xs = map cs_Component (map strip xs)" for xs by simp
  then show ?thesis by (metis stampSince_strip)
qed

text \<open>C18: An entry of a report is dated with the beginning of the current run: of all the times its
  component was observed since the process started (pushed, evaluated or reported, in any order),
  the first after which every observation agreed with the present verdict. Looking again never resets
  the clock.\<close>

theorem since_is_run_start:
  fixes ops :: "'r health_op list"
  assumes "distinct (map cs_Component out)"
    and "out = snd (snd (Status p force env joined t0 t1 t2 (fst (run_ops health_exec ops (NewHealth logger)))))"
  shows "list_all (\<lambda>s. cs_Since s = map_option vs_at (verdict_start (obs_of (cs_Component s)
           (run_notes (ops @ [HStatus p force env joined t0 t1 t2]) (NewHealth logger))))) out"
proof -
  let ?h = "fst (run_ops health_exec ops (NewHealth logger))"
  let ?x = "HStatus p force env joined t0 t1 t2"
  obtain ss and h' :: "'r Health" where out: "out = snd (stampSince t2 ss h')"
    and since: "hl_since (fst (Status p force env joined t0 t1 t2 ?h)) = hl_since (fst (stampSince t2 ss h'))"
    using Status_out assms(2) by metis
  have "distinct (map cs_Component ss)" using assms(1) by (simp add: out map_component_stamped)
  moreover have "hl_since (fst (stampSince t2 ss h')) k =
      verdict_start (obs_of k (run_notes (ops @ [?x]) (NewHealth logger)))" for k
    using since since_NewHealth[of "ops @ [?x]" logger k]
    by (simp add: run_ops_append_fst case_prod_beta Let_def)
  ultimately have "cs_Since s = map_option vs_at (verdict_start (obs_of (cs_Component s)
           (run_notes (ops @ [?x]) (NewHealth logger))))" if "s \<in> set out" for s
    using stampSince_at[of ss s t2 h'] that by (simp add: out)
  then show ?thesis by (simp add: list_all_iff)
qed

theorem since_is_run_start_witness:
  "map cs_Since (snd (snd (Status ProbeReady False (\<lambda>_. ReadyNil) None 3 3 3 (fst (run_ops health_exec
     [HStatus ProbeReady False (\<lambda>_. ReadyNil) None 1 1 1] (NewHealth True :: unit Health)))))) = [Some 1]"
  using since_is_run_start[of "snd (snd (Status ProbeReady False (\<lambda>_. ReadyNil) None 3 3 3 (fst (run_ops health_exec
     [HStatus ProbeReady False (\<lambda>_. ReadyNil) None 1 1 1] (NewHealth True :: unit Health)))))"
     ProbeReady False "\<lambda>_. ReadyNil" None 3 3 3 "[HStatus ProbeReady False (\<lambda>_. ReadyNil) None 1 1 1]" True]
  by (simp add: demo_defs Status_def processStatus_def status_tail_def stampSince.simps(2) noteSinceLocked_def
      ready_observe_eq noteVerdict_def logHealthTransition_def process_entry_def Let_def)

end
