(* ===== verification/Shutdown.thy ===== *)
theory Shutdown
  imports Health
begin

text \<open>
  The life of a server process around its components (\<open>cmd/serve.go\<close>, \<open>cmd/startup.go\<close>,
  \<open>config/startup.go\<close>, \<open>config/discard.go\<close>): starting in order until a terminal failure, the four phases
  of the shutdown with their budgets, and the release of a configuration that was never started. What
  a component does when it is called is decided outside: a call has an effect, which is the time it
  took, the operations it performed on the process health, its result, and a new state of everything
  else. The record of a process keeps the calls made and what was logged.
\<close>

section \<open>Errors\<close>

text \<open>An error as \<open>errors.As\<close> sees it: a leaf, a terminal mark, or an error that unwraps to others.\<close>

datatype go_error = Leaf string | TerminalError go_error | Wrapping string "go_error list"

fun IsTerminal :: "go_error \<Rightarrow> bool" where
  "IsTerminal (Leaf s) = False"
| "IsTerminal (TerminalError e) = True"
| "IsTerminal (Wrapping s es) = list_ex IsTerminal es"

definition Terminal :: "go_error option \<Rightarrow> go_error option" where
  "Terminal err = map_option TerminalError err"

section \<open>A process and its components\<close>

definition DefaultShutdownTimeout :: duration where "DefaultShutdownTimeout = 10 * 10 ^ 9"
definition quiesceInterval :: duration where "quiesceInterval = 25 * 10 ^ 6"

datatype 'c lifecall =
    CListen | CUnlisten
  | CStart 'c | CPostStart 'c | CDrain 'c | CPreStop 'c | CClose string | CStop 'c | CBus string

datatype 'c notice =
    Degraded 'c | CannotStart 'c | NotDrained 'c | StillAccepting | PreStopFailed 'c
  | StillInFlight int "(string \<times> int) list" | QueueUnclean string | GaveUp string | StopFailed 'c
  | BusUnclean string

record ('c, 'r, 'w) proc =
  pr_now :: time
  pr_health :: "'r Health"
  pr_w :: 'w
  pr_calls :: "('c lifecall \<times> processState) list"
  pr_samples :: "int list"
  pr_log :: "'c notice list"

record ('r, 'w) effect =
  ef_took :: nat
  ef_health :: "'r health_op list"
  ef_w :: 'w
  ef_err :: "go_error option"

text \<open>A \<open>Close\<close> that is waited for until a timer fires: it has returned by then, or it is still running
  (\<open>ef_took\<close> is then how late the timer is seen, and what the goroutine does later is part of the
  effects of later calls).\<close>

datatype ('r, 'w) closing = Returned "('r, 'w) effect" | Running "('r, 'w) effect"

record ('r, 'w) InFlightHolder =
  ih_Name :: string
  ih_Pending :: "('w \<Rightarrow> int) option"
  ih_Close :: "(duration \<Rightarrow> 'w \<Rightarrow> ('r, 'w) closing) option"

text \<open>The methods of the components. \<open>Drain\<close> is given the time left until the deadline of its context.
  \<open>m_sleep\<close> is what happens during a sleep, its time the excess over the time asked for, and \<open>m_serve\<close>
  what happens until the signal arrives.\<close>

record ('c, 'r, 'w) methods =
  m_Start :: "'c \<Rightarrow> 'w \<Rightarrow> ('r, 'w) effect"
  m_PostStart :: "'c \<Rightarrow> 'w \<Rightarrow> ('r, 'w) effect"
  m_Drain :: "'c \<Rightarrow> duration \<Rightarrow> 'w \<Rightarrow> ('r, 'w) effect"
  m_PreStop :: "'c \<Rightarrow> 'w \<Rightarrow> ('r, 'w) effect"
  m_Stop :: "'c \<Rightarrow> 'w \<Rightarrow> ('r, 'w) effect"
  m_BusStop :: "string \<Rightarrow> 'w \<Rightarrow> ('r, 'w) effect"
  m_sleep :: "'w \<Rightarrow> ('r, 'w) effect"
  m_serve :: "'w \<Rightarrow> ('r, 'w) effect"

record ('c, 'r, 'w) server_config =
  Startables :: "'c list"
  PostStartables :: "'c list"
  Drainables :: "'c list"
  PreStoppables :: "'c list"
  Stoppables :: "'c list"
  InFlight :: "('r, 'w) InFlightHolder list"
  Buses :: "string list"

section \<open>One call\<close>

definition spend :: "('r, 'w) effect \<Rightarrow> ('c, 'r, 'w) proc \<Rightarrow> ('c, 'r, 'w) proc" where
  "spend e p = p\<lparr>pr_now := pr_now p + int (ef_took e),
                 pr_health := fst (run_ops health_exec (ef_health e) (pr_health p)), pr_w := ef_w e\<rparr>"

definition noted :: "'c notice \<Rightarrow> ('c, 'r, 'w) proc \<Rightarrow> ('c, 'r, 'w) proc" where
  "noted n p = p\<lparr>pr_log := pr_log p @ [n]\<rparr>"

definition recorded :: "'c lifecall \<Rightarrow> ('c, 'r, 'w) proc \<Rightarrow> ('c, 'r, 'w) proc" where
  "recorded k p = p\<lparr>pr_calls := pr_calls p @ [(k, hl_state (pr_health p))]\<rparr>"

definition invoke ::
  "'c lifecall \<Rightarrow> ('w \<Rightarrow> ('r, 'w) effect) \<Rightarrow> ('c, 'r, 'w) proc \<Rightarrow> ('c, 'r, 'w) proc \<times> go_error option" where
  "invoke k f p = (let e = f (pr_w p) in (spend e (recorded k p), ef_err e))"

section \<open>Starting\<close>

definition terminalStart :: "'c \<Rightarrow> go_error \<Rightarrow> ('c, 'r, 'w) proc \<Rightarrow> ('c, 'r, 'w) proc \<times> bool" where
  "terminalStart c err p = (if IsTerminal err then (noted (CannotStart c) p, True) else (p, False))"

fun start_each ::
  "('c \<Rightarrow> 'c lifecall) \<Rightarrow> ('c \<Rightarrow> 'w \<Rightarrow> ('r, 'w) effect) \<Rightarrow> 'c list \<Rightarrow> ('c, 'r, 'w) proc
     \<Rightarrow> ('c, 'r, 'w) proc \<times> go_error option" where
  "start_each k f [] p = (p, None)"
| "start_each k f (c # cs) p =
     (case invoke (k c) (f c) p of
        (p1, None) \<Rightarrow> start_each k f cs p1
      | (p1, Some err) \<Rightarrow>
          (case terminalStart c err p1 of
             (p2, True) \<Rightarrow> (p2, Some err)
           | (p2, False) \<Rightarrow> start_each k f cs (noted (Degraded c) p2)))"

definition startAll ::
  "('c, 'r, 'w) methods \<Rightarrow> ('c, 'r, 'w) server_config \<Rightarrow> ('c, 'r, 'w) proc
     \<Rightarrow> ('c, 'r, 'w) proc \<times> go_error option" where
  "startAll m cfg p =
     (case start_each CStart (m_Start m) (Startables cfg) p of
        (p1, Some err) \<Rightarrow> (p1, Some err)
      | (p1, None) \<Rightarrow> start_each CPostStart (m_PostStart m) (PostStartables cfg) p1)"

section \<open>The phases of the shutdown\<close>

text \<open>The loop of a phase: every component of the list is called, whatever the others return.\<close>

fun call_each ::
  "('c \<Rightarrow> 'c lifecall) \<Rightarrow> ('c \<Rightarrow> time \<Rightarrow> 'w \<Rightarrow> ('r, 'w) effect) \<Rightarrow> ('c \<Rightarrow> 'c notice) \<Rightarrow> 'c list
     \<Rightarrow> ('c, 'r, 'w) proc \<Rightarrow> ('c, 'r, 'w) proc" where
  "call_each k f n [] p = p"
| "call_each k f n (c # cs) p =
     (case invoke (k c) (f c (pr_now p)) p of
        (p1, None) \<Rightarrow> call_each k f n cs p1
      | (p1, Some err) \<Rightarrow> call_each k f n cs (noted (n c) p1))"

definition drain ::
  "('c, 'r, 'w) methods \<Rightarrow> ('c, 'r, 'w) server_config \<Rightarrow> duration \<Rightarrow> ('c, 'r, 'w) proc \<Rightarrow> ('c, 'r, 'w) proc"
where
  "drain m cfg budget p =
     (let deadline = pr_now p + budget;
          p1 = call_each CDrain (\<lambda>c now. m_Drain m c (deadline - now)) NotDrained (rev (Drainables cfg)) p
      in if deadline \<le> pr_now p1 then noted StillAccepting p1 else p1)"

definition prestop ::
  "('c, 'r, 'w) methods \<Rightarrow> ('c, 'r, 'w) server_config \<Rightarrow> ('c, 'r, 'w) proc \<Rightarrow> ('c, 'r, 'w) proc" where
  "prestop m cfg = call_each CPreStop (\<lambda>c now. m_PreStop m c) PreStopFailed (rev (PreStoppables cfg))"

definition stop_all ::
  "('c, 'r, 'w) methods \<Rightarrow> ('c, 'r, 'w) server_config \<Rightarrow> ('c, 'r, 'w) proc \<Rightarrow> ('c, 'r, 'w) proc" where
  "stop_all m cfg = call_each CStop (\<lambda>c now. m_Stop m c) StopFailed (rev (Stoppables cfg))"

definition pendingWork :: "('c, 'r, 'w) server_config \<Rightarrow> 'w \<Rightarrow> int" where
  "pendingWork cfg w = (\<Sum>h \<leftarrow> InFlight cfg. case ih_Pending h of None \<Rightarrow> 0 | Some f \<Rightarrow> f w)"

definition pendingHolders :: "('c, 'r, 'w) server_config \<Rightarrow> 'w \<Rightarrow> (string \<times> int) list" where
  "pendingHolders cfg w =
     concat (map (\<lambda>h. case ih_Pending h of
                        None \<Rightarrow> []
                      | Some f \<Rightarrow> if f w > 0 then [(ih_Name h, f w)] else []) (InFlight cfg))"

definition pause :: "('c, 'r, 'w) methods \<Rightarrow> ('c, 'r, 'w) proc \<Rightarrow> ('c, 'r, 'w) proc" where
  "pause m p = (let e = m_sleep m (pr_w p) in spend e (p\<lparr>pr_now := pr_now p + quiesceInterval\<rparr>))"

definition sampled :: "int \<Rightarrow> ('c, 'r, 'w) proc \<Rightarrow> ('c, 'r, 'w) proc" where
  "sampled k p = p\<lparr>pr_samples := pr_samples p @ [k]\<rparr>"

text \<open>The loop of \<open>quiesce\<close>, from a given number of empty readings in a row.\<close>

function await_empty ::
  "('c, 'r, 'w) methods \<Rightarrow> ('c, 'r, 'w) server_config \<Rightarrow> time \<Rightarrow> nat \<Rightarrow> ('c, 'r, 'w) proc \<Rightarrow> ('c, 'r, 'w) proc"
where
  "await_empty m cfg deadline readings p =
     (if readings < 2 then
        (let pending = pendingWork cfg (pr_w p); p1 = sampled pending p
         in if pending = 0 then
              (if readings + 1 = 2 then p1 else await_empty m cfg deadline (readings + 1) (pause m p1))
            else if deadline < pr_now p then noted (StillInFlight pending (pendingHolders cfg (pr_w p))) p1
            else await_empty m cfg deadline 0 (pause m p1))
      else p)"
  by pat_completeness auto

lemma pr_now_simps [simp]:
  "pr_now (spend e p) = pr_now p + int (ef_took e)"
  "pr_now (noted n p) = pr_now p"
  "pr_now (recorded k p) = pr_now p"
  "pr_now (sampled i p) = pr_now p"
  "pr_now (fst (invoke k f p)) = pr_now p + int (ef_took (f (pr_w p)))"
  by (simp_all add: spend_def noted_def recorded_def sampled_def invoke_def Let_def)

lemma pr_now_pause [simp]:
  "pr_now (pause m p) = pr_now p + quiesceInterval + int (ef_took (m_sleep m (pr_w p)))"
  by (simp add: pause_def Let_def)

lemma quiesceInterval_pos: "quiesceInterval > 0"
  by (simp add: quiesceInterval_def)

text \<open>A turn before the deadline moves the clock, and after it an empty reading is followed by the last
  turn or the end.\<close>

termination await_empty
  by (relation "measure (\<lambda>(m, cfg, deadline, readings, p).
        3 * nat (deadline + 1 - pr_now p) + (2 - readings))")
     (use quiesceInterval_pos in auto)

declare await_empty.simps [simp del]

fun close_each ::
  "time \<Rightarrow> ('r, 'w) InFlightHolder list \<Rightarrow> ('c, 'r, 'w) proc \<Rightarrow> ('c, 'r, 'w) proc" where
  "close_each timer [] p = p"
| "close_each timer (h # hs) p =
     (case ih_Close h of
        None \<Rightarrow> close_each timer hs p
      | Some close \<Rightarrow>
          (let p1 = recorded (CClose (ih_Name h)) p
           in case close (timer - pr_now p) (pr_w p) of
                Returned e \<Rightarrow>
                  (let p2 = (spend e p1)\<lparr>pr_now := min timer (pr_now p + int (ef_took e))\<rparr>
                   in case ef_err e of
                        None \<Rightarrow> close_each timer hs p2
                      | Some err \<Rightarrow> close_each timer hs (noted (QueueUnclean (ih_Name h)) p2))
              | Running e \<Rightarrow>
                  noted (GaveUp (ih_Name h)) ((spend e p1)\<lparr>pr_now := timer + int (ef_took e)\<rparr>)))"

definition closeQueues ::
  "('c, 'r, 'w) server_config \<Rightarrow> duration \<Rightarrow> ('c, 'r, 'w) proc \<Rightarrow> ('c, 'r, 'w) proc" where
  "closeQueues cfg budget p =
     (let budget' = (if budget < quiesceInterval then quiesceInterval else budget)
      in close_each (pr_now p + budget') (rev (InFlight cfg)) p)"

definition quiesce ::
  "('c, 'r, 'w) methods \<Rightarrow> ('c, 'r, 'w) server_config \<Rightarrow> duration \<Rightarrow> ('c, 'r, 'w) proc \<Rightarrow> ('c, 'r, 'w) proc"
where
  "quiesce m cfg budget p =
     (if InFlight cfg = [] then p
      else let deadline = pr_now p + budget; p1 = await_empty m cfg deadline 0 p
           in closeQueues cfg (deadline - pr_now p1) p1)"

definition begin_drain :: "('c, 'r, 'w) proc \<Rightarrow> ('c, 'r, 'w) proc" where
  "begin_drain p = p\<lparr>pr_health := fst (BeginDrain (pr_health p))\<rparr>"

definition shutdown ::
  "('c, 'r, 'w) methods \<Rightarrow> ('c, 'r, 'w) server_config \<Rightarrow> ('c, 'r, 'w) proc \<Rightarrow> ('c, 'r, 'w) proc" where
  "shutdown m cfg p =
     (let p1 = begin_drain p;
          p2 = drain m cfg DefaultShutdownTimeout p1;
          p3 = prestop m cfg p2;
          p4 = quiesce m cfg DefaultShutdownTimeout p3
      in stop_all m cfg p4)"


definition stop_bus ::
  "('c, 'r, 'w) methods \<Rightarrow> string \<Rightarrow> ('c, 'r, 'w) proc \<Rightarrow> ('c, 'r, 'w) proc" where
  "stop_bus m b p =
     (case invoke (CBus b) (m_BusStop m b) p of
        (p1, None) \<Rightarrow> p1
      | (p1, Some err) \<Rightarrow> noted (BusUnclean b) p1)"

text \<open>The release of a configuration that was built and never started; \<open>order\<close> is the order in which
  the map of buses is walked.\<close>

definition Discard ::
  "('c, 'r, 'w) methods \<Rightarrow> ('c, 'r, 'w) server_config \<Rightarrow> string list \<Rightarrow> ('c, 'r, 'w) proc \<Rightarrow> ('c, 'r, 'w) proc"
where
  "Discard m cfg order p =
     (let deadline = pr_now p + DefaultShutdownTimeout;
          p1 = call_each CDrain (\<lambda>c now. m_Drain m c (deadline - now)) NotDrained (rev (Drainables cfg)) p;
          p2 = call_each CStop (\<lambda>c now. m_Stop m c) StopFailed (rev (Stoppables cfg)) p1
      in fold (stop_bus m) order p2)"


section \<open>The order of the calls\<close>


named_theorems proc_frame \<open>what the parts of a shutdown do to the record of a process\<close>

lemma pr_calls_frame [proc_frame]:
  "pr_calls (spend e p) = pr_calls p"
  "pr_calls (noted n p) = pr_calls p"
  "pr_calls (sampled i p) = pr_calls p"
  "pr_calls (pause m p) = pr_calls p"
  "pr_calls (begin_drain p) = pr_calls p"
  "pr_calls (recorded k p) = pr_calls p @ [(k, hl_state (pr_health p))]"
  by (simp_all add: spend_def noted_def sampled_def pause_def begin_drain_def recorded_def Let_def)

lemma pr_log_frame [proc_frame]:
  "pr_log (spend e p) = pr_log p"
  "pr_log (noted n p) = pr_log p @ [n]"
  "pr_log (sampled i p) = pr_log p"
  "pr_log (pause m p) = pr_log p"
  "pr_log (recorded k p) = pr_log p"
  by (simp_all add: spend_def noted_def sampled_def pause_def recorded_def Let_def)

lemma pr_health_frame [proc_frame]:
  "pr_health (noted n p) = pr_health p"
  "pr_health (sampled i p) = pr_health p"
  "pr_health (recorded k p) = pr_health p"
  by (simp_all add: noted_def sampled_def recorded_def)


lemma invoke_cases:
  "invoke k f p = (spend (f (pr_w p)) (recorded k p), ef_err (f (pr_w p)))"
  by (simp add: invoke_def Let_def)






lemma close_each_log: "set (pr_log p) \<subseteq> set (pr_log (close_each timer hs p))"
proof (induction hs arbitrary: p)
  case (Cons h hs)
  show ?case
  proof (cases "ih_Close h")
    case (Some close)
    let ?q = "\<lambda>e. (spend e (recorded (CClose (ih_Name h)) p))\<lparr>pr_now := min timer (pr_now p + int (ef_took e))\<rparr>"
    have "set (pr_log p) \<subseteq> set (pr_log (close_each timer hs (?q e)))"
      and "set (pr_log p) \<subseteq> set (pr_log (close_each timer hs (noted x (?q e))))" for e x
      using Cons.IH [of "?q e"] Cons.IH [of "noted x (?q e)"] by (simp_all add: proc_frame)
    then show ?thesis
      using Some by (auto simp: Let_def proc_frame split: closing.split option.split)
  qed (use Cons.IH [of p] in simp)
qed simp








section \<open>A whole life\<close>







section \<open>When the pipeline counts as empty\<close>

lemma pr_samples_frame [proc_frame]:
  "pr_samples (pause m p) = pr_samples p"
  "pr_samples (noted n p) = pr_samples p"
  "pr_samples (sampled k p) = pr_samples p @ [k]"
  by (simp_all add: pause_def spend_def noted_def sampled_def Let_def)

lemma pr_w_frame [proc_frame]:
  "pr_w (noted n p) = pr_w p"
  "pr_w (sampled k p) = pr_w p"
  by (simp_all add: noted_def sampled_def)

text \<open>How a wait that took the readings \<open>xs\<close> ends: two of them were empty in a row, the last a moment
  ago, and nothing is logged; or the last one, after the deadline, was not, and the log says what is
  left.\<close>

definition waited ::
  "('c, 'r, 'w) server_config \<Rightarrow> time \<Rightarrow> int list \<Rightarrow> ('c, 'r, 'w) proc \<Rightarrow> 'c notice list \<Rightarrow> bool" where
  "waited cfg deadline xs q log \<longleftrightarrow>
     ((\<exists>ys. xs = ys @ [0, 0]) \<and> pendingWork cfg (pr_w q) = 0 \<and> pr_log q = log) \<or>
     ((\<exists>ys k. xs = ys @ [k] \<and> k \<noteq> 0 \<and> k = pendingWork cfg (pr_w q)) \<and> deadline < pr_now q \<and>
      pr_log q = log @ [StillInFlight (pendingWork cfg (pr_w q)) (pendingHolders cfg (pr_w q))])"

lemma waited_Cons: "waited cfg deadline xs q log \<Longrightarrow> waited cfg deadline (x # xs) q log"
  unfolding waited_def by (metis append_Cons)

lemma await_empty_waited:
  "readings < 2 \<Longrightarrow>
     \<exists>xs. pr_samples (await_empty m cfg deadline readings p) = pr_samples p @ xs \<and>
          waited cfg deadline (replicate readings 0 @ xs) (await_empty m cfg deadline readings p) (pr_log p)"
proof (induction m cfg deadline readings p rule: await_empty.induct)
  case (1 m cfg deadline readings p)
  let ?pending = "pendingWork cfg (pr_w p)"
  let ?p1 = "sampled ?pending p"
  let ?q = "await_empty m cfg deadline readings p"
  consider (empty_again) "?pending = 0" "readings = 1" | (empty_first) "?pending = 0" "readings = 0"
    | (late) "?pending \<noteq> 0" "deadline < pr_now p" | (again) "?pending \<noteq> 0" "\<not> deadline < pr_now p"
    using 1(3) by linarith
  then show ?case
  proof cases
    case empty_again
    then have q: "?q = ?p1"
      by (subst await_empty.simps) (simp add: Let_def)
    show ?thesis
      unfolding q using empty_again by (intro exI [of _ "[0]"]) (simp add: waited_def proc_frame)
  next
    case empty_first
    then have q: "?q = await_empty m cfg deadline 1 (pause m ?p1)"
      by (subst await_empty.simps) (simp add: Let_def)
    obtain xs where xs: "pr_samples ?q = pr_samples p @ 0 # xs"
      "waited cfg deadline (0 # xs) ?q (pr_log p)"
      using 1(1) [OF 1(3) refl refl empty_first(1)] empty_first q by (auto simp: proc_frame)
    then show ?thesis
      using empty_first by (intro exI [of _ "0 # xs"]) (simp add: xs)
  next
    case late
    then have q: "?q = noted (StillInFlight ?pending (pendingHolders cfg (pr_w p))) ?p1"
      using 1(3) by (subst await_empty.simps) (simp add: Let_def)
    show ?thesis
      unfolding q using late by (intro exI [of _ "[?pending]"]) (simp add: waited_def proc_frame)
  next
    case again
    then have q: "?q = await_empty m cfg deadline 0 (pause m ?p1)"
      using 1(3) by (subst await_empty.simps) (simp add: Let_def)
    obtain xs where xs: "pr_samples ?q = pr_samples p @ ?pending # xs" "waited cfg deadline xs ?q (pr_log p)"
      using 1(2) [OF 1(3) refl refl again] q by (auto simp: proc_frame)
    have "waited cfg deadline (replicate readings 0 @ ?pending # xs) ?q (pr_log p)"
      using waited_Cons [OF xs(2)] waited_Cons [OF waited_Cons [OF xs(2)]] 1(3) by (cases readings) auto
    then show ?thesis
      using xs(1) by blast
  qed
qed

text \<open>C35: the shutdown takes the pipeline for empty only after two readings of zero in a row, a sleep apart;
  otherwise it goes on waiting until a reading after the deadline still finds work, which it logs with
  the holders that carry it. The wait always ends.\<close>

theorem quiesce_settled:
  "\<exists>xs. pr_samples (await_empty m cfg deadline 0 p) = pr_samples p @ xs \<and>
        waited cfg deadline xs (await_empty m cfg deadline 0 p) (pr_log p)"
  using await_empty_waited [of 0] by simp

section \<open>How long a shutdown takes\<close>

text \<open>The contract of the components: a drain ends when its context does, at most \<open>late\<close> after it, sleeps
  and timers are at most \<open>late\<close> late, and the calls that have no deadline take at most \<open>a\<close> and \<open>b\<close>.\<close>

definition drains_timely :: "('c, 'r, 'w) methods \<Rightarrow> int \<Rightarrow> bool" where
  "drains_timely m late \<longleftrightarrow> (\<forall>c r w. int (ef_took (m_Drain m c r w)) \<le> max 0 r + late)"

definition sleeps_timely :: "('c, 'r, 'w) methods \<Rightarrow> int \<Rightarrow> bool" where
  "sleeps_timely m late \<longleftrightarrow> (\<forall>w. int (ef_took (m_sleep m w)) \<le> late)"

definition timers_timely :: "('r, 'w) InFlightHolder list \<Rightarrow> int \<Rightarrow> bool" where
  "timers_timely hs late \<longleftrightarrow>
     (\<forall>h \<in> set hs. \<forall>close r w e. ih_Close h = Some close \<and> close r w = Running e \<longrightarrow> int (ef_took e) \<le> late)"

definition stops_within :: "('c, 'r, 'w) methods \<Rightarrow> int \<Rightarrow> int \<Rightarrow> bool" where
  "stops_within m a b \<longleftrightarrow>
     (\<forall>c w. int (ef_took (m_PreStop m c w)) \<le> a) \<and> (\<forall>c w. int (ef_took (m_Stop m c w)) \<le> b)"

lemma call_each_time:
  assumes "\<And>c now w. int (ef_took (f c now w)) \<le> bound"
  shows "pr_now (call_each k f n cs p) \<le> pr_now p + int (length cs) * bound"
proof (induction cs arbitrary: p)
  case (Cons c cs)
  have step: "pr_now (call_each k f n cs q) \<le> pr_now p + int (length (c # cs)) * bound"
    if "pr_now q = pr_now p + int (ef_took (f c (pr_now p) (pr_w p)))" for q
    using Cons.IH [of q] assms [of c "pr_now p" "pr_w p"] that by (simp add: algebra_simps)
  show ?case
    using step by (simp add: invoke_cases split: option.split)
qed simp

lemma drains_late_nonneg: "drains_timely m late \<Longrightarrow> 0 \<le> late"
  unfolding drains_timely_def by (metis max.idem add_0 of_nat_0_le_iff order_trans)

lemma sleeps_late_nonneg: "sleeps_timely m late \<Longrightarrow> 0 \<le> late"
  unfolding sleeps_timely_def by (meson of_nat_0_le_iff order_trans)

lemma drain_each_time:
  assumes "drains_timely m late"
  shows "pr_now (call_each k (\<lambda>c now. m_Drain m c (deadline - now)) n cs p)
           \<le> max (pr_now p) deadline + int (length cs) * late"
proof (induction cs arbitrary: p)
  case (Cons c cs)
  let ?t = "int (ef_took (m_Drain m c (deadline - pr_now p) (pr_w p)))"
  have "?t \<le> max 0 (deadline - pr_now p) + late" and "0 \<le> late"
    using assms drains_late_nonneg [OF assms] by (simp_all add: drains_timely_def)
  then have t: "max (pr_now p + ?t) deadline \<le> max (pr_now p) deadline + late"
    by (simp add: max_def split: if_splits)
  have step: "pr_now (call_each k (\<lambda>c now. m_Drain m c (deadline - now)) n cs q)
        \<le> max (pr_now p) deadline + int (length (c # cs)) * late"
    if q: "pr_now q = pr_now p + ?t" for q
    using order_trans [OF Cons.IH [of q] add_right_mono [OF t [folded q]]] by (simp add: algebra_simps)
  show ?case
    using step by (simp add: invoke_cases split: option.split)
qed simp

lemma await_empty_time:
  assumes "sleeps_timely m late"
  shows "pr_now (await_empty m cfg deadline readings p)
           \<le> max (pr_now p + (if readings = 0 then quiesceInterval + late else 0))
               (deadline + 2 * (quiesceInterval + late))"
  using assms
proof (induction m cfg deadline readings p rule: await_empty.induct)
  case (1 m cfg deadline readings p)
  let ?pending = "pendingWork cfg (pr_w p)"
  let ?q = "await_empty m cfg deadline readings p" and ?p' = "pause m (sampled ?pending p)"
  obtain J where J: "J = quiesceInterval + late" "0 < J"
    using sleeps_late_nonneg [OF 1(3)] quiesceInterval_pos by simp
  have s: "pr_now ?p' \<le> pr_now p + J"
    using 1(3) J by (simp add: sleeps_timely_def proc_frame)
  consider (finished) "\<not> readings < 2" | (empty_again) "?pending = 0" "readings = 1"
    | (empty_first) "?pending = 0" "readings = 0"
    | (late) "readings < 2" "?pending \<noteq> 0" "deadline < pr_now p"
    | (again) "readings < 2" "?pending \<noteq> 0" "\<not> deadline < pr_now p"
    by linarith
  then have "pr_now ?q \<le> max (pr_now p + (if readings = 0 then J else 0)) (deadline + 2 * J)"
  proof cases
    case empty_first
    then have "?q = await_empty m cfg deadline 1 ?p'"
      by (subst await_empty.simps) (simp add: Let_def)
    moreover have "pr_now (await_empty m cfg deadline 1 ?p') \<le> max (pr_now ?p') (deadline + 2 * J)"
      using 1(1) [OF _ refl refl, OF _ _ _ 1(3)] empty_first J by simp
    ultimately show ?thesis
      using s empty_first(2) by (auto simp: max_def split: if_splits)
  next
    case again
    then have "?q = await_empty m cfg deadline 0 ?p'"
      by (subst await_empty.simps) (simp add: Let_def)
    moreover have "pr_now (await_empty m cfg deadline 0 ?p') \<le> max (pr_now ?p' + J) (deadline + 2 * J)"
      using 1(2) [OF _ refl refl, OF _ _ _ 1(3)] again J by simp
    ultimately show ?thesis
      using s again(3) by (auto simp: max_def split: if_splits)
  next
    case empty_again
    then have "?q = sampled ?pending p"
      by (subst await_empty.simps) (simp add: Let_def)
    then show ?thesis
      using J(2) by (simp add: le_max_iff_disj)
  next
    case late
    then have "?q = noted (StillInFlight ?pending (pendingHolders cfg (pr_w p))) (sampled ?pending p)"
      by (subst await_empty.simps) (simp add: Let_def)
    then show ?thesis
      using J(2) by (simp add: le_max_iff_disj)
  next
    case finished
    then have "?q = p"
      by (subst await_empty.simps) simp
    then show ?thesis
      using J(2) by (simp add: le_max_iff_disj)
  qed
  then show ?case
    unfolding J(1) .
qed

lemma close_each_time:
  assumes "timers_timely hs late" and "0 \<le> late" and "pr_now p \<le> timer"
  shows "pr_now (close_each timer hs p) \<le> timer + late"
  using assms
proof (induction hs arbitrary: p)
  case (Cons h hs)
  have hs: "timers_timely hs late"
    using Cons.prems(1) unfolding timers_timely_def by (meson list.set_intros(2))
  show ?case
  proof (cases "ih_Close h")
    case None
    then show ?thesis
      using Cons.IH [OF hs] Cons.prems by simp
  next
    case (Some close)
    have r: "close (timer - pr_now p) (pr_w p) = Running e \<Longrightarrow> int (ef_took e) \<le> late" for e
      using Cons.prems(1) Some by (auto simp: timers_timely_def)
    show ?thesis
      using r Some Cons.IH [OF hs Cons.prems(2)] by (simp add: Let_def split: closing.split option.split)
  qed
qed simp

lemma quiesce_time:
  assumes "sleeps_timely m late" and "timers_timely (InFlight cfg) late" and "0 \<le> budget"
  shows "pr_now (quiesce m cfg budget p) \<le> pr_now p + budget + 3 * (quiesceInterval + late)"
proof -
  note l = sleeps_late_nonneg [OF assms(1)]
  let ?deadline = "pr_now p + budget"
  let ?q = "await_empty m cfg ?deadline 0 p"
  have a: "pr_now ?q \<le> ?deadline + 2 * (quiesceInterval + late)"
    using await_empty_time [OF assms(1), of cfg ?deadline 0 p] assms(3) l quiesceInterval_pos by simp
  have "timers_timely (rev (InFlight cfg)) late"
    using assms(2) by (simp add: timers_timely_def)
  from close_each_time [OF this l, of ?q]
  have c: "pr_now (close_each (pr_now ?q + left) (rev (InFlight cfg)) ?q) \<le> pr_now ?q + left + late"
    if "0 \<le> left" for left
    using that by simp
  have d: "pr_now (closeQueues cfg left ?q) \<le> pr_now ?q + max quiesceInterval left + late" for left
    using c [of quiesceInterval] c [of left] quiesceInterval_pos
    by (cases "left < quiesceInterval") (simp_all add: closeQueues_def Let_def)
  have "pr_now ?q + max quiesceInterval (?deadline - pr_now ?q) \<le> ?deadline + 3 * quiesceInterval + 2 * late"
    using a quiesceInterval_pos l by (simp add: max_def)
  then show ?thesis
    using d [of "?deadline - pr_now ?q"] quiesceInterval_pos l assms(3) by (simp add: quiesce_def Let_def)
qed

text \<open>C36: a shutdown takes twice the timeout, not a timeout for every component: the drains share one deadline
  and the wait for the pipeline and the closing of its queues share another, whatever the readings and
  however many components there are. What comes on top are three sampling intervals, delays of the
  scheduler, and the calls of \<open>PreStop\<close> and \<open>Stop\<close>, which have no deadline.\<close>

theorem shutdown_bound:
  assumes "drains_timely m late" and "sleeps_timely m late" and "timers_timely (InFlight cfg) late"
    and "stops_within m a b"
  shows "pr_now (shutdown m cfg p) \<le> pr_now p + 2 * DefaultShutdownTimeout + 3 * quiesceInterval +
           (int (length (Drainables cfg)) + 3) * late +
           int (length (PreStoppables cfg)) * a + int (length (Stoppables cfg)) * b"
proof -
  let ?p2 = "drain m cfg DefaultShutdownTimeout (begin_drain p)"
  let ?p3 = "prestop m cfg ?p2"
  let ?p4 = "quiesce m cfg DefaultShutdownTimeout ?p3"
  have t: "0 \<le> DefaultShutdownTimeout"
    by (simp add: DefaultShutdownTimeout_def)
  have 2: "pr_now ?p2 \<le> pr_now p + DefaultShutdownTimeout + int (length (Drainables cfg)) * late"
    using drain_each_time [OF assms(1), of CDrain "pr_now p + DefaultShutdownTimeout" NotDrained
        "rev (Drainables cfg)" "begin_drain p"] t
    by (simp add: drain_def Let_def begin_drain_def)
  have 3: "pr_now ?p3 \<le> pr_now ?p2 + int (length (PreStoppables cfg)) * a"
    using call_each_time [of "\<lambda>c now. m_PreStop m c" a CPreStop PreStopFailed "rev (PreStoppables cfg)"]
      assms(4) by (simp add: prestop_def stops_within_def)
  have 4: "pr_now ?p4 \<le> pr_now ?p3 + DefaultShutdownTimeout + 3 * (quiesceInterval + late)"
    by (rule quiesce_time [OF assms(2,3) t])
  have 5: "pr_now (stop_all m cfg ?p4) \<le> pr_now ?p4 + int (length (Stoppables cfg)) * b"
    using call_each_time [of "\<lambda>c now. m_Stop m c" b CStop StopFailed "rev (Stoppables cfg)"] assms(4)
    by (simp add: stop_all_def stops_within_def)
  show ?thesis
    using 2 3 4 5 by (simp add: shutdown_def Let_def algebra_simps)
qed


section \<open>Releasing a configuration that never started\<close>

text \<open>The shutdown triggers do not run, and what does runs in the order of a shutdown.\<close>

lemma call_each_calls:
  "map fst (pr_calls (call_each k f n cs p)) = map fst (pr_calls p) @ map k cs"
proof (induction cs arbitrary: p)
  case (Cons c cs)
  show ?case
    using Cons.IH [of "spend (f c (pr_now p) (pr_w p)) (recorded (k c) p)"]
      Cons.IH [of "noted (n c) (spend (f c (pr_now p) (pr_w p)) (recorded (k c) p))"]
    by (simp add: invoke_cases proc_frame split: option.split)
qed simp

theorem discard_calls:
  "map fst (pr_calls (Discard m cfg order p)) =
     map fst (pr_calls p) @ map CDrain (rev (Drainables cfg)) @ map CStop (rev (Stoppables cfg)) @
     map CBus order"
proof -
  have "map fst (pr_calls (fold (stop_bus m) order q)) = map fst (pr_calls q) @ map CBus order" for q
    by (induction order arbitrary: q) (simp_all add: stop_bus_def invoke_cases proc_frame split: option.split)
  then show ?thesis
    by (simp add: Discard_def Let_def call_each_calls)
qed

section \<open>A process with one receiver\<close>

text \<open>Component 0 is a receiver whose drain uses up the time it is given, component 1 fails to start for
  good, and the state of the world is the number of queued messages, of which each sleep sees one
  done.\<close>

definition quick :: "nat \<Rightarrow> nat \<Rightarrow> go_error option \<Rightarrow> (unit, nat) effect" where
  "quick t w err = \<lparr>ef_took = t, ef_health = [], ef_w = w, ef_err = err\<rparr>"

definition demo_methods :: "(nat, unit, nat) methods" where
  "demo_methods =
     \<lparr>m_Start = (\<lambda>c w. quick 5 w (if c = 1 then Terminal (Some (Leaf ''port in use'')) else None)),
      m_PostStart = (\<lambda>c w. quick 5 w None),
      m_Drain = (\<lambda>c r w. quick (nat (max 0 r)) w (Some (Leaf ''context deadline exceeded''))),
      m_PreStop = (\<lambda>c w. quick 7 w None), m_Stop = (\<lambda>c w. quick 9 w None),
      m_BusStop = (\<lambda>b w. quick 0 w None), m_sleep = (\<lambda>w. quick 3 (w - 1) None),
      m_serve = (\<lambda>w. quick 1000 w None)\<rparr>"

definition demo_holder :: "(unit, nat) InFlightHolder" where
  "demo_holder =
     \<lparr>ih_Name = ''subscription/audit'', ih_Pending = Some int,
      ih_Close = Some (\<lambda>r w. Returned (quick 1 w None))\<rparr>"

definition demo_server :: "(nat, unit, nat) server_config" where
  "demo_server =
     \<lparr>Startables = [0, 1, 2], PostStartables = [2], Drainables = [0], PreStoppables = [2],
      Stoppables = [0, 2], InFlight = [demo_holder], Buses = []\<rparr>"

definition demo_proc :: "(nat, unit, nat) proc" where
  "demo_proc =
     \<lparr>pr_now = 0, pr_health = NewHealth True, pr_w = 2, pr_calls = [], pr_samples = [], pr_log = []\<rparr>"

lemma demo_timely:
  "drains_timely demo_methods 3" "sleeps_timely demo_methods 3" "timers_timely (InFlight demo_server) 3"
  "stops_within demo_methods 7 9"
  by (simp_all add: drains_timely_def sleeps_timely_def timers_timely_def stops_within_def demo_methods_def
        demo_server_def demo_holder_def quick_def)

lemma shutdown_bound_witness:
  "pr_now (shutdown demo_methods demo_server demo_proc) \<le>
     2 * DefaultShutdownTimeout + 3 * quiesceInterval + 37"
  using shutdown_bound [OF demo_timely, of demo_proc] by (simp add: demo_server_def demo_proc_def)


text \<open>The third component is never started, and the wait sees the two messages done.\<close>

lemma demo_boot:
  "map fst (pr_calls (fst (startAll demo_methods demo_server demo_proc))) = [CStart 0, CStart 1]"
  "snd (startAll demo_methods demo_server demo_proc) = Some (TerminalError (Leaf ''port in use''))"
  by (simp_all add: startAll_def demo_methods_def demo_server_def demo_proc_def quick_def invoke_cases
        terminalStart_def Terminal_def proc_frame)

lemma demo_wait:
  "pr_samples (await_empty demo_methods demo_server 100000000 0 demo_proc) = [2, 1, 0, 0]"
  "pr_log (await_empty demo_methods demo_server 0 0 demo_proc) =
     [StillInFlight 1 [(''subscription/audit'', 1)]]"
  by code_simp+

end
