(* ===== verification/Health_Http.thy ===== *)
theory Health_Http
  imports Health
begin

text \<open>
  What is built on the aggregator: \<open>check\<close> blocks (\<open>config/check.go\<close>), the HTTP endpoints
  (\<open>config/healthhttp.go\<close>), the state metrics (\<open>config/healthmetrics.go\<close>) and the arguments of the
  \<open>health::\<close> functions (\<open>functions/health.go\<close>). Request strings are lists of code points. A JSON
  body is the document before it is encoded; the conversions of cty are the record \<open>cty_convert\<close>.
\<close>

section \<open>Checks\<close>

text \<open>The result of a conversion, and the value of \<open>input\<close> as far as \<open>interpret\<close> looks at it: an object
  is given by its attributes \<open>ready\<close>, if it has one, and \<open>reason\<close>; any other value by the friendly
  name of its type.\<close>

datatype 'a conv = ConvErr | ConvNull | ConvUnknown | ConvKnown 'a

record 'v cty_convert =
  to_bool :: "'v \<Rightarrow> bool conv"
  to_string :: "'v \<Rightarrow> string conv"

datatype 'v check_value =
    CvNull | CvUnknown | CvBool bool | CvString string
  | CvObject "'v option" "'v option" string | CvOther string

record 'e Check =
  ck_name :: string
  ck_probe :: string
  ck_reason :: string
  ck_input :: 'e
  ck_known :: bool
  ck_ready :: bool

definition defaultReason :: "'e Check \<Rightarrow> string" where
  "defaultReason c = (if ck_reason c \<noteq> [] then ck_reason c else ''check failed'')"

text \<open>Errors are their messages, \<open>None\<close> is nil.\<close>

definition interpretObject :: "'v cty_convert \<Rightarrow> 'e Check \<Rightarrow> 'v \<Rightarrow> 'v option \<Rightarrow> string option" where
  "interpretObject api c ready reason =
     (case to_bool api ready of
        ConvKnown b \<Rightarrow>
          if b then None
          else (case map_option (to_string api) reason of
                  Some (ConvKnown s) \<Rightarrow> if s \<noteq> [] then Some s else Some (defaultReason c)
                | _ \<Rightarrow> Some (defaultReason c))
      | _ \<Rightarrow> Some ''check returned an object whose ready attribute is not a boolean'')"

definition interpret_other :: "string \<Rightarrow> string" where
  "interpret_other ty = ''check produced '' @ ty @ '', which is not a pass or a reason''"

fun Check_interpret :: "'v cty_convert \<Rightarrow> 'e Check \<Rightarrow> 'v check_value \<Rightarrow> string option" where
  "Check_interpret api c CvNull = Some ''check returned null''"
| "Check_interpret api c CvUnknown = Some ''check returned an unknown value''"
| "Check_interpret api c (CvBool b) = (if b then None else Some (defaultReason c))"
| "Check_interpret api c (CvString s) = (if s \<noteq> [] then Some s else Some (defaultReason c))"
| "Check_interpret api c (CvObject (Some ready) reason ty) = interpretObject api c ready reason"
| "Check_interpret api c (CvObject None reason ty) = Some (interpret_other ty)"
| "Check_interpret api c (CvOther ty) = Some (interpret_other ty)"

text \<open>Evaluating \<open>input\<close>: building the context fails, evaluation has errors, or a value.\<close>

datatype 'v input_result = ContextError string | EvalErrors string | InputValue "'v check_value"

fun Check_evaluate :: "'v cty_convert \<Rightarrow> 'v input_result \<Rightarrow> 'e Check \<Rightarrow> string option" where
  "Check_evaluate api (ContextError e) c = Some (''building evaluation context: '' @ e)"
| "Check_evaluate api (EvalErrors e) c = Some e"
| "Check_evaluate api (InputValue v) c = Check_interpret api c v"

definition Check_observe :: "bool \<Rightarrow> 'e Check \<Rightarrow> 'e Check \<times> edge list" where
  "Check_observe ready c =
     (let old = ck_ready c; known = ck_known c; c' = c\<lparr>ck_ready := ready, ck_known := True\<rparr>
      in if \<not> known \<or> old = ready then (c', []) else (c', [(old, ready)]))"

definition Check_Ready ::
  "'v cty_convert \<Rightarrow> 'v input_result \<Rightarrow> 'e Check \<Rightarrow> 'e Check \<times> edge list \<times> string option" where
  "Check_Ready api inp c =
     (let err = Check_evaluate api inp c; (c', es) = Check_observe (err = None) c in (c', es, err))"

text \<open>\<open>Get\<close>: the first argument, where it is given and not null, is the default of a check that was
  never probed.\<close>

datatype 'v got = GotBool bool | GotArg 'v

definition Check_Get :: "'v option list \<Rightarrow> 'e Check \<Rightarrow> 'v got" where
  "Check_Get args c =
     (if \<not> ck_known c
      then (case args of Some v # _ \<Rightarrow> GotArg v | _ \<Rightarrow> GotBool True)
      else GotBool (ck_ready c))"

section \<open>Check blocks\<close>

record 'e checkBody =
  cb_Input :: "'e option"
  cb_Reason :: string
  cb_Probe :: string
  cb_Timeout :: "duration \<times> diag list"
  cb_Disabled :: bool

text \<open>The part of the configuration a check block changes.\<close>

record 'e check_config =
  cc_checks :: "string \<rightharpoonup> 'e Check"
  cc_health :: "'e Check Health"

definition parseProbe :: "string \<Rightarrow> string \<times> diag list" where
  "parseProbe s =
     (if s = [] then (ProbeReady, [])
      else if ValidProbe s then (s, [])
      else (ProbeReady, [DiagError ''Invalid probe'']))"

text \<open>\<open>Process\<close> for a block with the label \<open>name\<close>, whose body decodes to \<open>body\<close> with diagnostics \<open>ds\<close>;
  \<open>cb_Timeout\<close> is what parsing the timeout gives. A check is not a \<open>ReadyNotifier\<close>.\<close>

definition Check_Process ::
  "string \<Rightarrow> 'e checkBody \<Rightarrow> diag list \<Rightarrow> 'e check_config \<Rightarrow> 'e check_config \<times> diag list" where
  "Check_Process name body ds cfg =
     (if HasErrors ds then (cfg, ds)
      else if cb_Disabled body then (cfg, [])
      else case cb_Input body of
        None \<Rightarrow> (cfg, [DiagError ''Missing required argument''])
      | Some input \<Rightarrow>
          if cc_checks cfg name \<noteq> None then (cfg, [DiagError ''Duplicate check''])
          else
            let (probe, probeDiags) = parseProbe (cb_Probe body);
                (timeout, timeoutDiags) = cb_Timeout body;
                diags = ds @ probeDiags @ timeoutDiags
            in if HasErrors diags then (cfg, diags)
               else
                 let check = \<lparr>ck_name = name, ck_probe = probe, ck_reason = cb_Reason body,
                              ck_input = input, ck_known = False, ck_ready = False\<rparr>
                 in (cfg\<lparr>cc_checks := (cc_checks cfg)(name \<mapsto> check),
                        cc_health := fst (RegisterProbe probe ''check'' [] name (Some check) False timeout
                                            (cc_health cfg))\<rparr>, []))"

section \<open>Endpoints\<close>

datatype health_path = ReadyzPath | LivezPath | HealthzPath

record probeEndpoint =
  ep_probe :: string
  ep_endpoint :: string
  ep_verdictKey :: string

fun endpointFor :: "health_path \<Rightarrow> probeEndpoint" where
  "endpointFor LivezPath = \<lparr>ep_probe = ProbeLive, ep_endpoint = ''livez'', ep_verdictKey = ''live''\<rparr>"
| "endpointFor HealthzPath = \<lparr>ep_probe = ProbeLive, ep_endpoint = ''healthz'', ep_verdictKey = ''live''\<rparr>"
| "endpointFor ReadyzPath = \<lparr>ep_probe = ProbeReady, ep_endpoint = ''readyz'', ep_verdictKey = ''ready''\<rparr>"

record HealthRender =
  hr_Verbose :: bool
  hr_JSON :: bool
  hr_Head :: bool

text \<open>A reason as text; \<open>dur\<close> formats a duration.\<close>

fun digits :: "nat \<Rightarrow> string" where
  "digits n = (if n < 10 then [char_of (48 + n)] else digits (n div 10) @ [char_of (48 + n mod 10)])"

text \<open>\<open>Duration.Round(time.Second)\<close>, half away from zero, and \<open>Duration.String\<close> of whole seconds.\<close>

definition round_secs :: "duration \<Rightarrow> int" where
  "round_secs d =
     (let n = (abs d + 5 * 10 ^ 8) div 10 ^ 9 in if d < 0 then - n else n)"

definition secs_string :: "int \<Rightarrow> string" where
  "secs_string n =
     (let s = nat (abs n); m = s div 60; h = m div 60
      in (if n < 0 then ''-'' else []) @
         (if h > 0 then digits h @ ''h'' else []) @
         (if m > 0 then digits (m mod 60) @ ''m'' else []) @ digits (s mod 60) @ ''s'')"

definition heldFor :: "time \<Rightarrow> time option \<Rightarrow> string" where
  "heldFor now since =
     (case since of None \<Rightarrow> [] | Some t \<Rightarrow> '' (for '' @ secs_string (round_secs (now - t)) @ '')'')"

fun reason_string :: "(duration \<Rightarrow> string) \<Rightarrow> reason \<Rightarrow> string" where
  "reason_string dur NoReason = []"
| "reason_string dur (Message e) = e"
| "reason_string dur (Panicked p) = ''panicked: '' @ p"
| "reason_string dur (TimedOut d) = ''timed out after '' @ dur d"

definition nl :: string where "nl = [CHR 0x0A]"

definition verbose_line :: "(duration \<Rightarrow> string) \<Rightarrow> time \<Rightarrow> ComponentStatus \<Rightarrow> string" where
  "verbose_line dur now s =
     (if cs_Ready s then ''[+]'' @ cs_Component s @ '' ok'' @ heldFor now (cs_Since s) @ nl
      else ''[-]'' @ cs_Component s @ '' failed: '' @ reason_string dur (cs_Reason s) @
             heldFor now (cs_Since s) @ nl)"

definition renderHealthVerbose ::
  "(duration \<Rightarrow> string) \<Rightarrow> time \<Rightarrow> probeEndpoint \<Rightarrow> ComponentStatus list \<Rightarrow> bool \<Rightarrow> string" where
  "renderHealthVerbose dur now ep statuses passing =
     concat (map (verbose_line dur now) statuses) @ ep_endpoint ep @
       (if passing then '' check passed'' else '' check failed'') @ nl"

text \<open>The JSON document: the verdict under its key, and the entries where detail is allowed.\<close>

type_synonym json_doc = "(string \<times> bool) \<times> ComponentStatus list option"

datatype body = NoBody | Text string | JSON json_doc

definition renderHealthJSON :: "probeEndpoint \<Rightarrow> ComponentStatus list \<Rightarrow> bool \<Rightarrow> bool \<Rightarrow> json_doc" where
  "renderHealthJSON ep statuses passing verbose =
     ((ep_verdictKey ep, passing), if verbose then Some statuses else None)"

definition text_plain :: string where "text_plain = ''text/plain; charset=utf-8''"

definition renderHealthBody ::
  "(duration \<Rightarrow> string) \<Rightarrow> time \<Rightarrow> probeEndpoint \<Rightarrow> ComponentStatus list \<Rightarrow> bool \<Rightarrow> HealthRender
     \<Rightarrow> body \<times> string" where
  "renderHealthBody dur now ep statuses passing render =
     (if hr_JSON render
      then (JSON (renderHealthJSON ep statuses passing (hr_Verbose render)), ''application/json'')
      else if hr_Verbose render
      then (Text (renderHealthVerbose dur now ep statuses passing), text_plain)
      else if passing then (Text (''ok'' @ nl), text_plain)
      else (Text (''not '' @ ep_verdictKey ep @ nl), text_plain))"

record response =
  rs_Status :: nat
  rs_ContentType :: string
  rs_Body :: body
  rs_CacheControl :: string

text \<open>\<open>HealthResponse\<close> from the report \<open>statuses\<close> that \<open>Status\<close> returned.\<close>

definition HealthResponse ::
  "(duration \<Rightarrow> string) \<Rightarrow> time \<Rightarrow> health_path \<Rightarrow> ComponentStatus list \<Rightarrow> HealthRender \<Rightarrow> response" where
  "HealthResponse dur now path statuses render =
     (let ep = endpointFor path;
          passing = list_all cs_Ready statuses;
          status = (if passing then 200 else 503);
          (body, contentType) = renderHealthBody dur now ep statuses passing render
      in \<lparr>rs_Status = status, rs_ContentType = contentType,
          rs_Body = (if hr_Head render then NoBody else body), rs_CacheControl = ''no-store''\<rparr>)"

section \<open>Negotiation\<close>

type_synonym runes = "nat list"

definition runes_of :: "string \<Rightarrow> runes" where "runes_of s = map of_char s"

text \<open>\<open>strings.TrimSpace\<close>: white space as Unicode defines it.\<close>

definition is_space :: "nat \<Rightarrow> bool" where
  "is_space r \<longleftrightarrow>
     9 \<le> r \<and> r \<le> 13 \<or> r \<in> {32, 0x85, 0xA0, 0x1680, 0x2028, 0x2029, 0x202F, 0x205F, 0x3000} \<or>
     0x2000 \<le> r \<and> r \<le> 0x200A"

definition TrimSpace :: "runes \<Rightarrow> runes" where
  "TrimSpace s = rev (dropWhile is_space (rev (dropWhile is_space s)))"

text \<open>Case folding, exact for comparisons with ASCII words: besides the letters, the Kelvin sign folds
  to \<open>k\<close> and the long s to \<open>s\<close>; \<open>ToLower\<close> leaves the long s alone.\<close>

definition lower :: "nat \<Rightarrow> nat" where
  "lower r = (if 65 \<le> r \<and> r \<le> 90 then r + 32 else if r = 0x212A then 107 else r)"

definition EqualFold_ascii :: "runes \<Rightarrow> string \<Rightarrow> bool" where
  "EqualFold_ascii s word \<longleftrightarrow>
     map (\<lambda>r. if r = 0x17F then 115 else lower r) s = map lower (runes_of word)"

fun Split :: "nat \<Rightarrow> runes \<Rightarrow> runes list" where
  "Split sep [] = [[]]"
| "Split sep (r # rs) = (if r = sep then [] # Split sep rs else
     (case Split sep rs of p # ps \<Rightarrow> (r # p) # ps | [] \<Rightarrow> [[r]]))"

text \<open>The part before the first separator.\<close>

definition Cut :: "nat \<Rightarrow> runes \<Rightarrow> runes" where
  "Cut sep s = takeWhile (\<lambda>r. r \<noteq> sep) s"

definition acceptsJSON :: "runes \<Rightarrow> bool" where
  "acceptsJSON accept \<longleftrightarrow>
     list_ex (\<lambda>part. EqualFold_ascii (TrimSpace (Cut 59 (TrimSpace part))) ''application/json'') (Split 44 accept)"

definition queryFlag :: "(string \<rightharpoonup> runes list) \<Rightarrow> string \<Rightarrow> bool" where
  "queryFlag q name =
     (case q name of
        None \<Rightarrow> False
      | Some vals \<Rightarrow>
          list_ex (\<lambda>v. map lower (TrimSpace v) \<in> set (map runes_of ['''', ''1'', ''true'', ''yes'', ''on''])) vals)"

text \<open>A request: its method, its query, whose \<open>Get\<close> is the first value, and its \<open>Accept\<close> header.\<close>

record request =
  rq_Method :: string
  rq_Query :: "string \<rightharpoonup> runes list"
  rq_Accept :: runes

definition query_Get :: "(string \<rightharpoonup> runes list) \<Rightarrow> string \<Rightarrow> runes" where
  "query_Get q name = (case q name of Some (v # _) \<Rightarrow> v | _ \<Rightarrow> [])"

definition NegotiateHealthRender :: "request \<Rightarrow> bool \<Rightarrow> HealthRender" where
  "NegotiateHealthRender r allowVerbose =
     \<lparr>hr_Verbose = (allowVerbose \<and> queryFlag (rq_Query r) ''verbose''),
      hr_JSON = (query_Get (rq_Query r) ''format'' = runes_of ''json'' \<or> acceptsJSON (rq_Accept r)),
      hr_Head = (rq_Method r = ''HEAD'')\<rparr>"

text \<open>One request to an endpoint: \<open>HealthHandler\<close> at the times of its parts.\<close>

definition HealthHandler ::
  "(duration \<Rightarrow> string) \<Rightarrow> health_path \<Rightarrow> bool \<Rightarrow> request \<Rightarrow> ('r readyContributor \<Rightarrow> ready_outcome)
     \<Rightarrow> ComponentStatus list option \<Rightarrow> time \<Rightarrow> time \<Rightarrow> time \<Rightarrow> 'r Health \<Rightarrow> 'r Health \<times> edge list \<times> response" where
  "HealthHandler dur path allowVerbose r env joined t0 t1 t2 h =
     (let (h', es, statuses) = Status (ep_probe (endpointFor path)) False env joined t0 t1 t2 h
      in (h', es, HealthResponse dur t2 path statuses (NegotiateHealthRender r allowVerbose)))"

section \<open>Metrics and functions\<close>

text \<open>One observation of a series: the probe, the component with its type unless it has none, whether
  the series is the one of the passing state, and the value.\<close>

type_synonym series = "string \<times> (string \<times> string option) option \<times> bool"

definition observeState :: "bool \<Rightarrow> string \<times> (string \<times> string option) option \<Rightarrow> (series \<times> nat) list" where
  "observeState passing attrs =
     (let (passingVal, failingVal) = (if passing then (1, 0) else (0, 1))
      in [((fst attrs, snd attrs, True), passingVal), ((fst attrs, snd attrs, False), failingVal)])"

definition observe_probe :: "string \<Rightarrow> ComponentStatus list \<Rightarrow> (series \<times> nat) list" where
  "observe_probe name statuses =
     concat (map (\<lambda>s. observeState (cs_Ready s)
        (name, Some (cs_Component s, if cs_Type s = [] then None else Some (cs_Type s)))) statuses) @
     observeState (list_all cs_Ready statuses) (name, None)"

definition healthProbeName :: "string \<Rightarrow> string" where
  "healthProbeName probe = (if probe = ProbeReady then ''readiness'' else ''liveness'')"

definition observeHealth ::
  "('r readyContributor \<Rightarrow> ready_outcome) \<Rightarrow> time \<Rightarrow> 'r Health \<Rightarrow> 'r Health \<times> edge list \<times> (series \<times> nat) list"
where
  "observeHealth env t h =
     (let (h1, es1, ss1) = Status ProbeReady False env None t t t h;
          (h2, es2, ss2) = Status ProbeLive False env None t t t h1
      in (h2, es1 @ es2,
          observe_probe (healthProbeName ProbeReady) ss1 @ observe_probe (healthProbeName ProbeLive) ss2))"

text \<open>The optional trailing probe of \<open>health::status\<close> and \<open>health::failing\<close>; null is \<open>None\<close>.\<close>

fun probeArg :: "string option list \<Rightarrow> string + string" where
  "probeArg [] = Inr ProbeReady"
| "probeArg [None] = Inr ProbeReady"
| "probeArg [Some p] = (if ValidProbe p then Inr p else Inl ''probe must be ready or live'')"
| "probeArg (_ # _ # _) = Inl ''expected at most one probe argument''"

section \<open>What checks say\<close>

lemma defaultReason_nonempty [simp]: "defaultReason c \<noteq> []"
  by (simp add: defaultReason_def)

text \<open>A check passes exactly when its input is the known value true, or an object whose \<open>ready\<close>
  converts to true. Anything else, a string, null, an unknown value or a value of another type
  included, fails it with a reason that is not empty.\<close>

theorem check_interpretation:
  "(Check_interpret api c v = None \<longleftrightarrow>
      v = CvBool True \<or> (\<exists>r m ty. v = CvObject (Some r) m ty \<and> to_bool api r = ConvKnown True)) \<and>
   Check_interpret api c v \<noteq> Some []"
  by (cases "(api, c, v)" rule: Check_interpret.cases)
     (auto simp: interpretObject_def interpret_other_def split: conv.split option.split)

lemma Check_observe_eq:
  "Check_observe v c =
     (c\<lparr>ck_ready := v, ck_known := True\<rparr>, if ck_known c \<and> ck_ready c \<noteq> v then [(ck_ready c, v)] else [])"
  by (simp add: Check_observe_def Let_def)

interpretation check_watch: notifying_when
    "\<lambda>(api, inp) c. (fst (Check_Ready api inp c), fst (snd (Check_Ready api inp c)))" ck_ready ck_known
  by unfold_locales (auto simp: Check_Ready_def Check_observe_eq case_prod_beta Let_def)

section \<open>Check blocks and the probe\<close>

lemma parseProbe_errors: "HasErrors (snd (parseProbe s)) \<longleftrightarrow> s \<noteq> [] \<and> \<not> ValidProbe s"
  by (simp add: parseProbe_def)

text \<open>Processing a check block is refused exactly when its body does not decode, or it is not
  disabled and lacks an input, repeats the name of another check, names an unknown probe or has a bad
  timeout. A refused or disabled block changes nothing; any other adds one contributor to its probe,
  after those registered before.\<close>

theorem check_block:
  "let (cfg', ds') = Check_Process name body ds cfg;
       bad = (HasErrors ds \<or> \<not> cb_Disabled body \<and>
                (cb_Input body = None \<or> cc_checks cfg name \<noteq> None \<or>
                 cb_Probe body \<notin> {[], ProbeReady, ProbeLive} \<or> HasErrors (snd (cb_Timeout body))))
   in HasErrors ds' = bad \<and>
      (if bad \<or> cb_Disabled body then cfg' = cfg
       else \<exists>check. cc_checks cfg' = (cc_checks cfg)(name \<mapsto> check) \<and>
              hl_contributors (cc_health cfg') =
                hl_contributors (cc_health cfg) @
                [\<lparr>rc_probe = (if cb_Probe body = [] then ProbeReady else cb_Probe body), rc_kind = ''check'',
                  rc_typ = [], rc_name = name, rc_r = check, rc_timeout = fst (cb_Timeout body)\<rparr>])"
proof -
  have "cb_Probe body \<notin> {[], ProbeReady, ProbeLive} \<longleftrightarrow> HasErrors (snd (parseProbe (cb_Probe body)))"
    by (auto simp: parseProbe_errors ValidProbe_def)
  then show ?thesis
    by (auto simp: Check_Process_def RegisterProbe_def Health_register_def parseProbe_def ValidProbe_def
        case_prod_beta Let_def split: option.split)
qed

text \<open>The outcome of probing a check, for the input values of a moment.\<close>

definition check_outcome ::
  "'v cty_convert \<Rightarrow> ('e \<Rightarrow> 'v input_result) \<Rightarrow> 'e Check \<Rightarrow> ready_outcome" where
  "check_outcome api inp c =
     (case snd (snd (Check_Ready api (inp (ck_input c)) c)) of
        None \<Rightarrow> ReadyNil | Some e \<Rightarrow> ReadyErr e False)"

lemma check_outcome_nil:
  "check_outcome api inp c = ReadyNil \<longleftrightarrow> Check_evaluate api (inp (ck_input c)) c = None"
  by (simp add: check_outcome_def Check_Ready_def case_prod_beta Let_def split: option.split)

text \<open>From configuration to probe: when a well-formed check block has been processed and the process
  has booted, a refresh of a probe passes exactly when the contributors registered before pass and, if
  the block names that probe, its input says so.\<close>

theorem check_decides_probe:
  assumes "\<not> HasErrors ds" and "\<not> cb_Disabled body" and "cb_Input body = Some input"
    and "cc_checks cfg name = None" and "cb_Probe body \<in> {[], ProbeReady, ProbeLive}"
    and "\<not> HasErrors (snd (cb_Timeout body))"
    and "hl_state (cc_health cfg) = processStarting" and "hl_inflight (cc_health cfg) = None"
    and "\<And>c. rc_kind c = ''check'' \<Longrightarrow> env c = check_outcome api inp (rc_r c)"
  shows "snd (snd (Failing p True env joined t0 t1 t2
             (SetBooted (cc_health (fst (Check_Process name body ds cfg)))))) = [] \<longleftrightarrow>
         (\<forall>c \<in> set (hl_contributors (cc_health cfg)). rc_probe c = p \<longrightarrow> env c = ReadyNil) \<and>
         (p = (if cb_Probe body = [] then ProbeReady else cb_Probe body) \<longrightarrow>
            Check_evaluate api (inp input)
              \<lparr>ck_name = name, ck_probe = p, ck_reason = cb_Reason body, ck_input = input,
               ck_known = False, ck_ready = False\<rparr> = None)"
proof -
  let ?probe = "if cb_Probe body = [] then ProbeReady else cb_Probe body"
  let ?check = "\<lparr>ck_name = name, ck_probe = ?probe, ck_reason = cb_Reason body, ck_input = input,
                 ck_known = False, ck_ready = False\<rparr>"
  let ?c = "\<lparr>rc_probe = ?probe, rc_kind = ''check'', rc_typ = [], rc_name = name, rc_r = ?check,
             rc_timeout = fst (cb_Timeout body)\<rparr>"
  let ?h = "SetBooted (cc_health (fst (Check_Process name body ds cfg)))"
  have "parseProbe (cb_Probe body) = (?probe, [])"
    using assms(5) by (auto simp: parseProbe_def ValidProbe_def)
  then have h: "hl_contributors ?h = hl_contributors (cc_health cfg) @ [?c]"
    "hl_state ?h = processServing" "hl_inflight ?h = None"
    using assms(1-4,6-8)
    by (simp_all add: Check_Process_def RegisterProbe_def Health_register_def SetBooted_def case_prod_beta Let_def)
  have "env ?c = ReadyNil \<longleftrightarrow> Check_evaluate api (inp input) ?check = None"
    using assms(9)[of ?c] by (simp add: check_outcome_nil)
  then show ?thesis
    using Failing_evaluates[of p ?h True t0 env joined t1 t2] h by (auto simp: gate_open_def)
qed

definition demo_body :: "unit checkBody" where
  "demo_body = \<lparr>cb_Input = Some (), cb_Reason = ''db down'', cb_Probe = ''live'', cb_Timeout = (0, []),
                cb_Disabled = False\<rparr>"

definition demo_cfg :: "unit check_config" where
  "demo_cfg = \<lparr>cc_checks = Map.empty, cc_health = NewHealth True\<rparr>"

definition demo_api :: "unit cty_convert" where
  "demo_api = \<lparr>to_bool = \<lambda>_. ConvErr, to_string = \<lambda>_. ConvErr\<rparr>"

theorem check_decides_probe_witness:
  "snd (snd (Failing ProbeLive True (\<lambda>c. check_outcome demo_api (\<lambda>_. InputValue (CvBool False)) (rc_r c))
     None 0 1 2 (SetBooted (cc_health (fst (Check_Process ''db'' demo_body [] demo_cfg)))))) \<noteq> []"
  using check_decides_probe[of "[]" demo_body "()" demo_cfg "''db''"
      "\<lambda>c. check_outcome demo_api (\<lambda>_. InputValue (CvBool False)) (rc_r c)" demo_api
      "\<lambda>_. InputValue (CvBool False)" ProbeLive None 0 1 2]
  by (simp add: demo_body_def demo_cfg_def NewHealth_def ProbeLive_def ProbeReady_def)

section \<open>What the endpoints reveal\<close>

lemma HealthResponse_status:
  "rs_Status (HealthResponse dur now path ss render) = (if list_all cs_Ready ss then 200 else 503)"
  by (simp add: HealthResponse_def case_prod_beta Let_def)

text \<open>C19: An endpoint whose owner has not allowed detail reveals the verdict and nothing else: whatever
  the request asks for, its responses to two reports with the same verdict are the same, whichever
  components they name and however long these have been failing.\<close>

theorem terse_endpoint:
  assumes "list_all cs_Ready ss = list_all cs_Ready ss'"
  shows "HealthResponse dur now path ss (NegotiateHealthRender r False) =
         HealthResponse dur' now' path ss' (NegotiateHealthRender r False)"
  using assms
  by (simp add: HealthResponse_def renderHealthBody_def renderHealthJSON_def NegotiateHealthRender_def Let_def)

theorem terse_endpoint_witness:
  "HealthResponse (\<lambda>_. []) 7 ReadyzPath [process_entry False (Message ''starting'')]
     (NegotiateHealthRender \<lparr>rq_Method = ''GET'', rq_Query = [''verbose'' \<mapsto> [[]]], rq_Accept = []\<rparr> False) =
   HealthResponse (\<lambda>_. ''1s'') 9 ReadyzPath [process_entry False (Message ''shutting down'')]
     (NegotiateHealthRender \<lparr>rq_Method = ''GET'', rq_Query = [''verbose'' \<mapsto> [[]]], rq_Accept = []\<rparr> False)"
  by (rule terse_endpoint) simp

text \<open>A probe over HTTP answers 200 exactly when the process gate is open and every contributor of
  the probe is ready, and 503 otherwise; \<open>/healthz\<close> asks the question of \<open>/livez\<close>. No response may be
  stored by a cache, and a HEAD request gets no body.\<close>

theorem endpoint_verdict:
  assumes "hl_inflight h = None" and "\<not> cache_fresh t0 h"
  shows "let resp = snd (snd (HealthHandler dur path allowVerbose r env joined t0 t1 t2 h));
             p = (if path = ReadyzPath then ProbeReady else ProbeLive)
         in rs_Status resp = (if gate_open p (hl_state h) \<and>
                (\<forall>c \<in> set (hl_contributors h). rc_probe c = p \<longrightarrow> env c = ReadyNil) then 200 else 503) \<and>
            rs_CacheControl resp = ''no-store'' \<and> (rq_Method r = ''HEAD'' \<longrightarrow> rs_Body resp = NoBody)"
proof -
  let ?p = "if path = ReadyzPath then ProbeReady else ProbeLive"
  let ?ss = "snd (snd (Status ?p False env joined t0 t1 t2 h))"
  have p: "ep_probe (endpointFor path) = ?p" by (cases path) simp_all
  have strip: "list_all cs_Ready xs \<longleftrightarrow> list_all cs_Ready (map strip xs)" for xs
    by (simp add: list_all_iff)
  have "list_all cs_Ready ?ss \<longleftrightarrow> gate_open ?p (hl_state h) \<and>
      (\<forall>c \<in> set (hl_contributors h). rc_probe c = ?p \<longrightarrow> env c = ReadyNil)"
  proof (cases "gate_open ?p (hl_state h)")
    case True
    then show ?thesis
      using Status_evaluates[OF True assms(1), of False t0 env joined t1 t2] assms(2)
      by (subst strip) (auto simp: list_all_iff)
  next
    case False
    then show ?thesis using Status_gate_closed[OF False] by (subst strip) simp
  qed
  then show ?thesis
    by (auto simp: HealthHandler_def case_prod_beta Let_def p HealthResponse_status)
       (auto simp: HealthResponse_def case_prod_beta Let_def NegotiateHealthRender_def)
qed

theorem endpoint_verdict_witness:
  "rs_Status (snd (snd (HealthHandler (\<lambda>_. []) HealthzPath False
     \<lparr>rq_Method = ''GET'', rq_Query = Map.empty, rq_Accept = []\<rparr> (\<lambda>_. ReadyNil) None 0 1 2
     (demo_health processDraining)))) = 200"
  using endpoint_verdict[of "demo_health processDraining" 0 "\<lambda>_. []" HealthzPath False
      "\<lparr>rq_Method = ''GET'', rq_Query = Map.empty, rq_Accept = []\<rparr>" "\<lambda>_. ReadyNil" None 1 2]
  by (simp add: demo_defs Let_def)

section \<open>Metrics\<close>

text \<open>Summing the series of a state over the components counts the components in that state, and the
  two series of a subject always add up to one.\<close>

definition series_total :: "bool \<Rightarrow> (series \<times> nat) list \<Rightarrow> nat" where
  "series_total state obs =
     sum_list (map snd (filter (\<lambda>((p, comp, st), v). comp \<noteq> None \<and> st = state) obs))"

lemma series_total_append: "series_total st (xs @ ys) = series_total st xs + series_total st ys"
  by (simp add: series_total_def)

text \<open>For each probe, summing the metric series of the passing state over the components gives the
  number of components that pass, and likewise for the failing state, so that every component is
  counted exactly once.\<close>

theorem metrics_count:
  "series_total True (observe_probe name ss) = length (filter cs_Ready ss) \<and>
   series_total False (observe_probe name ss) = length (filter (\<lambda>s. \<not> cs_Ready s) ss)"
proof -
  have "series_total st (concat (map (\<lambda>s. observeState (cs_Ready s)
        (name, Some (cs_Component s, if cs_Type s = [] then None else Some (cs_Type s)))) ss)) =
      length (filter (\<lambda>s. cs_Ready s = st) ss)" for st
    by (induction ss) (auto simp: series_total_def observeState_def Let_def)
  moreover have "series_total st (observeState b (name, None)) = 0" for st b
    by (auto simp: series_total_def observeState_def Let_def)
  ultimately show ?thesis by (simp add: observe_probe_def series_total_append)
qed

end
