(* ===== verification/Ack.thy ===== *)
theory Ack
  imports Vinculum_Prelude
begin

text \<open>
  Acknowledgement of received messages: the policy of a receiver (\<open>config/ack.go\<close>), the deadline that
  bounds an unsettled delivery (\<open>config/settle.go\<close>) and the functions a configuration settles with
  (\<open>functions/inbound.go\<close>). The settler of a delivery belongs to the bus library: it is the argument
  \<open>settler\<close>, of which the code relies on settling at most once, the predicate \<open>settle_once\<close>.
\<close>

section \<open>Policy\<close>

definition AckAuto :: string where "AckAuto = ''auto''"
definition AckManual :: string where "AckManual = ''manual''"

record AckPolicy =
  ap_Mode :: string
  ap_SettleTimeout :: duration

text \<open>The timeout expression is given by whether it is provided and what parsing it yields.\<close>

record AckRequest =
  ar_Value :: string
  ar_SettleTimeout :: "(duration \<times> diag list) option"
  ar_Extra :: string

definition no_policy :: AckPolicy where "no_policy = \<lparr>ap_Mode = [], ap_SettleTimeout = 0\<rparr>"

definition Manual :: "AckPolicy \<Rightarrow> bool" where "Manual p \<longleftrightarrow> ap_Mode p = AckManual"

definition parse_timeout :: "AckPolicy \<Rightarrow> duration \<times> diag list \<Rightarrow> AckPolicy \<times> diag list" where
  "parse_timeout policy t =
     (let (d, diags) = t
      in if HasErrors diags then (no_policy, diags)
         else if d \<le> 0 then (no_policy, [DiagError ''settle_timeout must be positive''])
         else (policy\<lparr>ap_SettleTimeout := d\<rparr>, []))"

definition ResolveAck :: "AckRequest \<Rightarrow> AckPolicy \<times> diag list" where
  "ResolveAck req =
     (let mode = (if ar_Value req = [] then AckAuto else ar_Value req);
          policy = \<lparr>ap_Mode = mode, ap_SettleTimeout = 0\<rparr>
      in if \<not> (mode = AckAuto \<or> mode = AckManual \<or> mode = ar_Extra req)
         then (no_policy, [DiagError ''invalid ack''])
         else if Manual policy then
           (case ar_SettleTimeout req of
              None \<Rightarrow> (no_policy, [DiagError ''ack = manual requires settle_timeout''])
            | Some t \<Rightarrow> parse_timeout policy t)
         else
           (case ar_SettleTimeout req of
              None \<Rightarrow> (policy, [])
            | Some t \<Rightarrow>
                if mode = AckAuto then parse_timeout policy t
                else (no_policy, [DiagError ''settle_timeout does not apply''])))"

text \<open>\<open>quote\<close> stands for the verb \<open>%q\<close>.\<close>

definition orList :: "(string \<Rightarrow> string) \<Rightarrow> string list \<Rightarrow> string" where
  "orList quote values =
     (let quoted = map quote values
      in if length quoted = 1 then quoted ! 0
         else if length quoted = 2 then quoted ! 0 @ '' or '' @ quoted ! 1
         else concat (map (\<lambda>q. q @ '', '') (butlast (butlast quoted))) @ last (butlast quoted) @ '', or '' @ last quoted)"

section \<open>Settlers\<close>

text \<open>A settler: each call returns whether it settled (or extended) the delivery, and an error.\<close>

record 's settler =
  st_Ack :: "'s \<Rightarrow> 's \<times> bool \<times> string option"
  st_Nack :: "string \<Rightarrow> 's \<Rightarrow> 's \<times> bool \<times> string option"
  st_Keepalive :: "'s \<Rightarrow> 's \<times> bool \<times> string option"

text \<open>What the deadline relies on: a delivery is settled by at most one call, the one that returns true,
  a call on a delivery that is settled reports false and no error, and a call that fails at the broker
  has settled nothing.\<close>

definition settles_once :: "('s \<Rightarrow> bool) \<Rightarrow> ('s \<Rightarrow> 's \<times> bool \<times> string option) \<Rightarrow> bool" where
  "settles_once settled call \<longleftrightarrow>
     (\<forall>s. case call s of (s', ok, err) \<Rightarrow>
        (settled s \<longrightarrow> settled s' \<and> \<not> ok \<and> err = None) \<and> (\<not> settled s \<longrightarrow> settled s' = ok \<and> ok = (err = None)))"

definition settle_once :: "'s settler \<Rightarrow> ('s \<Rightarrow> bool) \<Rightarrow> bool" where
  "settle_once api settled \<longleftrightarrow>
     settles_once settled (st_Ack api) \<and> (\<forall>reason. settles_once settled (st_Nack api reason)) \<and>
     (\<forall>s. settled (fst (st_Keepalive api s)) = settled s)"

section \<open>The deadline\<close>

text \<open>A bounded delivery: the settler underneath, the timer with its deadline while it is armed, whether
  its callback has expired and not yet run, and the time.\<close>

record 's delivery =
  dl_inner :: 's
  dl_stopped :: bool
  dl_timer :: "time option"
  dl_expired :: bool
  dl_now :: time

datatype event = Returned bool "string option" | Extended bool "string option" | WarnNacked | ErrNackFailed string

definition NewSettleTimeoutSubscriber :: "AckPolicy \<Rightarrow> bool" where
  "NewSettleTimeoutSubscriber policy \<longleftrightarrow> \<not> ap_SettleTimeout policy \<le> 0"

text \<open>\<open>OnEvent\<close> for a delivery that has a settler: the timer is armed before the delivery goes on.\<close>

definition OnEvent :: "duration \<Rightarrow> time \<Rightarrow> 's \<Rightarrow> 's delivery" where
  "OnEvent timeout now s =
     \<lparr>dl_inner = s, dl_stopped = False, dl_timer = Some (now + timeout), dl_expired = False, dl_now = now\<rparr>"

definition deadline_settled :: "bool \<Rightarrow> 's delivery \<Rightarrow> 's delivery" where
  "deadline_settled ok d =
     (if \<not> ok then d
      else if dl_stopped d then d
      else d\<lparr>dl_stopped := True, dl_timer := None\<rparr>)"

definition Ack :: "'s settler \<Rightarrow> 's delivery \<Rightarrow> 's delivery \<times> bool \<times> string option" where
  "Ack api d =
     (let (s, ok, err) = st_Ack api (dl_inner d) in (deadline_settled ok (d\<lparr>dl_inner := s\<rparr>), ok, err))"

definition Nack :: "'s settler \<Rightarrow> string \<Rightarrow> 's delivery \<Rightarrow> 's delivery \<times> bool \<times> string option" where
  "Nack api reason d =
     (let (s, ok, err) = st_Nack api reason (dl_inner d) in (deadline_settled ok (d\<lparr>dl_inner := s\<rparr>), ok, err))"

definition Keepalive :: "'s settler \<Rightarrow> 's delivery \<Rightarrow> 's delivery \<times> bool \<times> string option" where
  "Keepalive api d = (let (s, ok, err) = st_Keepalive api (dl_inner d) in (d\<lparr>dl_inner := s\<rparr>, ok, err))"

definition deadlineSettler :: "'s settler \<Rightarrow> 's delivery settler" where
  "deadlineSettler api = \<lparr>st_Ack = Ack api, st_Nack = Nack api, st_Keepalive = Keepalive api\<rparr>"

definition expire :: "'s settler \<Rightarrow> 's delivery \<Rightarrow> 's delivery \<times> event list" where
  "expire api d =
     (let (s, ok, err) = st_Nack api ''settle_timeout expired'' (dl_inner d);
          d' = d\<lparr>dl_inner := s\<rparr>
      in if \<not> ok \<and> err = None then (d', [])
         else case err of Some e \<Rightarrow> (d', [ErrNackFailed e]) | None \<Rightarrow> (d', [WarnNacked]))"

text \<open>\<open>inbound::ack\<close>, \<open>inbound::nack\<close>: a stale delivery is reported as not settled, any other error fails
  the call. \<open>IsStale\<close> belongs to the bus library.\<close>

definition settleResult :: "(string option \<Rightarrow> bool) \<Rightarrow> bool \<Rightarrow> string option \<Rightarrow> string + bool" where
  "settleResult IsStale ok err =
     (if IsStale err then Inr False
      else case err of Some e \<Rightarrow> Inl e | None \<Rightarrow> Inr ok)"

fun nackReasonArg :: "string option list \<Rightarrow> string + string" where
  "nackReasonArg [] = Inr []"
| "nackReasonArg [None] = Inr []"
| "nackReasonArg [Some r] = Inr r"
| "nackReasonArg (_ # _ # _) = Inl ''expected at most one reason argument''"

section \<open>Executions\<close>

text \<open>The calls on one delivery, the passing of time, the expiry of the timer and, later, its callback.\<close>

datatype dl_op = DAck | DNack string | DKeepalive | DTick nat | DExpire | DRun

fun dl_exec :: "'s settler \<Rightarrow> dl_op \<Rightarrow> 's delivery \<Rightarrow> 's delivery \<times> event list" where
  "dl_exec api DAck d = (let (d', ok, err) = Ack api d in (d', [Returned ok err]))"
| "dl_exec api (DNack r) d = (let (d', ok, err) = Nack api r d in (d', [Returned ok err]))"
| "dl_exec api DKeepalive d = (let (d', ok, err) = Keepalive api d in (d', [Extended ok err]))"
| "dl_exec api (DTick n) d = (d\<lparr>dl_now := dl_now d + int n\<rparr>, [])"
| "dl_exec api DExpire d =
     (case dl_timer d of
        Some t \<Rightarrow> if t \<le> dl_now d then (d\<lparr>dl_timer := None, dl_expired := True\<rparr>, []) else (d, [])
      | None \<Rightarrow> (d, []))"
| "dl_exec api DRun d = (if dl_expired d then expire api (d\<lparr>dl_expired := False\<rparr>) else (d, []))"

section \<open>The policy\<close>

text \<open>A policy that is accepted is sound: its mode is one the receiver knows, manual settling always
  has a positive bound, and a bound is only given to a mode that settles message by message. So every
  delivery under manual settling is wrapped in a deadline. A refused policy is the empty one.\<close>

theorem ack_policy_sound:
  "let (policy, diags) = ResolveAck req
   in if HasErrors diags then policy = no_policy
      else ap_Mode policy \<in> {AckAuto, AckManual, ar_Extra req} \<and> 0 \<le> ap_SettleTimeout policy \<and>
           (Manual policy \<longrightarrow> NewSettleTimeoutSubscriber policy) \<and>
           (NewSettleTimeoutSubscriber policy \<longrightarrow> ap_Mode policy \<in> {AckAuto, AckManual})"
  by (auto simp: ResolveAck_def parse_timeout_def Manual_def NewSettleTimeoutSubscriber_def Let_def
      split: option.split)

theorem ack_policy_sound_witness:
  "NewSettleTimeoutSubscriber (fst (ResolveAck \<lparr>ar_Value = ''manual'', ar_SettleTimeout = Some (5, []), ar_Extra = []\<rparr>))"
  using ack_policy_sound[of "\<lparr>ar_Value = ''manual'', ar_SettleTimeout = Some (5, []), ar_Extra = []\<rparr>"]
  by (simp add: ResolveAck_def parse_timeout_def Manual_def AckAuto_def AckManual_def
      NewSettleTimeoutSubscriber_def Let_def)

section \<open>Settling under a deadline\<close>

lemma settles_onceD:
  assumes "settles_once settled call" and "call s = (s', ok, err)"
  shows "settled s' \<longleftrightarrow> settled s \<or> ok" and "settled s \<Longrightarrow> \<not> ok \<and> err = None"
    and "\<not> settled s \<Longrightarrow> ok = (err = None)"
  using assms(1)[unfolded settles_once_def, rule_format, of s] assms(2) by auto

lemma settled_inner [simp]: "dl_inner (deadline_settled ok d) = dl_inner d"
  by (simp add: deadline_settled_def)

text \<open>Wrapping a delivery in a deadline keeps its contract: the wrapped settler settles at most once as
  well, and each call returns what the settler underneath returns.\<close>

theorem deadline_keeps_contract:
  assumes "settle_once api settled"
  shows "settle_once (deadlineSettler api) (\<lambda>d. settled (dl_inner d)) \<and>
         snd (st_Ack (deadlineSettler api) d) = snd (st_Ack api (dl_inner d)) \<and>
         snd (st_Nack (deadlineSettler api) r d) = snd (st_Nack api r (dl_inner d)) \<and>
         snd (st_Keepalive (deadlineSettler api) d) = snd (st_Keepalive api (dl_inner d))"
  using assms
  by (simp add: settle_once_def settles_once_def deadlineSettler_def Ack_def Nack_def Keepalive_def
      case_prod_beta Let_def)

text \<open>A settler that settles on the first call and never fails.\<close>

definition flag_settler :: "bool settler" where
  "flag_settler = \<lparr>st_Ack = \<lambda>s. (True, \<not> s, None), st_Nack = \<lambda>r s. (True, \<not> s, None),
                   st_Keepalive = \<lambda>s. (s, \<not> s, None)\<rparr>"

lemma flag_settler_once: "settle_once flag_settler id"
  by (simp add: settle_once_def settles_once_def flag_settler_def)

theorem deadline_keeps_contract_witness:
  "settle_once (deadlineSettler flag_settler) (\<lambda>d. id (dl_inner d))"
  using deadline_keeps_contract[OF flag_settler_once, of "OnEvent 5 0 False" "[]"] by blast









text \<open>A message nobody settles is nacked: when the deadline has passed, its callback nacks the
  delivery and says so, if the broker takes the nack; and a callback that expired before the delivery
  was settled, but runs after it, does nothing.\<close>

theorem deadline_fires:
  assumes "settle_once api settled"
    and "st_Nack api ''settle_timeout expired'' (dl_inner d) = (s, ok, err)"
  shows "(dl_timer d = Some t \<and> t \<le> dl_now d \<and> \<not> dl_expired d \<and> \<not> settled (dl_inner d) \<longrightarrow>
            run_ops (dl_exec api) [DExpire, DRun] d =
              (d\<lparr>dl_inner := s, dl_timer := None\<rparr>,
               case err of None \<Rightarrow> [WarnNacked] | Some e \<Rightarrow> [ErrNackFailed e])) \<and>
         (settled (dl_inner d) \<longrightarrow> snd (dl_exec api DRun d) = [])"
proof -
  have "settles_once settled (st_Nack api ''settle_timeout expired'')"
    using assms(1) by (simp add: settle_once_def)
  from settles_onceD[OF this assms(2)] show ?thesis
    using assms(2) by (auto simp: run_ops.simps(2) expire_def Let_def split: option.split)
qed

theorem deadline_fires_witness:
  "snd (run_ops (dl_exec flag_settler) [DExpire, DRun] ((OnEvent 5 0 False)\<lparr>dl_now := 6\<rparr>)) = [WarnNacked]"
  using deadline_fires[OF flag_settler_once, of "(OnEvent 5 0 False)\<lparr>dl_now := 6\<rparr>" True True None 5]
  by (simp add: OnEvent_def flag_settler_def)

end
