(* ===== verification/Partition.thy ===== *)
theory Partition
  imports Complex_Main Block_Deps
begin

text \<open>
  Queues in front of a subscriber: what a block asks for (\<open>SubscriberSource.ResolveQueue\<close> in
  \<open>config/subs.go\<close>), the key that decides which messages stay in order (\<open>config/partition.go\<close>) and what
  a queue says about itself. Expressions, their evaluation and the conversion of payloads belong to
  HCL and cty: the record \<open>key_api\<close>. The queue itself belongs to the bus library and is described by
  how it was built. Ratios are exact where the code has floating-point numbers.
\<close>

section \<open>Partition keys\<close>

text \<open>The value of a key expression as far as the code looks at it; numbers by their printed form.\<close>

datatype key_value = KNull | KString string | KNumber string | KBool bool | KOther

record 'p Message =
  msg_Topic :: string
  msg_Fields :: "string \<rightharpoonup> string"
  msg_Payload :: 'p

text \<open>The context a key is evaluated in; the payload is there only where it is needed.\<close>

record 'c key_ctx =
  kc_topic :: string
  kc_fields :: "string \<rightharpoonup> string"
  kc_msg :: "'c option"

record ('e, 'p, 'c) key_api =
  k_constant :: "'e \<Rightarrow> key_value option"
  k_abs_traversal :: "'e \<Rightarrow> hcl_traversal option"
  k_variables :: "'e \<Rightarrow> hcl_traversal list"
  k_AnyToCty :: "'p \<Rightarrow> string + 'c"
  k_build :: "'c key_ctx \<Rightarrow> string option"
  k_eval :: "'e \<Rightarrow> 'c key_ctx \<Rightarrow> string + key_value"

definition partitionKeyIsUnordered :: "('e, 'p, 'c) key_api \<Rightarrow> 'e \<Rightarrow> bool" where
  "partitionKeyIsUnordered api expr \<longleftrightarrow> k_constant api expr = Some KNull"

definition partitionKeyField :: "('e, 'p, 'c) key_api \<Rightarrow> 'e \<Rightarrow> string option" where
  "partitionKeyField api expr =
     (case k_abs_traversal api expr of
        Some (rt, [TraverseAttr fs, TraverseAttr name]) \<Rightarrow>
          if rt = ''ctx'' \<and> fs = ''fields'' then Some name else None
      | _ \<Rightarrow> None)"

definition partitionKeyIsTopic :: "('e, 'p, 'c) key_api \<Rightarrow> 'e \<Rightarrow> bool" where
  "partitionKeyIsTopic api expr =
     (case k_abs_traversal api expr of
        Some (rt, [TraverseAttr topic]) \<Rightarrow> rt = ''ctx'' \<and> topic = ''topic''
      | _ \<Rightarrow> False)"

fun reads_payload :: "hcl_traversal \<Rightarrow> bool" where
  "reads_payload (rt, []) = (rt = ''ctx'')"
| "reads_payload (rt, TraverseAttr a # _) = (rt = ''ctx'' \<and> a = ''msg'')"
| "reads_payload (rt, TraverseOther # _) = (rt = ''ctx'')"

definition partitionKeyNeedsPayload :: "('e, 'p, 'c) key_api \<Rightarrow> 'e \<Rightarrow> bool" where
  "partitionKeyNeedsPayload api expr = list_ex reads_payload (k_variables api expr)"

fun partitionKeyString :: "key_value \<Rightarrow> string + string" where
  "partitionKeyString KNull = Inr []"
| "partitionKeyString (KString s) = Inr s"
| "partitionKeyString (KNumber s) = Inr s"
| "partitionKeyString (KBool b) = Inr (if b then ''true'' else ''false'')"
| "partitionKeyString KOther = Inl ''a partition key must be a string, number, or boolean''"

text \<open>The key of a message, from the flag that says whether a failure was reported before: the key, the
  flag, and the error reported now.\<close>

type_synonym key_result = "string \<times> bool \<times> string list"

definition partitionKeyFallback :: "'p Message \<Rightarrow> bool \<Rightarrow> string \<Rightarrow> key_result" where
  "partitionKeyFallback msg reported err =
     (msg_Topic msg, True, if reported then [] else [err])"

text \<open>The general path: build a context and evaluate the expression in it.\<close>

definition general_key :: "('e, 'p, 'c) key_api \<Rightarrow> 'e \<Rightarrow> 'p Message \<Rightarrow> bool \<Rightarrow> key_result" where
  "general_key api expr msg reported =
     (case (if partitionKeyNeedsPayload api expr then map_sum id Some (k_AnyToCty api (msg_Payload msg))
            else Inr None) of
        Inl e \<Rightarrow> partitionKeyFallback msg reported (''converting the message payload: '' @ e)
      | Inr payload \<Rightarrow>
          let c = \<lparr>kc_topic = msg_Topic msg, kc_fields = msg_Fields msg, kc_msg = payload\<rparr>
          in case k_build api c of
               Some e \<Rightarrow> partitionKeyFallback msg reported e
             | None \<Rightarrow>
                 case k_eval api expr c of
                   Inl e \<Rightarrow> partitionKeyFallback msg reported e
                 | Inr val \<Rightarrow>
                     case partitionKeyString val of
                       Inl e \<Rightarrow> partitionKeyFallback msg reported e
                     | Inr key \<Rightarrow> (key, reported, []))"

text \<open>\<open>None\<close> is the nil function: no ordering is wanted.\<close>

definition buildPartitionKeyFunc ::
  "('e, 'p, 'c) key_api \<Rightarrow> 'e \<Rightarrow> ('p Message \<Rightarrow> bool \<Rightarrow> key_result) option" where
  "buildPartitionKeyFunc api expr =
     (if partitionKeyIsUnordered api expr then None
      else case partitionKeyField api expr of
        Some field \<Rightarrow>
          Some (\<lambda>msg reported.
            case msg_Fields msg field of
              None \<Rightarrow> partitionKeyFallback msg reported (''this message has no '' @ field @ '' field'')
            | Some key \<Rightarrow> (key, reported, []))
      | None \<Rightarrow>
          if partitionKeyIsTopic api expr then Some (\<lambda>msg reported. (msg_Topic msg, reported, []))
          else Some (general_key api expr))"

section \<open>Building the queue\<close>

record 'e SubscriberSource =
  ss_Subscriber :: "'e option"
  ss_Action :: "'e option"
  ss_Transforms :: "'e option"
  ss_QueueSize :: "int option"
  ss_Partitions :: "int option"
  ss_PartitionKey :: "'e option"

datatype 'p keying = ByTopic | RoundRobin | ByKey "'p Message \<Rightarrow> bool \<Rightarrow> key_result"

datatype ('e, 'p, 's) chain =
    Named 's | ActionOf 'e | Transforming 'e "('e, 'p, 's) chain"
  | Queued "('e, 'p, 's) chain" int int "'p keying"

text \<open>Looking up a named subscriber and the transforms belong to other parts of the configuration. The
  second result is whether a queue was built and registered as in flight.\<close>

definition ResolveQueue ::
  "('e, 'p, 'c) key_api \<Rightarrow> ('e \<Rightarrow> 's \<times> diag list) \<Rightarrow> ('e \<Rightarrow> diag list) \<Rightarrow> 'e SubscriberSource
     \<Rightarrow> ('e, 'p, 's) chain option \<times> bool \<times> diag list" where
  "ResolveQueue api lookup transforms s =
     (let fail = (\<lambda>ds. (None, False, ds));
          base = (case (ss_Subscriber s, ss_Action s) of
                    (Some e, None) \<Rightarrow> Some (map_prod Named id (lookup e))
                  | (None, Some a) \<Rightarrow> Some (ActionOf a, [])
                  | _ \<Rightarrow> None)
      in case base of
           None \<Rightarrow> fail [DiagError ''Exactly one of subscriber or action must be specified'']
         | Some (sub, ds) \<Rightarrow>
             if ss_Partitions s \<noteq> None \<and> ss_QueueSize s = None
             then fail [DiagError ''partitions requires queue_size'']
             else if ss_PartitionKey s \<noteq> None \<and> ss_Partitions s = None
             then fail [DiagError ''partition_key requires partitions'']
             else if HasErrors ds then fail ds
             else
               let tds = (case ss_Transforms s of Some t \<Rightarrow> transforms t | None \<Rightarrow> []);
                   sub' = (case ss_Transforms s of Some t \<Rightarrow> Transforming t sub | None \<Rightarrow> sub)
               in if HasErrors tds then fail tds
                  else case ss_QueueSize s of
                    None \<Rightarrow> (Some sub', False, [])
                  | Some n \<Rightarrow>
                      (case ss_Partitions s of
                         None \<Rightarrow> (Some (Queued sub' n 1 ByTopic), True, [])
                       | Some k \<Rightarrow>
                           if k < 1 then fail [DiagError ''partitions must be at least 1'']
                           else
                             let key = (case ss_PartitionKey s of
                                          None \<Rightarrow> ByTopic
                                        | Some e \<Rightarrow>
                                            (case buildPartitionKeyFunc api e of
                                               None \<Rightarrow> RoundRobin | Some f \<Rightarrow> ByKey f))
                             in (Some (Queued sub' n k key), True, [])))"

text \<open>A warning for more partitions than literal topics.\<close>

definition partitionTopicWarning :: "string list \<Rightarrow> int option \<Rightarrow> bool \<Rightarrow> diag list" where
  "partitionTopicWarning topics partitions hasKey =
     (case partitions of
        None \<Rightarrow> []
      | Some n \<Rightarrow>
          if n < 2 \<or> hasKey then []
          else if list_ex (list_ex (\<lambda>c. c = CHR ''+'' \<or> c = CHR ''#'')) topics then []
          else if int (length topics) \<ge> n then []
          else [DiagWarning ''partitions exceeds the number of topics that can fill them''])"

section \<open>Reading a queue\<close>

definition queueSkew :: "int \<Rightarrow> int \<Rightarrow> int \<Rightarrow> rat" where
  "queueSkew mx tot partitions =
     (if tot \<le> 0 \<or> partitions \<le> 0 then 1 else of_int (mx * partitions) / of_int tot)"

text \<open>What the queue answers.\<close>

record queue_state =
  QueueDepth :: int
  MaxQueueDepth :: int
  QueueCapacity :: int
  Partitions :: int
  DroppedTotal :: nat

definition queueMembers :: "string list" where
  "queueMembers = [''queue_depth'', ''queue_capacity'', ''queue_ratio'', ''dropped'', ''partitions'', ''skew'']"

definition isQueueMember :: "string \<Rightarrow> bool" where "isQueueMember name = list_ex (\<lambda>m. m = name) queueMembers"

definition queueMemberValue :: "queue_state \<Rightarrow> string \<Rightarrow> string + rat" where
  "queueMemberValue q member =
     (if member = ''queue_depth'' then Inr (of_int (QueueDepth q))
      else if member = ''queue_capacity'' then Inr (of_int (QueueCapacity q))
      else if member = ''queue_ratio'' then
        (let perPartition = QueueCapacity q div Partitions q
         in if perPartition \<le> 0 then Inr 0 else Inr (of_int (MaxQueueDepth q) / of_int perPartition))
      else if member = ''dropped'' then Inr (of_nat (DroppedTotal q))
      else if member = ''partitions'' then Inr (of_int (Partitions q))
      else if member = ''skew'' then Inr (queueSkew (MaxQueueDepth q) (QueueDepth q) (Partitions q))
      else Inl ''no member'')"

section \<open>One key, two ways\<close>







text \<open>A concrete evaluator, for expressions that are bare traversals.\<close>

fun traversal_eval :: "hcl_traversal \<Rightarrow> 'c key_ctx \<Rightarrow> string + key_value" where
  "traversal_eval (rt, [TraverseAttr a]) c = Inr (KString (kc_topic c))"
| "traversal_eval (rt, [TraverseAttr a, TraverseAttr n]) c =
     (case kc_fields c n of Some s \<Rightarrow> Inr (KString s) | None \<Rightarrow> Inl ''Unsupported attribute'')"
| "traversal_eval _ c = Inr KOther"

definition traversal_api :: "(hcl_traversal, unit, unit) key_api" where
  "traversal_api = \<lparr>k_constant = \<lambda>_. None, k_abs_traversal = Some, k_variables = \<lambda>e. [e],
               k_AnyToCty = \<lambda>_. Inr (), k_build = \<lambda>_. None, k_eval = traversal_eval\<rparr>"



text \<open>The keys of a sequence of messages, one after another.\<close>

fun run_keys :: "('p Message \<Rightarrow> bool \<Rightarrow> key_result) \<Rightarrow> 'p Message list \<Rightarrow> bool \<Rightarrow> string list \<times> string list" where
  "run_keys f [] reported = ([], [])"
| "run_keys f (m # ms) reported =
     (let (key, reported', errs) = f m reported; (keys, errs') = run_keys f ms reported'
      in (key # keys, errs @ errs'))"

text \<open>A key function answers from the message alone, or falls back.\<close>

definition falls_back :: "('p Message \<Rightarrow> bool \<Rightarrow> key_result) \<Rightarrow> 'p Message \<Rightarrow> bool" where
  "falls_back f m \<longleftrightarrow> snd (snd (f m False)) \<noteq> []"

definition key_or_fallback :: "('p Message \<Rightarrow> bool \<Rightarrow> key_result) \<Rightarrow> bool" where
  "key_or_fallback f \<longleftrightarrow>
     (\<forall>m. (\<exists>key. \<forall>r. f m r = (key, r, [])) \<or> (\<exists>err. \<forall>r. f m r = partitionKeyFallback m r err))"

lemma general_key_shape: "key_or_fallback (general_key api e)"
proof -
  have "(\<exists>key. \<forall>r. general_key api e m r = (key, r, [])) \<or>
        (\<exists>err. \<forall>r. general_key api e m r = partitionKeyFallback m r err)" for m
  proof (cases "if partitionKeyNeedsPayload api e then map_sum id Some (k_AnyToCty api (msg_Payload m)) else Inr None")
    case (Inl err)
    then show ?thesis by (auto simp: general_key_def)
  next
    case (Inr payload)
    let ?c = "\<lparr>kc_topic = msg_Topic m, kc_fields = msg_Fields m, kc_msg = payload\<rparr>"
    show ?thesis
      by (cases "k_build api ?c"; cases "k_eval api e ?c"; cases "partitionKeyString (projr (k_eval api e ?c))")
         (auto simp: general_key_def Inr Let_def)
  qed
  then show ?thesis by (simp add: key_or_fallback_def)
qed

lemma buildPartitionKeyFunc_shape:
  assumes "buildPartitionKeyFunc api e = Some f"
  shows "key_or_fallback f"
proof (cases "partitionKeyField api e")
  case (Some n)
  then have "f = (\<lambda>msg reported. case msg_Fields msg n of
      None \<Rightarrow> partitionKeyFallback msg reported (''this message has no '' @ n @ '' field'')
    | Some key \<Rightarrow> (key, reported, []))"
    using assms by (auto simp: buildPartitionKeyFunc_def split: if_splits)
  then show ?thesis by (auto simp: key_or_fallback_def split: option.split)
next
  case None
  then show ?thesis
    using assms general_key_shape[of api e]
    by (auto simp: buildPartitionKeyFunc_def key_or_fallback_def split: if_splits)
qed

lemma run_keys_errors:
  assumes "key_or_fallback f"
  shows "length (snd (run_keys f ms r)) = (if \<not> r \<and> list_ex (falls_back f) ms then 1 else 0) \<and>
         fst (run_keys f ms r) = map (\<lambda>m. fst (f m False)) ms"
proof (induction ms arbitrary: r)
  case Nil
  then show ?case by simp
next
  case (Cons m ms)
  consider (key) key where "\<And>r. f m r = (key, r, [])"
    | (fallback) err where "\<And>r. f m r = partitionKeyFallback m r err"
    using assms unfolding key_or_fallback_def by blast
  then show ?case
  proof cases
    case key
    then show ?thesis using Cons.IH[of r] by (simp add: falls_back_def case_prod_beta Let_def)
  next
    case fallback
    then show ?thesis
      using Cons.IH[of True] by (simp add: falls_back_def partitionKeyFallback_def case_prod_beta Let_def)
  qed
qed

text \<open>A key that cannot be computed never stops a message: the message goes to the partition of its
  topic. The failure is reported once per subscriber, at the first message it happens to, and never
  again; every other message gets the key its own data gives, whatever came before.\<close>

theorem partition_key_total:
  assumes "buildPartitionKeyFunc api e = Some f"
  shows "length (snd (run_keys f ms False)) = (if list_ex (falls_back f) ms then 1 else 0) \<and>
         fst (run_keys f ms False) = map (\<lambda>m. if falls_back f m then msg_Topic m else fst (f m True)) ms"
proof -
  have shape: "key_or_fallback f" using assms by (rule buildPartitionKeyFunc_shape)
  have "fst (f m False) = (if falls_back f m then msg_Topic m else fst (f m True))" for m
  proof -
    have "(\<exists>key. \<forall>r. f m r = (key, r, [])) \<or> (\<exists>err. \<forall>r. f m r = partitionKeyFallback m r err)"
      using shape by (simp add: key_or_fallback_def)
    then show ?thesis by (auto simp: falls_back_def partitionKeyFallback_def)
  qed
  then show ?thesis using run_keys_errors[OF shape, of ms False] by simp
qed

theorem partition_key_total_witness:
  "fst (run_keys (general_key traversal_api (''ctx'', [])) [\<lparr>msg_Topic = ''t'', msg_Fields = Map.empty, msg_Payload = ()\<rparr>,
     \<lparr>msg_Topic = ''u'', msg_Fields = Map.empty, msg_Payload = ()\<rparr>] False) = [''t'', ''u'']"
  using partition_key_total[of traversal_api "(''ctx'', [])" "general_key traversal_api (''ctx'', [])"
      "[\<lparr>msg_Topic = ''t'', msg_Fields = Map.empty, msg_Payload = ()\<rparr>,
        \<lparr>msg_Topic = ''u'', msg_Fields = Map.empty, msg_Payload = ()\<rparr>]"]
  by (simp add: buildPartitionKeyFunc_def partitionKeyIsUnordered_def partitionKeyField_def
      partitionKeyIsTopic_def falls_back_def general_key_def partitionKeyNeedsPayload_def traversal_api_def
      partitionKeyFallback_def)

section \<open>Queues that are built\<close>

text \<open>A source is accepted only if it names exactly one destination, asks for partitions only of a
  queue and for a key only of partitions, and for at least one partition; then the queue stands in
  front of the transforms, which stand in front of the destination, and it is registered as in flight
  exactly when there is one.\<close>

theorem queue_resolved:
  assumes "ResolveQueue api lookup transforms s = (Some c, queued, ds)"
  shows "(ss_Subscriber s \<noteq> None) \<noteq> (ss_Action s \<noteq> None) \<and> ds = [] \<and>
         queued = (ss_QueueSize s \<noteq> None) \<and>
         (ss_Partitions s \<noteq> None \<longrightarrow> ss_QueueSize s \<noteq> None \<and> 1 \<le> the (ss_Partitions s)) \<and>
         (ss_PartitionKey s \<noteq> None \<longrightarrow> ss_Partitions s \<noteq> None) \<and>
         (\<exists>sub. (case ss_Action s of Some a \<Rightarrow> sub = ActionOf a | None \<Rightarrow> \<exists>n. sub = Named n) \<and>
            (let inner = (case ss_Transforms s of None \<Rightarrow> sub | Some t \<Rightarrow> Transforming t sub)
             in case ss_QueueSize s of
                  None \<Rightarrow> c = inner
                | Some n \<Rightarrow> \<exists>key. c = Queued inner n (case ss_Partitions s of None \<Rightarrow> 1 | Some k \<Rightarrow> k) key))"
  using assms
  by (auto simp: ResolveQueue_def Let_def map_prod_def split: option.splits if_splits prod.splits)

definition action_source :: "hcl_traversal SubscriberSource" where
  "action_source = \<lparr>ss_Subscriber = None, ss_Action = Some (''send'', []), ss_Transforms = None,
                  ss_QueueSize = Some 500, ss_Partitions = Some 8, ss_PartitionKey = None\<rparr>"

theorem queue_resolved_witness:
  "ResolveQueue traversal_api (\<lambda>_. ((), [])) (\<lambda>_. []) action_source =
     (Some (Queued (ActionOf (''send'', [])) 500 8 ByTopic), True, []) \<and> ss_QueueSize action_source \<noteq> None"
  using queue_resolved[of traversal_api "\<lambda>_. ((), [])" "\<lambda>_. []" action_source
      "Queued (ActionOf (''send'', [])) 500 8 ByTopic" True "[]"]
  by (simp add: ResolveQueue_def action_source_def)

section \<open>What a queue says\<close>

text \<open>The answers of a queue whose partitions hold \<open>depths\<close> messages, with room for \<open>room\<close> each.\<close>

definition answers_for :: "nat list \<Rightarrow> nat \<Rightarrow> queue_state \<Rightarrow> bool" where
  "answers_for depths room q \<longleftrightarrow>
     depths \<noteq> [] \<and> (\<forall>d \<in> set depths. d \<le> room) \<and> QueueDepth q = int (sum_list depths) \<and>
     MaxQueueDepth q = int (Max (set depths)) \<and> Partitions q = int (length depths) \<and>
     QueueCapacity q = int room * int (length depths)"

lemma sum_list_le_Max: "\<forall>d \<in> set ds. d \<le> (m :: nat) \<Longrightarrow> sum_list ds \<le> length ds * m"
  by (induction ds) auto

lemma sum_list_eq_Max:
  "\<forall>d \<in> set ds. d \<le> (m :: nat) \<Longrightarrow> sum_list ds = length ds * m \<longleftrightarrow> (\<forall>d \<in> set ds. d = m)"
proof (induction ds)
  case (Cons d ds)
  have "sum_list ds \<le> length ds * m" using Cons.prems by (intro sum_list_le_Max) simp
  then show ?case using Cons by auto
qed simp

lemma Max_depths:
  assumes "depths \<noteq> []"
  shows "Max (set depths) \<in> set depths" and "\<forall>d \<in> set depths. d \<le> Max (set depths)"
    and "sum_list depths \<le> length depths * Max (set depths)" and "Max (set depths) \<le> sum_list depths"
  using assms sum_list_le_Max[of depths "Max (set depths)"] member_le_sum_list[of "Max (set depths)" depths]
  by auto

lemma skew_bounds:
  assumes "depths \<noteq> []" and "0 < sum_list depths"
  defines "skew \<equiv> queueSkew (int (Max (set depths))) (int (sum_list depths)) (int (length depths))"
  shows "1 \<le> skew" and "skew \<le> of_nat (length depths)"
    and "skew = 1 \<longleftrightarrow> (\<forall>d \<in> set depths. d = hd depths)"
    and "skew = of_nat (length depths) \<longleftrightarrow> sum_list depths \<in> set depths"
proof -
  let ?m = "Max (set depths)" and ?n = "length depths" and ?s = "sum_list depths"
  note m = Max_depths[OF assms(1)]
  have s: "0 < (of_nat ?s :: rat)" using assms(2) by (simp only: of_nat_0_less_iff)
  have n: "0 < ?n" using assms(1) by simp
  have "queueSkew (int m) (int s) (int n) = of_nat (m * n) / of_nat s" if "0 < s" and "0 < n" for m s n
    using that by (simp add: queueSkew_def)
  from this[OF assms(2) n] have skew: "skew = of_nat (?m * ?n) / of_nat ?s" by (simp only: skew_def)
  have one: "of_nat ?s \<le> (of_nat (?m * ?n) :: rat)" and all: "(of_nat (?m * ?n) :: rat) \<le> of_nat (?n * ?s)"
    using m(3,4) by (simp_all only: of_nat_le_iff mult.commute[of ?m] mult_le_mono2)
  show "1 \<le> skew" using one s by (simp add: skew le_divide_eq)
  show "skew \<le> of_nat ?n" using all s by (simp add: skew divide_le_eq)
  have "of_nat (m * n) / of_nat s = (1 :: rat) \<longleftrightarrow> s = n * m" if "0 < s" for m s n :: nat
    using that by (auto simp: divide_eq_eq mult.commute simp flip: of_nat_mult)
  from this[OF assms(2)] have "skew = 1 \<longleftrightarrow> ?s = ?n * ?m" by (simp only: skew)
  also have "\<dots> \<longleftrightarrow> (\<forall>d \<in> set depths. d = ?m)" by (rule sum_list_eq_Max[OF m(2)])
  also have "\<dots> \<longleftrightarrow> (\<forall>d \<in> set depths. d = hd depths)" using m(1) assms(1) by (metis hd_in_set)
  finally show "skew = 1 \<longleftrightarrow> (\<forall>d \<in> set depths. d = hd depths)" .
  have "of_nat (m * n) / of_nat s = (of_nat n :: rat) \<longleftrightarrow> m * n = n * s" if "0 < s" for m s n :: nat
    using that by (auto simp: divide_eq_eq simp flip: of_nat_mult)
  from this[OF assms(2)] have "skew = of_nat ?n \<longleftrightarrow> ?m * ?n = ?n * ?s" by (simp only: skew)
  also have "\<dots> \<longleftrightarrow> ?m = ?s" using n by (simp add: mult.commute)
  also have "\<dots> \<longleftrightarrow> ?s \<in> set depths" using m by (metis le_antisym)
  finally show "skew = of_nat ?n \<longleftrightarrow> ?s \<in> set depths" .
qed

lemma skew_empty: "queueSkew m 0 n = 1"
  by (simp add: queueSkew_def)

text \<open>The skew of a queue is a ratio between 1 and the number of partitions, whatever the queue holds:
  it is 1 exactly when all partitions are equally deep (an empty queue is), and its upper bound is
  reached exactly when one partition holds everything. The fill ratio is that of the fullest
  partition: it reaches 1 exactly when some partition is full.\<close>

theorem queue_readings:
  assumes "answers_for depths room q" and "0 < room"
  shows "\<exists>skew ratio. queueMemberValue q ''skew'' = Inr skew \<and> queueMemberValue q ''queue_ratio'' = Inr ratio \<and>
           1 \<le> skew \<and> skew \<le> of_nat (length depths) \<and>
           (skew = 1 \<longleftrightarrow> (\<forall>d \<in> set depths. d = hd depths)) \<and>
           (0 < sum_list depths \<longrightarrow> (skew = of_nat (length depths) \<longleftrightarrow> sum_list depths \<in> set depths)) \<and>
           0 \<le> ratio \<and> ratio \<le> 1 \<and> (ratio = 1 \<longleftrightarrow> room \<in> set depths)"
proof -
  let ?m = "Max (set depths)" and ?n = "length depths" and ?s = "sum_list depths"
  have ne: "depths \<noteq> []" and room: "\<forall>d \<in> set depths. d \<le> room"
    and q: "QueueDepth q = int ?s" "MaxQueueDepth q = int ?m" "Partitions q = int ?n"
      "QueueCapacity q = int room * int ?n"
    using assms(1) by (auto simp: answers_for_def)
  define skew where "skew = queueSkew (int ?m) (int ?s) (int ?n)"
  define ratio :: rat where "ratio = of_nat ?m / of_nat room"
  have vals: "queueMemberValue q ''skew'' = Inr skew" "queueMemberValue q ''queue_ratio'' = Inr ratio"
    using ne assms(2) by (simp_all add: queueMemberValue_def q skew_def ratio_def Let_def)
  have "?m \<le> room" using Max_depths[OF ne] room by blast
  then have ratio: "0 \<le> ratio" "ratio \<le> 1" "ratio = 1 \<longleftrightarrow> ?m = room"
    using assms(2) by (auto simp: ratio_def)
  have full: "?m = room \<longleftrightarrow> room \<in> set depths"
    using Max_depths[OF ne] \<open>?m \<le> room\<close> by (metis le_antisym)
  have "1 \<le> skew \<and> skew \<le> of_nat ?n \<and> (skew = 1 \<longleftrightarrow> (\<forall>d \<in> set depths. d = hd depths)) \<and>
      (0 < ?s \<longrightarrow> (skew = of_nat ?n \<longleftrightarrow> ?s \<in> set depths))"
  proof (cases "0 < ?s")
    case True
    then show ?thesis using skew_bounds[OF ne True] by (simp add: skew_def)
  next
    case False
    then have zero: "?s = 0" by (simp only: not_gr0)
    then have "\<forall>d \<in> set depths. d = 0" by (simp only: sum_list_eq_0_iff)
    then have "\<forall>d \<in> set depths. d = hd depths" using hd_in_set[OF ne] by metis
    moreover have "skew = 1" unfolding skew_def zero by (simp only: of_nat_0 skew_empty)
    moreover have "(1 :: rat) \<le> of_nat ?n" using ne by (cases depths) simp_all
    ultimately show ?thesis using False by blast
  qed
  moreover have "ratio = 1 \<longleftrightarrow> room \<in> set depths" using ratio(3) full by (rule trans)
  ultimately show ?thesis
    using vals ratio(1,2) by (intro exI[of _ skew] exI[of _ ratio] conjI) (elim conjE, assumption)+
qed

theorem queue_readings_witness:
  "1 \<le> projr (queueMemberValue \<lparr>QueueDepth = 200, MaxQueueDepth = 100, QueueCapacity = 400, Partitions = 4,
     DroppedTotal = 0\<rparr> ''skew'') \<and>
   queueMemberValue \<lparr>QueueDepth = 200, MaxQueueDepth = 100, QueueCapacity = 400, Partitions = 4,
     DroppedTotal = 0\<rparr> ''skew'' = Inr 2"
  using queue_readings[of "[100, 50, 50, 0]" 100 "\<lparr>QueueDepth = 200, MaxQueueDepth = 100, QueueCapacity = 400,
      Partitions = 4, DroppedTotal = 0\<rparr>"]
  by (simp add: answers_for_def queueMemberValue_def queueSkew_def)

end
