(* ===== verification/Safe_Path.thy ===== *)
theory Safe_Path
  imports Vinculum_Prelude "HOL-Library.Sublist"
begin

text \<open>
  Confinement of file names to a base directory (\<open>config/pathutil.go\<close>), with the functions of the
  package \<open>filepath\<close> it uses, for Unix paths: \<open>Clean\<close>, \<open>Join\<close>, \<open>IsAbs\<close> and \<open>Rel\<close>. A path is a string;
  cleaning works on its elements, so the lemmas relate a clean path to whether it is rooted and to its
  list of elements. Symbolic links are not looked at, by the code or here.
\<close>

section \<open>Paths\<close>

fun split_slash :: "string \<Rightarrow> string list" where
  "split_slash [] = [[]]"
| "split_slash (c # cs) =
     (if c = CHR ''/'' then [] # split_slash cs
      else case split_slash cs of e # es \<Rightarrow> (c # e) # es | [] \<Rightarrow> [[c]])"

fun join_slash :: "string list \<Rightarrow> string" where
  "join_slash [] = []"
| "join_slash [e] = e"
| "join_slash (e # es) = e @ CHR ''/'' # join_slash es"

definition IsAbs :: "string \<Rightarrow> bool" where
  "IsAbs p \<longleftrightarrow> (case p of [] \<Rightarrow> False | c # _ \<Rightarrow> c = CHR ''/'')"

text \<open>\<open>filepath.Clean\<close>: elements are pushed on a stack, which \<open>..\<close> pops unless it is at the root or at
  another \<open>..\<close>.\<close>

fun clean_step :: "bool \<Rightarrow> string list \<Rightarrow> string \<Rightarrow> string list" where
  "clean_step rooted stack e =
     (if e = [] \<or> e = ''.'' then stack
      else if e = ''..'' then
        (case stack of
           tp # below \<Rightarrow> if tp = ''..'' then e # stack else below
         | [] \<Rightarrow> if rooted then [] else [e])
      else e # stack)"

definition clean_elems :: "string \<Rightarrow> string list" where
  "clean_elems p = rev (foldl (clean_step (IsAbs p)) [] (split_slash p))"

definition render :: "bool \<Rightarrow> string list \<Rightarrow> string" where
  "render rooted es = (if rooted then CHR ''/'' # join_slash es else if es = [] then ''.'' else join_slash es)"

definition Clean :: "string \<Rightarrow> string" where
  "Clean p = render (IsAbs p) (clean_elems p)"

definition Join :: "string \<Rightarrow> string \<Rightarrow> string" where
  "Join a b =
     (if a \<noteq> [] then Clean (a @ CHR ''/'' # b) else if b \<noteq> [] then Clean b else [])"

fun strip_common :: "string list \<Rightarrow> string list \<Rightarrow> string list \<times> string list" where
  "strip_common (b # bs) (t # ts) = (if b = t then strip_common bs ts else (b # bs, t # ts))"
| "strip_common bs ts = (bs, ts)"

definition Rel :: "string \<Rightarrow> string \<Rightarrow> string option" where
  "Rel basepath targpath =
     (let base = Clean basepath; targ = Clean targpath;
          bs = clean_elems basepath;
          ts = (if targ = ''.'' then [''.''] else clean_elems targpath)
      in if targ = base then Some ''.''
         else if IsAbs base \<noteq> IsAbs targ then None
         else
           let (b, t) = strip_common bs ts
           in case b of
                e # _ \<Rightarrow>
                  if e = ''..'' then None
                  else Some (join_slash (replicate (length b) ''..'' @ t))
              | [] \<Rightarrow> Some (join_slash t))"

section \<open>The code\<close>

datatype path_error = HomeExpansion | OutsideBase string

definition SafeResolvePath :: "string \<Rightarrow> string \<Rightarrow> path_error + string" where
  "SafeResolvePath baseDir path =
     (if prefix ''~'' path then Inl HomeExpansion
      else
        let path1 = Clean (if \<not> IsAbs path then Join baseDir path else path);
            cleanBase = Clean baseDir
        in case Rel cleanBase path1 of
             None \<Rightarrow> Inl (OutsideBase path1)
           | Some rel \<Rightarrow>
               if rel = ''..'' \<or> prefix ''../'' rel then Inl (OutsideBase path1) else Inr path1)"

section \<open>Clean paths\<close>

text \<open>An element of a clean path, and the shape of its list of elements: \<open>..\<close> only in front, and not at
  all below the root.\<close>

definition plain_elem :: "string \<Rightarrow> bool" where
  "plain_elem e \<longleftrightarrow> e \<noteq> [] \<and> e \<noteq> ''.'' \<and> CHR ''/'' \<notin> set e"

fun dots_first :: "string list \<Rightarrow> bool" where
  "dots_first [] = True"
| "dots_first (e # es) = (if e = ''..'' then dots_first es else ''..'' \<notin> set es)"

definition clean_form :: "bool \<Rightarrow> string list \<Rightarrow> bool" where
  "clean_form rooted es \<longleftrightarrow> list_all plain_elem es \<and> dots_first es \<and> (rooted \<longrightarrow> ''..'' \<notin> set es)"

lemma split_slash_nonempty [simp]: "split_slash s \<noteq> []"
  by (induction s) (auto split: list.split)

lemma split_slash_elems: "e \<in> set (split_slash s) \<Longrightarrow> CHR ''/'' \<notin> set e"
  by (induction s arbitrary: e) (auto split: list.splits if_splits)

lemma split_slash_append:
  "CHR ''/'' \<notin> set e \<Longrightarrow> split_slash (e @ s) = (e @ hd (split_slash s)) # tl (split_slash s)"
  by (induction e) (auto split: list.split)

lemma split_join:
  "es \<noteq> [] \<Longrightarrow> list_all (\<lambda>e. CHR ''/'' \<notin> set e) es \<Longrightarrow> split_slash (join_slash es) = es"
proof (induction es rule: join_slash.induct)
  case (2 e)
  then show ?case using split_slash_append[of e "[]"] by simp
next
  case (3 e e' es)
  then show ?case by (simp add: split_slash_append)
qed simp

lemma dots_first_append:
  "dots_first (es @ fs) \<longleftrightarrow>
     (if set es \<subseteq> {''..''} then dots_first fs else dots_first es \<and> ''..'' \<notin> set fs)"
  by (induction es) auto

lemma dots_first_all: "set es \<subseteq> {''..''} \<Longrightarrow> dots_first es"
  by (induction es) auto

lemma clean_form_prefix: "clean_form rooted (es @ fs) \<Longrightarrow> clean_form rooted es"
  by (auto simp: clean_form_def dots_first_append dots_first_all split: if_splits)

text \<open>The invariant of the stack: reversed, it is the clean form of what was read.\<close>

lemma clean_step_form:
  assumes "clean_form rooted (rev st)" and "CHR ''/'' \<notin> set e"
  shows "clean_form rooted (rev (clean_step rooted st e))"
proof (cases "e = ''..''")
  case True
  then show ?thesis
    using assms by (cases st) (auto simp: clean_form_def dots_first_append dots_first_all plain_elem_def split: if_splits)
next
  case False
  then show ?thesis using assms by (auto simp: clean_form_def dots_first_append plain_elem_def split: if_splits)
qed

lemma clean_elems_form: "clean_form (IsAbs p) (clean_elems p)"
proof -
  have "list_all (\<lambda>e. CHR ''/'' \<notin> set e) es \<Longrightarrow> clean_form r (rev st) \<Longrightarrow>
      clean_form r (rev (foldl (clean_step r) st es))" for r st es
    by (induction es arbitrary: st) (simp_all add: clean_step_form del: clean_step.simps)
  moreover have "list_all (\<lambda>e. CHR ''/'' \<notin> set e) (split_slash p)"
    using split_slash_elems by (auto simp: list_all_iff)
  ultimately show ?thesis by (simp add: clean_elems_def clean_form_def)
qed

lemma clean_fold_id:
  "clean_form rooted (rev st @ es) \<Longrightarrow> foldl (clean_step rooted) st es = rev es @ st"
proof (induction es arbitrary: st)
  case (Cons e es)
  have "clean_form rooted (rev st @ [e])"
    using Cons.prems clean_form_prefix[of rooted "rev st @ [e]" es] by simp
  then have "clean_step rooted st e = e # st"
    by (cases st) (auto simp: clean_form_def plain_elem_def dots_first_append split: if_splits)
  then show ?case using Cons.IH[of "e # st"] Cons.prems by simp
qed simp

lemma split_render:
  assumes "clean_form rooted es"
  shows "foldl (clean_step (IsAbs (render rooted es))) [] (split_slash (render rooted es)) = rev es"
proof (cases "es = []")
  case True
  then show ?thesis by (simp add: render_def IsAbs_def)
next
  case False
  have elems: "list_all (\<lambda>e. CHR ''/'' \<notin> set e) es" using assms by (auto simp: clean_form_def plain_elem_def list_all_iff)
  have abs: "IsAbs (render rooted es) = rooted"
  proof (cases rooted)
    case False
    obtain c cs es' where "es = (c # cs) # es'" and "c \<noteq> CHR ''/''"
      using assms \<open>es \<noteq> []\<close> by (cases es; cases "hd es") (auto simp: clean_form_def plain_elem_def)
    then show ?thesis using False by (cases es') (simp_all add: render_def IsAbs_def)
  qed (simp add: render_def IsAbs_def)
  have "split_slash (render rooted es) = (if rooted then [] # es else es)"
    using split_join[OF False elems] False by (simp add: render_def)
  then show ?thesis using clean_fold_id[of rooted "[]" es] assms abs by (cases rooted) simp_all
qed

lemma IsAbs_render:
  assumes "clean_form rooted es"
  shows "IsAbs (render rooted es) = rooted"
  using assms
  by (cases rooted; cases es; cases "hd es"; cases "tl es")
     (auto simp: render_def IsAbs_def clean_form_def plain_elem_def)

lemma clean_elems_render: "clean_form rooted es \<Longrightarrow> clean_elems (render rooted es) = es"
  using split_render by (simp add: clean_elems_def)

lemma Clean_parts [simp]:
  "clean_elems (Clean p) = clean_elems p" "IsAbs (Clean p) = IsAbs p"
  by (simp_all add: Clean_def clean_elems_render IsAbs_render clean_elems_form)

lemma Clean_idem [simp]: "Clean (Clean p) = Clean p"
proof -
  have "Clean (Clean p) = render (IsAbs (Clean p)) (clean_elems (Clean p))" by (rule Clean_def)
  also have "\<dots> = Clean p" by (simp only: Clean_parts) (rule Clean_def[symmetric])
  finally show ?thesis .
qed

lemma Clean_eq_iff: "Clean p = Clean q \<longleftrightarrow> IsAbs p = IsAbs q \<and> clean_elems p = clean_elems q"
proof
  assume eq: "Clean p = Clean q"
  show "IsAbs p = IsAbs q \<and> clean_elems p = clean_elems q"
    using arg_cong[OF eq, of IsAbs] arg_cong[OF eq, of clean_elems] by (simp only: Clean_parts)
next
  assume "IsAbs p = IsAbs q \<and> clean_elems p = clean_elems q"
  then show "Clean p = Clean q" by (simp only: Clean_def)
qed

lemma Clean_dot: "Clean p = ''.'' \<longleftrightarrow> \<not> IsAbs p \<and> clean_elems p = []"
  using Clean_eq_iff[of p "''.''"] by (simp add: Clean_def[of "''.''"] clean_elems_def render_def IsAbs_def)

text \<open>Cleaning a path gives its normal form: the elements of the clean path, read back, are the
  elements cleaning computed, cleaning a clean path changes nothing, and two paths have the same clean
  form exactly when they agree on being rooted and on their elements.\<close>

theorem clean_roundtrip:
  "clean_elems (Clean p) = clean_elems p \<and> Clean (Clean p) = Clean p \<and>
   (Clean p = Clean q \<longleftrightarrow> IsAbs p = IsAbs q \<and> clean_elems p = clean_elems q)"
  by (simp only: Clean_parts Clean_idem Clean_eq_iff simp_thms)

section \<open>Confinement\<close>

lemma strip_common_eq: "strip_common (bs @ xs) (bs @ ys) = strip_common xs ys"
  by (induction bs) simp_all

lemma strip_common_split:
  "strip_common bs ts = (b, t) \<Longrightarrow> \<exists>c. bs = c @ b \<and> ts = c @ t"
proof (induction bs ts arbitrary: b t rule: strip_common.induct)
  case (1 x bs y ts)
  show ?case
  proof (cases "x = y")
    case True
    then obtain c where "bs = c @ b" "ts = c @ t" using 1 by auto
    then show ?thesis using True by (intro exI[of _ "x # c"]) simp
  next
    case False
    then show ?thesis using 1 by auto
  qed
qed auto

lemma join_dotdot: "join_slash (''..'' # es) = ''..'' \<or> prefix ''../'' (join_slash (''..'' # es))"
  by (cases es) simp_all

lemma join_plain:
  assumes "list_all plain_elem es" and "join_slash es = ''..'' \<or> prefix ''../'' (join_slash es)"
  shows "\<exists>es'. es = ''..'' # es'"
proof -
  have e: "split_slash (join_slash es) = es" if "es \<noteq> []"
    using split_join[OF that] assms(1) by (auto simp: list_all_iff plain_elem_def)
  have ne: "es \<noteq> []" using assms(2) by auto
  from assms(2) show ?thesis
  proof
    assume "join_slash es = ''..''"
    then show ?thesis using e[OF ne] by auto
  next
    assume "prefix ''../'' (join_slash es)"
    then obtain r where "join_slash es = ''../'' @ r" by (auto simp: prefix_def)
    then show ?thesis using e[OF ne] by auto
  qed
qed

text \<open>A target whose elements go on from those of the base without \<open>..\<close>.\<close>

definition confined :: "string \<Rightarrow> string \<Rightarrow> bool" where
  "confined base targ \<longleftrightarrow>
     IsAbs targ = IsAbs base \<and> (\<exists>rest. clean_elems targ = clean_elems base @ rest \<and> ''..'' \<notin> set rest)"

lemma elems_plain: "list_all plain_elem (clean_elems p)"
  using clean_elems_form[of p] by (simp add: clean_form_def)

lemma Rel_confined:
  assumes "confined base targ"
  shows "\<exists>rel. Rel base targ = Some rel \<and> \<not> (rel = ''..'' \<or> prefix ''../'' rel)"
proof -
  obtain rest where rest: "clean_elems targ = clean_elems base @ rest" "''..'' \<notin> set rest" "IsAbs targ = IsAbs base"
    using assms by (auto simp: confined_def)
  show ?thesis
  proof (cases "Clean targ = Clean base")
    case True
    then show ?thesis by (simp add: Rel_def)
  next
    case False
    then have "rest \<noteq> []" using rest by (auto simp: Clean_eq_iff)
    then have "Clean targ \<noteq> ''.''" using rest by (simp add: Clean_dot)
    then have "Rel base targ = Some (join_slash rest)"
      using False rest strip_common_eq[of "clean_elems base" "[]" rest] by (simp add: Rel_def)
    moreover have "list_all plain_elem rest" using elems_plain[of targ] rest by simp
    ultimately show ?thesis using join_plain[of rest] rest(2) by auto
  qed
qed

lemma Rel_escapes:
  assumes "Rel base targ = Some rel" and "\<not> (rel = ''..'' \<or> prefix ''../'' rel)"
  shows "confined base targ"
proof (cases "Clean targ = Clean base")
  case True
  then show ?thesis by (simp add: confined_def Clean_eq_iff)
next
  case False
  let ?ts = "if Clean targ = ''.'' then [''.''] else clean_elems targ"
  obtain b t where bt: "strip_common (clean_elems base) ?ts = (b, t)" by (cases "strip_common (clean_elems base) ?ts")
  from strip_common_split[OF bt] obtain c where c: "clean_elems base = c @ b" "?ts = c @ t" by blast
  have abs: "IsAbs targ = IsAbs base" using assms(1) False by (auto simp: Rel_def split: if_splits)
  have "b = []"
  proof (rule ccontr)
    assume "b \<noteq> []"
    then obtain e b' where b: "b = e # b'" by (cases b) auto
    then have "rel = join_slash (''..'' # replicate (length b') ''..'' @ t)"
      using assms(1) False abs bt by (auto simp: Rel_def Let_def split: if_splits)
    then show False using join_dotdot assms(2) by metis
  qed
  then have rel: "rel = join_slash t" and ts: "?ts = clean_elems base @ t"
    using assms(1) False abs bt c by (auto simp: Rel_def Let_def split: if_splits)
  have "''.'' \<notin> set (clean_elems base)"
    using elems_plain[of base] by (auto simp: list_all_iff plain_elem_def)
  then have "Clean targ \<noteq> ''.''"
    using ts False abs by (cases "clean_elems base") (auto simp: Clean_eq_iff Clean_dot)
  then have elems: "clean_elems targ = clean_elems base @ t" using ts by simp
  have "dots_first (clean_elems base @ t)" using clean_elems_form[of targ] elems by (simp add: clean_form_def)
  moreover have "hd t \<noteq> ''..'' \<or> t = []" using join_dotdot[of "tl t"] assms(2) rel by (cases t) auto
  ultimately have "''..'' \<notin> set t"
    by (cases t) (auto simp: dots_first_append split: if_splits)
  then show ?thesis using elems abs by (auto simp: confined_def)
qed

text \<open>C23: A file name is accepted exactly when it does not start with a tilde and, resolved against the
  base directory and cleaned, it goes on from the base with elements none of which leads upwards; the
  result is that clean path. So no spelling of a name, relative, absolute, or with \<open>..\<close> anywhere in
  it, reaches outside the base directory, and every name inside it can be reached.\<close>

theorem safe_path_confined:
  "SafeResolvePath baseDir path = Inr p \<longleftrightarrow>
     \<not> prefix ''~'' path \<and>
     (let target = (if IsAbs path then path else Join baseDir path)
      in p = Clean target \<and> confined baseDir target)"
proof -
  let ?t = "if IsAbs path then path else Join baseDir path"
  have "confined (Clean baseDir) (Clean (Clean ?t)) = confined baseDir ?t" by (simp add: confined_def)
  moreover have "(\<exists>rel. Rel (Clean baseDir) (Clean ?t) = Some rel \<and> \<not> (rel = ''..'' \<or> prefix ''../'' rel)) \<longleftrightarrow>
      confined (Clean baseDir) (Clean ?t)"
    using Rel_confined Rel_escapes by blast
  ultimately show ?thesis
    by (auto simp: SafeResolvePath_def Let_def split: option.splits if_splits)
qed

end
