(* ===== verification/Line_Editor.thy ===== *)
theory Line_Editor
  imports Safe_Path
begin

text \<open>
  The line editor (\<open>editors/line/line.go\<close>): rules tried in order on each line, the state they
  accumulate, and the two modes, in which the result is returned as a string or replaces a file.
  Regular expressions, HCL expressions and values are arguments, the record \<open>editor_api\<close>: an
  expression is a function of its context, and a value is looked at through its view. A file system
  is a map from paths to contents; every call that can fail has a flag in the record \<open>faults\<close>.
\<close>

section \<open>Values and contexts\<close>

text \<open>A number is seen by the integer \<open>Int64\<close> makes of it, an object by its attributes, and a null or
  unknown object by their names.\<close>

datatype ed_type = EdBool | EdNumber | EdString | EdObject "string list" | EdOther

datatype 'v ed_view =
    EvNull ed_type | EvUnknown ed_type | EvBool bool | EvNumber int | EvString string
  | EvObject "string \<rightharpoonup> 'v" | EvOther

record 'v match_ctx =
  mc_filename :: string
  mc_lineno :: nat
  mc_line :: string
  mc_count :: nat
  mc_groups :: "string list"
  mc_named :: "string \<rightharpoonup> string"

text \<open>Where an expression is evaluated: at load time, for the initial state, on a match, or for the
  content before and after. The parameters shadow everything else.\<close>

datatype 'v ed_ctx =
    LoadCtx
  | StateCtx "string \<rightharpoonup> 'v"
  | MatchCtx "'v match_ctx" "string \<rightharpoonup> 'v" "string \<rightharpoonup> 'v"
  | ContentCtx string "string \<rightharpoonup> 'v" "string \<rightharpoonup> 'v"

text \<open>\<open>ea_unknown_attr\<close> is \<open>GetAttr\<close> of an unknown object; \<open>ea_unset_true\<close> is \<open>True()\<close> of a null or
  unknown bool, which its documentation does not define, \<open>None\<close> where it panics.\<close>

record ('e, 're, 'v) editor_api =
  ea_compile :: "string \<Rightarrow> 're option"
  ea_match :: "'re \<Rightarrow> string \<Rightarrow> string list option"
  ea_names :: "'re \<Rightarrow> string list"
  ea_build :: "'v ed_ctx \<Rightarrow> string option"
  ea_value :: "'e \<Rightarrow> 'v ed_ctx \<Rightarrow> 'v \<times> diag list"
  ea_view :: "'v \<Rightarrow> 'v ed_view"
  ea_tuple :: "'v list \<Rightarrow> 'v"
  ea_empty_object :: 'v
  ea_unknown_attr :: "'v \<Rightarrow> string \<Rightarrow> 'v"
  ea_unset_true :: "'v \<Rightarrow> bool option"

datatype ed_error =
    CtxError string | ExprError nat | NotString nat | NotObject nat | WriteError nat | ReadError
  | StateError | ContentError | EdPanic

section \<open>Rules\<close>

record ('e, 're) compiledRule =
  cr_re :: 're
  cr_required :: int
  cr_max :: int
  cr_when :: "'e option"
  cr_replace :: "'e option"
  cr_abort :: "'e option"
  cr_updateState :: "'e option"
  cr_incidental :: bool

record ('e, 're) lineEditor =
  le_mode :: string
  le_params :: "string list"
  le_variadicParam :: string
  le_backup :: string
  le_createIfAbsent :: bool
  le_lock :: bool
  le_initialState :: "'e option"
  le_before :: "'e option"
  le_beforeIncidental :: bool
  le_after :: "'e option"
  le_afterIncidental :: bool
  le_rules :: "('e, 're) compiledRule list"

text \<open>\<open>evalStringExpr\<close>: null and unknown are the empty string, anything else that is not a string is an
  error. \<open>n\<close> is the line, 0 for content.\<close>

definition evalStringExpr :: "('e, 're, 'v) editor_api \<Rightarrow> nat \<Rightarrow> 'e \<Rightarrow> 'v ed_ctx \<Rightarrow> ed_error + string" where
  "evalStringExpr api n expr ctx =
     (let (val, diags) = ea_value api expr ctx
      in if HasErrors diags then Inl (ExprError n)
         else case ea_view api val of
                EvNull _ \<Rightarrow> Inr []
              | EvUnknown _ \<Rightarrow> Inr []
              | EvString s \<Rightarrow> Inr s
              | _ \<Rightarrow> Inl (NotString n))"

text \<open>Names of groups that did not take part are empty strings, as in the list of groups.\<close>

definition named_groups :: "string list \<Rightarrow> string list \<Rightarrow> (string \<rightharpoonup> string)" where
  "named_groups names groups =
     foldl (\<lambda>m (name, g). if name \<noteq> [] then m(name \<mapsto> g) else m) Map.empty (zip names groups)"

definition buildMatchCtx ::
  "('e, 're, 'v) editor_api \<Rightarrow> string \<Rightarrow> nat \<Rightarrow> string \<Rightarrow> string list \<Rightarrow> 're \<Rightarrow> nat
     \<Rightarrow> (string \<rightharpoonup> 'v) \<Rightarrow> (string \<rightharpoonup> 'v) \<Rightarrow> 'v ed_ctx" where
  "buildMatchCtx api filename lineno line groups re k params st =
     MatchCtx \<lparr>mc_filename = filename, mc_lineno = lineno, mc_line = line, mc_count = k,
               mc_groups = groups, mc_named = named_groups (ea_names api re) groups\<rparr> params st"

text \<open>The attributes read one by one: \<open>GetAttr\<close> of a null object panics. \<open>None\<close> where the type is not an
  object.\<close>

definition object_attrs :: "('e, 're, 'v) editor_api \<Rightarrow> 'v \<Rightarrow> (ed_error + (string \<rightharpoonup> 'v)) option" where
  "object_attrs api v =
     (case ea_view api v of
        EvObject m \<Rightarrow> Some (Inr m)
      | EvUnknown (EdObject names) \<Rightarrow> Some (Inr (map_of (map (\<lambda>k. (k, ea_unknown_attr api v k)) names)))
      | EvNull (EdObject names) \<Rightarrow> Some (if names = [] then Inr Map.empty else Inl EdPanic)
      | _ \<Rightarrow> None)"

definition mergeState ::
  "('e, 're, 'v) editor_api \<Rightarrow> nat \<Rightarrow> (string \<rightharpoonup> 'v) \<Rightarrow> 'v \<Rightarrow> ed_error + (string \<rightharpoonup> 'v)" where
  "mergeState api n current update =
     (case object_attrs api update of
        None \<Rightarrow> Inl (NotObject n)
      | Some (Inl e) \<Rightarrow> Inl e
      | Some (Inr m) \<Rightarrow> Inr (current ++ m))"

text \<open>What the guard of a rule says: an error, to go on to the next rule, or to fire.\<close>

datatype guard = GuardError ed_error | GuardSkip | GuardFire

definition eval_when ::
  "('e, 're, 'v) editor_api \<Rightarrow> nat \<Rightarrow> ('e, 're) compiledRule \<Rightarrow> 'v ed_ctx \<Rightarrow> guard" where
  "eval_when api n rule ctx =
     (case cr_when rule of
        None \<Rightarrow> GuardFire
      | Some expr \<Rightarrow>
          (case ea_build api ctx of
             Some e \<Rightarrow> GuardError (CtxError e)
           | None \<Rightarrow>
               let (val, diags) = ea_value api expr ctx
               in if diags \<noteq> [] then GuardError (ExprError n)
                  else case ea_view api val of
                         EvNull _ \<Rightarrow> GuardSkip
                       | EvUnknown _ \<Rightarrow> GuardSkip
                       | EvBool False \<Rightarrow> GuardSkip
                       | _ \<Rightarrow> GuardFire))"

datatype 'v line_result =
    LineError ed_error | LineAbort | Unmatched
  | Matched (ml_rule: nat) (ml_output: string) (ml_changed: bool) (ml_state: "string \<rightharpoonup> 'v")

text \<open>A rule that fires: abort, replace, write, update the state. \<open>wfl n\<close> is whether writing the line
  \<open>n\<close> fails.\<close>

definition fire_rule ::
  "('e, 're, 'v) editor_api \<Rightarrow> (nat \<Rightarrow> bool) \<Rightarrow> nat \<Rightarrow> string \<Rightarrow> (string \<rightharpoonup> 'v) \<Rightarrow> nat
     \<Rightarrow> ('e, 're) compiledRule \<Rightarrow> 'v ed_ctx \<Rightarrow> 'v line_result" where
  "fire_rule api wfl n line st ri rule ctx =
     (case ea_build api ctx of
        Some e \<Rightarrow> LineError (CtxError e)
      | None \<Rightarrow>
          let (abortDiags, abort) =
                (case cr_abort rule of
                   None \<Rightarrow> ([], False)
                 | Some a \<Rightarrow> let (v, ds) = ea_value api a ctx in (ds, ea_view api v = EvBool True))
          in if abortDiags \<noteq> [] then LineError (ExprError n)
             else if abort then LineAbort
             else
               (case (case cr_replace rule of None \<Rightarrow> Inr line | Some r \<Rightarrow> evalStringExpr api n r ctx) of
                  Inl e \<Rightarrow> LineError e
                | Inr output \<Rightarrow>
                    let changed = (output \<noteq> line \<and> \<not> cr_incidental rule)
                    in if wfl n then LineError (WriteError n)
                       else
                         (case cr_updateState rule of
                            None \<Rightarrow> Matched ri output changed st
                          | Some u \<Rightarrow>
                              let (v, ds) = ea_value api u ctx
                              in if ds \<noteq> [] then LineError (ExprError n)
                                 else case mergeState api n st v of
                                        Inl e \<Rightarrow> LineError e
                                      | Inr st' \<Rightarrow> Matched ri output changed st')))"

text \<open>The loop over the rules, from the index \<open>ri\<close>.\<close>

fun try_rules ::
  "('e, 're, 'v) editor_api \<Rightarrow> (nat \<Rightarrow> bool) \<Rightarrow> string \<Rightarrow> nat \<Rightarrow> string \<Rightarrow> (string \<rightharpoonup> 'v)
     \<Rightarrow> (string \<rightharpoonup> 'v) \<Rightarrow> nat list \<Rightarrow> nat \<Rightarrow> ('e, 're) compiledRule list \<Rightarrow> 'v line_result" where
  "try_rules api wfl fn n line params st counts ri [] = Unmatched"
| "try_rules api wfl fn n line params st counts ri (rule # rules) =
     (if 0 < cr_max rule \<and> cr_max rule \<le> int (counts ! ri)
      then try_rules api wfl fn n line params st counts (Suc ri) rules
      else case ea_match api (cr_re rule) line of
        None \<Rightarrow> try_rules api wfl fn n line params st counts (Suc ri) rules
      | Some groups \<Rightarrow>
          let ctx = buildMatchCtx api fn n line groups (cr_re rule) (Suc (counts ! ri)) params st
          in case eval_when api n rule ctx of
               GuardError e \<Rightarrow> LineError e
             | GuardSkip \<Rightarrow> try_rules api wfl fn n line params st counts (Suc ri) rules
             | GuardFire \<Rightarrow> fire_rule api wfl n line st ri rule ctx)"

section \<open>Lines\<close>

text \<open>\<open>bufio.Scanner\<close> with \<open>ScanLines\<close>: a line ends at a newline or at the end, one carriage return
  before that is dropped, and a line that does not fit the buffer ends the scan with an error.\<close>

definition NL :: char where "NL = CHR 0x0A"
definition CR :: char where "CR = CHR 0x0D"
definition MaxScanTokenSize :: nat where "MaxScanTokenSize = 64 * 1024"

definition dropCR :: "string \<Rightarrow> string" where
  "dropCR l = (if l \<noteq> [] \<and> last l = CR then butlast l else l)"

function scan_lines :: "string \<Rightarrow> string list \<times> bool" where
  "scan_lines s =
     (if s = [] then ([], False)
      else
        let l = takeWhile (\<lambda>c. c \<noteq> NL) s; r = dropWhile (\<lambda>c. c \<noteq> NL) s
        in if MaxScanTokenSize \<le> length l then ([], True)
           else let (ls, long) = scan_lines (tl r) in (dropCR l # ls, long))"
  by pat_completeness auto
termination
proof (relation "measure length")
  fix s :: string and l r
  assume "s \<noteq> []" and r: "r = dropWhile (\<lambda>c. c \<noteq> NL) s"
  then have "length r \<le> length s" by (simp add: length_dropWhile_le)
  then show "(tl r, s) \<in> measure length" using \<open>s \<noteq> []\<close> by (cases r) auto
qed simp

declare scan_lines.simps [simp del]

datatype 'v run_result =
    RunError ed_error | RunAbort
  | RunDone (rd_changed: bool) (rd_state: "string \<rightharpoonup> 'v") (rd_output: string)

datatype 'v lines_result =
    LinesError ed_error | LinesAbort
  | LinesDone "nat list" bool "string \<rightharpoonup> 'v" string

fun run_lines ::
  "('e, 're, 'v) editor_api \<Rightarrow> ('e, 're) compiledRule list \<Rightarrow> (nat \<Rightarrow> bool) \<Rightarrow> string
     \<Rightarrow> (string \<rightharpoonup> 'v) \<Rightarrow> nat \<Rightarrow> nat list \<Rightarrow> bool \<Rightarrow> (string \<rightharpoonup> 'v) \<Rightarrow> string \<Rightarrow> string list
     \<Rightarrow> 'v lines_result" where
  "run_lines api rules wfl fn params n counts changed st w [] = LinesDone counts changed st w"
| "run_lines api rules wfl fn params n counts changed st w (l # ls) =
     (let line = l @ [NL]
      in case try_rules api wfl fn (Suc n) line params st counts 0 rules of
           LineError e \<Rightarrow> LinesError e
         | LineAbort \<Rightarrow> LinesAbort
         | Unmatched \<Rightarrow>
             if wfl (Suc n) then LinesError (WriteError (Suc n))
             else run_lines api rules wfl fn params (Suc n) counts changed st (w @ line) ls
         | Matched ri output ch st' \<Rightarrow>
             run_lines api rules wfl fn params (Suc n) (counts[ri := Suc (counts ! ri)])
               (changed \<or> ch) st' (w @ output) ls)"

text \<open>\<open>runRules\<close>: the input is \<open>None\<close> for the nil scanner.\<close>

definition required_met :: "('e, 're) compiledRule list \<Rightarrow> nat list \<Rightarrow> bool" where
  "required_met rules counts \<longleftrightarrow>
     list_all (\<lambda>(rule, k). \<not> (0 < cr_required rule \<and> int k < cr_required rule)) (zip rules counts)"

definition runRules ::
  "('e, 're, 'v) editor_api \<Rightarrow> ('e, 're) lineEditor \<Rightarrow> (nat \<Rightarrow> bool) \<Rightarrow> string option \<Rightarrow> string
     \<Rightarrow> (string \<rightharpoonup> 'v) \<Rightarrow> (string \<rightharpoonup> 'v) \<Rightarrow> 'v run_result" where
  "runRules api ed wfl input fn params st =
     (let (lines, long) = (case input of None \<Rightarrow> ([], False) | Some s \<Rightarrow> scan_lines s)
      in case run_lines api (le_rules ed) wfl fn params 0 (replicate (length (le_rules ed)) 0) False st [] lines of
           LinesError e \<Rightarrow> RunError e
         | LinesAbort \<Rightarrow> RunAbort
         | LinesDone counts changed st' w \<Rightarrow>
             if long then RunError ReadError
             else if \<not> required_met (le_rules ed) counts then RunAbort
             else RunDone changed st' w)"

section \<open>Calls\<close>

text \<open>\<open>userParamsFromArgs\<close>: \<open>args\<close> are the arguments after the context and the file name or input. With
  no variadic arguments the variadic parameter is the empty object.\<close>

definition userParamsFromArgs ::
  "('e, 're, 'v) editor_api \<Rightarrow> ('e, 're) lineEditor \<Rightarrow> 'v list \<Rightarrow> (string \<rightharpoonup> 'v)" where
  "userParamsFromArgs api ed args =
     (let params = map_of (rev (zip (le_params ed) args));
          varArgs = drop (length (le_params ed)) args
      in if le_variadicParam ed \<noteq> []
         then params(le_variadicParam ed \<mapsto> (if varArgs \<noteq> [] then ea_tuple api varArgs else ea_empty_object api))
         else params)"

definition evalInitialState ::
  "('e, 're, 'v) editor_api \<Rightarrow> ('e, 're) lineEditor \<Rightarrow> (string \<rightharpoonup> 'v) \<Rightarrow> ed_error + (string \<rightharpoonup> 'v)" where
  "evalInitialState api ed params =
     (case le_initialState ed of
        None \<Rightarrow> Inr Map.empty
      | Some expr \<Rightarrow>
          let (val, diags) = ea_value api expr (StateCtx params)
          in if HasErrors diags then Inl StateError
             else case object_attrs api val of None \<Rightarrow> Inl StateError | Some attrs \<Rightarrow> attrs)"

text \<open>The content of a \<open>before\<close> or \<open>after\<close> block, empty where there is none.\<close>

definition eval_content ::
  "('e, 're, 'v) editor_api \<Rightarrow> string \<Rightarrow> (string \<rightharpoonup> 'v) \<Rightarrow> (string \<rightharpoonup> 'v) \<Rightarrow> 'e option \<Rightarrow> ed_error + string" where
  "eval_content api fn params st block =
     (case block of
        None \<Rightarrow> Inr []
      | Some expr \<Rightarrow>
          let ctx = ContentCtx fn params st
          in case ea_build api ctx of
               Some e \<Rightarrow> Inl (CtxError e)
             | None \<Rightarrow> evalStringExpr api 0 expr ctx)"

text \<open>String mode; an edit that is abandoned is an error.\<close>

datatype string_result = StringError ed_error | StringAborted | StringOk string

definition implString ::
  "('e, 're, 'v) editor_api \<Rightarrow> ('e, 're) lineEditor \<Rightarrow> string \<Rightarrow> 'v list \<Rightarrow> string_result" where
  "implString api ed input args =
     (let params = userParamsFromArgs api ed args
      in case evalInitialState api ed params of
           Inl e \<Rightarrow> StringError e
         | Inr st \<Rightarrow>
             (case runRules api ed (\<lambda>_. False) (Some input) [] params st of
                RunError e \<Rightarrow> StringError e
              | RunAbort \<Rightarrow> StringAborted
              | RunDone _ st' body \<Rightarrow>
                  (case eval_content api [] params st' (le_before ed) of
                     Inl e \<Rightarrow> StringError e
                   | Inr beforeStr \<Rightarrow>
                       (case eval_content api [] params st' (le_after ed) of
                          Inl e \<Rightarrow> StringError e
                        | Inr afterStr \<Rightarrow> StringOk (beforeStr @ body @ afterStr)))))"

section \<open>Files\<close>

type_synonym files = "string \<rightharpoonup> string"

text \<open>The calls that fail in one run. \<open>ft_write n\<close> is writing the line \<open>n\<close>, \<open>ft_after\<close> and \<open>ft_before\<close>
  writing those contents, \<open>ft_prepend\<close> seeking or copying. Removing a file does not fail.\<close>

record faults =
  ft_lock_open :: bool
  ft_lock :: bool
  ft_open :: bool
  ft_temp :: bool
  ft_write :: "nat \<Rightarrow> bool"
  ft_after :: bool
  ft_temp2 :: bool
  ft_before :: bool
  ft_prepend :: bool
  ft_close :: bool
  ft_link :: bool
  ft_rename :: bool

datatype file_error =
    PathError path_error | LockError | OpenError | TempError | EditError ed_error | AfterError ed_error
  | BeforeError ed_error | WriteFailed | CloseError | LinkError | RenameError

type_synonym file_result = "(file_error + bool) \<times> files"

text \<open>The end of the run: the backup is a hard link to the original, then the temporary file is renamed
  over it.\<close>

definition install :: "('e, 're) lineEditor \<Rightarrow> faults \<Rightarrow> string \<Rightarrow> string \<Rightarrow> bool \<Rightarrow> files \<Rightarrow> file_result" where
  "install ed ft filePath tmpPath fileExists fs =
     (if ft_close ft then (Inl CloseError, fs(tmpPath := None))
      else
        let backupPath = filePath @ le_backup ed;
            wanted = (le_backup ed \<noteq> [] \<and> fileExists);
            fs1 = (if wanted then fs(backupPath := None) else fs)
        in if wanted \<and> ft_link ft then (Inl LinkError, fs1(tmpPath := None))
           else
             let fs2 = (if wanted then fs1(backupPath := fs1 filePath) else fs1)
             in if ft_rename ft then (Inl RenameError, fs2(tmpPath := None))
                else (Inr True, fs2(filePath := fs2 tmpPath, tmpPath := None)))"

text \<open>The before block, when there is content for it: a second temporary file takes it and the first.\<close>

definition prepend ::
  "faults \<Rightarrow> string \<Rightarrow> string \<Rightarrow> string \<Rightarrow> files \<Rightarrow> file_error + (string \<times> files)" where
  "prepend ft tmpPath tmp2Path content fs =
     (if ft_temp2 ft then Inl TempError
      else if ft_before ft \<or> ft_prepend ft then Inl WriteFailed
      else Inr (tmp2Path, fs(tmp2Path \<mapsto> content @ the (fs tmpPath), tmpPath := None)))"

text \<open>The lock file is made if it is not there, and stays.\<close>

definition acquireFileLock :: "faults \<Rightarrow> string \<Rightarrow> files \<Rightarrow> bool \<times> files" where
  "acquireFileLock ft path fs =
     (let lockPath = path @ ''.lock''
      in if ft_lock_open ft then (False, fs)
         else (\<not> ft_lock ft, if fs lockPath = None then fs(lockPath \<mapsto> []) else fs))"

text \<open>The part of \<open>impl\<close> that works on the temporary file, once the file is open; every error path
  removes the temporary files.\<close>

definition edit_file ::
  "('e, 're, 'v) editor_api \<Rightarrow> ('e, 're) lineEditor \<Rightarrow> faults \<Rightarrow> string \<Rightarrow> string \<Rightarrow> string
     \<Rightarrow> (string \<rightharpoonup> 'v) \<Rightarrow> (string \<rightharpoonup> 'v) \<Rightarrow> files \<Rightarrow> file_result" where
  "edit_file api ed ft tmpPath tmp2Path filePath params st fs =
     (let fileExists = (fs filePath \<noteq> None)
      in case runRules api ed (ft_write ft) (fs filePath) filePath params st of
           RunError e \<Rightarrow> (Inl (EditError e), fs)
         | RunAbort \<Rightarrow> (Inr False, fs)
         | RunDone changed st' body \<Rightarrow>
             (case eval_content api filePath params st' (le_after ed) of
                Inl e \<Rightarrow> (Inl (AfterError e), fs)
              | Inr afterContent \<Rightarrow>
                  if afterContent \<noteq> [] \<and> ft_after ft then (Inl WriteFailed, fs)
                  else
                    let changed1 = (changed \<or> afterContent \<noteq> [] \<and> \<not> le_afterIncidental ed);
                        fs1 = fs(tmpPath \<mapsto> body @ afterContent)
                    in case eval_content api filePath params st' (le_before ed) of
                         Inl e \<Rightarrow> (Inl (BeforeError e), fs)
                       | Inr beforeContent \<Rightarrow>
                           let changed2 = (changed1 \<or> beforeContent \<noteq> [] \<and> \<not> le_beforeIncidental ed)
                           in case (if beforeContent \<noteq> []
                                    then prepend ft tmpPath tmp2Path beforeContent fs1
                                    else Inr (tmpPath, fs1)) of
                                Inl e \<Rightarrow> (Inl e, fs)
                              | Inr (tmp, fs2) \<Rightarrow>
                                  if \<not> changed2 \<and> fileExists then (Inr False, fs2(tmp := None))
                                  else install ed ft filePath tmp fileExists fs2))"

text \<open>File mode, with the names of the temporary files.\<close>

definition impl ::
  "('e, 're, 'v) editor_api \<Rightarrow> ('e, 're) lineEditor \<Rightarrow> string \<Rightarrow> faults \<Rightarrow> string \<Rightarrow> string \<Rightarrow> string
     \<Rightarrow> 'v list \<Rightarrow> files \<Rightarrow> file_result" where
  "impl api ed writeDir ft tmpPath tmp2Path filename args fs =
     (case SafeResolvePath writeDir filename of
        Inl e \<Rightarrow> (Inl (PathError e), fs)
      | Inr filePath \<Rightarrow>
          let params = userParamsFromArgs api ed args
          in case evalInitialState api ed params of
               Inl e \<Rightarrow> (Inl (EditError e), fs)
             | Inr st \<Rightarrow>
                 let (locked, fs0) = (if le_lock ed then acquireFileLock ft filePath fs else (True, fs))
                 in if \<not> locked then (Inl LockError, fs0)
                    else if fs0 filePath \<noteq> None \<and> ft_open ft \<or> fs0 filePath = None \<and> \<not> le_createIfAbsent ed
                    then (Inl OpenError, fs0)
                    else if ft_temp ft then (Inl TempError, fs0)
                    else edit_file api ed ft tmpPath tmp2Path filePath params st fs0)"

section \<open>Compiling the block\<close>

text \<open>The value of an option evaluated at load time, \<open>None\<close> where the attribute is not given.\<close>

record 'e matchBlock =
  mb_Pattern :: string
  mb_Required :: "'e option"
  mb_Max :: "'e option"
  mb_When :: "'e option"
  mb_Replace :: "'e option"
  mb_Abort :: "'e option"
  mb_UpdateState :: "'e option"
  mb_Incidental :: "'e option"

record 'e contentBlock =
  ct_Content :: 'e
  ct_Incidental :: "'e option"

record 'e lineEditorBody =
  lb_Mode :: string
  lb_Backup :: string
  lb_CreateIfAbsent :: bool
  lb_Lock :: bool
  lb_State :: "'e option"
  lb_Before :: "'e contentBlock option"
  lb_After :: "'e contentBlock option"
  lb_Matches :: "'e matchBlock list"

text \<open>Reading a null or unknown number panics: \<open>None\<close>.\<close>

definition load_bool :: "('e, 're, 'v) editor_api \<Rightarrow> 'e option \<Rightarrow> (bool \<times> diag list) option" where
  "load_bool api expr =
     (case expr of
        None \<Rightarrow> Some (False, [])
      | Some e \<Rightarrow>
          let (val, diags) = ea_value api e LoadCtx
          in if HasErrors diags then Some (False, diags)
             else case ea_view api val of
                    EvBool b \<Rightarrow> Some (b, diags)
                  | EvNull EdBool \<Rightarrow> map_option (\<lambda>b. (b, diags)) (ea_unset_true api val)
                  | EvUnknown EdBool \<Rightarrow> map_option (\<lambda>b. (b, diags)) (ea_unset_true api val)
                  | _ \<Rightarrow> Some (False, diags))"

definition load_count :: "('e, 're, 'v) editor_api \<Rightarrow> bool \<Rightarrow> 'e option \<Rightarrow> (int \<times> diag list) option" where
  "load_count api bools expr =
     (case expr of
        None \<Rightarrow> Some (0, [])
      | Some e \<Rightarrow>
          let (val, diags) = ea_value api e LoadCtx
          in if HasErrors diags then Some (0, diags)
             else case ea_view api val of
                    EvNumber n \<Rightarrow> Some (n, diags)
                  | EvBool b \<Rightarrow> Some (of_bool (bools \<and> b), diags)
                  | EvNull EdNumber \<Rightarrow> None
                  | EvUnknown EdNumber \<Rightarrow> None
                  | EvNull EdBool \<Rightarrow>
                      (if bools then map_option (\<lambda>b. (of_bool b, diags)) (ea_unset_true api val) else Some (0, diags))
                  | EvUnknown EdBool \<Rightarrow>
                      (if bools then map_option (\<lambda>b. (of_bool b, diags)) (ea_unset_true api val) else Some (0, diags))
                  | _ \<Rightarrow> Some (0, diags))"

text \<open>One match block; a bad pattern adds a diagnostic and no rule.\<close>

definition compile_match ::
  "('e, 're, 'v) editor_api \<Rightarrow> 'e matchBlock \<Rightarrow> (('e, 're) compiledRule option \<times> diag list) option" where
  "compile_match api m =
     (case ea_compile api (mb_Pattern m) of
        None \<Rightarrow> Some (None, [DiagError ''Invalid regex in match block''])
      | Some re \<Rightarrow>
          (case (load_count api True (mb_Required m), load_count api False (mb_Max m), load_bool api (mb_Incidental m)) of
             (Some (required, ds1), Some (mx, ds2), Some (incidental, ds3)) \<Rightarrow>
               Some (Some \<lparr>cr_re = re, cr_required = required, cr_max = mx, cr_when = mb_When m,
                           cr_replace = mb_Replace m, cr_abort = mb_Abort m,
                           cr_updateState = mb_UpdateState m, cr_incidental = incidental\<rparr>, ds1 @ ds2 @ ds3)
           | _ \<Rightarrow> None))"

fun compile_matches ::
  "('e, 're, 'v) editor_api \<Rightarrow> 'e matchBlock list \<Rightarrow> (('e, 're) compiledRule list \<times> diag list) option" where
  "compile_matches api [] = Some ([], [])"
| "compile_matches api (m # ms) =
     (case compile_match api m of
        None \<Rightarrow> None
      | Some (r, ds) \<Rightarrow>
          (case compile_matches api ms of
             None \<Rightarrow> None
           | Some (rs, ds') \<Rightarrow> Some (case_option rs (\<lambda>x. x # rs) r, ds @ ds')))"

definition load_content :: "('e, 're, 'v) editor_api \<Rightarrow> 'e contentBlock option \<Rightarrow> (bool \<times> diag list) option" where
  "load_content api block =
     (case block of None \<Rightarrow> Some (False, []) | Some b \<Rightarrow> load_bool api (ct_Incidental b))"

definition processLineEditor ::
  "('e, 're, 'v) editor_api \<Rightarrow> string \<Rightarrow> string list \<Rightarrow> string \<Rightarrow> 'e lineEditorBody \<Rightarrow> diag list
     \<Rightarrow> (('e, 're) lineEditor option \<times> diag list) option" where
  "processLineEditor api writeDir params variadic body decodeDiags =
     (let mode = (if lb_Mode body = [] then ''file'' else lb_Mode body)
      in if HasErrors decodeDiags then Some (None, decodeDiags)
         else if mode \<noteq> ''file'' \<and> mode \<noteq> ''string''
         then Some (None, decodeDiags @ [DiagError ''Invalid editor mode''])
         else if mode = ''file'' \<and> writeDir = []
         then Some (None, decodeDiags @ [DiagError ''editor block requires writefiles''])
         else
           (case (load_content api (lb_Before body), load_content api (lb_After body),
                  compile_matches api (lb_Matches body)) of
              (Some (bi, ds1), Some (ai, ds2), Some (rules, ds3)) \<Rightarrow>
                let diags = decodeDiags @ ds1 @ ds2 @ ds3
                in if HasErrors diags then Some (None, diags)
                   else Some (Some \<lparr>le_mode = mode, le_params = params, le_variadicParam = variadic,
                                    le_backup = lb_Backup body, le_createIfAbsent = lb_CreateIfAbsent body, le_lock = lb_Lock body,
                                    le_initialState = lb_State body,
                                    le_before = map_option ct_Content (lb_Before body), le_beforeIncidental = bi,
                                    le_after = map_option ct_Content (lb_After body), le_afterIncidental = ai,
                                    le_rules = rules\<rparr>, diags)
            | _ \<Rightarrow> None))"

section \<open>Reading lines\<close>

definition unlines :: "string list \<Rightarrow> string" where
  "unlines ls = concat (map (\<lambda>l. l @ [NL]) ls)"

text \<open>A line that survives: no newline in it, no carriage return at its end, and short enough.\<close>

definition good_line :: "string \<Rightarrow> bool" where
  "good_line l \<longleftrightarrow> NL \<notin> set l \<and> (l = [] \<or> last l \<noteq> CR) \<and> length l < MaxScanTokenSize"

lemma unlines_simps [simp]:
  "unlines [] = []" "unlines (l # ls) = l @ NL # unlines ls" "unlines (ls @ ms) = unlines ls @ unlines ms"
  by (simp_all add: unlines_def)

lemma scan_Nil [simp]: "scan_lines [] = ([], False)"
  by (simp add: scan_lines.simps)

lemma scan_step:
  assumes "s \<noteq> []"
  shows "scan_lines s =
           (let l = takeWhile (\<lambda>c. c \<noteq> NL) s; more = scan_lines (tl (dropWhile (\<lambda>c. c \<noteq> NL) s))
            in if MaxScanTokenSize \<le> length l then ([], True) else (dropCR l # fst more, snd more))"
  using assms by (subst scan_lines.simps) (simp add: Let_def case_prod_beta)

lemma takeWhile_line: "NL \<notin> set l \<Longrightarrow> takeWhile (\<lambda>c. c \<noteq> NL) (l @ NL # s) = l"
  by (induction l) auto

lemma dropWhile_line: "NL \<notin> set l \<Longrightarrow> dropWhile (\<lambda>c. c \<noteq> NL) (l @ NL # s) = NL # s"
  by (induction l) auto

lemma scan_line:
  assumes "NL \<notin> set l" and "length l < MaxScanTokenSize"
  shows "scan_lines (l @ NL # s) = (dropCR l # fst (scan_lines s), snd (scan_lines s))"
  using assms scan_step[of "l @ NL # s"] takeWhile_line[OF assms(1), of s] dropWhile_line[OF assms(1), of s]
  by (simp only: Let_def) simp

lemma dropCR_id: "l = [] \<or> last l \<noteq> CR \<Longrightarrow> dropCR l = l"
  by (auto simp: dropCR_def)

lemma scan_unlines: "list_all good_line ls \<Longrightarrow> scan_lines (unlines ls) = (ls, False)"
  by (induction ls) (simp_all add: scan_line good_line_def dropCR_id)

lemma scan_long:
  assumes "NL \<notin> set l" and "MaxScanTokenSize \<le> length l"
  shows "scan_lines (l @ NL # s) = ([], True)" and "scan_lines l = ([], True)"
proof -
  have "l \<noteq> []" using assms(2) by (auto simp: MaxScanTokenSize_def)
  moreover have "takeWhile (\<lambda>c. c \<noteq> NL) l = l" using assms(1) by (induction l) auto
  ultimately show "scan_lines l = ([], True)" using assms(2) scan_step[of l] by (simp only: Let_def) simp
  show "scan_lines (l @ NL # s) = ([], True)"
    using assms(2) scan_step[of "l @ NL # s"] takeWhile_line[OF assms(1), of s] by (simp only: Let_def) simp
qed

lemma scan_last:
  assumes "NL \<notin> set l" and "length l < MaxScanTokenSize" and "l \<noteq> []"
  shows "scan_lines l = ([dropCR l], False)"
proof -
  have "takeWhile (\<lambda>c. c \<noteq> NL) l = l" and "dropWhile (\<lambda>c. c \<noteq> NL) l = []"
    using assms(1) by (induction l) auto
  then show ?thesis using assms(2,3) scan_step[of l] by (simp only: Let_def) simp
qed

lemma unlines_scan:
  "CR \<notin> set s \<Longrightarrow> scan_lines s = (ls, False) \<Longrightarrow>
     unlines ls = (if s = [] \<or> last s = NL then s else s @ [NL])"
proof (induction "length s" arbitrary: s ls rule: less_induct)
  case less
  have keep: "dropCR l = l" if "CR \<notin> set l" for l using that by (intro dropCR_id) (metis last_in_set)
  show ?case
  proof (cases "NL \<in> set s")
    case True
    then obtain l r where s: "s = l @ NL # r" and l: "NL \<notin> set l" by (metis split_list_first)
    have short: "length l < MaxScanTokenSize"
      using less.prems(2) scan_long(1)[OF l, of r] s by (metis not_le prod.inject)
    have "scan_lines s = (l # fst (scan_lines r), snd (scan_lines r))"
      using scan_line[OF l short, of r] keep[of l] less.prems(1) s by simp
    then have ls: "ls = l # fst (scan_lines r)" and r: "scan_lines r = (fst (scan_lines r), False)"
      using less.prems(2) by (simp_all add: prod_eq_iff)
    have "unlines (fst (scan_lines r)) = (if r = [] \<or> last r = NL then r else r @ [NL])"
      using less.hyps[OF _ _ r] less.prems(1) s by simp
    then show ?thesis using s ls by simp
  next
    case False
    show ?thesis
    proof (cases "s = []")
      case True
      then show ?thesis using less.prems(2) by simp
    next
      case nonempty: False
      have "length s < MaxScanTokenSize"
        using less.prems(2) scan_long(2)[OF False] by (metis not_le prod.inject)
      then have "ls = [s]" using scan_last[OF False _ nonempty] keep[OF less.prems(1)] less.prems(2) by simp
      moreover have "last s \<noteq> NL" using False nonempty by (metis last_in_set)
      ultimately show ?thesis using nonempty by simp
    qed
  qed
qed



text \<open>A carriage return before the newline is lost, even where no rule matches.\<close>

lemma crlf_lost:
  assumes "good_line l" and "Suc (length l) < MaxScanTokenSize"
  shows "runRules api (ed\<lparr>le_rules := []\<rparr>) (\<lambda>_. False) (Some (l @ [CR, NL])) fn params st =
           RunDone False st (l @ [NL])"
proof -
  have "scan_lines ((l @ [CR]) @ NL # []) = ([l], False)"
    using assms by (subst scan_line) (auto simp: good_line_def CR_def NL_def dropCR_def)
  then show ?thesis by (simp add: runRules_def required_met_def)
qed

text \<open>An editor for examples: a pattern matches the line it is equal to, and an expression is the string
  it is written as. The rule turns one line \<open>a\<close> into \<open>b\<close>.\<close>

definition literal_api :: "(string, string, string) editor_api" where
  "literal_api = \<lparr>ea_compile = Some, ea_match = (\<lambda>re line. if line = re then Some [re] else None),
     ea_names = (\<lambda>_. [[]]), ea_build = (\<lambda>_. None), ea_value = (\<lambda>e _. (e, [])), ea_view = EvString,
     ea_tuple = concat, ea_empty_object = [], ea_unknown_attr = (\<lambda>v _. v), ea_unset_true = (\<lambda>_. None)\<rparr>"

definition a_to_b :: "(string, string) lineEditor" where
  "a_to_b = \<lparr>le_mode = ''file'', le_params = [], le_variadicParam = [], le_backup = ''~'', le_createIfAbsent = False,
     le_lock = False, le_initialState = None, le_before = None, le_beforeIncidental = False,
     le_after = None, le_afterIncidental = False,
     le_rules = [\<lparr>cr_re = ''a'' @ [NL], cr_required = 1, cr_max = 1, cr_when = None,
                  cr_replace = Some (''b'' @ [NL]), cr_abort = None, cr_updateState = None, cr_incidental = False\<rparr>]\<rparr>"

lemma scan_example: "scan_lines (unlines [''a'', ''a'']) = ([''a'', ''a''], False)"
  by (rule scan_unlines) (simp add: good_line_def NL_def CR_def MaxScanTokenSize_def)

lemmas literal_simps = literal_api_def a_to_b_def runRules_def eval_when_def fire_rule_def buildMatchCtx_def
  evalStringExpr_def required_met_def Let_def

lemma literal_run:
  "runRules literal_api a_to_b (\<lambda>_. False) (Some (unlines [''a'', ''a''])) fn Map.empty Map.empty =
     RunDone True Map.empty (unlines [''b'', ''a''])"
  by (simp add: scan_example[simplified] literal_simps HasErrors_def)

section \<open>The rules\<close>

text \<open>A rule is passed over for a line when it has had its matches, when it does not match, and when its
  guard says so.\<close>

definition exhausted :: "('e, 're) compiledRule \<Rightarrow> nat \<Rightarrow> bool" where
  "exhausted rule k \<longleftrightarrow> 0 < cr_max rule \<and> cr_max rule \<le> int k"

definition rule_guard ::
  "('e, 're, 'v) editor_api \<Rightarrow> string \<Rightarrow> nat \<Rightarrow> string \<Rightarrow> (string \<rightharpoonup> 'v) \<Rightarrow> (string \<rightharpoonup> 'v) \<Rightarrow> nat
     \<Rightarrow> ('e, 're) compiledRule \<Rightarrow> string list \<Rightarrow> guard" where
  "rule_guard api fn n line params st k rule groups =
     eval_when api n rule (buildMatchCtx api fn n line groups (cr_re rule) (Suc k) params st)"

definition passed_over ::
  "('e, 're, 'v) editor_api \<Rightarrow> string \<Rightarrow> nat \<Rightarrow> string \<Rightarrow> (string \<rightharpoonup> 'v) \<Rightarrow> (string \<rightharpoonup> 'v) \<Rightarrow> nat
     \<Rightarrow> ('e, 're) compiledRule \<Rightarrow> bool" where
  "passed_over api fn n line params st k rule \<longleftrightarrow>
     exhausted rule k \<or>
     (case ea_match api (cr_re rule) line of
        None \<Rightarrow> True
      | Some groups \<Rightarrow> rule_guard api fn n line params st k rule groups = GuardSkip)"

definition take_rule ::
  "('e, 're, 'v) editor_api \<Rightarrow> (nat \<Rightarrow> bool) \<Rightarrow> string \<Rightarrow> nat \<Rightarrow> string \<Rightarrow> (string \<rightharpoonup> 'v)
     \<Rightarrow> (string \<rightharpoonup> 'v) \<Rightarrow> nat \<Rightarrow> nat \<Rightarrow> ('e, 're) compiledRule \<Rightarrow> 'v line_result" where
  "take_rule api wfl fn n line params st k ri rule =
     (let groups = the (ea_match api (cr_re rule) line)
      in case rule_guard api fn n line params st k rule groups of
           GuardError e \<Rightarrow> LineError e
         | _ \<Rightarrow> fire_rule api wfl n line st ri rule
                  (buildMatchCtx api fn n line groups (cr_re rule) (Suc k) params st))"

lemma try_rules_step:
  "try_rules api wfl fn n line params st counts ri (rule # rules) =
     (if passed_over api fn n line params st (counts ! ri) rule
      then try_rules api wfl fn n line params st counts (Suc ri) rules
      else take_rule api wfl fn n line params st (counts ! ri) ri rule)"
  by (auto simp: passed_over_def take_rule_def exhausted_def rule_guard_def Let_def split: option.split guard.split)

lemma try_rules_from:
  "try_rules api wfl fn n line params st counts ri rules =
     (case find (\<lambda>(i, rule). \<not> passed_over api fn n line params st (counts ! i) rule)
             (zip [ri..<ri + length rules] rules) of
        None \<Rightarrow> Unmatched
      | Some (i, rule) \<Rightarrow> take_rule api wfl fn n line params st (counts ! i) i rule)"
proof (induction rules arbitrary: ri)
  case (Cons rule rules)
  have "[ri..<ri + length (rule # rules)] = ri # [Suc ri..<Suc ri + length rules]"
    by (simp add: upt_rec)
  then show ?case using Cons.IH[of "Suc ri"] by (simp only: try_rules_step zip_Cons_Cons find.simps) simp
qed simp

text \<open>The rules of a line: the first rule that is not exhausted, whose pattern matches and whose guard
  does not turn the line away takes it, and no later rule sees it; a line no rule takes is unmatched.\<close>

theorem first_rule_takes_line:
  "try_rules api wfl fn n line params st counts 0 rules =
     (case find (\<lambda>(i, rule). \<not> passed_over api fn n line params st (counts ! i) rule)
             (enumerate 0 rules) of
        None \<Rightarrow> Unmatched
      | Some (i, rule) \<Rightarrow> take_rule api wfl fn n line params st (counts ! i) i rule)"
  by (simp only: try_rules_from enumerate_eq_zip add_0)

lemma fire_matched:
  assumes "fire_rule api wfl n line st ri rule ctx = Matched k out ch st'"
  shows "k = ri" and "ch \<longleftrightarrow> out \<noteq> line \<and> \<not> cr_incidental rule" and "\<not> wfl n"
  using assms by (auto simp: fire_rule_def Let_def split: option.splits sum.splits if_splits prod.splits)

lemma take_matched:
  assumes "take_rule api wfl fn n line params st c ri rule = Matched k out ch st'"
  shows "k = ri" and "ch \<longleftrightarrow> out \<noteq> line \<and> \<not> cr_incidental rule" and "\<not> wfl n"
  using assms by (auto simp: take_rule_def Let_def dest: fire_matched split: guard.splits)

lemma try_matched:
  assumes "try_rules api wfl fn n line params st counts 0 rules = Matched k out ch st'"
  shows "k < length rules" and "\<not> exhausted (rules ! k) (counts ! k)"
    and "ch \<longleftrightarrow> out \<noteq> line \<and> \<not> cr_incidental (rules ! k)" and "\<not> wfl n"
proof -
  let ?P = "\<lambda>(i, rule). \<not> passed_over api fn n line params st (counts ! i) rule"
  obtain i rule where found: "find ?P (zip [0..<length rules] rules) = Some (i, rule)"
    and taken: "take_rule api wfl fn n line params st (counts ! i) i rule = Matched k out ch st'"
    using assms by (auto simp: try_rules_from split: option.splits)
  have k: "k = i" using take_matched(1)[OF taken] .
  from found have "(i, rule) \<in> set (zip [0..<length rules] rules)" and pass: "?P (i, rule)"
    by (auto simp: find_Some_iff set_conv_nth)
  then have i: "i < length rules" "rule = rules ! i" by (auto simp: in_set_zip)
  then show "k < length rules" using k by simp
  show "\<not> exhausted (rules ! k) (counts ! k)" using pass i k by (simp add: passed_over_def)
  show "ch \<longleftrightarrow> out \<noteq> line \<and> \<not> cr_incidental (rules ! k)" using take_matched(2)[OF taken] i k by simp
  show "\<not> wfl n" using take_matched(3)[OF taken] .
qed

text \<open>Which rule took each line.\<close>

fun line_trace ::
  "('e, 're, 'v) editor_api \<Rightarrow> ('e, 're) compiledRule list \<Rightarrow> (nat \<Rightarrow> bool) \<Rightarrow> string
     \<Rightarrow> (string \<rightharpoonup> 'v) \<Rightarrow> nat \<Rightarrow> nat list \<Rightarrow> (string \<rightharpoonup> 'v) \<Rightarrow> string list \<Rightarrow> nat option list" where
  "line_trace api rules wfl fn params n counts st [] = []"
| "line_trace api rules wfl fn params n counts st (l # ls) =
     (case try_rules api wfl fn (Suc n) (l @ [NL]) params st counts 0 rules of
        Unmatched \<Rightarrow> None # line_trace api rules wfl fn params (Suc n) counts st ls
      | Matched ri _ _ st' \<Rightarrow>
          Some ri # line_trace api rules wfl fn params (Suc n) (counts[ri := Suc (counts ! ri)]) st' ls
      | _ \<Rightarrow> [])"

lemma run_lines_counts:
  assumes "run_lines api rules wfl fn params n counts changed st w ls = LinesDone counts' changed' st' w'"
    and "length counts = length rules"
  shows "length (line_trace api rules wfl fn params n counts st ls) = length ls \<and>
         length counts' = length rules \<and>
         (\<forall>i < length rules. counts' ! i = counts ! i + count_list (line_trace api rules wfl fn params n counts st ls) (Some i))"
  using assms
proof (induction ls arbitrary: n counts changed st w)
  case (Cons l ls)
  show ?case
  proof (cases "try_rules api wfl fn (Suc n) (l @ [NL]) params st counts 0 rules")
    case Unmatched
    then show ?thesis using Cons.prems Cons.IH[of "Suc n" counts changed st "w @ l @ [NL]"]
      by (auto simp: Let_def split: if_splits)
  next
    case (Matched ri out ch st1)
    have "ri < length rules" using try_matched(1)[OF Matched] .
    then show ?thesis
      using Matched Cons.prems Cons.IH[of "Suc n" "counts[ri := Suc (counts ! ri)]" "changed \<or> ch" st1 "w @ out"]
      by (auto simp: Let_def nth_list_update)
  qed (use Cons.prems in \<open>auto simp: Let_def\<close>)
qed simp

lemma run_lines_limit:
  assumes "run_lines api rules wfl fn params n counts changed st w ls = LinesDone counts' changed' st' w'"
    and "length counts = length rules"
    and "\<forall>i < length rules. 0 < cr_max (rules ! i) \<longrightarrow> int (counts ! i) \<le> cr_max (rules ! i)"
  shows "\<forall>i < length rules. 0 < cr_max (rules ! i) \<longrightarrow> int (counts' ! i) \<le> cr_max (rules ! i)"
  using assms
proof (induction ls arbitrary: n counts changed st w)
  case (Cons l ls)
  show ?case
  proof (cases "try_rules api wfl fn (Suc n) (l @ [NL]) params st counts 0 rules")
    case Unmatched
    then show ?thesis using Cons.prems Cons.IH[of "Suc n" counts changed st "w @ l @ [NL]"]
      by (auto simp: Let_def split: if_splits)
  next
    case (Matched ri out ch st1)
    have "\<forall>i < length rules. 0 < cr_max (rules ! i) \<longrightarrow>
            int (counts[ri := Suc (counts ! ri)] ! i) \<le> cr_max (rules ! i)"
      using Cons.prems(2,3) try_matched(1,2)[OF Matched] by (auto simp: nth_list_update exhausted_def)
    then show ?thesis
      using Matched Cons.prems Cons.IH[of "Suc n" "counts[ri := Suc (counts ! ri)]" "changed \<or> ch" st1 "w @ out"]
      by (simp add: Let_def)
  qed (use Cons.prems in \<open>auto simp: Let_def\<close>)
qed simp

text \<open>A finished run, taken apart.\<close>

lemma runRules_done:
  assumes "runRules api ed wfl (Some s) fn params st = RunDone changed st' w"
  obtains counts where "run_lines api (le_rules ed) wfl fn params 0 (replicate (length (le_rules ed)) 0) False st [] (fst (scan_lines s))
                          = LinesDone counts changed st' w"
    and "required_met (le_rules ed) counts" and "\<not> snd (scan_lines s)"
  using assms by (auto simp: runRules_def Let_def split: prod.splits lines_result.splits if_splits)

text \<open>An edit that is not abandoned has respected the bounds of its rules: the number of lines a rule took
  is at least its \<open>required\<close>, and at most its \<open>max\<close> where that is positive, and every line of the input was
  taken by at most one rule.\<close>

theorem rule_limits:
  assumes "runRules api ed wfl (Some s) fn params st = RunDone changed st' w"
    and "i < length (le_rules ed)"
    and "tr = line_trace api (le_rules ed) wfl fn params 0 (replicate (length (le_rules ed)) 0) st (fst (scan_lines s))"
  shows "length tr = length (fst (scan_lines s)) \<and>
         cr_required (le_rules ed ! i) \<le> int (count_list tr (Some i)) \<and>
         (0 < cr_max (le_rules ed ! i) \<longrightarrow> int (count_list tr (Some i)) \<le> cr_max (le_rules ed ! i))"
proof -
  obtain counts where run: "run_lines api (le_rules ed) wfl fn params 0 (replicate (length (le_rules ed)) 0) False st []
                              (fst (scan_lines s)) = LinesDone counts changed st' w"
    and req: "required_met (le_rules ed) counts"
    using runRules_done[OF assms(1)] by metis
  have tr: "length tr = length (fst (scan_lines s))" and len: "length counts = length (le_rules ed)"
    and k: "counts ! i = count_list tr (Some i)"
    using run_lines_counts[OF run] assms(2,3) by simp_all
  have "cr_required (le_rules ed ! i) \<le> int (counts ! i)"
    using req assms(2) len by (force simp: required_met_def list_all_length)
  moreover have "0 < cr_max (le_rules ed ! i) \<longrightarrow> int (counts ! i) \<le> cr_max (le_rules ed ! i)"
    using run_lines_limit[OF run] assms(2) by simp
  ultimately show ?thesis using tr k by simp
qed

theorem rule_limits_witness:
  "int (count_list (line_trace literal_api (le_rules a_to_b) (\<lambda>_. False) [] Map.empty 0 [0] Map.empty [''a'', ''a'']) (Some 0)) = 1"
  using rule_limits[OF literal_run[of "[]"], of 0] by (simp add: a_to_b_def scan_example[simplified])

lemma run_lines_unchanged:
  assumes "run_lines api rules wfl fn params n counts changed st w ls = LinesDone counts' False st' w'"
    and "list_all (\<lambda>rule. \<not> cr_incidental rule) rules"
  shows "\<not> changed \<and> w' = w @ unlines ls"
  using assms
proof (induction ls arbitrary: n counts changed st w)
  case (Cons l ls)
  show ?case
  proof (cases "try_rules api wfl fn (Suc n) (l @ [NL]) params st counts 0 rules")
    case Unmatched
    then show ?thesis using Cons.prems Cons.IH[of "Suc n" counts changed st "w @ l @ [NL]"]
      by (auto simp: Let_def split: if_splits)
  next
    case (Matched ri out ch st1)
    then have "ch \<longleftrightarrow> out \<noteq> l @ [NL]" using try_matched(1,3)[OF Matched] Cons.prems(2) by (simp add: list_all_length)
    then show ?thesis
      using Matched Cons.prems Cons.IH[of "Suc n" "counts[ri := Suc (counts ! ri)]" "changed \<or> ch" st1 "w @ out"]
      by (auto simp: Let_def)
  qed (use Cons.prems in \<open>auto simp: Let_def\<close>)
qed simp

lemma unchanged_text:
  assumes "runRules api ed wfl (Some s) fn params st = RunDone False st' w"
    and "list_all (\<lambda>rule. \<not> cr_incidental rule) (le_rules ed)"
    and "CR \<notin> set s"
  shows "w = (if s = [] \<or> last s = NL then s else s @ [NL])"
proof -
  obtain counts where run: "run_lines api (le_rules ed) wfl fn params 0 (replicate (length (le_rules ed)) 0) False st []
                              (fst (scan_lines s)) = LinesDone counts False st' w"
    and short: "\<not> snd (scan_lines s)"
    using runRules_done[OF assms(1)] by metis
  have "scan_lines s = (fst (scan_lines s), False)" using short by (simp add: prod_eq_iff)
  from unlines_scan[OF assms(3) this] run_lines_unchanged[OF run assms(2)] show ?thesis by simp
qed

text \<open>When the rules report no change and none of them is incidental, the lines written are the lines
  read, and for a text without carriage returns that is the text: an edit that leaves the file alone
  because nothing changed loses nothing.\<close>

theorem unchanged_is_identity:
  assumes "runRules api ed wfl (Some s) fn params st = RunDone False st' w"
    and "list_all (\<lambda>rule. \<not> cr_incidental rule) (le_rules ed)"
    and "CR \<notin> set s"
  shows "w = (if s = [] \<or> last s = NL then s else s @ [NL])"
  using assms by (rule unchanged_text)

theorem unchanged_is_identity_witness:
  "rd_output (runRules literal_api (a_to_b\<lparr>le_rules := map (\<lambda>rule. rule\<lparr>cr_required := 0\<rparr>) (le_rules a_to_b)\<rparr>) (\<lambda>_. False)
      (Some (''c'' @ [NL])) [] Map.empty Map.empty) = ''c'' @ [NL]"
proof -
  have "scan_lines (''c'' @ NL # []) = ([''c''], False)"
    using scan_line[of "''c''" "[]"] by (simp add: NL_def CR_def MaxScanTokenSize_def dropCR_def)
  then have "runRules literal_api (a_to_b\<lparr>le_rules := map (\<lambda>rule. rule\<lparr>cr_required := 0\<rparr>) (le_rules a_to_b)\<rparr>) (\<lambda>_. False)
      (Some (''c'' @ [NL])) [] Map.empty Map.empty = RunDone False Map.empty (''c'' @ [NL])"
    by (simp add: literal_simps)
  from this unchanged_is_identity[OF this] show ?thesis by (simp add: a_to_b_def NL_def CR_def)
qed

section \<open>File mode\<close>

text \<open>What a file operation may do to the files: leave the target as it was unless it reports a change,
  then replace it as a whole, with the old content in the backup; and leave every other file alone.\<close>

definition edits_safely ::
  "('e, 're) lineEditor \<Rightarrow> string \<Rightarrow> files \<Rightarrow> (file_error + bool) \<Rightarrow> files \<Rightarrow> bool" where
  "edits_safely ed path fs r fs' \<longleftrightarrow>
     (r \<noteq> Inr True \<longrightarrow> fs' path = fs path) \<and>
     (r = Inr True \<longrightarrow> fs' path \<noteq> None \<and>
        (le_backup ed \<noteq> [] \<and> fs path \<noteq> None \<longrightarrow> fs' (path @ le_backup ed) = fs path)) \<and>
     (\<forall>p. p \<notin> {path, path @ le_backup ed, path @ ''.lock''} \<longrightarrow> fs' p = fs p)"

text \<open>Temporary files get names that are not in use and not about to be.\<close>

definition fresh_temps :: "('e, 're) lineEditor \<Rightarrow> string \<Rightarrow> string \<Rightarrow> string \<Rightarrow> files \<Rightarrow> bool" where
  "fresh_temps ed path tmp tmp2 fs \<longleftrightarrow>
     fs tmp = None \<and> fs tmp2 = None \<and> tmp \<noteq> tmp2 \<and>
     {tmp, tmp2} \<inter> {path, path @ le_backup ed, path @ ''.lock''} = {}"

lemma edits_safely_same: "r \<noteq> Inr True \<Longrightarrow> edits_safely ed path fs r fs"
  by (simp add: edits_safely_def)

text \<open>The state before \<open>install\<close>: one temporary file more.\<close>

lemma install_safe:
  assumes "install ed ft path tmp (fs path \<noteq> None) (fs(tmp \<mapsto> c)) = (r, fs')"
    and "fs tmp = None" and "tmp \<notin> {path, path @ le_backup ed}"
  shows "edits_safely ed path fs r fs'" and "r = Inr True \<Longrightarrow> fs' path = Some c"
  using assms by (auto simp: install_def edits_safely_def Let_def split: if_splits)

lemma prepend_ok:
  assumes "prepend ft tmp tmp2 c (fs(tmp \<mapsto> b)) = Inr (tmp', fs')" and "fs tmp = None" and "tmp \<noteq> tmp2"
  shows "tmp' = tmp2" and "fs' = fs(tmp2 \<mapsto> c @ b)"
  using assms by (auto simp: prepend_def fun_eq_iff split: if_splits)

text \<open>Every way through the edit, for the target and for what it returns: it fails or is given up and
  leaves the files, or it installs the three parts.\<close>

lemma edit_file_cases:
  assumes "edit_file api ed ft tmp tmp2 path params st fs = (r, fs')"
    and "fresh_temps ed path tmp tmp2 fs"
  obtains (kept) "r \<noteq> Inr True" and "fs' = fs"
  | (installed) changed st' body beforeStr afterStr t where
      "runRules api ed (ft_write ft) (fs path) path params st = RunDone changed st' body"
      "eval_content api path params st' (le_before ed) = Inr beforeStr"
      "eval_content api path params st' (le_after ed) = Inr afterStr"
      "t \<in> {tmp, tmp2}"
      "install ed ft path t (fs path \<noteq> None) (fs(t \<mapsto> beforeStr @ body @ afterStr)) = (r, fs')"
proof -
  have fresh: "fs tmp = None" "fs tmp2 = None" "tmp \<noteq> tmp2" using assms(2) by (auto simp: fresh_temps_def)
  note out = assms(1)[unfolded edit_file_def Let_def]
  show thesis
  proof (cases "runRules api ed (ft_write ft) (fs path) path params st")
    case (RunDone changed st' body)
    show thesis
    proof (cases "eval_content api path params st' (le_after ed)")
      case (Inr afterStr)
      note after = this
      show thesis
      proof (cases "eval_content api path params st' (le_before ed)")
        case (Inr beforeStr)
        let ?pre = "if beforeStr \<noteq> [] then prepend ft tmp tmp2 beforeStr (fs(tmp \<mapsto> body @ afterStr))
                    else Inr (tmp, fs(tmp \<mapsto> body @ afterStr))"
        show thesis
        proof (cases ?pre)
          case (Inl e)
          then show thesis using out RunDone after Inr kept by (auto split: if_splits)
        next
          case pre: (Inr p)
          obtain t fs2 where p: "p = (t, fs2)" by (cases p)
          have t: "t \<in> {tmp, tmp2}" and fs2: "fs2 = fs(t \<mapsto> beforeStr @ body @ afterStr)" and "fs t = None"
            using pre p fresh prepend_ok[of ft tmp tmp2 beforeStr fs "body @ afterStr" t fs2]
            by (auto split: if_splits)
          then have gone: "fs2(t := None) = fs" by auto
          then show thesis using out RunDone after Inr pre p t fs2 kept installed[OF RunDone Inr after t]
            by (auto split: if_splits)
        qed
      qed (use out RunDone after kept in \<open>auto split: if_splits\<close>)
    qed (use out RunDone kept in auto)
  qed (use out kept in auto)
qed

lemma edit_file_safe:
  assumes "edit_file api ed ft tmp tmp2 path params st fs = (r, fs')" and "fresh_temps ed path tmp tmp2 fs"
  shows "edits_safely ed path fs r fs'"
  using assms
proof (cases rule: edit_file_cases)
  case kept
  then show ?thesis by (simp add: edits_safely_same)
next
  case (installed changed st' body beforeStr afterStr t)
  have "fs t = None" and "t \<notin> {path, path @ le_backup ed}"
    using assms(2) installed(4) by (auto simp: fresh_temps_def)
  from install_safe(1)[OF installed(5) this] show ?thesis .
qed

text \<open>The lock file is the only one taking the lock may change.\<close>

lemma lock_frame: "p \<noteq> path @ ''.lock'' \<Longrightarrow> snd (acquireFileLock ft path fs) p = fs p"
  by (simp add: acquireFileLock_def Let_def)

lemma edits_safely_lock:
  assumes "edits_safely ed path fs0 r fs'" and "\<forall>p. p \<noteq> path @ ''.lock'' \<longrightarrow> fs0 p = fs p"
  shows "edits_safely ed path fs r fs'"
  using assms by (auto simp: edits_safely_def)

lemma fresh_temps_lock:
  "fresh_temps ed path tmp tmp2 fs \<Longrightarrow> \<forall>p. p \<noteq> path @ ''.lock'' \<longrightarrow> fs0 p = fs p \<Longrightarrow> fresh_temps ed path tmp tmp2 fs0"
  by (auto simp: fresh_temps_def)

text \<open>A run ends before the file is edited, or edits it in a state where only the lock file is new.\<close>

lemma impl_cases:
  assumes "impl api ed writeDir ft tmp tmp2 filename args fs = (r, fs')"
    and "SafeResolvePath writeDir filename = Inr path"
  obtains (early) "r \<noteq> Inr True" and "\<forall>p. p \<noteq> path @ ''.lock'' \<longrightarrow> fs' p = fs p"
  | (edit) st fs0 where "evalInitialState api ed (userParamsFromArgs api ed args) = Inr st"
      and "\<forall>p. p \<noteq> path @ ''.lock'' \<longrightarrow> fs0 p = fs p"
      and "edit_file api ed ft tmp tmp2 path (userParamsFromArgs api ed args) st fs0 = (r, fs')"
proof -
  define lk where "lk = (if le_lock ed then acquireFileLock ft path fs else (True, fs))"
  have frame: "\<forall>p. p \<noteq> path @ ''.lock'' \<longrightarrow> snd lk p = fs p" by (simp add: lk_def lock_frame)
  show thesis
    using assms early edit[OF _ frame] frame
    by (auto simp: impl_def Let_def lk_def[symmetric] split: sum.splits prod.splits if_splits)
qed

lemma file_edit_safe:
  assumes "impl api ed writeDir ft tmp tmp2 filename args fs = (r, fs')"
    and "SafeResolvePath writeDir filename = Inr path"
    and "fresh_temps ed path tmp tmp2 fs"
  shows "edits_safely ed path fs r fs'"
  using assms(1,2)
proof (cases rule: impl_cases)
  case early
  then show ?thesis using edits_safely_lock edits_safely_same by metis
next
  case (edit st fs0)
  then show ?thesis using edit_file_safe edits_safely_lock fresh_temps_lock[OF assms(3)] by metis
qed


text \<open>The two modes differ in the file name their expressions see. An editor whose expressions do not
  look at it does not tell them apart.\<close>

fun forget_file :: "'v ed_ctx \<Rightarrow> 'v ed_ctx" where
  "forget_file (MatchCtx m params st) = MatchCtx (m\<lparr>mc_filename := []\<rparr>) params st"
| "forget_file (ContentCtx fn params st) = ContentCtx [] params st"
| "forget_file ctx = ctx"

definition ignores_file :: "('e, 're, 'v) editor_api \<Rightarrow> bool" where
  "ignores_file api \<longleftrightarrow>
     (\<forall>e ctx. ea_value api e (forget_file ctx) = ea_value api e ctx) \<and>
     (\<forall>ctx. ea_build api (forget_file ctx) = ea_build api ctx)"

lemma forget_match [simp]:
  "forget_file (buildMatchCtx api fn n line groups re k params st) = buildMatchCtx api [] n line groups re k params st"
  by (simp add: buildMatchCtx_def)

lemma eval_forget:
  assumes "ignores_file api"
  shows "eval_when api n rule (forget_file ctx) = eval_when api n rule ctx"
    and "fire_rule api wfl n line st ri rule (forget_file ctx) = fire_rule api wfl n line st ri rule ctx"
    and "evalStringExpr api n e (forget_file ctx) = evalStringExpr api n e ctx"
proof -
  have eqs: "\<And>e. ea_value api e (forget_file ctx) = ea_value api e ctx" "ea_build api (forget_file ctx) = ea_build api ctx"
    using assms by (simp_all add: ignores_file_def)
  show string: "evalStringExpr api n e (forget_file ctx) = evalStringExpr api n e ctx" for e
    by (simp only: evalStringExpr_def eqs)
  show "eval_when api n rule (forget_file ctx) = eval_when api n rule ctx" by (simp only: eval_when_def eqs)
  show "fire_rule api wfl n line st ri rule (forget_file ctx) = fire_rule api wfl n line st ri rule ctx"
    by (simp only: fire_rule_def eqs string)
qed

lemma try_rules_forget:
  "ignores_file api \<Longrightarrow>
     try_rules api wfl fn n line params st counts ri rules = try_rules api wfl [] n line params st counts ri rules"
proof (induction rules arbitrary: ri)
  case (Cons rule rules)
  have "eval_when api n rule (buildMatchCtx api fn n line groups re k params st) =
          eval_when api n rule (buildMatchCtx api [] n line groups re k params st)"
    and "fire_rule api wfl n line st ri rule (buildMatchCtx api fn n line groups re k params st) =
           fire_rule api wfl n line st ri rule (buildMatchCtx api [] n line groups re k params st)" for groups re k
    using eval_forget(1,2)[OF Cons.prems, where ctx = "buildMatchCtx api fn n line groups re k params st"]
    by (simp_all only: forget_match)
  then show ?case using Cons.IH[OF Cons.prems] by (simp add: Let_def split: option.split guard.split)
qed simp

lemma run_lines_forget:
  "ignores_file api \<Longrightarrow>
     run_lines api rules wfl fn params n counts changed st w ls = run_lines api rules wfl [] params n counts changed st w ls"
proof (induction ls arbitrary: n counts changed st w)
  case (Cons l ls)
  then show ?case using try_rules_forget[OF Cons.prems, of wfl fn] by (simp add: Let_def split: line_result.split)
qed simp

lemma runRules_forget:
  "ignores_file api \<Longrightarrow> runRules api ed wfl input fn params st = runRules api ed wfl input [] params st"
  using run_lines_forget[of api "le_rules ed" wfl fn] by (simp add: runRules_def)

lemma eval_content_forget:
  assumes "ignores_file api"
  shows "eval_content api fn params st block = eval_content api [] params st block"
proof -
  have "evalStringExpr api 0 e (ContentCtx fn params st) = evalStringExpr api 0 e (ContentCtx [] params st)" for e
    using eval_forget(3)[OF assms, where ctx = "ContentCtx fn params st"] by simp
  moreover have "ea_build api (ContentCtx fn params st) = ea_build api (ContentCtx [] params st)"
    using assms forget_file.simps(2)[of fn params st] by (metis ignores_file_def)
  ultimately show ?thesis by (simp only: eval_content_def Let_def)
qed

lemma file_mode_agrees:
  assumes "impl api ed writeDir ft tmp tmp2 filename args fs = (r, fs')"
    and "SafeResolvePath writeDir filename = Inr path" and "fs path = Some s"
    and "fresh_temps ed path tmp tmp2 fs" and "ignores_file api" and "ft_write ft = (\<lambda>_. False)"
  shows "if r = Inr True then implString api ed s args = StringOk (the (fs' path)) else fs' path = Some s"
proof (cases "r = Inr True")
  case True
  from assms(1,2) show ?thesis
  proof (cases rule: impl_cases)
    case early
    then show ?thesis using True by simp
  next
    case (edit st fs0)
    have fresh: "fresh_temps ed path tmp tmp2 fs0" using fresh_temps_lock[OF assms(4) edit(2)] .
    have s: "fs0 path = Some s" using edit(2) assms(3) by simp
    from edit(3) fresh show ?thesis
    proof (cases rule: edit_file_cases)
      case kept
      then show ?thesis using True by simp
    next
      case (installed changed st' body beforeStr afterStr t)
      have "fs0 t = None" and "t \<notin> {path, path @ le_backup ed}"
        using fresh installed(4) by (auto simp: fresh_temps_def)
      from install_safe(2)[OF installed(5) this True] have "fs' path = Some (beforeStr @ body @ afterStr)" .
      moreover have "implString api ed s args = StringOk (beforeStr @ body @ afterStr)"
        using installed(1-3) s assms(6) runRules_forget[OF assms(5), of ed _ _ path]
          eval_content_forget[OF assms(5), of path]
        by (simp add: implString_def edit(1))
      ultimately show ?thesis using True by simp
    qed
  qed
next
  case False
  then show ?thesis using file_edit_safe[OF assms(1,2,4)] assms(3) by (simp add: edits_safely_def)
qed

lemma file_written:
  "impl api ed writeDir ft tmp tmp2 filename args fs = (Inr True, fs') \<Longrightarrow>
     SafeResolvePath writeDir filename = Inr path \<Longrightarrow> fresh_temps ed path tmp tmp2 fs \<Longrightarrow> fs' path \<noteq> None"
  using file_edit_safe[of api ed writeDir ft tmp tmp2 filename args fs "Inr True" fs' path] by (simp add: edits_safely_def)

text \<open>The file mode writes what the string mode returns: for expressions that do not look at the file
  name, an edit that reports a change has put into the file the string the same editor makes of the
  old content, and where the string mode fails or is abandoned the file is left.\<close>

theorem file_string_agree:
  assumes "impl api ed writeDir ft tmp tmp2 filename args fs = (r, fs')"
    and "SafeResolvePath writeDir filename = Inr path" and "fs path = Some s"
    and "fresh_temps ed path tmp tmp2 fs" and "ignores_file api" and "ft_write ft = (\<lambda>_. False)"
  shows "if r = Inr True then implString api ed s args = StringOk (the (fs' path)) else fs' path = Some s"
  using assms by (rule file_mode_agrees)

definition no_faults :: faults where
  "no_faults = \<lparr>ft_lock_open = False, ft_lock = False, ft_open = False, ft_temp = False, ft_write = (\<lambda>_. False),
                ft_after = False, ft_temp2 = False, ft_before = False, ft_prepend = False, ft_close = False,
                ft_link = False, ft_rename = False\<rparr>"

definition no_incidental :: "('e, 're) lineEditor \<Rightarrow> bool" where
  "no_incidental ed \<longleftrightarrow> \<not> le_beforeIncidental ed \<and> \<not> le_afterIncidental ed \<and>
     list_all (\<lambda>rule. \<not> cr_incidental rule) (le_rules ed)"

lemma install_no_faults: "fst (install ed no_faults path t ex fs) = Inr True"
  by (simp add: install_def no_faults_def Let_def)

lemma edit_file_effective:
  assumes "runRules api ed (\<lambda>_. False) (fs path) path params st = RunDone changed st' body"
    and "eval_content api path params st' (le_before ed) = Inr beforeStr"
    and "eval_content api path params st' (le_after ed) = Inr afterStr"
    and "no_incidental ed" and "changed \<or> beforeStr \<noteq> [] \<or> afterStr \<noteq> []"
  shows "fst (edit_file api ed no_faults tmp tmp2 path params st fs) = Inr True"
proof -
  have [simp]: "ft_write no_faults = (\<lambda>_. False)" "\<not> ft_after no_faults" by (simp_all add: no_faults_def)
  have pre: "prepend no_faults tmp tmp2 c f = Inr (tmp2, f(tmp2 \<mapsto> c @ the (f tmp), tmp := None))" for c f
    by (simp add: prepend_def no_faults_def)
  show ?thesis using assms by (auto simp: edit_file_def Let_def pre install_no_faults no_incidental_def)
qed

lemma effective_edit:
  assumes "implString api ed s args = StringOk out" and "out \<noteq> s"
    and "SafeResolvePath writeDir filename = Inr path" and "fs path = Some s"
    and "fresh_temps ed path tmp tmp2 fs" and "ignores_file api" and "no_incidental ed"
    and "CR \<notin> set s" and "s = [] \<or> last s = NL"
  shows "\<exists>fs'. impl api ed writeDir no_faults tmp tmp2 filename args fs = (Inr True, fs') \<and> fs' path = Some out"
proof -
  let ?ps = "userParamsFromArgs api ed args"
  obtain st changed st' body beforeStr afterStr where st: "evalInitialState api ed ?ps = Inr st"
    and run: "runRules api ed (\<lambda>_. False) (Some s) [] ?ps st = RunDone changed st' body"
    and before: "eval_content api [] ?ps st' (le_before ed) = Inr beforeStr"
    and after: "eval_content api [] ?ps st' (le_after ed) = Inr afterStr"
    and out: "out = beforeStr @ body @ afterStr"
    using assms(1) by (auto simp: implString_def Let_def split: sum.splits run_result.splits)
  have "changed \<or> body = s"
    using unchanged_text[of api ed "\<lambda>_. False" s "[]" ?ps st st' body] run assms(7-9)
    by (cases changed) (auto simp: no_incidental_def)
  then have eff: "changed \<or> beforeStr \<noteq> [] \<or> afterStr \<noteq> []" using out assms(2) by auto
  define fs0 where "fs0 = (if le_lock ed then snd (acquireFileLock no_faults path fs) else fs)"
  have fs0: "fs0 path = Some s" using assms(4) lock_frame[of path path no_faults fs] by (simp add: fs0_def)
  have run': "runRules api ed (\<lambda>_. False) (fs0 path) path ?ps st = RunDone changed st' body"
    using run fs0 runRules_forget[OF assms(6), of ed _ _ path] by simp
  have "fst (edit_file api ed no_faults tmp tmp2 path ?ps st fs0) = Inr True"
    using edit_file_effective[of api ed fs0 path ?ps st changed st' body beforeStr afterStr tmp tmp2]
      run' before after assms(7) eff eval_content_forget[OF assms(6), of path] by metis
  moreover have "impl api ed writeDir no_faults tmp tmp2 filename args fs = edit_file api ed no_faults tmp tmp2 path ?ps st fs0"
    using assms(3) fs0 st
    by (auto simp: impl_def Let_def fs0_def acquireFileLock_def no_faults_def split: if_splits)
  ultimately obtain fs' where ok: "impl api ed writeDir no_faults tmp tmp2 filename args fs = (Inr True, fs')"
    by (metis prod.collapse)
  show ?thesis using file_mode_agrees[OF ok assms(3,4,5,6)] ok assms(1) file_written[OF ok assms(3,5)]
    by (auto simp: no_faults_def)
qed


text \<open>An edit takes effect: when no file operation fails, nothing is marked incidental and the text ends in
  a newline and has no carriage returns, an editor whose string mode makes a different text of the content
  reports a change in file mode and has written that text.\<close>

theorem file_edit_takes_effect:
  assumes "implString api ed s args = StringOk out" and "out \<noteq> s"
    and "SafeResolvePath writeDir filename = Inr path" and "fs path = Some s"
    and "fresh_temps ed path tmp tmp2 fs" and "ignores_file api" and "no_incidental ed"
    and "CR \<notin> set s" and "s = [] \<or> last s = NL"
  shows "\<exists>fs'. impl api ed writeDir no_faults tmp tmp2 filename args fs = (Inr True, fs') \<and> fs' path = Some out"
  using assms by (rule effective_edit)

lemma literal_ignores_file: "ignores_file literal_api"
  by (simp add: ignores_file_def literal_api_def)

lemma literal_path: "SafeResolvePath ''/w'' ''f'' = Inr ''/w/f''"
  by code_simp

lemma literal_fresh: "fresh_temps a_to_b ''/w/f'' ''/w/.tmp1'' ''/w/.tmp2'' [''/w/f'' \<mapsto> c]"
  by (simp add: fresh_temps_def a_to_b_def)

lemma literal_params: "userParamsFromArgs literal_api a_to_b [] = Map.empty"
  by (simp add: userParamsFromArgs_def a_to_b_def)

lemma literal_string: "implString literal_api a_to_b (unlines [''a'', ''a'']) [] = StringOk (unlines [''b'', ''a''])"
proof -
  have "le_initialState a_to_b = None" "le_before a_to_b = None" "le_after a_to_b = None" by (simp_all add: a_to_b_def)
  then show ?thesis
    by (simp only: implString_def literal_params Let_def evalInitialState_def eval_content_def option.case sum.case
          literal_run run_result.case) simp
qed

lemma literal_effect:
  "\<exists>fs'. impl literal_api a_to_b ''/w'' no_faults ''/w/.tmp1'' ''/w/.tmp2'' ''f'' [] [''/w/f'' \<mapsto> unlines [''a'', ''a'']]
           = (Inr True, fs')"
  using effective_edit[OF literal_string _ literal_path _ literal_fresh literal_ignores_file, of "unlines [''a'', ''a'']"]
  by (auto simp: no_incidental_def a_to_b_def NL_def CR_def)

theorem file_edit_takes_effect_witness:
  "\<exists>fs'. impl literal_api a_to_b ''/w'' no_faults ''/w/.tmp1'' ''/w/.tmp2'' ''f'' [] [''/w/f'' \<mapsto> unlines [''a'', ''a'']]
           = (Inr True, fs') \<and> fs' ''/w/f'' = Some (unlines [''b'', ''a''])"
  using file_edit_takes_effect[OF literal_string _ literal_path _ literal_fresh literal_ignores_file, of "unlines [''a'', ''a'']"]
  by (simp add: no_incidental_def a_to_b_def NL_def CR_def)


theorem file_string_agree_witness:
  "snd (impl literal_api a_to_b ''/w'' no_faults ''/w/.tmp1'' ''/w/.tmp2'' ''f'' [] [''/w/f'' \<mapsto> unlines [''a'', ''a'']]) ''/w/f''
     = Some (unlines [''b'', ''a''])"
proof -
  obtain fs' where run: "impl literal_api a_to_b ''/w'' no_faults ''/w/.tmp1'' ''/w/.tmp2'' ''f'' []
                           [''/w/f'' \<mapsto> unlines [''a'', ''a'']] = (Inr True, fs')"
    using literal_effect by blast
  have "implString literal_api a_to_b (unlines [''a'', ''a'']) [] = StringOk (the (fs' ''/w/f''))"
    using file_string_agree[OF run literal_path _ literal_fresh literal_ignores_file, of "unlines [''a'', ''a'']"]
    by (simp add: no_faults_def)
  then show ?thesis using run file_written[OF run literal_path literal_fresh] by (auto simp: literal_string[simplified])
qed

end
