(* ===== verification/Http_Auth.thy ===== *)
theory Http_Auth
  imports Values
begin

text \<open>
  Credentials of the HTTP client (\<open>clients/http/auth.go\<close> and the authentication layer of
  \<open>functions/http.go\<close>): the cache of the value an \<open>auth\<close> expression produces, its failed state, and
  the sending of one attempt with a second try after a 401. Sending a request, evaluating an
  expression and the clock are arguments, the record \<open>http_world\<close>, whose operations pass a state of the
  world along. The mutex of the cache is held for a whole method, evaluation
  included, so each method is one step.
\<close>

section \<open>The world of a request\<close>

record AuthAttempt =
  aa_Reason :: string
  aa_Failures :: nat
  aa_PreviousStatus :: int

type_synonym headers = "string \<rightharpoonup> string list"

text \<open>The world of one call. \<open>hw_sleep\<close> returns false when the context ends first; \<open>hw_auth_expr\<close> takes the
  clients whose hooks are running; \<open>hw_time\<close> reads a time value.\<close>

record ('w, 'r, 'v, 'f) http_world = "('v, 'f) value_api" +
  hw_time :: "'v \<Rightarrow> time option"
  hw_now :: "'w \<Rightarrow> time"
  hw_send :: "headers \<Rightarrow> 'w \<Rightarrow> (string + 'r) \<times> 'w"
  hw_status :: "'r \<Rightarrow> int"
  hw_auth_expr :: "string set \<Rightarrow> AuthAttempt \<Rightarrow> 'w \<Rightarrow> (string + 'v) \<times> 'w"

section \<open>Reentrancy\<close>

definition WithAuthMarker :: "string set \<Rightarrow> string \<Rightarrow> string set" where
  "WithAuthMarker marks clientName = insert clientName marks"

definition IsAuthSuppressed :: "string set \<Rightarrow> string \<Rightarrow> bool" where
  "IsAuthSuppressed marks clientName \<longleftrightarrow> clientName \<in> marks"

section \<open>The result of an expression\<close>

record AuthResult =
  ar_Value :: string
  ar_ExpiresIn :: duration

text \<open>An attribute that is there and not null.\<close>

definition set_attr :: "('w, 'r, 'v, 'f, 'z) http_world_scheme \<Rightarrow> (string \<rightharpoonup> 'v) \<Rightarrow> string \<Rightarrow> 'v option" where
  "set_attr W attrs k = (case attrs k of Some v \<Rightarrow> if va_view W v = VaNull then None else Some v | None \<Rightarrow> None)"

text \<open>The lifetime: \<open>expires_in\<close>, or the time to \<open>expires_at\<close>, never both.\<close>

definition auth_lifetime ::
  "('w, 'r, 'v, 'f, 'z) http_world_scheme \<Rightarrow> time \<Rightarrow> (string \<rightharpoonup> 'v) \<Rightarrow> string + duration" where
  "auth_lifetime W now attrs =
     (case (set_attr W attrs ''expires_in'', set_attr W attrs ''expires_at'') of
        (None, None) \<Rightarrow> Inr 0
      | (Some v, a) \<Rightarrow>
          (case ParseDurationFromValue W v of
             Inl e \<Rightarrow> Inl (''auth expires_in: '' @ e)
           | Inr d \<Rightarrow> if a \<noteq> None then Inl ''auth result must not specify both expires_in and expires_at'' else Inr d)
      | (None, Some v) \<Rightarrow>
          (case hw_time W v of
             None \<Rightarrow> Inl ''auth expires_at''
           | Some t \<Rightarrow> Inr (max 0 (t - now))))"

definition ParseAuthResult ::
  "('w, 'r, 'v, 'f, 'z) http_world_scheme \<Rightarrow> time \<Rightarrow> 'v \<Rightarrow> string + AuthResult" where
  "ParseAuthResult W now val =
     (case va_view W val of
        VaNull \<Rightarrow> Inl ''auth expression returned null''
      | VaString s \<Rightarrow> Inr \<lparr>ar_Value = s, ar_ExpiresIn = 0\<rparr>
      | VaObject attrs \<Rightarrow>
          (case set_attr W attrs ''value'' of
             None \<Rightarrow> Inl ''auth expression result object missing required 'value' attribute''
           | Some v \<Rightarrow>
               (case va_view W v of
                  VaString s \<Rightarrow>
                    (case auth_lifetime W now attrs of
                       Inl e \<Rightarrow> Inl e
                     | Inr life \<Rightarrow>
                         (case set_attr W attrs ''refresh_early'' of
                            None \<Rightarrow> Inr \<lparr>ar_Value = s, ar_ExpiresIn = life\<rparr>
                          | Some early \<Rightarrow>
                              (case ParseDurationFromValue W early of
                                 Inl e \<Rightarrow> Inl (''auth refresh_early: '' @ e)
                               | Inr d \<Rightarrow>
                                   Inr \<lparr>ar_Value = s,
                                        ar_ExpiresIn = (if 0 < life then (if life - d < 0 then 1 else life - d) else life)\<rparr>)))
                | _ \<Rightarrow> Inl ''auth expression result 'value' must be a string''))
      | _ \<Rightarrow> Inl ''auth expression must return a string or object'')"

section \<open>The cache\<close>

record 'f AuthBackoff =
  ab_InitialDelay :: duration
  ab_MaxDelay :: duration
  ab_Factor :: 'f

record 'f authCache =
  ac_clientName :: string
  ac_maxLifetime :: duration
  ac_maxFailures :: int
  ac_backoff :: "'f AuthBackoff"
  ac_valueSet :: bool
  ac_value :: string
  ac_expiresAt :: "time option"
  ac_consecutiveFailures :: nat
  ac_failedUntil :: "time option"

definition newAuthCache :: "string \<Rightarrow> duration \<Rightarrow> int \<Rightarrow> 'f AuthBackoff \<Rightarrow> 'f authCache" where
  "newAuthCache clientName maxLifetime maxFailures backoff =
     \<lparr>ac_clientName = clientName, ac_maxLifetime = maxLifetime,
      ac_maxFailures = (if maxFailures \<le> 0 then 5 else maxFailures), ac_backoff = backoff,
      ac_valueSet = False, ac_value = [], ac_expiresAt = None, ac_consecutiveFailures = 0, ac_failedUntil = None\<rparr>"

text \<open>\<open>pow\<close>, the loop.\<close>

primrec pow :: "'f float64 \<Rightarrow> 'f \<Rightarrow> nat \<Rightarrow> 'f" where
  "pow F x 0 = f_of_int F 1"
| "pow F x (Suc n) = f_mul F (pow F x n) x"

definition backoff_delay :: "'f float64 \<Rightarrow> 'f AuthBackoff \<Rightarrow> nat \<Rightarrow> duration" where
  "backoff_delay F b excess =
     (let delay = f_to_int F (f_mul F (f_of_int F (ab_InitialDelay b)) (pow F (ab_Factor b) excess))
      in if 0 < ab_MaxDelay b \<and> ab_MaxDelay b < delay then ab_MaxDelay b else delay)"

definition recordFailureLocked :: "'f float64 \<Rightarrow> time \<Rightarrow> 'f authCache \<Rightarrow> 'f authCache" where
  "recordFailureLocked F now c =
     (let c1 = c\<lparr>ac_consecutiveFailures := Suc (ac_consecutiveFailures c)\<rparr>
      in if int (ac_consecutiveFailures c1) < ac_maxFailures c1 then c1
         else let excess = nat (int (ac_consecutiveFailures c1) - ac_maxFailures c1)
              in c1\<lparr>ac_failedUntil := Some (now + backoff_delay F (ac_backoff c1) excess)\<rparr>)"

datatype auth_error = InFailedState | EvalFailed string

text \<open>The earlier of the two ends of life.\<close>

definition effective_expiry :: "duration \<Rightarrow> time \<Rightarrow> AuthResult \<Rightarrow> time option" where
  "effective_expiry maxLifetime now result =
     (let e = (if 0 < ar_ExpiresIn result then Some (now + ar_ExpiresIn result) else None)
      in if 0 < maxLifetime \<and> (case e of None \<Rightarrow> True | Some t \<Rightarrow> now + maxLifetime < t) then Some (now + maxLifetime) else e)"

text \<open>\<open>Get\<close>, with the evaluator it is passed and the evaluations it makes.\<close>

type_synonym 'w evaluator = "AuthAttempt \<Rightarrow> 'w \<Rightarrow> (string + AuthResult) \<times> 'w"

definition Get ::
  "'f float64 \<Rightarrow> string set \<Rightarrow> string \<Rightarrow> int \<Rightarrow> 'w evaluator \<Rightarrow> time \<Rightarrow> 'f authCache \<Rightarrow> 'w
     \<Rightarrow> (auth_error + string) \<times> 'f authCache \<times> 'w \<times> (AuthAttempt \<times> (string + AuthResult)) list" where
  "Get F marks reason previousStatus eval now c w =
     (if IsAuthSuppressed marks (ac_clientName c) then (Inr [], c, w, [])
      else if (case ac_failedUntil c of None \<Rightarrow> False | Some t \<Rightarrow> now < t) then (Inl InFailedState, c, w, [])
      else if ac_valueSet c \<and> (case ac_expiresAt c of None \<Rightarrow> True | Some t \<Rightarrow> now < t)
      then (Inr (ac_value c), c, w, [])
      else
        let attempt = \<lparr>aa_Reason = reason, aa_Failures = ac_consecutiveFailures c, aa_PreviousStatus = previousStatus\<rparr>;
            (r, w') = eval attempt w
        in case r of
             Inl e \<Rightarrow> (Inl (EvalFailed e), recordFailureLocked F now c, w', [(attempt, r)])
           | Inr result \<Rightarrow>
               (Inr (ar_Value result),
                c\<lparr>ac_valueSet := True, ac_value := ar_Value result,
                  ac_expiresAt := effective_expiry (ac_maxLifetime c) now result\<rparr>, w', [(attempt, r)]))"

definition Invalidate :: "'f authCache \<Rightarrow> 'f authCache" where
  "Invalidate c = c\<lparr>ac_valueSet := False, ac_value := [], ac_expiresAt := None\<rparr>"

definition RecordResult :: "'f float64 \<Rightarrow> time \<Rightarrow> int \<Rightarrow> 'f authCache \<Rightarrow> 'f authCache" where
  "RecordResult F now status c =
     (if status = 401 then (recordFailureLocked F now c)\<lparr>ac_valueSet := False, ac_value := [], ac_expiresAt := None\<rparr>
      else c\<lparr>ac_consecutiveFailures := 0, ac_failedUntil := None\<rparr>)"

record AuthSnapshot =
  as_HasCachedValue :: bool
  as_ConsecutiveFailures :: nat
  as_InFailedState :: bool

definition Snapshot :: "time \<Rightarrow> 'f authCache \<Rightarrow> AuthSnapshot" where
  "Snapshot now c =
     \<lparr>as_HasCachedValue = ac_valueSet c, as_ConsecutiveFailures = ac_consecutiveFailures c,
      as_InFailedState = (case ac_failedUntil c of None \<Rightarrow> False | Some t \<Rightarrow> now < t)\<rparr>"

section \<open>What the cache is for\<close>

text \<open>
  The specification: the last credential an evaluation gave, with the time it was asked for, unless it
  was rejected or given up since; and the times of the failures since a response was last accepted,
  the latest first. What \<open>Get\<close> answers is decided by these alone.
\<close>

record auth_spec =
  sp_credential :: "(time \<times> AuthResult) option"
  sp_failures :: "time list"

definition live_credential :: "duration \<Rightarrow> time \<Rightarrow> time \<times> AuthResult \<Rightarrow> bool" where
  "live_credential maxLifetime now cred \<longleftrightarrow>
     (0 < ar_ExpiresIn (snd cred) \<longrightarrow> now < fst cred + ar_ExpiresIn (snd cred)) \<and>
     (0 < maxLifetime \<longrightarrow> now < fst cred + maxLifetime)"

definition spec_failed :: "'f float64 \<Rightarrow> int \<Rightarrow> 'f AuthBackoff \<Rightarrow> time \<Rightarrow> time list \<Rightarrow> bool" where
  "spec_failed F maxFailures b now fails \<longleftrightarrow>
     maxFailures \<le> int (length fails) \<and>
     now < hd fails + backoff_delay F b (nat (int (length fails) - maxFailures))"

datatype auth_op =
    OpGet "string set" string int time "string + AuthResult"
  | OpInvalidate
  | OpRecord time int

text \<open>Only \<open>Get\<close> answers.\<close>

definition auth_step :: "'f float64 \<Rightarrow> auth_op \<Rightarrow> 'f authCache \<Rightarrow> 'f authCache \<times> (auth_error + string) list" where
  "auth_step F x c =
     (case x of
        OpGet marks reason status now outcome \<Rightarrow>
          (let (r, c', _, _) = Get F marks reason status (\<lambda>_ w. (outcome, w)) now c () in (c', [r]))
      | OpInvalidate \<Rightarrow> (Invalidate c, [])
      | OpRecord now status \<Rightarrow> (RecordResult F now status c, []))"

definition spec_op ::
  "'f float64 \<Rightarrow> 'f authCache \<Rightarrow> auth_op \<Rightarrow> auth_spec \<Rightarrow> auth_spec \<times> (auth_error + string) list" where
  "spec_op F c0 x s =
     (case x of
        OpGet marks reason status now outcome \<Rightarrow>
          if ac_clientName c0 \<in> marks then (s, [Inr []])
          else if spec_failed F (ac_maxFailures c0) (ac_backoff c0) now (sp_failures s) then (s, [Inl InFailedState])
          else if \<exists>cred. sp_credential s = Some cred \<and> live_credential (ac_maxLifetime c0) now cred
          then (s, [Inr (ar_Value (snd (the (sp_credential s))))])
          else (case outcome of
                  Inl e \<Rightarrow> (s\<lparr>sp_failures := now # sp_failures s\<rparr>, [Inl (EvalFailed e)])
                | Inr r \<Rightarrow> (s\<lparr>sp_credential := Some (now, r)\<rparr>, [Inr (ar_Value r)]))
      | OpInvalidate \<Rightarrow> (s\<lparr>sp_credential := None\<rparr>, [])
      | OpRecord now status \<Rightarrow>
          if status = 401 then (s\<lparr>sp_credential := None, sp_failures := now # sp_failures s\<rparr>, [])
          else (s\<lparr>sp_failures := []\<rparr>, []))"

text \<open>The cache that stands for a state of the specification.\<close>

definition rep_cache :: "'f float64 \<Rightarrow> 'f authCache \<Rightarrow> auth_spec \<Rightarrow> 'f authCache" where
  "rep_cache F c0 s =
     c0\<lparr>ac_valueSet := sp_credential s \<noteq> None,
        ac_value := (case sp_credential s of None \<Rightarrow> [] | Some (_, r) \<Rightarrow> ar_Value r),
        ac_expiresAt := (case sp_credential s of None \<Rightarrow> None | Some (t, r) \<Rightarrow> effective_expiry (ac_maxLifetime c0) t r),
        ac_consecutiveFailures := length (sp_failures s),
        ac_failedUntil :=
          (if ac_maxFailures c0 \<le> int (length (sp_failures s))
           then Some (hd (sp_failures s) + backoff_delay F (ac_backoff c0) (nat (int (length (sp_failures s)) - ac_maxFailures c0)))
           else None)\<rparr>"

lemma effective_expiry_live:
  "(case effective_expiry m t r of None \<Rightarrow> True | Some e \<Rightarrow> now < e) \<longleftrightarrow> live_credential m now (t, r)"
  by (auto simp: effective_expiry_def live_credential_def Let_def)

lemma rep_failed:
  "(case ac_failedUntil (rep_cache F c0 s) of None \<Rightarrow> False | Some t \<Rightarrow> now < t) \<longleftrightarrow>
     spec_failed F (ac_maxFailures c0) (ac_backoff c0) now (sp_failures s)"
  by (simp add: rep_cache_def spec_failed_def)

lemma rep_hit:
  "ac_valueSet (rep_cache F c0 s) \<and> (case ac_expiresAt (rep_cache F c0 s) of None \<Rightarrow> True | Some t \<Rightarrow> now < t) \<longleftrightarrow>
     (\<exists>cred. sp_credential s = Some cred \<and> live_credential (ac_maxLifetime c0) now cred)"
  by (cases "sp_credential s") (auto simp: rep_cache_def effective_expiry_live)

lemma rep_failure:
  "recordFailureLocked F now (rep_cache F c0 s) = rep_cache F c0 (s\<lparr>sp_failures := now # sp_failures s\<rparr>)"
  by (auto simp: recordFailureLocked_def rep_cache_def Let_def)

lemma auth_step_rep:
  assumes "0 < ac_maxFailures c0"
  shows "auth_step F x (rep_cache F c0 s) = (rep_cache F c0 (fst (spec_op F c0 x s)), snd (spec_op F c0 x s))"
proof (cases x)
  case (OpGet marks reason status now outcome)
  have name: "ac_clientName (rep_cache F c0 s) = ac_clientName c0" by (simp add: rep_cache_def)
  have hit: "ac_value (rep_cache F c0 s) = ar_Value (snd (the (sp_credential s)))" if "sp_credential s \<noteq> None"
    using that by (auto simp: rep_cache_def)
  have new: "(rep_cache F c0 s)\<lparr>ac_valueSet := True, ac_value := ar_Value r,
      ac_expiresAt := effective_expiry (ac_maxLifetime (rep_cache F c0 s)) now r\<rparr>
      = rep_cache F c0 (s\<lparr>sp_credential := Some (now, r)\<rparr>)" for r
    by (simp add: rep_cache_def)
  show ?thesis
    unfolding OpGet auth_step_def spec_op_def Get_def auth_op.case name rep_failed rep_hit IsAuthSuppressed_def
    using hit by (auto simp: Let_def rep_failure new split: sum.split)
next
  case OpInvalidate
  then show ?thesis by (simp add: auth_step_def spec_op_def Invalidate_def rep_cache_def)
next
  case (OpRecord now status)
  show ?thesis
  proof (cases "status = 401")
    case True
    then show ?thesis using OpRecord rep_failure[of F now c0 s]
      by (simp add: auth_step_def spec_op_def RecordResult_def) (simp add: rep_cache_def)
  next
    case False
    then show ?thesis using OpRecord assms by (simp add: auth_step_def spec_op_def RecordResult_def rep_cache_def)
  qed
qed

lemma new_cache_rep:
  "rep_cache F (newAuthCache name life mx b) \<lparr>sp_credential = None, sp_failures = []\<rparr> = newAuthCache name life mx b"
  by (simp add: rep_cache_def newAuthCache_def)

interpretation auth_cache: implements "auth_step F" "spec_op F (newAuthCache name life mx b)" "rep_cache F (newAuthCache name life mx b)"
  for F name life mx b
  by unfold_locales (simp add: auth_step_rep newAuthCache_def)

text \<open>C25: The credential cache answers every sequence of calls as its specification does: it hands out the last
  credential an evaluation gave while that is younger than its own and the client's lifetime and no
  response or caller has given it up, evaluates otherwise, and refuses to for the backoff time once the
  failures since the last accepted response have reached the limit.\<close>

theorem auth_cache_refines:
  "snd (run_ops (auth_step F) xs (newAuthCache name life mx b)) =
     snd (run_ops (spec_op F (newAuthCache name life mx b)) xs \<lparr>sp_credential = None, sp_failures = []\<rparr>)"
  using auth_cache.run_answers[where a = "\<lparr>sp_credential = None, sp_failures = []\<rparr>"] by (simp add: new_cache_rep)

section \<open>Sending with credentials\<close>

record http_auth_opts =
  po_hasAuthOverride :: bool
  po_authValueSet :: bool
  po_authValue :: string

text \<open>\<open>Header.Get\<close>, \<open>Set\<close> and \<open>Del\<close>, the name being canonical.\<close>

definition header_get :: "headers \<Rightarrow> string \<Rightarrow> string" where
  "header_get h k = (case h k of Some (v # _) \<Rightarrow> v | _ \<Rightarrow> [])"

definition put_auth :: "headers \<Rightarrow> string \<Rightarrow> headers" where
  "put_auth h v = (if v \<noteq> [] then h(''Authorization'' \<mapsto> [v]) else h(''Authorization'' := None))"

datatype send_error = AuthError auth_error | TxError string

datatype 'r http_event = Evaluated AuthAttempt "string + AuthResult" | Sent headers "string + 'r"

definition evaluations :: "(AuthAttempt \<times> (string + AuthResult)) list \<Rightarrow> 'r http_event list" where
  "evaluations evs = map (\<lambda>(a, x). Evaluated a x) evs"

definition evalAuthExpression ::
  "('w, 'r, 'v, 'f, 'z) http_world_scheme \<Rightarrow> string set \<Rightarrow> string \<Rightarrow> 'w evaluator" where
  "evalAuthExpression W marks clientName attempt w =
     (let (r, w') = hw_auth_expr W (WithAuthMarker marks clientName) attempt w
      in (case r of Inl e \<Rightarrow> Inl e | Inr v \<Rightarrow> ParseAuthResult W (hw_now W w') v, w'))"

text \<open>\<open>resolveAuthForSend\<close>: the header, whether the hook gave it, and the evaluations. \<open>h\<close> is the handler of the
  client, if it has one.\<close>

definition resolveAuthForSend ::
  "('w, 'r, 'v, 'f, 'z) http_world_scheme \<Rightarrow> string set \<Rightarrow> 'o http_auth_opts_scheme \<Rightarrow> bool \<Rightarrow> string \<Rightarrow> int
     \<Rightarrow> 'f authCache option \<Rightarrow> 'w
     \<Rightarrow> (auth_error + string) \<times> bool \<times> 'f authCache option \<times> 'w \<times> 'r http_event list" where
  "resolveAuthForSend W marks opts hdrsHasAuth reason previousStatus h w =
     (if hdrsHasAuth then (Inr [], False, h, w, [])
      else if po_hasAuthOverride opts
      then (Inr (if po_authValueSet opts then po_authValue opts else []), False, h, w, [])
      else case h of
             None \<Rightarrow> (Inr [], False, None, w, [])
           | Some c \<Rightarrow>
               let (r, c', w', evs) = Get (va_float W) marks reason previousStatus
                                        (evalAuthExpression W marks (ac_clientName c)) (hw_now W w) c w
               in (r, True, Some c', w', evaluations evs))"

definition record_status :: "('w, 'r, 'v, 'f, 'z) http_world_scheme \<Rightarrow> int \<Rightarrow> 'f authCache option \<Rightarrow> 'w \<Rightarrow> 'f authCache option" where
  "record_status W status h w = map_option (RecordResult (va_float W) (hw_now W w) status) h"

definition in_scope :: "string set \<Rightarrow> bool \<Rightarrow> 'f authCache option \<Rightarrow> bool" where
  "in_scope marks useHook h \<longleftrightarrow>
     useHook \<and> (case h of None \<Rightarrow> False | Some c \<Rightarrow> \<not> IsAuthSuppressed marks (ac_clientName c))"

text \<open>The second try: a 401 is recorded, a credential is asked for again and the request sent once more.\<close>

definition reauth ::
  "('w, 'r, 'v, 'f, 'z) http_world_scheme \<Rightarrow> string set \<Rightarrow> 'o http_auth_opts_scheme \<Rightarrow> headers
     \<Rightarrow> 'f authCache option \<Rightarrow> 'w \<Rightarrow> (send_error + 'r) \<times> 'f authCache option \<times> 'w \<times> 'r http_event list" where
  "reauth W marks opts hdrs h w =
     (let (newAuth, _, h1, w1, evs) =
            resolveAuthForSend W marks opts False ''unauthorized'' 401 (record_status W 401 h w) w
      in case newAuth of
           Inl e \<Rightarrow> (Inl (AuthError e), h1, w1, evs)
         | Inr v \<Rightarrow>
             let retryHdrs = put_auth hdrs v; (res, w2) = hw_send W retryHdrs w1
             in (case res of Inl e \<Rightarrow> Inl (TxError e) | Inr r \<Rightarrow> Inr r, h1, w2, evs @ [Sent retryHdrs res]))"

definition sendOnceWithAuth ::
  "('w, 'r, 'v, 'f, 'z) http_world_scheme \<Rightarrow> string set \<Rightarrow> 'o http_auth_opts_scheme \<Rightarrow> headers
     \<Rightarrow> 'f authCache option \<Rightarrow> 'w \<Rightarrow> (send_error + 'r) \<times> 'f authCache option \<times> 'w \<times> 'r http_event list" where
  "sendOnceWithAuth W marks opts hdrs h w =
     (let hdrsHasAuth = (header_get hdrs ''Authorization'' \<noteq> []);
          (authValue, useHook, h1, w1, evs1) = resolveAuthForSend W marks opts hdrsHasAuth ''initial'' 0 h w
      in case authValue of
           Inl e \<Rightarrow> (Inl (AuthError e), h1, w1, evs1)
         | Inr v \<Rightarrow>
             let sendHdrs = (if hdrsHasAuth then hdrs else put_auth hdrs v);
                 (res, w2) = hw_send W sendHdrs w1;
                 evs2 = evs1 @ [Sent sendHdrs res]
             in case res of
                  Inl e \<Rightarrow> (Inl (TxError e), h1, w2, evs2)
                | Inr r \<Rightarrow>
                    let (res', h3, w3, evs3) =
                          (if hw_status W r = 401 \<and> in_scope marks useHook h1
                           then reauth W marks opts hdrs h1 w2 else (Inr r, h1, w2, []))
                    in case res' of
                         Inl e \<Rightarrow> (Inl e, h3, w3, evs2 @ evs3)
                       | Inr r' \<Rightarrow>
                           (Inr r', if in_scope marks useHook h3 then record_status W (hw_status W r') h3 w3 else h3,
                            w3, evs2 @ evs3))"

section \<open>What one attempt does\<close>

primrec is_sent :: "'r http_event \<Rightarrow> bool" where
  "is_sent (Evaluated a x) = False"
| "is_sent (Sent h x) = True"

text \<open>The hook does not see a call that brings its own credentials, asks for none, or is made while the hook
  of the client is running.\<close>

definition bypasses_hook :: "string set \<Rightarrow> 'o http_auth_opts_scheme \<Rightarrow> headers \<Rightarrow> 'f authCache option \<Rightarrow> bool" where
  "bypasses_hook marks opts hdrs h \<longleftrightarrow>
     header_get hdrs ''Authorization'' \<noteq> [] \<or> po_hasAuthOverride opts \<or>
     (case h of None \<Rightarrow> True | Some c \<Rightarrow> ac_clientName c \<in> marks)"

definition own_headers :: "'o http_auth_opts_scheme \<Rightarrow> headers \<Rightarrow> headers" where
  "own_headers opts hdrs =
     (if header_get hdrs ''Authorization'' \<noteq> [] then hdrs
      else put_auth hdrs (if po_hasAuthOverride opts \<and> po_authValueSet opts then po_authValue opts else []))"

lemma resolve_bypass:
  assumes "bypasses_hook marks opts hdrs h"
  obtains u where "resolveAuthForSend W marks opts (header_get hdrs ''Authorization'' \<noteq> []) reason status h w =
      (Inr (if header_get hdrs ''Authorization'' = [] \<and> po_hasAuthOverride opts \<and> po_authValueSet opts then po_authValue opts else []),
       u, h, w, [])"
    and "\<not> in_scope marks u h"
proof (cases h)
  case None
  then show thesis using that[of False] by (auto simp: resolveAuthForSend_def in_scope_def)
next
  case (Some c)
  show thesis
  proof (cases "header_get hdrs ''Authorization'' \<noteq> [] \<or> po_hasAuthOverride opts")
    case True
    then show thesis using that[of False] by (auto simp: resolveAuthForSend_def in_scope_def)
  next
    case False
    then show thesis using that[of True] Some assms
      by (simp add: resolveAuthForSend_def in_scope_def bypasses_hook_def IsAuthSuppressed_def Get_def evaluations_def)
  qed
qed

lemma send_bypass:
  assumes "bypasses_hook marks opts hdrs h"
  shows "sendOnceWithAuth W marks opts hdrs h w =
           (case hw_send W (own_headers opts hdrs) w of
              (res, w') \<Rightarrow> (case res of Inl e \<Rightarrow> Inl (TxError e) | Inr r \<Rightarrow> Inr r, h, w', [Sent (own_headers opts hdrs) res]))"
proof -
  obtain u where resolved: "resolveAuthForSend W marks opts (header_get hdrs ''Authorization'' \<noteq> []) ''initial'' 0 h w =
      (Inr (if header_get hdrs ''Authorization'' = [] \<and> po_hasAuthOverride opts \<and> po_authValueSet opts then po_authValue opts else []),
       u, h, w, [])" and out: "\<not> in_scope marks u h"
    using resolve_bypass[OF assms] by metis
  have hdr: "(if header_get hdrs ''Authorization'' \<noteq> [] then hdrs
      else put_auth hdrs (if header_get hdrs ''Authorization'' = [] \<and> po_hasAuthOverride opts \<and> po_authValueSet opts
                          then po_authValue opts else [])) = own_headers opts hdrs"
    by (simp add: own_headers_def)
  show ?thesis
    by (simp only: sendOnceWithAuth_def Let_def resolved prod.case sum.case hdr out simp_thms if_False append_Nil)
       (simp split: prod.split sum.split)
qed

text \<open>The precedence of credentials: an Authorization header of the call or of the client is sent as it is,
  else a credential given with the call, else none for a call that declines or that is made from within
  the hook of the same client; in these cases the request is sent once and the hook and its cache are not
  touched.\<close>

theorem auth_precedence:
  assumes "bypasses_hook marks opts hdrs h"
  shows "sendOnceWithAuth W marks opts hdrs h w =
           (case hw_send W (own_headers opts hdrs) w of
              (res, w') \<Rightarrow> (case res of Inl e \<Rightarrow> Inl (TxError e) | Inr r \<Rightarrow> Inr r, h, w', [Sent (own_headers opts hdrs) res]))"
  using assms by (rule send_bypass)

text \<open>An answer without a cached value is a new one.\<close>

lemma Get_unset:
  assumes "Get F marks reason status eval now c w = (r, c', w', evs)"
    and "\<not> ac_valueSet c" and "\<not> IsAuthSuppressed marks (ac_clientName c)"
  shows "(\<exists>e. r = Inl e) \<or>
         (\<exists>cred. r = Inr (ar_Value cred) \<and>
            evs = [(\<lparr>aa_Reason = reason, aa_Failures = ac_consecutiveFailures c, aa_PreviousStatus = status\<rparr>, Inr cred)])"
  using assms by (auto simp: Get_def Let_def split: if_splits prod.splits sum.splits)

lemma Get_name:
  "Get F marks reason status eval now c w = (r, c', w', evs) \<Longrightarrow> ac_clientName c' = ac_clientName c"
  by (auto simp: Get_def Let_def recordFailureLocked_def split: if_splits prod.splits sum.splits)

lemma RecordResult_401 [simp]:
  "\<not> ac_valueSet (RecordResult F now 401 c)" "ac_clientName (RecordResult F now status c) = ac_clientName c"
  by (auto simp: RecordResult_def recordFailureLocked_def Let_def)

lemma evaluations_simps [simp]:
  "evaluations [] = []" "evaluations ((a, x) # evs) = Evaluated a x # evaluations evs" "filter is_sent (evaluations evs) = []"
  by (auto simp: evaluations_def filter_empty_conv)

definition rejected_then ::
  "('w, 'r, 'v, 'f, 'z) http_world_scheme \<Rightarrow> headers \<Rightarrow> 'r http_event list \<Rightarrow> bool" where
  "rejected_then W hdrs evs \<longleftrightarrow>
     (\<exists>pre h1 r1 a cred x.
        evs = pre @ [Sent h1 (Inr r1), Evaluated a (Inr cred), Sent (put_auth hdrs (ar_Value cred)) x] \<and>
        hw_status W r1 = 401 \<and> aa_Reason a = ''unauthorized'' \<and> aa_PreviousStatus a = 401)"

lemma reauth_events:
  assumes "reauth W marks opts hdrs (Some c) w = (out, h', w', evs)"
    and "\<not> po_hasAuthOverride opts" and "\<not> IsAuthSuppressed marks (ac_clientName c)"
  shows "filter is_sent evs = [] \<or>
         (\<exists>a cred x. evs = [Evaluated a (Inr cred), Sent (put_auth hdrs (ar_Value cred)) x] \<and>
            aa_Reason a = ''unauthorized'' \<and> aa_PreviousStatus a = 401)"
proof -
  let ?c = "RecordResult (va_float W) (hw_now W w) 401 c"
  obtain r c' w1 gs where get: "Get (va_float W) marks ''unauthorized'' 401
      (evalAuthExpression W marks (ac_clientName c)) (hw_now W w) ?c w = (r, c', w1, gs)"
    by (metis prod_cases4)
  have "(\<exists>e. r = Inl e) \<or> (\<exists>cred. r = Inr (ar_Value cred) \<and>
     gs = [(\<lparr>aa_Reason = ''unauthorized'', aa_Failures = ac_consecutiveFailures ?c, aa_PreviousStatus = 401\<rparr>, Inr cred)])"
    using Get_unset[OF get] assms(3) by simp
  then show ?thesis
    using assms(1,2) get
    by (auto simp: reauth_def record_status_def resolveAuthForSend_def Let_def split: prod.splits)
qed

text \<open>An attempt is sent at most twice, and a second time only when the first answer was 401: then with a
  credential that was evaluated after that answer, never with the rejected one again.\<close>

theorem reauth_protocol:
  assumes "sendOnceWithAuth W marks opts hdrs h w = (out, h', w', evs)"
  shows "length (filter is_sent evs) \<le> 1 \<or> length (filter is_sent evs) = 2 \<and> rejected_then W hdrs evs"
proof (cases "bypasses_hook marks opts hdrs h")
  case True
  then show ?thesis using assms send_bypass[OF True, of W w] by (auto split: prod.splits)
next
  case False
  then obtain c where h: "h = Some c" and free: "\<not> IsAuthSuppressed marks (ac_clientName c)"
    and own: "header_get hdrs ''Authorization'' = []" "\<not> po_hasAuthOverride opts"
    by (auto simp: bypasses_hook_def IsAuthSuppressed_def split: option.splits)
  obtain r c1 w1 gs where get: "Get (va_float W) marks ''initial'' 0
      (evalAuthExpression W marks (ac_clientName c)) (hw_now W w) c w = (r, c1, w1, gs)"
    by (metis prod_cases4)
  have free1: "\<not> IsAuthSuppressed marks (ac_clientName c1)" using free Get_name[OF get] by simp
  show ?thesis
  proof (cases r)
    case (Inl e)
    then show ?thesis using assms h own get
      by (auto simp: sendOnceWithAuth_def resolveAuthForSend_def Let_def)
  next
    case (Inr v)
    obtain res w2 where send: "hw_send W (put_auth hdrs v) w1 = (res, w2)" by fastforce
    obtain out3 h3 w3 evs3 where again: "reauth W marks opts hdrs (Some c1) w2 = (out3, h3, w3, evs3)"
      by (metis prod_cases4)
    have "evs = evaluations gs @ [Sent (put_auth hdrs v) res] \<or>
          (\<exists>r1. res = Inr r1 \<and> hw_status W r1 = 401 \<and> evs = evaluations gs @ [Sent (put_auth hdrs v) res] @ evs3)"
      using assms h own get Inr send again free1
      by (auto simp: sendOnceWithAuth_def resolveAuthForSend_def in_scope_def Let_def split: sum.splits if_splits)
    then show ?thesis
      using reauth_events[OF again own(2) free1]
      by (fastforce simp: rejected_then_def filter_empty_conv)
  qed
qed

section \<open>Examples\<close>

text \<open>Whole numbers for floats, and a world that answers with the statuses of a list and whose credentials
  are written down.\<close>

definition whole :: "int float64" where
  "whole = \<lparr>f_of_int = id, f_add = (+), f_sub = (-), f_mul = (*), f_div = (div), f_pow = (\<lambda>x y. x ^ nat y), f_eq = (=), f_lt = (<), f_to_int = id\<rparr>"

definition no_opts :: http_auth_opts where
  "no_opts = \<lparr>po_hasAuthOverride = False, po_authValueSet = False, po_authValue = []\<rparr>"

definition answers :: "(int list, int, string, int) http_world" where
  "answers = \<lparr>va_float = whole, va_view = VaString, va_duration = (\<lambda>_. None), hw_time = (\<lambda>_. None), hw_now = (\<lambda>_. 0),
     hw_send = (\<lambda>_ w. case w of [] \<Rightarrow> (Inl ''no route'', []) | s # ss \<Rightarrow> (Inr s, ss)),
     hw_status = id, hw_auth_expr = (\<lambda>_ _ w. (Inr ''Bearer t'', w))\<rparr>"

definition fresh_cache :: "int authCache" where
  "fresh_cache = newAuthCache ''api'' 0 0 \<lparr>ab_InitialDelay = 1000000000, ab_MaxDelay = 60000000000, ab_Factor = 2\<rparr>"

theorem auth_precedence_witness:
  "snd (snd (snd (sendOnceWithAuth answers {''api''} no_opts Map.empty (Some fresh_cache) [401, 200]))) = [Sent Map.empty (Inr 401)]"
proof -
  have "bypasses_hook {''api''} no_opts Map.empty (Some fresh_cache)"
    by (simp add: bypasses_hook_def fresh_cache_def newAuthCache_def)
  from auth_precedence[OF this, of answers "[401, 200]"] show ?thesis
    by (simp add: own_headers_def header_get_def put_auth_def no_opts_def answers_def)
qed

theorem reauth_protocol_witness:
  "rejected_then answers Map.empty
     (snd (snd (snd (sendOnceWithAuth answers {} no_opts Map.empty (Some fresh_cache) [401, 200]))))"
proof -
  obtain out h w evs where run: "sendOnceWithAuth answers {} no_opts Map.empty (Some fresh_cache) [401, 200] = (out, h, w, evs)"
    by (metis prod_cases4)
  have "length (filter is_sent (snd (snd (snd (sendOnceWithAuth answers {} no_opts Map.empty (Some fresh_cache) [401, 200]))))) = 2"
    by (simp add: sendOnceWithAuth_def resolveAuthForSend_def reauth_def record_status_def RecordResult_def recordFailureLocked_def
        Get_def evalAuthExpression_def ParseAuthResult_def in_scope_def IsAuthSuppressed_def header_get_def effective_expiry_def
        fresh_cache_def newAuthCache_def no_opts_def answers_def)
  then show ?thesis using reauth_protocol[OF run] run by simp
qed

text \<open>The length of the backoff is converted to an integer before it is compared with its limit. Where the conversion
  of a float that is too large gives a negative number, as it does on amd64, the failed state is over at once.\<close>

lemma backoff_overflow:
  assumes "f_to_int F (f_mul F (f_of_int F (ab_InitialDelay (ac_backoff c)))
      (pow F (ab_Factor (ac_backoff c)) (nat (int (Suc (ac_consecutiveFailures c)) - ac_maxFailures c)))) < 0"
    and "ac_maxFailures c \<le> int (ac_consecutiveFailures c)"
  shows "\<not> as_InFailedState (Snapshot now (recordFailureLocked F now c))"
  using assms by (auto simp: Snapshot_def recordFailureLocked_def backoff_delay_def Let_def)

end
