(* ===== verification/Http_Retry.thy ===== *)
theory Http_Retry
  imports Http_Auth
begin

text \<open>
  Retries of the HTTP client (\<open>clients/http/retry.go\<close> and \<open>runRetryLoop\<close> of \<open>functions/http.go\<close>): the
  policy, its parsing from a block and from the options of a call, the waits, the \<open>on_response\<close> hook, and
  the loop over the attempts. The loop is a function of the number of the attempt; besides its result it
  returns the events of the run, attempts and waits in their order.
\<close>

section \<open>The policy\<close>

record ('f, 'e) RetryPolicy =
  rp_MaxAttempts :: int
  rp_InitialDelay :: duration
  rp_MaxDelay :: duration
  rp_BackoffFactor :: 'f
  rp_Jitter :: bool
  rp_RetryOn :: "int list"
  rp_RespectRetryAfter :: bool
  rp_AllowNonIdempotent :: bool
  rp_OnResponse :: "'e option"

record ('f, 'e) retryBlock =
  rb_MaxAttempts :: "int option"
  rb_InitialDelay :: "'e option"
  rb_MaxDelay :: "'e option"
  rb_BackoffFactor :: "'f option"
  rb_Jitter :: "bool option"
  rb_RetryOn :: "int list"
  rb_RespectRetryAfter :: "bool option"
  rb_AllowNonIdempotent :: "bool option"
  rb_OnResponse :: "'e option"

definition defaultRetryOnSet :: "int list" where
  "defaultRetryOnSet = [429, 502, 503, 504]"

definition millisecond :: duration where "millisecond = 1000000"
definition second :: duration where "second = 1000000000"

definition noRetryPolicy :: "'f float64 \<Rightarrow> ('f, 'e) RetryPolicy" where
  "noRetryPolicy F =
     \<lparr>rp_MaxAttempts = 1, rp_InitialDelay = 200 * millisecond, rp_MaxDelay = 30 * second,
      rp_BackoffFactor = f_of_int F 2, rp_Jitter = True, rp_RetryOn = defaultRetryOnSet,
      rp_RespectRetryAfter = True, rp_AllowNonIdempotent = False, rp_OnResponse = None\<rparr>"

definition retryEnabledDefaults :: "'f float64 \<Rightarrow> ('f, 'e) RetryPolicy" where
  "retryEnabledDefaults F = (noRetryPolicy F)\<lparr>rp_MaxAttempts := 3\<rparr>"

text \<open>One field of the block: keep the policy, change it, or stop with diagnostics. \<open>pd\<close> is \<open>ParseDuration\<close>.\<close>

definition set_duration ::
  "('e \<Rightarrow> duration \<times> diag list) \<Rightarrow> 'e option \<Rightarrow> (duration \<Rightarrow> 'p \<Rightarrow> 'p) \<Rightarrow> 'p \<Rightarrow> ('p \<times> diag list) + 'p" where
  "set_duration pd expr upd p =
     (case expr of
        None \<Rightarrow> Inr p
      | Some e \<Rightarrow> let (d, diags) = pd e in if HasErrors diags then Inl (p, diags) else Inr (upd d p))"

definition parseRetryBlock ::
  "'f float64 \<Rightarrow> ('e \<Rightarrow> duration \<times> diag list) \<Rightarrow> ('f, 'e) retryBlock option \<Rightarrow> ('f, 'e) RetryPolicy \<times> diag list" where
  "parseRetryBlock F pd block =
     (case block of
        None \<Rightarrow> (noRetryPolicy F, [])
      | Some b \<Rightarrow>
          let p = retryEnabledDefaults F
          in if (case rb_MaxAttempts b of None \<Rightarrow> False | Some n \<Rightarrow> n < 1)
             then (p, [DiagError ''retry.max_attempts must be >= 1''])
             else
               let p1 = (case rb_MaxAttempts b of None \<Rightarrow> p | Some n \<Rightarrow> p\<lparr>rp_MaxAttempts := n\<rparr>)
               in case set_duration pd (rb_InitialDelay b) (\<lambda>d q. q\<lparr>rp_InitialDelay := d\<rparr>) p1 of
                    Inl r \<Rightarrow> r
                  | Inr p2 \<Rightarrow>
                      (case set_duration pd (rb_MaxDelay b) (\<lambda>d q. q\<lparr>rp_MaxDelay := d\<rparr>) p2 of
                         Inl r \<Rightarrow> r
                       | Inr p3 \<Rightarrow>
                           if (case rb_BackoffFactor b of None \<Rightarrow> False | Some f \<Rightarrow> f_lt F f (f_of_int F 1))
                           then (p3, [DiagError ''retry.backoff_factor must be >= 1.0''])
                           else
                             (p3\<lparr>rp_BackoffFactor := case_option (rp_BackoffFactor p3) id (rb_BackoffFactor b),
                                 rp_Jitter := case_option (rp_Jitter p3) id (rb_Jitter b),
                                 rp_RetryOn := (if rb_RetryOn b \<noteq> [] then rb_RetryOn b else rp_RetryOn p3),
                                 rp_RespectRetryAfter := case_option (rp_RespectRetryAfter p3) id (rb_RespectRetryAfter b),
                                 rp_AllowNonIdempotent := case_option (rp_AllowNonIdempotent p3) id (rb_AllowNonIdempotent b),
                                 rp_OnResponse := (case rb_OnResponse b of None \<Rightarrow> rp_OnResponse p3 | Some e \<Rightarrow> Some e)\<rparr>, [])))"

text \<open>The backoff of the credentials of a client.\<close>

record ('f, 'e) authBackoffBlock =
  bb_InitialDelay :: "'e option"
  bb_MaxDelay :: "'e option"
  bb_BackoffFactor :: "'f option"

definition defaultAuthBackoff :: "'f float64 \<Rightarrow> 'f AuthBackoff" where
  "defaultAuthBackoff F = \<lparr>ab_InitialDelay = second, ab_MaxDelay = 60 * second, ab_Factor = f_of_int F 2\<rparr>"

definition parseAuthBackoffBlock ::
  "'f float64 \<Rightarrow> ('e \<Rightarrow> duration \<times> diag list) \<Rightarrow> ('f, 'e) authBackoffBlock option \<Rightarrow> 'f AuthBackoff \<times> diag list" where
  "parseAuthBackoffBlock F pd block =
     (let bo = defaultAuthBackoff F
      in case block of
           None \<Rightarrow> (bo, [])
         | Some b \<Rightarrow>
             (case set_duration pd (bb_InitialDelay b) (\<lambda>d q. q\<lparr>ab_InitialDelay := d\<rparr>) bo of
                Inl r \<Rightarrow> r
              | Inr bo1 \<Rightarrow>
                  (case set_duration pd (bb_MaxDelay b) (\<lambda>d q. q\<lparr>ab_MaxDelay := d\<rparr>) bo1 of
                     Inl r \<Rightarrow> r
                   | Inr bo2 \<Rightarrow>
                       (case bb_BackoffFactor b of
                          None \<Rightarrow> (bo2, [])
                        | Some f \<Rightarrow>
                            if f_lt F f (f_of_int F 1)
                            then (bo2, [DiagError ''auth_retry_backoff.backoff_factor must be >= 1.0''])
                            else (bo2\<lparr>ab_Factor := f\<rparr>, [])))))"

definition MethodRetryable :: "('f, 'e) RetryPolicy \<Rightarrow> string \<Rightarrow> bool" where
  "MethodRetryable p m \<longleftrightarrow>
     m \<in> {''GET'', ''HEAD'', ''OPTIONS'', ''PUT'', ''DELETE''} \<or> rp_AllowNonIdempotent p"

definition ShouldRetryStatus :: "('f, 'e) RetryPolicy \<Rightarrow> int \<Rightarrow> bool" where
  "ShouldRetryStatus p status \<longleftrightarrow> status \<in> set (rp_RetryOn p)"

section \<open>Waits\<close>

text \<open>What the loop needs of the world besides: sleeping, random numbers between 0 and 1, the hook, the
  header of a response, and dates in it.\<close>

record ('w, 'r, 'v, 'f, 'e) retry_world = "('w, 'r, 'v, 'f) http_world" +
  rw_sleep :: "duration \<Rightarrow> 'w \<Rightarrow> bool \<times> 'w"
  rw_rand :: "'w \<Rightarrow> 'f \<times> 'w"
  rw_hook :: "'e \<Rightarrow> 'r \<Rightarrow> int \<Rightarrow> 'w \<Rightarrow> (string + 'v) \<times> 'w"
  rw_header :: "'r \<Rightarrow> string \<Rightarrow> string"
  rw_ParseTime :: "string \<Rightarrow> time option"

definition Delay ::
  "('w, 'r, 'v, 'f, 'e) retry_world \<Rightarrow> ('f, 'e) RetryPolicy \<Rightarrow> int \<Rightarrow> 'w \<Rightarrow> duration \<times> 'w" where
  "Delay W p attempt w =
     (let F = va_float W
      in if attempt \<le> 1 then (0, w)
         else
           let base = f_mul F (f_of_int F (rp_InitialDelay p)) (f_pow F (rp_BackoffFactor p) (f_of_int F (attempt - 2)));
               base1 = (if f_lt F (f_of_int F (rp_MaxDelay p)) base then f_of_int F (rp_MaxDelay p) else base);
               (base2, w') = (if rp_Jitter p then let (x, w1) = rw_rand W w in (f_mul F x base1, w1) else (base1, w))
           in (f_to_int F base2, w'))"

text \<open>\<open>strconv.Atoi\<close>: an optional sign and digits, within 64 bits.\<close>

definition digit :: "char \<Rightarrow> int option" where
  "digit c = (let n = of_char c :: int in if 48 \<le> n \<and> n \<le> 57 then Some (n - 48) else None)"

fun atoi_digits :: "int \<Rightarrow> string \<Rightarrow> int option" where
  "atoi_digits acc [] = Some acc"
| "atoi_digits acc (c # cs) = (case digit c of None \<Rightarrow> None | Some d \<Rightarrow> atoi_digits (10 * acc + d) cs)"

definition Atoi :: "string \<Rightarrow> int option" where
  "Atoi s =
     (let (neg, ds) = (case s of c # cs \<Rightarrow> if c = CHR ''-'' then (True, cs) else if c = CHR ''+'' then (False, cs) else (False, s)
                               | [] \<Rightarrow> (False, []))
      in if ds = [] then None
         else case atoi_digits 0 ds of
                None \<Rightarrow> None
              | Some n \<Rightarrow> let v = (if neg then - n else n) in if int64 v then Some v else None)"

definition ParseRetryAfter :: "(string \<Rightarrow> time option) \<Rightarrow> time \<Rightarrow> string \<Rightarrow> duration" where
  "ParseRetryAfter parseTime now header =
     (if header = [] then 0
      else case Atoi header of
             Some secs \<Rightarrow> if secs < 0 then 0 else wrap64 (secs * second)
           | None \<Rightarrow> (case parseTime header of Some t \<Rightarrow> max 0 (t - now) | None \<Rightarrow> 0))"

definition RetryAfterApplies :: "int \<Rightarrow> bool" where
  "RetryAfterApplies status \<longleftrightarrow> status = 429 \<or> status = 503"

section \<open>The hook\<close>

datatype onResponseDecision = OnResponseRetry duration | OnResponseStop

definition evalOnResponse ::
  "('w, 'r, 'v, 'f, 'e) retry_world \<Rightarrow> 'e \<Rightarrow> 'r \<Rightarrow> int \<Rightarrow> 'w \<Rightarrow> (string + onResponseDecision) \<times> 'w" where
  "evalOnResponse W expr r attempt w =
     (let (res, w') = rw_hook W expr r attempt w; F = va_float W
      in (case res of
            Inl e \<Rightarrow> Inl e
          | Inr val \<Rightarrow>
              (case va_view W val of
                 VaNull \<Rightarrow> Inr OnResponseStop
               | VaBool b \<Rightarrow> Inr (if b then OnResponseRetry 0 else OnResponseStop)
               | VaNumber _ secs \<Rightarrow>
                   if f_lt F secs (f_of_int F 0) then Inl ''on_response delay must be >= 0''
                   else Inr (OnResponseRetry (f_to_int F (f_mul F secs (f_of_int F second))))
               | _ \<Rightarrow>
                   (case ParseDurationFromValue W val of
                      Inl e \<Rightarrow> Inl (''on_response must return null, bool, number, or duration: '' @ e)
                    | Inr d \<Rightarrow> Inr (OnResponseRetry d))), w'))"

section \<open>The loop\<close>

datatype http_error = SendFailed send_error | Cancelled | HookFailed string

datatype 'r retry_event = Waited duration | Attempted "send_error + 'r" "'r http_event list"

type_synonym ('w, 'r, 'f) loop_result = "(http_error + 'r) \<times> 'f authCache option \<times> 'w \<times> 'r retry_event list"

definition finish :: "send_error + 'r \<Rightarrow> http_error + 'r" where
  "finish res = (case res of Inl e \<Rightarrow> Inl (SendFailed e) | Inr r \<Rightarrow> Inr r)"

text \<open>The wait before an attempt that is not the first: the delay, or the \<open>Retry-After\<close> of the last
  response.\<close>

definition retry_delay ::
  "('w, 'r, 'v, 'f, 'e) retry_world \<Rightarrow> ('f, 'e) RetryPolicy \<Rightarrow> int \<Rightarrow> send_error + 'r \<Rightarrow> 'w \<Rightarrow> duration \<times> 'w" where
  "retry_delay W p attempt prev w =
     (let (delay, w') = Delay W p attempt w
      in case prev of
           Inr r \<Rightarrow>
             if rp_RespectRetryAfter p \<and> RetryAfterApplies (hw_status W r)
             then let ra = ParseRetryAfter (rw_ParseTime W) (hw_now W w') (rw_header W r ''Retry-After'')
                  in (if 0 < ra then ra else delay, w')
             else (delay, w')
         | Inl _ \<Rightarrow> (delay, w'))"

definition pause_for :: "('w, 'r, 'v, 'f, 'e) retry_world \<Rightarrow> duration \<Rightarrow> 'w \<Rightarrow> bool \<times> 'w" where
  "pause_for W d w = (if 0 < d then rw_sleep W d w else (True, w))"

text \<open>The loop variables that stay: the policy, whether the method may be retried, and the request.\<close>

record ('w, 'r, 'v, 'f, 'e) retry_call =
  rc_world :: "('w, 'r, 'v, 'f, 'e) retry_world"
  rc_policy :: "('f, 'e) RetryPolicy"
  rc_retryable :: bool
  rc_marks :: "string set"
  rc_opts :: http_auth_opts
  rc_hdrs :: headers
  rc_maxAttempts :: int

definition send_attempt ::
  "('w, 'r, 'v, 'f, 'e) retry_call \<Rightarrow> 'f authCache option \<Rightarrow> 'w
     \<Rightarrow> (send_error + 'r) \<times> 'f authCache option \<times> 'w \<times> 'r http_event list" where
  "send_attempt C h w = sendOnceWithAuth (rc_world C) (rc_marks C) (rc_opts C) (rc_hdrs C) h w"

text \<open>One turn of the loop returns, or goes on with the number of the next attempt and the result it has.
  Where the hook gives a delay the turn makes an attempt of its own, and the loop goes on after that one.\<close>

datatype ('w, 'r, 'f) turn =
    Return "(http_error + 'r)" "'f authCache option" 'w "'r retry_event list"
  | Again int "send_error + 'r" "'f authCache option" 'w "'r retry_event list"

definition decide ::
  "('w, 'r, 'v, 'f, 'e) retry_call \<Rightarrow> int \<Rightarrow> send_error + 'r \<Rightarrow> 'f authCache option \<Rightarrow> 'w \<Rightarrow> 'r retry_event list
     \<Rightarrow> ('w, 'r, 'f) turn" where
  "decide C attempt res h w evs =
     (let W = rc_world C; p = rc_policy C
      in case (rp_OnResponse p, res) of
           (Some expr, Inr r) \<Rightarrow>
             (let (decision, w1) = evalOnResponse W expr r attempt w
              in case decision of
                   Inl e \<Rightarrow> Return (Inl (HookFailed e)) h w1 evs
                 | Inr OnResponseStop \<Rightarrow> Return (finish res) h w1 evs
                 | Inr (OnResponseRetry d) \<Rightarrow>
                     if 0 < d then
                       let (awake, w2) = rw_sleep W d w1; evs2 = evs @ [Waited d]
                       in if \<not> awake then Return (Inl Cancelled) h w2 evs2
                          else let (res', h3, w3, sent) = send_attempt C h w2
                               in Again (attempt + 2) res' h3 w3 (evs2 @ [Attempted res' sent])
                     else Again (attempt + 1) res h w1 evs)
         | _ \<Rightarrow>
             if (case res of Inl _ \<Rightarrow> True | Inr r \<Rightarrow> ShouldRetryStatus p (hw_status W r))
             then Again (attempt + 1) res h w evs
             else Return (finish res) h w evs)"

definition loop_turn ::
  "('w, 'r, 'v, 'f, 'e) retry_call \<Rightarrow> int \<Rightarrow> (send_error + 'r) option \<Rightarrow> 'f authCache option \<Rightarrow> 'w \<Rightarrow> ('w, 'r, 'f) turn" where
  "loop_turn C attempt prev h w =
     (let W = rc_world C;
          (delay, w1) = (case prev of None \<Rightarrow> (0, w) | Some l \<Rightarrow> retry_delay W (rc_policy C) attempt l w);
          (awake, w2) = pause_for W delay w1;
          evs1 = (if 0 < delay then [Waited delay] else [])
      in if \<not> awake then Return (Inl Cancelled) h w2 evs1
         else
           let (res, h3, w3, sent) = send_attempt C h w2; evs3 = evs1 @ [Attempted res sent]
           in if attempt = rc_maxAttempts C \<or> \<not> rc_retryable C then Return (finish res) h3 w3 evs3
              else decide C attempt res h3 w3 evs3)"

lemma decide_again: "decide C attempt res h w evs = Again n x h' w' evs' \<Longrightarrow> attempt < n"
  by (auto simp: decide_def Let_def split: option.splits sum.splits prod.splits onResponseDecision.splits if_splits)

lemma turn_again: "loop_turn C attempt prev h w = Again n x h' w' evs \<Longrightarrow> attempt < n"
  by (auto simp: loop_turn_def Let_def dest: decide_again split: prod.splits if_splits)

function retry_loop ::
  "('w, 'r, 'v, 'f, 'e) retry_call \<Rightarrow> int \<Rightarrow> (send_error + 'r) option \<Rightarrow> 'f authCache option \<Rightarrow> 'w \<Rightarrow> ('w, 'r, 'f) loop_result" where
  "retry_loop C attempt prev h w =
     (if rc_maxAttempts C < attempt then (finish (the prev), h, w, [])
      else case loop_turn C attempt prev h w of
             Return out h' w' evs \<Rightarrow> (out, h', w', evs)
           | Again n res h' w' evs \<Rightarrow>
               let (out, h'', w'', evs') = retry_loop C n (Some res) h' w' in (out, h'', w'', evs @ evs'))"
  by pat_completeness auto
termination
  by (relation "measure (\<lambda>(C, attempt, prev, h, w). nat (rc_maxAttempts C + 1 - attempt))") (auto dest: turn_again)

declare retry_loop.simps [simp del]

definition runRetryLoop ::
  "('w, 'r, 'v, 'f, 'e) retry_world \<Rightarrow> string set \<Rightarrow> string \<Rightarrow> headers \<Rightarrow> http_auth_opts \<Rightarrow> ('f, 'e) RetryPolicy
     \<Rightarrow> 'f authCache option \<Rightarrow> 'w \<Rightarrow> ('w, 'r, 'f) loop_result" where
  "runRetryLoop W marks m hdrs opts p h w =
     retry_loop
       \<lparr>rc_world = W, rc_policy = p, rc_retryable = MethodRetryable p m, rc_marks = marks, rc_opts = opts, rc_hdrs = hdrs,
        rc_maxAttempts = (if rp_MaxAttempts p < 1 then 1 else rp_MaxAttempts p)\<rparr> 1 None h w"

section \<open>Attempts\<close>

fun results :: "'r retry_event list \<Rightarrow> (send_error + 'r) list" where
  "results [] = []"
| "results (Waited d # evs) = results evs"
| "results (Attempted res sent # evs) = res # results evs"

lemma results_append [simp]: "results (evs @ evs') = results evs @ results evs'"
  by (induction evs rule: results.induct) auto

text \<open>What a policy retries where there is no hook: a request that failed, and a status it names.\<close>

definition retry_worthy ::
  "('w, 'r, 'v, 'f, 'e) retry_world \<Rightarrow> ('f, 'e) RetryPolicy \<Rightarrow> send_error + 'r \<Rightarrow> bool" where
  "retry_worthy W p res \<longleftrightarrow> (case res of Inl _ \<Rightarrow> True | Inr r \<Rightarrow> ShouldRetryStatus p (hw_status W r))"

abbreviation worth_retry :: "('w, 'r, 'v, 'f, 'e) retry_call \<Rightarrow> send_error + 'r \<Rightarrow> bool" where
  "worth_retry C \<equiv> retry_worthy (rc_world C) (rc_policy C)"

lemma decide_return:
  assumes "decide C attempt res h w evs = Return out h' w' evs'"
  shows "results evs' = results evs \<and>
         (out = finish res \<and> (rp_OnResponse (rc_policy C) = None \<longrightarrow> \<not> worth_retry C res) \<or>
          rp_OnResponse (rc_policy C) \<noteq> None)"
  using assms
  by (auto simp: decide_def retry_worthy_def Let_def split: option.splits sum.splits prod.splits onResponseDecision.splits if_splits)

lemma decide_next:
  assumes "decide C attempt res h w evs = Again n res' h' w' evs'"
  shows "n = attempt + 1 \<and> res' = res \<and> results evs' = results evs \<and>
           (rp_OnResponse (rc_policy C) = None \<longrightarrow> worth_retry C res) \<or>
         n = attempt + 2 \<and> results evs' = results evs @ [res'] \<and> rp_OnResponse (rc_policy C) \<noteq> None"
  using assms
  by (auto simp: decide_def retry_worthy_def Let_def split: option.splits sum.splits prod.splits onResponseDecision.splits if_splits)

lemma turn_return:
  assumes "loop_turn C attempt prev h w = Return out h' w' evs"
  shows "results evs = [] \<and> out = Inl Cancelled \<and> prev \<noteq> None \<or>
         (\<exists>res. results evs = [res] \<and>
            (out = finish res \<and> (rp_OnResponse (rc_policy C) = None \<longrightarrow>
               \<not> worth_retry C res \<or> attempt = rc_maxAttempts C \<or> \<not> rc_retryable C) \<or>
             rp_OnResponse (rc_policy C) \<noteq> None \<and> rc_retryable C))"
  using assms
  by (auto simp: loop_turn_def pause_for_def Let_def dest!: decide_return split: prod.splits if_splits option.splits)

lemma turn_next:
  assumes "loop_turn C attempt prev h w = Again n res h' w' evs"
  shows "attempt \<noteq> rc_maxAttempts C \<and> rc_retryable C \<and>
         (n = attempt + 1 \<and> results evs = [res] \<and> (rp_OnResponse (rc_policy C) = None \<longrightarrow> worth_retry C res) \<or>
          n = attempt + 2 \<and> length (results evs) = 2 \<and> rp_OnResponse (rc_policy C) \<noteq> None)"
  using assms
  by (auto simp: loop_turn_def Let_def dest!: decide_next split: prod.splits if_splits)

lemma loop_bound:
  assumes "retry_loop C attempt prev h w = (out, h', w', evs)" and "attempt \<le> rc_maxAttempts C + 1"
  shows "int (length (results evs)) \<le> rc_maxAttempts C + 1 - attempt"
  using assms
proof (induction C attempt prev h w arbitrary: evs rule: retry_loop.induct)
  case (1 C attempt prev h w)
  show ?case
  proof (cases "rc_maxAttempts C < attempt")
    case True
    then show ?thesis using 1(2,3) by (simp add: retry_loop.simps)
  next
    case False
    show ?thesis
    proof (cases "loop_turn C attempt prev h w")
      case (Return out1 h1 w1 evs1)
      then show ?thesis using 1(2) False turn_return[OF Return] by (auto simp: retry_loop.simps[of C attempt])
    next
      case (Again n res h1 w1 evs1)
      obtain evs2 where rest: "retry_loop C n (Some res) h1 w1 = (out, h', w', evs2)" and evs: "evs = evs1 @ evs2"
        using 1(2) False Again by (auto simp: retry_loop.simps[of C attempt] split: prod.splits)
      have "int (length (results evs2)) \<le> rc_maxAttempts C + 1 - n"
        using 1(1)[OF False Again rest] turn_next[OF Again] False by auto
      then show ?thesis using evs turn_next[OF Again] by auto
    qed
  qed
qed

text \<open>C26: A request is attempted at least once and at most as often as the policy says, the attempts made for
  the hook included; a method that is not safe to repeat is attempted exactly once unless the policy allows
  more.\<close>

theorem retry_bounds:
  assumes "runRetryLoop W marks m hdrs opts p h w = (out, h', w', evs)"
  shows "1 \<le> length (results evs) \<and> int (length (results evs)) \<le> max 1 (rp_MaxAttempts p) \<and>
         (m \<notin> {''GET'', ''HEAD'', ''OPTIONS'', ''PUT'', ''DELETE''} \<and> \<not> rp_AllowNonIdempotent p \<longrightarrow>
            length (results evs) = 1)"
proof -
  define C where "C = \<lparr>rc_world = W, rc_policy = p, rc_retryable = MethodRetryable p m, rc_marks = marks, rc_opts = opts,
    rc_hdrs = hdrs, rc_maxAttempts = (if rp_MaxAttempts p < 1 then 1 else rp_MaxAttempts p)\<rparr>"
  have run: "retry_loop C 1 None h w = (out, h', w', evs)" using assms by (simp add: runRetryLoop_def C_def)
  have mx: "rc_maxAttempts C = max 1 (rp_MaxAttempts p)" by (auto simp: C_def)
  then have upper: "int (length (results evs)) \<le> max 1 (rp_MaxAttempts p)" using loop_bound[OF run] by simp
  show ?thesis
  proof (cases "loop_turn C 1 None h w")
    case (Return out1 h1 w1 evs1)
    then have "evs = evs1" using run mx by (simp add: retry_loop.simps)
    then show ?thesis using upper turn_return[OF Return] by auto
  next
    case (Again n res h1 w1 evs1)
    then obtain evs2 where "evs = evs1 @ evs2" using run mx by (auto simp: retry_loop.simps[of C 1] split: prod.splits)
    then show ?thesis using upper turn_next[OF Again] by (auto simp: C_def MethodRetryable_def)
  qed
qed



section \<open>Options of a call\<close>

text \<open>\<open>ParseRetryPolicyFromValue\<close>, attribute by attribute: each keeps the policy when it is not given.\<close>

definition with_attr ::
  "('w, 'r, 'v, 'f, 'z) http_world_scheme \<Rightarrow> (string \<rightharpoonup> 'v) \<Rightarrow> string \<Rightarrow> ('v \<Rightarrow> 'p \<Rightarrow> string + 'p) \<Rightarrow> string + 'p \<Rightarrow> string + 'p" where
  "with_attr W attrs k f acc =
     (case acc of
        Inl e \<Rightarrow> Inl e
      | Inr p \<Rightarrow> (case set_attr W attrs k of None \<Rightarrow> Inr p | Some v \<Rightarrow> f v p))"

definition bool_attr ::
  "('w, 'r, 'v, 'f, 'z) http_world_scheme \<Rightarrow> string \<Rightarrow> (bool \<Rightarrow> 'p \<Rightarrow> 'p) \<Rightarrow> 'v \<Rightarrow> 'p \<Rightarrow> string + 'p" where
  "bool_attr W k upd v p = (case va_view W v of VaBool b \<Rightarrow> Inr (upd b p) | _ \<Rightarrow> Inl (k @ '' must be a bool''))"

definition duration_attr ::
  "('w, 'r, 'v, 'f, 'z) http_world_scheme \<Rightarrow> string \<Rightarrow> (duration \<Rightarrow> 'p \<Rightarrow> 'p) \<Rightarrow> 'v \<Rightarrow> 'p \<Rightarrow> string + 'p" where
  "duration_attr W k upd v p =
     (case ParseDurationFromValue W v of Inl e \<Rightarrow> Inl (k @ '': '' @ e) | Inr d \<Rightarrow> Inr (upd d p))"

definition max_attempts_attr ::
  "('w, 'r, 'v, 'f, 'z) http_world_scheme \<Rightarrow> 'v \<Rightarrow> ('f, 'e) RetryPolicy \<Rightarrow> string + ('f, 'e) RetryPolicy" where
  "max_attempts_attr W v p =
     (case va_view W v of
        VaNumber n _ \<Rightarrow> if n < 1 then Inl ''max_attempts must be >= 1'' else Inr (p\<lparr>rp_MaxAttempts := n\<rparr>)
      | _ \<Rightarrow> Inl ''max_attempts must be a number'')"

definition backoff_factor_attr ::
  "('w, 'r, 'v, 'f, 'z) http_world_scheme \<Rightarrow> 'v \<Rightarrow> ('f, 'e) RetryPolicy \<Rightarrow> string + ('f, 'e) RetryPolicy" where
  "backoff_factor_attr W v p =
     (case va_view W v of
        VaNumber _ f \<Rightarrow>
          if f_lt (va_float W) f (f_of_int (va_float W) 1) then Inl ''backoff_factor must be >= 1.0''
          else Inr (p\<lparr>rp_BackoffFactor := f\<rparr>)
      | _ \<Rightarrow> Inl ''backoff_factor must be a number'')"

fun status_list :: "('w, 'r, 'v, 'f, 'z) http_world_scheme \<Rightarrow> 'v list \<Rightarrow> int list option" where
  "status_list W [] = Some []"
| "status_list W (v # vs) =
     (case va_view W v of VaNumber n _ \<Rightarrow> map_option (\<lambda>ns. n # ns) (status_list W vs) | _ \<Rightarrow> None)"

definition retry_on_attr ::
  "('w, 'r, 'v, 'f, 'z) http_world_scheme \<Rightarrow> 'v \<Rightarrow> ('f, 'e) RetryPolicy \<Rightarrow> string + ('f, 'e) RetryPolicy" where
  "retry_on_attr W v p =
     (case va_view W v of
        VaList vs \<Rightarrow>
          (case status_list W vs of
             None \<Rightarrow> Inl ''retry_on values must be numbers''
           | Some ns \<Rightarrow> Inr (p\<lparr>rp_RetryOn := ns\<rparr>))
      | _ \<Rightarrow> Inl ''retry_on must be a list of numbers'')"

definition ParseRetryPolicyFromValue ::
  "('w, 'r, 'v, 'f, 'z) http_world_scheme \<Rightarrow> 'v \<Rightarrow> string + ('f, 'e) RetryPolicy" where
  "ParseRetryPolicyFromValue W val =
     (let p = retryEnabledDefaults (va_float W)
      in case va_view W val of
           VaNull \<Rightarrow> Inr p
         | VaObject attrs \<Rightarrow>
             with_attr W attrs ''allow_non_idempotent'' (bool_attr W ''allow_non_idempotent'' (\<lambda>b q. q\<lparr>rp_AllowNonIdempotent := b\<rparr>))
             (with_attr W attrs ''respect_retry_after'' (bool_attr W ''respect_retry_after'' (\<lambda>b q. q\<lparr>rp_RespectRetryAfter := b\<rparr>))
             (with_attr W attrs ''retry_on'' (retry_on_attr W)
             (with_attr W attrs ''jitter'' (bool_attr W ''jitter'' (\<lambda>b q. q\<lparr>rp_Jitter := b\<rparr>))
             (with_attr W attrs ''backoff_factor'' (backoff_factor_attr W)
             (with_attr W attrs ''max_delay'' (duration_attr W ''max_delay'' (\<lambda>d q. q\<lparr>rp_MaxDelay := d\<rparr>))
             (with_attr W attrs ''initial_delay'' (duration_attr W ''initial_delay'' (\<lambda>d q. q\<lparr>rp_InitialDelay := d\<rparr>))
             (with_attr W attrs ''max_attempts'' (max_attempts_attr W) (Inr p))))))))
         | _ \<Rightarrow> Inl ''retry override must be an object or map'')"

text \<open>\<open>parseRetryOpt\<close>: disabled, or a policy of its own.\<close>

definition parseRetryOpt ::
  "('w, 'r, 'v, 'f, 'z) http_world_scheme \<Rightarrow> 'v \<Rightarrow> string + (bool \<times> ('f, 'e) RetryPolicy option)" where
  "parseRetryOpt W val =
     (case va_view W val of
        VaBool b \<Rightarrow> if b then Inl ''opts.retry = true is not supported'' else Inr (True, None)
      | _ \<Rightarrow> (case ParseRetryPolicyFromValue W val of Inl e \<Rightarrow> Inl e | Inr p \<Rightarrow> Inr (False, Some p)))"

definition noRetryFromBase :: "('f, 'e) RetryPolicy \<Rightarrow> ('f, 'e) RetryPolicy" where
  "noRetryFromBase p = p\<lparr>rp_MaxAttempts := 1\<rparr>"

text \<open>The policy of a call, as \<open>doHTTPRequest\<close> picks it.\<close>

definition effectiveRetry :: "('f, 'e) RetryPolicy \<Rightarrow> bool \<Rightarrow> ('f, 'e) RetryPolicy option \<Rightarrow> ('f, 'e) RetryPolicy" where
  "effectiveRetry base disabled override =
     (if disabled then noRetryFromBase base else case override of None \<Rightarrow> base | Some p \<Rightarrow> p)"

definition sound_policy :: "'f float64 \<Rightarrow> ('f, 'e) RetryPolicy \<Rightarrow> bool" where
  "sound_policy F p \<longleftrightarrow> 1 \<le> rp_MaxAttempts p \<and> \<not> f_lt F (rp_BackoffFactor p) (f_of_int F 1)"

lemma set_duration_sound:
  assumes "set_duration pd e upd p = Inr p'" and "sound_policy F p" and "\<And>d q. sound_policy F q \<Longrightarrow> sound_policy F (upd d q)"
  shows "sound_policy F p'"
  using assms by (auto simp: set_duration_def Let_def split: option.splits prod.splits if_splits)

lemma set_duration_error: "set_duration pd e upd p = Inl (q, ds) \<Longrightarrow> HasErrors ds"
  by (auto simp: set_duration_def Let_def split: option.splits prod.splits if_splits)

lemma parse_block_sound:
  fixes F :: "'f float64" and p :: "('f, 'e) RetryPolicy"
  assumes "parseRetryBlock F pd b = (p, ds)" and "\<not> HasErrors ds" and two: "\<not> f_lt F (f_of_int F 2) (f_of_int F 1)"
  shows "sound_policy F p"
proof (cases b)
  case None
  then show ?thesis using assms by (auto simp: parseRetryBlock_def noRetryPolicy_def sound_policy_def)
next
  case (Some rb)
  let ?p = "retryEnabledDefaults F :: ('f, 'e) RetryPolicy"
  let ?p1 = "case rb_MaxAttempts rb of None \<Rightarrow> ?p | Some n \<Rightarrow> ?p\<lparr>rp_MaxAttempts := n\<rparr>"
  have mx: "\<not> (case rb_MaxAttempts rb of None \<Rightarrow> False | Some n \<Rightarrow> n < 1)"
    using assms(1,2) Some by (auto simp: parseRetryBlock_def Let_def split: if_splits)
  then have 1: "sound_policy F ?p1"
    using two by (auto simp: retryEnabledDefaults_def noRetryPolicy_def sound_policy_def split: option.splits)
  let ?s2 = "set_duration pd (rb_InitialDelay rb) (\<lambda>d q. q\<lparr>rp_InitialDelay := d\<rparr>) ?p1"
  obtain p2 where p2: "?s2 = Inr p2"
  proof (cases ?s2)
    case (Inl r)
    then have "r = (p, ds)" using assms(1) Some mx by (simp add: parseRetryBlock_def)
    from set_duration_error[OF Inl[unfolded this]] assms(2) show thesis by simp
  qed (rule that)
  let ?s3 = "set_duration pd (rb_MaxDelay rb) (\<lambda>d q. q\<lparr>rp_MaxDelay := d\<rparr>) p2"
  obtain p3 where p3: "?s3 = Inr p3"
  proof (cases ?s3)
    case (Inl r)
    then have "r = (p, ds)" using assms(1) Some mx p2 by (simp add: parseRetryBlock_def)
    from set_duration_error[OF Inl[unfolded this]] assms(2) show thesis by simp
  qed (rule that)
  have "sound_policy F p3"
    using set_duration_sound[OF p3 set_duration_sound[OF p2 1]] by (simp add: sound_policy_def)
  then show ?thesis using assms(1,2) Some mx p2 p3
    by (auto simp: parseRetryBlock_def Let_def sound_policy_def split: if_splits option.splits)
qed

lemma with_attr_keeps:
  assumes "with_attr W attrs k f acc = Inr p'" and "\<And>p. acc = Inr p \<Longrightarrow> Q p" and "\<And>v p p'. Q p \<Longrightarrow> f v p = Inr p' \<Longrightarrow> Q p'"
  shows "Q p'"
  using assms by (auto simp: with_attr_def split: sum.splits option.splits)

lemma attr_sound:
  assumes "sound_policy (va_float W) p"
  shows "max_attempts_attr W v p = Inr p' \<Longrightarrow> sound_policy (va_float W) p'"
    and "backoff_factor_attr W v p = Inr p' \<Longrightarrow> sound_policy (va_float W) p'"
    and "retry_on_attr W v p = Inr p' \<Longrightarrow> sound_policy (va_float W) p'"
    and "bool_attr W k (\<lambda>b q. q\<lparr>rp_Jitter := b\<rparr>) v p = Inr p' \<Longrightarrow> sound_policy (va_float W) p'"
    and "bool_attr W k (\<lambda>b q. q\<lparr>rp_RespectRetryAfter := b\<rparr>) v p = Inr p' \<Longrightarrow> sound_policy (va_float W) p'"
    and "bool_attr W k (\<lambda>b q. q\<lparr>rp_AllowNonIdempotent := b\<rparr>) v p = Inr p' \<Longrightarrow> sound_policy (va_float W) p'"
    and "duration_attr W k (\<lambda>d q. q\<lparr>rp_InitialDelay := d\<rparr>) v p = Inr p' \<Longrightarrow> sound_policy (va_float W) p'"
    and "duration_attr W k (\<lambda>d q. q\<lparr>rp_MaxDelay := d\<rparr>) v p = Inr p' \<Longrightarrow> sound_policy (va_float W) p'"
  using assms
  by (auto simp: sound_policy_def max_attempts_attr_def backoff_factor_attr_def retry_on_attr_def bool_attr_def duration_attr_def
      split: value_view.splits if_splits option.splits sum.splits)

lemma parse_value_sound:
  assumes "ParseRetryPolicyFromValue W v = Inr p" and "\<not> f_lt (va_float W) (f_of_int (va_float W) 2) (f_of_int (va_float W) 1)"
  shows "sound_policy (va_float W) p"
proof -
  have 0: "sound_policy (va_float W) (retryEnabledDefaults (va_float W))"
    using assms(2) by (simp add: sound_policy_def retryEnabledDefaults_def noRetryPolicy_def)
  show ?thesis
  proof (cases "va_view W v")
    case (VaObject attrs)
    note p = assms(1)[unfolded ParseRetryPolicyFromValue_def Let_def VaObject value_view.case]
    show ?thesis
      by (rule p[THEN with_attr_keeps], (erule with_attr_keeps)+) (auto intro: 0 attr_sound)
  qed (use assms(1) 0 in \<open>auto simp: ParseRetryPolicyFromValue_def\<close>)
qed

lemma parse_opt_cases:
  "parseRetryOpt W v = Inr (disabled, override) \<Longrightarrow>
     disabled \<or> (\<exists>p. override = Some p \<and> ParseRetryPolicyFromValue W v = Inr p)"
  by (auto simp: parseRetryOpt_def split: value_view.splits if_splits sum.splits)

text \<open>Every policy a call can run under, from a block without errors, from the options of a call, or none at
  all, has at least one attempt and never shrinks its waits.\<close>

theorem retry_policy_sound:
  assumes "\<not> f_lt (va_float W) (f_of_int (va_float W) 2) (f_of_int (va_float W) 1)"
    and "parseRetryBlock (va_float W) pd block = (base, ds)" and "\<not> HasErrors ds"
    and "(disabled, override) = (False, None) \<or> parseRetryOpt W v = Inr (disabled, override)"
  shows "sound_policy (va_float W) (effectiveRetry base disabled override)"
proof -
  have base: "sound_policy (va_float W) base" using parse_block_sound[OF assms(2,3,1)] .
  consider "disabled" | "\<not> disabled" "override = None" | p where "\<not> disabled" "override = Some p" "ParseRetryPolicyFromValue W v = Inr p"
    using assms(4) parse_opt_cases[of W v disabled override] by (cases override) auto
  then show ?thesis
    using base parse_value_sound[OF _ assms(1)]
    by cases (simp_all add: effectiveRetry_def noRetryFromBase_def sound_policy_def)
qed

section \<open>The length of a wait\<close>

text \<open>What the wait needs of floating point: a value that is not above the float of a duration that floats
  represent exactly converts to no more than it, and a factor below one does not lift it above.\<close>

definition float_laws :: "'f float64 \<Rightarrow> ('f \<Rightarrow> bool) \<Rightarrow> bool" where
  "float_laws F unit \<longleftrightarrow>
     (\<forall>d x. 0 \<le> d \<and> d \<le> 2 ^ 53 \<and> \<not> f_lt F (f_of_int F d) x \<longrightarrow> f_to_int F x \<le> d) \<and>
     (\<forall>d. \<not> f_lt F (f_of_int F d) (f_of_int F d)) \<and>
     (\<forall>d x y. 0 \<le> d \<and> unit y \<and> \<not> f_lt F (f_of_int F d) x \<longrightarrow> \<not> f_lt F (f_of_int F d) (f_mul F y x))"

text \<open>The computed wait before a retry never exceeds \<open>max_delay\<close>, whatever the number of the attempt and the
  jitter.\<close>

theorem delay_capped:
  assumes "float_laws (va_float W) unit" and "\<forall>v. unit (fst (rw_rand W v))"
    and "0 \<le> rp_MaxDelay p" and "rp_MaxDelay p \<le> 2 ^ 53"
  shows "fst (Delay W p attempt w) \<le> rp_MaxDelay p"
proof (cases "attempt \<le> 1")
  case True
  then show ?thesis using assms(3) by (simp add: Delay_def)
next
  case False
  let ?F = "va_float W"
  let ?mx = "f_of_int ?F (rp_MaxDelay p)"
  define base where "base = f_mul ?F (f_of_int ?F (rp_InitialDelay p)) (f_pow ?F (rp_BackoffFactor p) (f_of_int ?F (attempt - 2)))"
  define base1 where "base1 = (if f_lt ?F ?mx base then ?mx else base)"
  have low: "\<not> f_lt ?F ?mx base1" using assms(1) by (simp add: base1_def float_laws_def)
  then have "\<not> f_lt ?F ?mx (f_mul ?F (fst (rw_rand W w)) base1)"
    using assms(1-3) by (simp add: float_laws_def)
  then have "f_to_int ?F base1 \<le> rp_MaxDelay p" "f_to_int ?F (f_mul ?F (fst (rw_rand W w)) base1) \<le> rp_MaxDelay p"
    using low assms(1,3,4) by (auto simp: float_laws_def)
  moreover have "fst (Delay W p attempt w) =
      f_to_int ?F (if rp_Jitter p then f_mul ?F (fst (rw_rand W w)) base1 else base1)"
    using False by (simp add: Delay_def Let_def base_def base1_def case_prod_beta)
  ultimately show ?thesis by simp
qed

section \<open>Examples\<close>

text \<open>A world that answers with the statuses of a list and in which every wait comes to its end. The expression
  of the hook waits one second after a 429.\<close>

definition script :: "(int list, int, int option, int, unit) retry_world" where
  "script = \<lparr>va_float = whole, va_view = (\<lambda>v. case v of None \<Rightarrow> VaNull | Some n \<Rightarrow> VaNumber n n),
     va_duration = (\<lambda>_. None), hw_time = (\<lambda>_. None), hw_now = (\<lambda>_. 0),
     hw_send = (\<lambda>_ w. case w of [] \<Rightarrow> (Inl ''no route'', []) | s # ss \<Rightarrow> (Inr s, ss)),
     hw_status = id, hw_auth_expr = (\<lambda>_ _ w. (Inl ''no credentials'', w)),
     rw_sleep = (\<lambda>_ w. (True, w)), rw_rand = (\<lambda>w. (0, w)),
     rw_hook = (\<lambda>_ r _ w. (Inr (if r = 429 then Some 1 else None), w)),
     rw_header = (\<lambda>_ _. []), rw_ParseTime = (\<lambda>_. None)\<rparr>"

definition script_run :: "(int, unit) RetryPolicy \<Rightarrow> string \<Rightarrow> int list \<Rightarrow> (http_error + int) \<times> (send_error + int) list" where
  "script_run p m statuses =
     (case runRetryLoop script {} m Map.empty no_opts p None statuses of (out, _, _, evs) \<Rightarrow> (out, results evs))"

lemmas script_simps = script_run_def runRetryLoop_def retry_loop.simps loop_turn_def decide_def send_attempt_def
  retry_delay_def Delay_def pause_for_def evalOnResponse_def RetryAfterApplies_def ParseRetryAfter_def ShouldRetryStatus_def
  MethodRetryable_def finish_def retryEnabledDefaults_def noRetryPolicy_def defaultRetryOnSet_def
  script_def whole_def no_opts_def sendOnceWithAuth_def resolveAuthForSend_def header_get_def put_auth_def in_scope_def
  millisecond_def second_def

text \<open>After a wait the hook asked for, the answer of the retry is not looked at: a success is thrown away and the
  request is sent again.\<close>

lemma hook_retry_discards_success:
  "script_run ((retryEnabledDefaults whole)\<lparr>rp_OnResponse := Some ()\<rparr>) ''GET'' [429, 200, 500] =
     (Inr 500, [Inr 429, Inr 200, Inr 500])"
  by (simp add: script_simps)

theorem retry_bounds_witness:
  "length (snd (script_run (retryEnabledDefaults whole) ''POST'' [503, 200])) = 1"
proof -
  obtain out h w evs where run: "runRetryLoop script {} ''POST'' Map.empty no_opts (retryEnabledDefaults whole) None [503, 200] = (out, h, w, evs)"
    by (metis prod_cases4)
  then show ?thesis using retry_bounds[OF run] by (simp add: script_run_def retryEnabledDefaults_def noRetryPolicy_def)
qed


theorem retry_policy_sound_witness:
  "sound_policy whole (effectiveRetry (noRetryPolicy whole :: (int, unit) RetryPolicy) False (Some (retryEnabledDefaults whole)))"
  using retry_policy_sound[of script "\<lambda>_. (0, [])" None "noRetryPolicy whole :: (int, unit) RetryPolicy" "[]" False
      "Some (retryEnabledDefaults whole)" None]
  by (simp add: script_def whole_def parseRetryBlock_def parseRetryOpt_def ParseRetryPolicyFromValue_def)

theorem delay_capped_witness: "fst (Delay script (retryEnabledDefaults whole) 9 []) \<le> 30 * second"
proof -
  have "float_laws (va_float script) (\<lambda>x. x = 0)" by (auto simp: float_laws_def script_def whole_def)
  from delay_capped[OF this, of "retryEnabledDefaults whole" 9 "[]"] show ?thesis
    by (simp add: script_def retryEnabledDefaults_def noRetryPolicy_def second_def)
qed

end
