(* ===== verification/Http_Request.thy ===== *)
theory Http_Request
  imports Http_Retry "HOL-Library.AList"
begin

text \<open>
  What an HTTP function makes of its arguments (\<open>functions/http.go\<close>, \<open>clients/http/http.go\<close>,
  \<open>types/httpresponse.go\<close>): the URL with its query, the headers from their five sources, the body, the
  options of the call, the redirect rules, and the check of a status by \<open>http::must\<close>. Values of the
  configuration language are looked at through \<open>call_api\<close>, parsing and resolving a URL is Go's, the record
  \<open>url_api\<close>. A Go map is walked in an order of its own, so where the code walks one the model takes its
  entries as a list.
\<close>

section \<open>Header names and headers\<close>

definition ascii_between :: "nat \<Rightarrow> nat \<Rightarrow> char \<Rightarrow> bool" where
  "ascii_between a b c \<longleftrightarrow> a \<le> of_char c \<and> of_char c \<le> b"

definition token_char :: "char \<Rightarrow> bool" where
  "token_char c \<longleftrightarrow>
     ascii_between 48 57 c \<or> ascii_between 65 90 c \<or> ascii_between 97 122 c \<or>
     (of_char c :: nat) \<in> {33, 35, 36, 37, 38, 39, 42, 43, 45, 46, 94, 95, 96, 124, 126}"

definition ascii_upper :: "char \<Rightarrow> char" where
  "ascii_upper c = (if ascii_between 97 122 c then char_of (of_char c - 32 :: nat) else c)"

definition ascii_lower :: "char \<Rightarrow> char" where
  "ascii_lower c = (if ascii_between 65 90 c then char_of (of_char c + 32 :: nat) else c)"

fun canon_chars :: "bool \<Rightarrow> string \<Rightarrow> string" where
  "canon_chars upper [] = []"
| "canon_chars upper (c # cs) =
     (let d = (if upper then ascii_upper c else ascii_lower c) in d # canon_chars (d = CHR ''-'') cs)"

definition CanonicalMIMEHeaderKey :: "string \<Rightarrow> string" where
  "CanonicalMIMEHeaderKey s = (if list_all token_char s then canon_chars True s else s)"

definition header_Set :: "headers \<Rightarrow> string \<Rightarrow> string \<Rightarrow> headers" where
  "header_Set h k v = h(CanonicalMIMEHeaderKey k \<mapsto> [v])"

definition header_Add :: "headers \<Rightarrow> string \<Rightarrow> string \<Rightarrow> headers" where
  "header_Add h k v =
     (let k' = CanonicalMIMEHeaderKey k
      in h(k' \<mapsto> (case h k' of None \<Rightarrow> [] | Some vs \<Rightarrow> vs) @ [v]))"

definition header_Del :: "headers \<Rightarrow> string \<Rightarrow> headers" where
  "header_Del h k = h(CanonicalMIMEHeaderKey k := None)"

section \<open>Values\<close>

text \<open>\<open>ca_entries\<close> are the entries of an object or map in the order they are walked, \<open>ca_is_map\<close> and
  \<open>ca_set\<close> tell maps and sets apart, \<open>ca_text\<close> prints a number, \<open>ca_bytes\<close> gives the data and the content
  type of a bytes value, and \<open>ca_json\<close> encodes.\<close>

record ('w, 'r, 'v, 'f) call_api = "('w, 'r, 'v, 'f) http_world" +
  ca_entries :: "'v \<Rightarrow> (string \<times> 'v) list"
  ca_is_map :: "'v \<Rightarrow> bool"
  ca_set :: "'v \<Rightarrow> 'v list option"
  ca_text :: "'v \<Rightarrow> string"
  ca_bytes :: "'v \<Rightarrow> (string \<times> string) option"
  ca_json :: "'v \<Rightarrow> string + string"

fun string_list :: "('w, 'r, 'v, 'f, 'z) http_world_scheme \<Rightarrow> 'v list \<Rightarrow> string list option" where
  "string_list W [] = Some []"
| "string_list W (v # vs) =
     (case va_view W v of VaString s \<Rightarrow> map_option (\<lambda>ss. s # ss) (string_list W vs) | _ \<Rightarrow> None)"

section \<open>Headers\<close>

text \<open>The headers of a client block, into the headers there are.\<close>

fun apply_entries ::
  "('w, 'r, 'v, 'f, 'z) call_api_scheme \<Rightarrow> (string \<times> 'v) list \<Rightarrow> headers \<Rightarrow> string + headers" where
  "apply_entries W [] h = Inr h"
| "apply_entries W ((name, elem) # es) h =
     (let canonical = CanonicalMIMEHeaderKey name
      in case va_view W elem of
           VaNull \<Rightarrow> apply_entries W es (header_Del h canonical)
         | VaString s \<Rightarrow> apply_entries W es (header_Add h canonical s)
         | VaList vs \<Rightarrow>
             (case string_list W vs of
                None \<Rightarrow> Inl ''header list values must be strings''
              | Some ss \<Rightarrow> apply_entries W es (fold (\<lambda>s g. header_Add g canonical s) ss h))
         | _ \<Rightarrow> Inl ''header value must be a string or list of strings'')"

definition applyHeadersToHeader ::
  "('w, 'r, 'v, 'f, 'z) call_api_scheme \<Rightarrow> headers \<Rightarrow> 'v \<Rightarrow> string + headers" where
  "applyHeadersToHeader W h val =
     (case va_view W val of
        VaNull \<Rightarrow> Inr h
      | VaObject _ \<Rightarrow> apply_entries W (ca_entries W val) h
      | _ \<Rightarrow> Inl ''headers must be a map or object'')"

text \<open>The default headers of a client, with the shorthand for the user agent.\<close>

definition client_headers ::
  "('w, 'r, 'v, 'f, 'z) call_api_scheme \<Rightarrow> 'v option \<Rightarrow> string \<Rightarrow> string + headers" where
  "client_headers W val userAgent =
     (case (case val of None \<Rightarrow> Inr Map.empty | Some v \<Rightarrow> applyHeadersToHeader W Map.empty v) of
        Inl e \<Rightarrow> Inl e
      | Inr h \<Rightarrow>
          Inr (if userAgent \<noteq> [] \<and> header_get h ''User-Agent'' = [] then header_Set h ''User-Agent'' userAgent
               else h))"

text \<open>The headers of a call: an entry without values stands for a deletion.\<close>

type_synonym call_headers = "(string \<times> string list option) list"

fun call_header_entries ::
  "('w, 'r, 'v, 'f, 'z) call_api_scheme \<Rightarrow> (string \<times> 'v) list \<Rightarrow> call_headers \<Rightarrow> string + call_headers" where
  "call_header_entries W [] out = Inr out"
| "call_header_entries W ((name, elem) # es) out =
     (let canonical = CanonicalMIMEHeaderKey name
      in case va_view W elem of
           VaNull \<Rightarrow> call_header_entries W es (AList.update canonical None out)
         | VaString s \<Rightarrow> call_header_entries W es (AList.update canonical (Some [s]) out)
         | VaList vs \<Rightarrow>
             (case string_list W vs of
                None \<Rightarrow> Inl ''header list values must be strings''
              | Some ss \<Rightarrow> call_header_entries W es (AList.update canonical (Some ss) out))
         | _ \<Rightarrow> Inl ''header value must be a string or list of strings'')"

definition parsePerCallHeaders ::
  "('w, 'r, 'v, 'f, 'z) call_api_scheme \<Rightarrow> 'v \<Rightarrow> string + call_headers" where
  "parsePerCallHeaders W val =
     (case va_view W val of
        VaObject _ \<Rightarrow> call_header_entries W (ca_entries W val) []
      | _ \<Rightarrow> Inl ''must be a map or object'')"

fun put_call_headers :: "call_headers \<Rightarrow> headers \<Rightarrow> headers" where
  "put_call_headers [] h = h"
| "put_call_headers ((name, vals) # rest) h =
     (let canonical = CanonicalMIMEHeaderKey name; h1 = header_Del h canonical
      in put_call_headers rest
           (case vals of None \<Rightarrow> h1 | Some vs \<Rightarrow> fold (\<lambda>v g. header_Add g canonical v) vs h1))"

definition buildRequestHeaders :: "headers \<Rightarrow> string \<Rightarrow> bool \<Rightarrow> call_headers \<Rightarrow> headers" where
  "buildRequestHeaders defaults bodyContentType isBytesBody perCall =
     (let h1 = header_Set (header_Set Map.empty ''User-Agent'' ''vinculum'') ''Accept'' ''*/*'';
          h2 = (if bodyContentType \<noteq> [] \<and> \<not> isBytesBody then header_Set h1 ''Content-Type'' bodyContentType
                else h1);
          h3 = h2 ++ defaults;
          h4 = (if isBytesBody \<and> bodyContentType \<noteq> [] then header_Set h3 ''Content-Type'' bodyContentType
                else h3)
      in put_call_headers perCall h4)"

section \<open>Cookies and query parameters\<close>

record cookie =
  ck_Name :: string
  ck_Value :: string
  ck_Path :: string
  ck_Domain :: string
  ck_Secure :: bool
  ck_HttpOnly :: bool

definition simple_cookie :: "string \<Rightarrow> string \<Rightarrow> cookie" where
  "simple_cookie n v =
     \<lparr>ck_Name = n, ck_Value = v, ck_Path = [], ck_Domain = [], ck_Secure = False, ck_HttpOnly = False\<rparr>"

fun cookie_pairs ::
  "('w, 'r, 'v, 'f, 'z) call_api_scheme \<Rightarrow> (string \<times> 'v) list \<Rightarrow> string + cookie list" where
  "cookie_pairs W [] = Inr []"
| "cookie_pairs W ((name, elem) # es) =
     (case va_view W elem of
        VaNull \<Rightarrow> cookie_pairs W es
      | VaString s \<Rightarrow> map_sum id (\<lambda>cs. simple_cookie name s # cs) (cookie_pairs W es)
      | _ \<Rightarrow> Inl ''cookie value must be a string'')"

definition string_attr :: "('w, 'r, 'v, 'f, 'z) call_api_scheme \<Rightarrow> 'v option \<Rightarrow> string" where
  "string_attr W v = (case map_option (va_view W) v of Some (VaString s) \<Rightarrow> s | _ \<Rightarrow> [])"

definition flag_attr :: "('w, 'r, 'v, 'f, 'z) call_api_scheme \<Rightarrow> 'v option \<Rightarrow> bool" where
  "flag_attr W v = (case map_option (va_view W) v of Some (VaBool b) \<Rightarrow> b | _ \<Rightarrow> False)"

text \<open>Asking a map for an attribute panics, which the caller of the function turns into an error.\<close>

definition cookieFromObject ::
  "('w, 'r, 'v, 'f, 'z) call_api_scheme \<Rightarrow> 'v \<Rightarrow> string + cookie" where
  "cookieFromObject W val =
     (case va_view W val of
        VaObject attrs \<Rightarrow>
          if ca_is_map W val then Inl ''panic: HasAttribute on non-object Type''
          else (case (attrs ''name'', attrs ''value'') of
                  (Some n, Some v) \<Rightarrow>
                    (case va_view W n of
                       VaString name \<Rightarrow>
                         (case va_view W v of
                            VaString value \<Rightarrow>
                              Inr \<lparr>ck_Name = name, ck_Value = value, ck_Path = string_attr W (attrs ''path''),
                                   ck_Domain = string_attr W (attrs ''domain''),
                                   ck_Secure = flag_attr W (attrs ''secure''),
                                   ck_HttpOnly = flag_attr W (attrs ''http_only'')\<rparr>
                          | _ \<Rightarrow> Inl ''cookie value must be a non-null string'')
                     | _ \<Rightarrow> Inl ''cookie name must be a non-null string'')
                | _ \<Rightarrow> Inl ''cookie object must have name and value attributes'')
      | _ \<Rightarrow> Inl ''cookie list element must be an object'')"

fun cookie_list :: "('w, 'r, 'v, 'f, 'z) call_api_scheme \<Rightarrow> 'v list \<Rightarrow> string + cookie list" where
  "cookie_list W [] = Inr []"
| "cookie_list W (v # vs) =
     (if va_view W v = VaNull then cookie_list W vs
      else case cookieFromObject W v of
             Inl e \<Rightarrow> Inl e
           | Inr c \<Rightarrow> map_sum id (\<lambda>cs. c # cs) (cookie_list W vs))"

definition parsePerCallCookies ::
  "('w, 'r, 'v, 'f, 'z) call_api_scheme \<Rightarrow> 'v \<Rightarrow> string + cookie list" where
  "parsePerCallCookies W val =
     (case (va_view W val, ca_set W val) of
        (VaObject _, _) \<Rightarrow> cookie_pairs W (ca_entries W val)
      | (VaList vs, _) \<Rightarrow> cookie_list W vs
      | (_, Some vs) \<Rightarrow> cookie_list W vs
      | _ \<Rightarrow> Inl ''must be a map of strings or a list of cookie objects'')"

type_synonym query = "string \<rightharpoonup> string list"

definition query_add :: "string \<Rightarrow> string list \<Rightarrow> query \<Rightarrow> query" where
  "query_add k vs q = (if vs = [] then q else q(k \<mapsto> (case q k of None \<Rightarrow> [] | Some us \<Rightarrow> us) @ vs))"

definition query_text :: "('w, 'r, 'v, 'f, 'z) call_api_scheme \<Rightarrow> 'v \<Rightarrow> string option" where
  "query_text W v =
     (case va_view W v of
        VaString s \<Rightarrow> Some s
      | VaNumber _ _ \<Rightarrow> Some (ca_text W v)
      | VaBool b \<Rightarrow> Some (if b then ''true'' else ''false'')
      | _ \<Rightarrow> None)"

fun query_texts :: "('w, 'r, 'v, 'f, 'z) call_api_scheme \<Rightarrow> 'v list \<Rightarrow> string list option" where
  "query_texts W [] = Some []"
| "query_texts W (v # vs) =
     (if va_view W v = VaNull then query_texts W vs
      else case query_text W v of
             None \<Rightarrow> None
           | Some s \<Rightarrow> map_option (\<lambda>ss. s # ss) (query_texts W vs))"

fun query_entries ::
  "('w, 'r, 'v, 'f, 'z) call_api_scheme \<Rightarrow> (string \<times> 'v) list \<Rightarrow> query \<Rightarrow> string + query" where
  "query_entries W [] out = Inr out"
| "query_entries W ((name, elem) # es) out =
     (case va_view W elem of
        VaNull \<Rightarrow> query_entries W es out
      | VaList vs \<Rightarrow>
          (case query_texts W vs of
             None \<Rightarrow> Inl ''query list values must be strings, numbers, or bools''
           | Some ss \<Rightarrow> query_entries W es (query_add name ss out))
      | _ \<Rightarrow>
          (case query_text W elem of
             None \<Rightarrow> Inl ''query value must be a string, number, bool, or list thereof''
           | Some s \<Rightarrow> query_entries W es (query_add name [s] out)))"

definition parsePerCallQuery ::
  "('w, 'r, 'v, 'f, 'z) call_api_scheme \<Rightarrow> 'v \<Rightarrow> string + query" where
  "parsePerCallQuery W val =
     (case va_view W val of
        VaObject _ \<Rightarrow> query_entries W (ca_entries W val) Map.empty
      | _ \<Rightarrow> Inl ''must be a map or object'')"


section \<open>Options\<close>

text \<open>\<open>ho_timeout\<close>, \<open>ho_redirects\<close> (follow and the maximum) and \<open>ho_otel\<close> stand for the fields with the flags
  that say whether they were given.\<close>

record ('f, 'e) parsedHTTPOpts = http_auth_opts +
  ho_headers :: call_headers
  ho_query :: query
  ho_timeout :: "duration option"
  ho_redirects :: "(bool \<times> int) option"
  ho_retryDisabled :: bool
  ho_retryOverride :: "('f, 'e) RetryPolicy option"
  ho_cookies :: "cookie list"
  ho_otel :: "bool option"
  ho_as :: string
  ho_bodyLimit :: int

definition no_call_opts :: "('f, 'e) parsedHTTPOpts" where
  "no_call_opts =
     \<lparr>po_hasAuthOverride = False, po_authValueSet = False, po_authValue = [], ho_headers = [],
      ho_query = Map.empty, ho_timeout = None, ho_redirects = None, ho_retryDisabled = False,
      ho_retryOverride = None, ho_cookies = [], ho_otel = None, ho_as = ''none'', ho_bodyLimit = 0\<rparr>"

type_synonym ('f, 'e) opts_step = "('f, 'e) parsedHTTPOpts \<Rightarrow> string + ('f, 'e) parsedHTTPOpts"

definition retry_opt :: "('w, 'r, 'v, 'f, 'z) call_api_scheme \<Rightarrow> 'v \<Rightarrow> ('f, 'e) opts_step" where
  "retry_opt W v p =
     (case parseRetryOpt W v of
        Inl e \<Rightarrow> Inl (''opts.retry: '' @ e)
      | Inr (disabled, override) \<Rightarrow> Inr (p\<lparr>ho_retryDisabled := disabled, ho_retryOverride := override\<rparr>))"

text \<open>A null \<open>auth\<close> counts as given.\<close>

definition auth_opt :: "('w, 'r, 'v, 'f, 'z) call_api_scheme \<Rightarrow> (string \<rightharpoonup> 'v) \<Rightarrow> ('f, 'e) opts_step" where
  "auth_opt W attrs p =
     (case attrs ''auth'' of
        None \<Rightarrow> Inr p
      | Some v \<Rightarrow>
          (let p1 = p\<lparr>po_hasAuthOverride := True\<rparr>
           in case va_view W v of
                VaNull \<Rightarrow> Inr p1
              | VaString s \<Rightarrow> Inr (p1\<lparr>po_authValueSet := True, po_authValue := s\<rparr>)
              | _ \<Rightarrow> Inl ''opts.auth must be a string or null''))"

definition cookies_opt :: "('w, 'r, 'v, 'f, 'z) call_api_scheme \<Rightarrow> 'v \<Rightarrow> ('f, 'e) opts_step" where
  "cookies_opt W v p =
     (case parsePerCallCookies W v of
        Inl e \<Rightarrow> Inl (''opts.cookies: '' @ e) | Inr cs \<Rightarrow> Inr (p\<lparr>ho_cookies := cs\<rparr>))"

definition otel_opt :: "('w, 'r, 'v, 'f, 'z) call_api_scheme \<Rightarrow> 'v \<Rightarrow> ('f, 'e) opts_step" where
  "otel_opt W v p =
     (case va_view W v of
        VaObject m \<Rightarrow>
          (case set_attr W m ''propagate'' of
             None \<Rightarrow> Inr p
           | Some pv \<Rightarrow>
               (case va_view W pv of
                  VaBool b \<Rightarrow> Inr (p\<lparr>ho_otel := Some b\<rparr>)
                | _ \<Rightarrow> Inl ''opts.otel.propagate must be a bool''))
      | _ \<Rightarrow> Inl ''opts.otel must be an object'')"

definition headers_opt :: "('w, 'r, 'v, 'f, 'z) call_api_scheme \<Rightarrow> 'v \<Rightarrow> ('f, 'e) opts_step" where
  "headers_opt W v p =
     (case parsePerCallHeaders W v of
        Inl e \<Rightarrow> Inl (''opts.headers: '' @ e) | Inr h \<Rightarrow> Inr (p\<lparr>ho_headers := h\<rparr>))"

definition query_opt :: "('w, 'r, 'v, 'f, 'z) call_api_scheme \<Rightarrow> 'v \<Rightarrow> ('f, 'e) opts_step" where
  "query_opt W v p =
     (case parsePerCallQuery W v of
        Inl e \<Rightarrow> Inl (''opts.query: '' @ e) | Inr q \<Rightarrow> Inr (p\<lparr>ho_query := q\<rparr>))"

definition timeout_opt :: "('w, 'r, 'v, 'f, 'z) call_api_scheme \<Rightarrow> 'v \<Rightarrow> ('f, 'e) opts_step" where
  "timeout_opt W v p =
     (case ParseDurationFromValue W v of
        Inl e \<Rightarrow> Inl (''opts.timeout: '' @ e) | Inr d \<Rightarrow> Inr (p\<lparr>ho_timeout := Some d\<rparr>))"

definition follow_opt :: "('w, 'r, 'v, 'f, 'z) call_api_scheme \<Rightarrow> 'v \<Rightarrow> ('f, 'e) opts_step" where
  "follow_opt W v p =
     (case va_view W v of
        VaBool b \<Rightarrow> Inr (p\<lparr>ho_redirects := Some (b, 10)\<rparr>)
      | _ \<Rightarrow> Inl ''opts.follow_redirects must be a bool'')"

definition max_redirects_opt ::
  "('w, 'r, 'v, 'f, 'z) call_api_scheme \<Rightarrow> (string \<rightharpoonup> 'v) \<Rightarrow> 'v \<Rightarrow> ('f, 'e) opts_step" where
  "max_redirects_opt W attrs v p =
     (case va_view W v of
        VaNumber n _ \<Rightarrow>
          if n < 0 then Inl ''opts.max_redirects must be >= 0''
          else let follow = (if set_attr W attrs ''follow_redirects'' = None then True
                             else case ho_redirects p of Some (b, _) \<Rightarrow> b | None \<Rightarrow> False)
               in Inr (p\<lparr>ho_redirects := Some (follow, n)\<rparr>)
      | _ \<Rightarrow> Inl ''opts.max_redirects must be a number'')"

definition as_opt :: "('w, 'r, 'v, 'f, 'z) call_api_scheme \<Rightarrow> 'v \<Rightarrow> ('f, 'e) opts_step" where
  "as_opt W v p =
     (case va_view W v of
        VaString s \<Rightarrow>
          if s \<in> {''none'', ''string'', ''bytes'', ''json''} then Inr (p\<lparr>ho_as := s\<rparr>)
          else Inl ''opts.as must be one of none, string, bytes, json''
      | _ \<Rightarrow> Inl ''opts.as must be a string'')"

definition body_limit_opt :: "('w, 'r, 'v, 'f, 'z) call_api_scheme \<Rightarrow> 'v \<Rightarrow> ('f, 'e) opts_step" where
  "body_limit_opt W v p =
     (case va_view W v of
        VaNumber n _ \<Rightarrow>
          if n < 0 then Inl ''opts.body_limit must be >= 0'' else Inr (p\<lparr>ho_bodyLimit := n\<rparr>)
      | _ \<Rightarrow> Inl ''opts.body_limit must be a number'')"

definition parseOpts ::
  "('w, 'r, 'v, 'f, 'z) call_api_scheme \<Rightarrow> 'v \<Rightarrow> string + ('f, 'e) parsedHTTPOpts" where
  "parseOpts W opts =
     (case va_view W opts of
        VaNull \<Rightarrow> Inr no_call_opts
      | VaObject attrs \<Rightarrow>
          (let opt = with_attr W attrs
           in opt ''body_limit'' (body_limit_opt W)
              (opt ''as'' (as_opt W)
              (opt ''max_redirects'' (max_redirects_opt W attrs)
              (opt ''follow_redirects'' (follow_opt W)
              (opt ''timeout'' (timeout_opt W)
              (opt ''query'' (query_opt W)
              (opt ''headers'' (headers_opt W)
              (opt ''otel'' (otel_opt W)
              (opt ''cookies'' (cookies_opt W)
              (case opt ''retry'' (retry_opt W) (Inr no_call_opts) of
                 Inl e \<Rightarrow> Inl e
               | Inr p \<Rightarrow> auth_opt W attrs p))))))))))
      | _ \<Rightarrow> Inl ''opts must be an object or map'')"

section \<open>URLs\<close>

text \<open>The query of a URL is of a type of its own, with \<open>Query\<close> and \<open>Encode\<close> of Go as its reading and writing;
  \<open>ua_Resolve\<close> is \<open>ResolveReference\<close>.\<close>

record 'q url =
  u_Scheme :: string
  u_Host :: string
  u_Path :: string
  u_RawQuery :: 'q
  u_Fragment :: string

record ('v, 'q) url_api =
  ua_FromValue :: "'v \<Rightarrow> string + 'q url"
  ua_Blank :: "'q \<Rightarrow> bool"
  ua_Query :: "'q \<Rightarrow> query"
  ua_Encode :: "query \<Rightarrow> 'q"
  ua_Resolve :: "'q url \<Rightarrow> 'q url \<Rightarrow> 'q url"

definition url_IsAbs :: "'q url \<Rightarrow> bool" where "url_IsAbs u \<longleftrightarrow> u_Scheme u \<noteq> []"

definition mergeBaseQuery :: "('v, 'q) url_api \<Rightarrow> 'q url \<Rightarrow> 'q url \<Rightarrow> 'q url" where
  "mergeBaseQuery U resolved base =
     (let baseQuery = ua_Query U (u_RawQuery base); resolvedQuery = ua_Query U (u_RawQuery resolved)
      in if baseQuery = Map.empty then resolved
         else resolved\<lparr>u_RawQuery := ua_Encode U (baseQuery ++ resolvedQuery)\<rparr>)"

definition resolveURL ::
  "('w, 'r, 'v, 'f, 'z) call_api_scheme \<Rightarrow> ('v, 'q) url_api \<Rightarrow> 'q url option \<Rightarrow> 'v \<Rightarrow> string + 'q url" where
  "resolveURL W U base rawURL =
     (if va_view W rawURL = VaNull then Inl ''url: null not allowed''
      else case ua_FromValue U rawURL of
             Inl e \<Rightarrow> Inl (''url: '' @ e)
           | Inr u \<Rightarrow>
               (case base of
                  None \<Rightarrow> Inr u
                | Some b \<Rightarrow>
                    if url_IsAbs u then Inr u
                    else let resolved = ua_Resolve U b u
                         in Inr (if \<not> ua_Blank U (u_RawQuery b) then mergeBaseQuery U resolved b
                                 else resolved)))"

text \<open>The parameters of \<open>opts.query\<close>.\<close>

definition add_query :: "('v, 'q) url_api \<Rightarrow> query \<Rightarrow> 'q url \<Rightarrow> 'q url" where
  "add_query U extra u =
     (if extra = Map.empty then u
      else let q = ua_Query U (u_RawQuery u)
           in u\<lparr>u_RawQuery := ua_Encode U (\<lambda>k. case extra k of None \<Rightarrow> q k | Some vs \<Rightarrow> query_add k vs q k)\<rparr>)"

definition sameURL :: "'q url option \<Rightarrow> 'q url option \<Rightarrow> bool" where
  "sameURL a b \<longleftrightarrow>
     (case (a, b) of
        (Some u, Some v) \<Rightarrow> u_Scheme u = u_Scheme v \<and> u_Host u = u_Host v \<and> u_Path u = u_Path v \<and>
          u_RawQuery u = u_RawQuery v \<and> u_Fragment u = u_Fragment v
      | _ \<Rightarrow> False)"

section \<open>Redirects\<close>

record RedirectPolicy =
  rd_Follow :: bool
  rd_Max :: int
  rd_KeepAuth :: bool

definition sameOrigin :: "'q url option \<Rightarrow> 'q url option \<Rightarrow> bool" where
  "sameOrigin a b \<longleftrightarrow>
     (case (a, b) of
        (Some u, Some v) \<Rightarrow> u_Scheme u = u_Scheme v \<and> u_Host u = u_Host v
      | _ \<Rightarrow> False)"

datatype redirect_error = ErrUseLastResponse | TooManyRedirects int

text \<open>\<open>buildCheckRedirect\<close>: the request to be sent has the URL \<open>u\<close> and the headers \<open>h\<close>, \<open>via\<close> are the URLs of
  those before it.\<close>

definition CheckRedirect ::
  "RedirectPolicy \<Rightarrow> 'q url option \<Rightarrow> headers \<Rightarrow> 'q url option list \<Rightarrow> redirect_error + headers" where
  "CheckRedirect pol u h via =
     (if \<not> rd_Follow pol then Inl ErrUseLastResponse
      else if int (length via) \<ge> rd_Max pol then Inl (TooManyRedirects (rd_Max pol))
      else if \<not> rd_KeepAuth pol \<and> via \<noteq> [] then
        Inr (if \<not> sameOrigin (hd via) u then header_Del h ''Authorization'' else h)
      else Inr h)"

text \<open>The policy a request is sent under (\<open>sendOnce\<close>).\<close>

definition request_redirects :: "RedirectPolicy \<Rightarrow> ('f, 'e, 'z) parsedHTTPOpts_scheme \<Rightarrow> RedirectPolicy" where
  "request_redirects pol opts =
     (case ho_redirects opts of
        None \<Rightarrow> pol | Some (follow, mx) \<Rightarrow> pol\<lparr>rd_Follow := follow, rd_Max := mx\<rparr>)"

section \<open>A call\<close>

text \<open>What a call uses of a client.\<close>

record ('q, 'f, 'e) http_client =
  hc_BaseURL :: "'q url option"
  hc_DefaultHeaders :: headers
  hc_RedirectPolicy :: RedirectPolicy
  hc_RetryPolicy :: "('f, 'e) RetryPolicy"

definition parseVerbArgs ::
  "bool \<Rightarrow> 'v \<Rightarrow> 'v list \<Rightarrow> string + ('v \<times> 'v)" where
  "parseVerbArgs bodyAllowed null rest =
     (if bodyAllowed then
        (case rest of
           [] \<Rightarrow> Inr (null, null)
         | [b] \<Rightarrow> Inr (b, null)
         | [b, opts] \<Rightarrow> Inr (b, opts)
         | _ \<Rightarrow> Inl ''too many arguments; expected at most (ctx, client, url, body, opts)'')
      else
        (case rest of
           [] \<Rightarrow> Inr (null, null)
         | [opts] \<Rightarrow> Inr (null, opts)
         | _ \<Rightarrow> Inl ''too many arguments; expected at most (ctx, client, url, opts)''))"

definition CoerceBodyToBytes ::
  "('w, 'r, 'v, 'f, 'z) call_api_scheme \<Rightarrow> 'v \<Rightarrow> string + (string \<times> string)" where
  "CoerceBodyToBytes W val =
     (case va_view W val of
        VaNull \<Rightarrow> Inr ([], [])
      | VaString s \<Rightarrow> Inr (s, ''text/plain; charset=utf-8'')
      | _ \<Rightarrow>
          (case ca_bytes W val of
             Some (data, ct) \<Rightarrow> Inr (data, if ct = [] then ''application/octet-stream'' else ct)
           | None \<Rightarrow>
               (case ca_json W val of
                  Inl e \<Rightarrow> Inl (''failed to marshal value as JSON: '' @ e)
                | Inr data \<Rightarrow> Inr (data, ''application/json''))))"

record ('q, 'f, 'e) prepared =
  pq_method :: string
  pq_url :: "'q url"
  pq_headers :: headers
  pq_body :: string
  pq_opts :: "('f, 'e) parsedHTTPOpts"
  pq_redirects :: RedirectPolicy
  pq_retry :: "('f, 'e) RetryPolicy"

text \<open>\<open>doHTTPRequest\<close> up to the retry loop.\<close>

definition prepareRequest ::
  "('w, 'r, 'v, 'f, 'z) call_api_scheme \<Rightarrow> ('v, 'q) url_api \<Rightarrow> ('q, 'f, 'e) http_client \<Rightarrow> string \<Rightarrow> 'v \<Rightarrow> 'v
     \<Rightarrow> 'v \<Rightarrow> string + ('q, 'f, 'e) prepared" where
  "prepareRequest W U client method rawURL body opts =
     (case resolveURL W U (hc_BaseURL client) rawURL of
        Inl e \<Rightarrow> Inl e
      | Inr url \<Rightarrow>
          (case CoerceBodyToBytes W body of
             Inl e \<Rightarrow> Inl (''body: '' @ e)
           | Inr (data, ct) \<Rightarrow>
               (case parseOpts W opts of
                  Inl e \<Rightarrow> Inl (''opts: '' @ e)
                | Inr p \<Rightarrow>
                    Inr \<lparr>pq_method = method, pq_url = add_query U (ho_query p) url,
                         pq_headers = buildRequestHeaders (hc_DefaultHeaders client) ct
                           (va_view W body \<noteq> VaNull \<and> ca_bytes W body \<noteq> None) (ho_headers p),
                         pq_body = data, pq_opts = p,
                         pq_redirects = request_redirects (hc_RedirectPolicy client) p,
                         pq_retry = effectiveRetry (hc_RetryPolicy client) (ho_retryDisabled p)
                                      (ho_retryOverride p)\<rparr>)))"

datatype call_error = BadRequest string | CallFailed http_error | BadBody string

text \<open>The decoding of the body that \<open>opts.as\<close> asks for; only JSON can fail.\<close>

definition finalizeResponse :: "('r \<Rightarrow> string option) \<Rightarrow> string \<Rightarrow> http_error + 'r \<Rightarrow> call_error + (string \<times> 'r)"
where
  "finalizeResponse bad_json as res =
     (case res of
        Inl e \<Rightarrow> Inl (CallFailed e)
      | Inr r \<Rightarrow>
          if as = ''json'' then (case bad_json r of Some e \<Rightarrow> Inl (BadBody e) | None \<Rightarrow> Inr (as, r))
          else Inr (as, r))"

text \<open>\<open>world\<close> sends the requests that are prepared.\<close>

definition doHTTPRequest ::
  "('w, 'r, 'v, 'f, 'z) call_api_scheme \<Rightarrow> ('v, 'q) url_api
     \<Rightarrow> (('q, 'f, 'e) prepared \<Rightarrow> ('w, 'r, 'v, 'f, 'e) retry_world) \<Rightarrow> ('r \<Rightarrow> string option)
     \<Rightarrow> ('q, 'f, 'e) http_client \<Rightarrow> string set \<Rightarrow> string \<Rightarrow> 'v \<Rightarrow> 'v \<Rightarrow> 'v \<Rightarrow> 'f authCache option \<Rightarrow> 'w
     \<Rightarrow> (call_error + (string \<times> 'r)) \<times> 'f authCache option \<times> 'w \<times> 'r retry_event list" where
  "doHTTPRequest W U world bad_json client marks method rawURL body opts h w =
     (case prepareRequest W U client method rawURL body opts of
        Inl e \<Rightarrow> (Inl (BadRequest e), h, w, [])
      | Inr q \<Rightarrow>
          (let (res, h', w', evs) =
                 runRetryLoop (world q) marks method (pq_headers q) (http_auth_opts.truncate (pq_opts q))
                   (pq_retry q) h w
           in (finalizeResponse bad_json (ho_as (pq_opts q)) res, h', w', evs)))"


section \<open>Checking a status\<close>

definition parseRangeTuple :: "('w, 'r, 'v, 'f, 'z) call_api_scheme \<Rightarrow> 'v list \<Rightarrow> string + (int \<times> int)" where
  "parseRangeTuple W elems =
     (case elems of
        [a, b] \<Rightarrow>
          (case va_view W a of
             VaNumber lo _ \<Rightarrow>
               (case va_view W b of
                  VaNumber hi _ \<Rightarrow> if lo > hi then Inl ''range lo must be <= hi'' else Inr (lo, hi)
                | _ \<Rightarrow> Inl ''range hi must be a number'')
           | _ \<Rightarrow> Inl ''range lo must be a number'')
      | _ \<Rightarrow> Inl ''range must be a 2-element [lo, hi] list'')"

text \<open>The exact statuses and the ranges.\<close>

fun must_entries ::
  "('w, 'r, 'v, 'f, 'z) call_api_scheme \<Rightarrow> 'v list \<Rightarrow> string + (int list \<times> (int \<times> int) list)" where
  "must_entries W [] = Inr ([], [])"
| "must_entries W (elem # es) =
     (case va_view W elem of
        VaNull \<Rightarrow> Inl ''expected list elements must not be null''
      | VaNumber n _ \<Rightarrow> map_sum id (map_prod (\<lambda>ns. n # ns) id) (must_entries W es)
      | VaList vs \<Rightarrow>
          (case parseRangeTuple W vs of
             Inl e \<Rightarrow> Inl e
           | Inr r \<Rightarrow> map_sum id (map_prod id (\<lambda>rs. r # rs)) (must_entries W es))
      | _ \<Rightarrow> Inl ''expected list element must be a number or [lo, hi] tuple'')"

definition in_expected :: "int list \<Rightarrow> (int \<times> int) list \<Rightarrow> int \<Rightarrow> bool" where
  "in_expected exact ranges s \<longleftrightarrow>
     list_ex (\<lambda>e. s = e) exact \<or> list_ex (\<lambda>(lo, hi). lo \<le> s \<and> s \<le> hi) ranges"

definition parseHTTPMustExpected ::
  "('w, 'r, 'v, 'f, 'z) call_api_scheme \<Rightarrow> 'v \<Rightarrow> string + (int \<Rightarrow> bool)" where
  "parseHTTPMustExpected W val =
     (let many = (\<lambda>vs. case must_entries W vs of
                         Inl e \<Rightarrow> Inl e
                       | Inr (exact, ranges) \<Rightarrow>
                           if exact = [] \<and> ranges = [] then Inl ''expected list must not be empty''
                           else Inr (in_expected exact ranges))
      in case (va_view W val, ca_set W val) of
           (VaNumber n _, _) \<Rightarrow> Inr (\<lambda>s. s = n)
         | (VaList vs, _) \<Rightarrow> many vs
         | (_, Some vs) \<Rightarrow> many vs
         | _ \<Rightarrow> Inl ''expected must be a number, a list of numbers, or a list of [lo, hi] tuples'')"

datatype must_error = BadExpectation string | UnexpectedStatus int

definition HTTPMust ::
  "('w, 'r, 'v, 'f, 'z) call_api_scheme \<Rightarrow> 'r \<Rightarrow> 'v option \<Rightarrow> must_error + 'r" where
  "HTTPMust W r expected =
     (case (case expected of
              None \<Rightarrow> Inr (\<lambda>s. 200 \<le> s \<and> s < 300)
            | Some v \<Rightarrow>
                if va_view W v = VaNull then Inr (\<lambda>s. 200 \<le> s \<and> s < 300)
                else parseHTTPMustExpected W v) of
        Inl e \<Rightarrow> Inl (BadExpectation e)
      | Inr check \<Rightarrow> if check (hw_status W r) then Inr r else Inl (UnexpectedStatus (hw_status W r)))"

section \<open>Canonical names\<close>

lemma ascii_shift:
  "ascii_between 97 122 c \<Longrightarrow> ascii_between 65 90 (ascii_upper c)"
  "ascii_between 65 90 c \<Longrightarrow> ascii_between 97 122 (ascii_lower c)"
  by (auto simp: ascii_upper_def ascii_lower_def ascii_between_def)

lemma ascii_other:
  "\<not> ascii_between 97 122 c \<Longrightarrow> ascii_upper c = c" "\<not> ascii_between 65 90 c \<Longrightarrow> ascii_lower c = c"
  by (simp_all add: ascii_upper_def ascii_lower_def)

lemma ascii_apart: "ascii_between 65 90 c \<Longrightarrow> \<not> ascii_between 97 122 c"
  by (simp add: ascii_between_def)

lemma ascii_token:
  "ascii_between 65 90 c \<Longrightarrow> token_char c" "ascii_between 97 122 c \<Longrightarrow> token_char c"
  by (simp_all add: token_char_def)

lemma ascii_case:
  "ascii_upper (ascii_upper c) = ascii_upper c" "ascii_lower (ascii_lower c) = ascii_lower c"
  "token_char c \<Longrightarrow> token_char (ascii_upper c)" "token_char c \<Longrightarrow> token_char (ascii_lower c)"
  using ascii_shift ascii_other ascii_apart ascii_token by metis+

lemma canon_chars_token: "list_all token_char s \<Longrightarrow> list_all token_char (canon_chars upper s)"
  by (induction upper s rule: canon_chars.induct) (simp_all add: ascii_case Let_def)

lemma canon_chars_idem: "canon_chars upper (canon_chars upper s) = canon_chars upper s"
  by (induction upper s rule: canon_chars.induct) (auto simp: ascii_case Let_def)

lemma canonical_idem [simp]:
  "CanonicalMIMEHeaderKey (CanonicalMIMEHeaderKey s) = CanonicalMIMEHeaderKey s"
  by (simp add: CanonicalMIMEHeaderKey_def canon_chars_token canon_chars_idem)

lemma canonical_names [simp]:
  "CanonicalMIMEHeaderKey ''User-Agent'' = ''User-Agent''"
  "CanonicalMIMEHeaderKey ''Accept'' = ''Accept''"
  "CanonicalMIMEHeaderKey ''Content-Type'' = ''Content-Type''"
  "CanonicalMIMEHeaderKey ''Authorization'' = ''Authorization''"
  by code_simp+

section \<open>Where a header comes from\<close>










text \<open>The value of a header before the headers of the call.\<close>

definition default_header :: "headers \<Rightarrow> string \<Rightarrow> bool \<Rightarrow> string \<Rightarrow> string list option" where
  "default_header defaults ct isBytesBody n =
     (if n = ''Content-Type'' \<and> isBytesBody \<and> ct \<noteq> [] then Some [ct]
      else case defaults n of
             Some vs \<Rightarrow> Some vs
           | None \<Rightarrow>
               if n = ''User-Agent'' then Some [''vinculum'']
               else if n = ''Accept'' then Some [''*/*'']
               else if n = ''Content-Type'' \<and> ct \<noteq> [] then Some [ct]
               else None)"



text \<open>An \<open>Authorization\<close> among the headers of the client is sent as it is: neither the hook of the client nor
  the credentials of the call, nor their refusal by null, have an effect.\<close>

theorem default_authorization_wins:
  assumes "header_get hdrs ''Authorization'' \<noteq> []"
  shows "\<exists>res. snd (snd (snd (sendOnceWithAuth W marks opts hdrs h w))) = [Sent hdrs res]"
proof -
  obtain res w2 where s: "hw_send W hdrs w = (res, w2)"
    by fastforce
  have "snd (snd (snd (sendOnceWithAuth W marks opts hdrs h w))) = [Sent hdrs res]"
    using assms s by (cases res) (simp_all add: sendOnceWithAuth_def resolveAuthForSend_def in_scope_def Let_def)
  then show ?thesis
    by blast
qed

section \<open>The query of a request\<close>













section \<open>Redirects and credentials\<close>

text \<open>A redirected request that carries credentials goes to the origin of the first request, unless the
  client says otherwise.\<close>

theorem redirect_keeps_origin:
  assumes "CheckRedirect pol u h via = Inr h'" and "\<not> rd_KeepAuth pol" and "via \<noteq> []"
    and "h' ''Authorization'' \<noteq> None"
  shows "sameOrigin (hd via) u \<and> h' = h \<and> rd_Follow pol \<and> int (length via) < rd_Max pol"
  using assms by (auto simp: CheckRedirect_def header_Del_def split: if_splits)

section \<open>Statuses that are accepted\<close>

text \<open>What an expectation says.\<close>

definition range_of :: "('w, 'r, 'v, 'f, 'z) call_api_scheme \<Rightarrow> 'v \<Rightarrow> int set" where
  "range_of W v =
     (case va_view W v of
        VaNumber n _ \<Rightarrow> {n}
      | VaList vs \<Rightarrow> (case parseRangeTuple W vs of Inl e \<Rightarrow> {} | Inr (lo, hi) \<Rightarrow> {lo..hi})
      | _ \<Rightarrow> {})"

lemma must_entries_range:
  "must_entries W vs = Inr (exact, ranges) \<Longrightarrow> in_expected exact ranges s \<longleftrightarrow> s \<in> (\<Union>v \<in> set vs. range_of W v)"
proof (induction vs arbitrary: exact ranges)
  case (Cons elem es)
  show ?case
  proof (cases "va_view W elem")
    case (VaNumber n f)
    then obtain exact' where "must_entries W es = Inr (exact', ranges)" "exact = n # exact'"
      using Cons.prems by (auto simp: map_sum_def split: sum.splits)
    then show ?thesis
      using Cons.IH VaNumber by (auto simp: in_expected_def range_of_def[of W elem])
  next
    case (VaList vs)
    then obtain lo hi ranges' where "must_entries W es = Inr (exact, ranges')" "ranges = (lo, hi) # ranges'"
      "parseRangeTuple W vs = Inr (lo, hi)"
      using Cons.prems by (auto simp: map_sum_def split: sum.splits)
    then show ?thesis
      using Cons.IH VaList by (auto simp: in_expected_def range_of_def[of W elem])
  qed (use Cons.prems in auto)
qed (simp add: in_expected_def)

text \<open>\<open>http::must\<close> with a list lets exactly the statuses pass that are one of its numbers or in one of its
  ranges, and none of a list it cannot read.\<close>

theorem must_exact:
  assumes "va_view W v = VaList vs"
  shows "HTTPMust W r (Some v) = Inr r \<longleftrightarrow>
     (\<exists>lists. must_entries W vs = Inr lists) \<and> vs \<noteq> [] \<and> hw_status W r \<in> (\<Union>v \<in> set vs. range_of W v)"
proof (cases "must_entries W vs")
  case (Inl e)
  then show ?thesis
    using assms by (simp add: HTTPMust_def parseHTTPMustExpected_def)
next
  case (Inr lists)
  obtain exact ranges where l: "lists = (exact, ranges)"
    by fastforce
  have "exact = [] \<and> ranges = [] \<longleftrightarrow> vs = []"
    using Inr l by (cases vs) (auto simp: map_sum_def split: value_view.splits sum.splits)
  then show ?thesis
    using assms Inr l must_entries_range [OF Inr [unfolded l], of "hw_status W r"]
    by (auto simp: HTTPMust_def parseHTTPMustExpected_def Let_def)
qed


section \<open>Examples\<close>













text \<open>The status of a bytes value without a content type: the header of the client does not count.\<close>

lemma bytes_default_type:
  assumes "va_view W v = VaOther" and "ca_bytes W v = Some (data, [])"
  shows "CoerceBodyToBytes W v = Inr (data, ''application/octet-stream'')"
    and "default_header defaults ''application/octet-stream'' True ''Content-Type'' = Some [''application/octet-stream'']"
  using assms by (simp_all add: CoerceBodyToBytes_def default_header_def)

end
