(* ===== verification/Server_Auth.thy ===== *)
theory Server_Auth
  imports Vinculum_Prelude
begin

text \<open>
  Who a request is from, and whether it may pass: \<open>config/trustedproxies.go\<close>, \<open>servers/http/realip.go\<close>,
  the policy of a route (\<open>config/auth.go\<close>), the blocks that name mechanisms (\<open>config/authblock.go\<close>), and
  the middleware with the mechanisms \<open>basic\<close>, \<open>custom\<close> and \<open>proxy\<close> (\<open>servers/auth\<close>). The mechanisms that
  verify tokens are arguments, as are the evaluation of expressions and the library's reading of
  addresses and headers: the record \<open>auth_api\<close>.
\<close>

section \<open>Requests and values\<close>

text \<open>A header by its canonical name, with its lines in order.\<close>

record request =
  rq_RemoteAddr :: string
  rq_Header :: "string \<Rightarrow> string list"

definition header_first :: "request \<Rightarrow> string \<Rightarrow> string" where
  "header_first r k = (case rq_Header r k of [] \<Rightarrow> [] | v # _ \<Rightarrow> v)"

record response =
  rs_Status :: int
  rs_Headers :: "(string \<times> string) list"
  rs_ContentType :: string
  rs_Body :: string

text \<open>Values, with a reference to a mechanism and a response among them. \<open>AvUnset\<close> is a null or unknown value,
  with whether its type is an object or a map.\<close>

datatype authRefKind = RefReal | RefAnonymous | RefDisabled

datatype 'a auth_value =
    AvUnset bool | AvBool bool | AvString string
  | AvObject "string \<rightharpoonup> 'a auth_value" | AvMap "string \<rightharpoonup> 'a auth_value" | AvList "'a auth_value list"
  | AvRef string "'a option" authRefKind | AvResponse response | AvOther

record AuthFailure =
  af_Status :: int
  af_WWWAuthenticate :: string
  af_Response :: "response option"

section \<open>Mechanisms\<close>

record 'n proxyAuthenticator =
  px_trusted :: "'n list"
  px_userHeader :: string
  px_emailHeader :: string
  px_groupsHeader :: string

text \<open>An authenticator. A basic one has the credentials or the action; \<open>OtherAuth\<close> is one of the mechanisms
  that are arguments.\<close>

datatype ('e, 'n, 'o) authenticator =
    BasicAuth string "'e option" "'e option"
  | CustomAuth 'e "'e option"
  | ProxyAuth "'n proxyAuthenticator"
  | OtherAuth 'o

type_synonym ('e, 'n, 'o) avalue = "('e, 'n, 'o) authenticator auth_value"

datatype ('e, 'n, 'o) judged = Accepted "('e, 'n, 'o) avalue" | Rejected AuthFailure | Failed string

text \<open>\<open>aa_eval\<close> evaluates an expression with the request in scope, or gives the error of building the context.\<close>

record ('e, 'n, 'o, 'ip) auth_api =
  aa_SplitHostPort :: "string \<Rightarrow> string option"
  aa_ParseIP :: "string \<Rightarrow> 'ip option"
  aa_ParseCIDR :: "string \<Rightarrow> 'n option"
  aa_host :: "'ip \<Rightarrow> 'n"
  aa_Contains :: "'n \<Rightarrow> 'ip \<Rightarrow> bool"
  aa_TrimSpace :: "string \<Rightarrow> string"
  aa_Quote :: "string \<Rightarrow> string"
  aa_BasicAuth :: "request \<Rightarrow> (string \<times> string) option"
  aa_eval :: "'e \<Rightarrow> request \<Rightarrow> string + (('e, 'n, 'o) avalue \<times> diag list)"
  aa_config :: "'e \<Rightarrow> ('e, 'n, 'o) avalue \<times> diag list"
  aa_Method :: "'o \<Rightarrow> string"
  aa_Claims :: "'o \<Rightarrow> request \<Rightarrow> bool"
  aa_Challenge :: "'o \<Rightarrow> string"
  aa_Authenticate :: "'o \<Rightarrow> request \<Rightarrow> ('e, 'n, 'o) judged"

section \<open>Trusted proxies\<close>

definition parseCIDROrIP :: "('e, 'n, 'o, 'ip) auth_api \<Rightarrow> string \<Rightarrow> 'n option" where
  "parseCIDROrIP api s =
     (if CHR ''/'' \<in> set s then aa_ParseCIDR api s else map_option (aa_host api) (aa_ParseIP api s))"

fun parse_entries :: "('e, 'n, 'o, 'ip) auth_api \<Rightarrow> string list \<Rightarrow> 'n list \<times> diag list" where
  "parse_entries api [] = ([], [])"
| "parse_entries api (e # es) =
     (let (nets, diags) = parse_entries api es
      in case parseCIDROrIP api e of
           None \<Rightarrow> (nets, DiagError ''Invalid trusted_proxies entry'' # diags)
         | Some n \<Rightarrow> (n # nets, diags))"

definition ParseTrustedProxies :: "('e, 'n, 'o, 'ip) auth_api \<Rightarrow> string list \<Rightarrow> 'n list option \<times> diag list" where
  "ParseTrustedProxies api entries =
     (if entries = [] then (None, [DiagError ''Missing trusted_proxies''])
      else let (nets, diags) = parse_entries api entries
           in if HasErrors diags then (None, diags) else (Some nets, []))"

definition Trusts :: "('e, 'n, 'o, 'ip) auth_api \<Rightarrow> 'n list \<Rightarrow> 'ip option \<Rightarrow> bool" where
  "Trusts api nets ip = (case ip of None \<Rightarrow> False | Some i \<Rightarrow> list_ex (\<lambda>n. aa_Contains api n i) nets)"

definition peer_ip :: "('e, 'n, 'o, 'ip) auth_api \<Rightarrow> request \<Rightarrow> 'ip option" where
  "peer_ip api r =
     aa_ParseIP api (case aa_SplitHostPort api (rq_RemoteAddr r) of Some host \<Rightarrow> host | None \<Rightarrow> rq_RemoteAddr r)"

definition TrustsPeer :: "('e, 'n, 'o, 'ip) auth_api \<Rightarrow> 'n list \<Rightarrow> request \<Rightarrow> bool" where
  "TrustsPeer api nets r = Trusts api nets (peer_ip api r)"

section \<open>The real address\<close>

record realIPConfig =
  ric_TrustedProxies :: "string list"
  ric_Header :: string
  ric_Recursive :: bool

record 'n realIPResolver =
  rr_trusted :: "'n list"
  rr_header :: string
  rr_recursive :: bool

definition compileRealIP :: "('e, 'n, 'o, 'ip) auth_api \<Rightarrow> realIPConfig \<Rightarrow> 'n realIPResolver option \<times> diag list" where
  "compileRealIP api c =
     (let header = (if ric_Header c \<noteq> [] then ric_Header c else ''X-Forwarded-For'');
          (trusted, diags) = ParseTrustedProxies api (ric_TrustedProxies c)
      in if HasErrors diags then (None, diags)
         else (Some \<lparr>rr_trusted = the trusted, rr_header = header, rr_recursive = ric_Recursive c\<rparr>, []))"

text \<open>\<open>strings.Split\<close> at a comma.\<close>

fun split_comma :: "string \<Rightarrow> string list" where
  "split_comma [] = [[]]"
| "split_comma (c # cs) =
     (if c = CHR '','' then [] # split_comma cs
      else case split_comma cs of [] \<Rightarrow> [[c]] | p # ps \<Rightarrow> (c # p) # ps)"

definition comma_items :: "('e, 'n, 'o, 'ip) auth_api \<Rightarrow> string \<Rightarrow> string list" where
  "comma_items api v = filter (\<lambda>p. p \<noteq> []) (map (aa_TrimSpace api) (split_comma v))"

definition forwarded :: "('e, 'n, 'o, 'ip) auth_api \<Rightarrow> string list \<Rightarrow> string list" where
  "forwarded api vals = concat (map (comma_items api) vals)"

text \<open>The walk from the right: the list is given in that order.\<close>

fun walk :: "('e, 'n, 'o, 'ip) auth_api \<Rightarrow> 'n list \<Rightarrow> string list \<Rightarrow> string option" where
  "walk api trusted [] = None"
| "walk api trusted (a # as) =
     (case aa_ParseIP api a of
        None \<Rightarrow> walk api trusted as
      | Some ip \<Rightarrow> if \<not> Trusts api trusted (Some ip) then Some a else walk api trusted as)"

definition resolve :: "('e, 'n, 'o, 'ip) auth_api \<Rightarrow> 'n realIPResolver \<Rightarrow> request \<Rightarrow> string" where
  "resolve api rr req =
     (if \<not> Trusts api (rr_trusted rr) (peer_ip api req) then []
      else
        let addrs = forwarded api (rq_Header req (rr_header rr))
        in if addrs = [] then []
           else if \<not> rr_recursive rr then last addrs
           else case walk api (rr_trusted rr) (rev addrs) of Some a \<Rightarrow> a | None \<Rightarrow> hd addrs)"

text \<open>\<open>wrap\<close>: the request the rest of the server sees.\<close>

definition wrap :: "('e, 'n, 'o, 'ip) auth_api \<Rightarrow> 'n realIPResolver \<Rightarrow> request \<Rightarrow> request" where
  "wrap api rr req =
     (let clientIP = resolve api rr req in if clientIP \<noteq> [] then req\<lparr>rq_RemoteAddr := clientIP\<rparr> else req)"

section \<open>Actions\<close>

text \<open>The result of the expression of a mechanism: a value, a rejection, or an internal error.\<close>

definition evalAuthAction :: "('e, 'n, 'o, 'ip) auth_api \<Rightarrow> request \<Rightarrow> 'e \<Rightarrow> ('e, 'n, 'o) judged" where
  "evalAuthAction api r action =
     (case aa_eval api action r of
        Inl e \<Rightarrow> Failed (''building auth action eval context: '' @ e)
      | Inr (result, diags) \<Rightarrow>
          if HasErrors diags then Rejected \<lparr>af_Status = 401, af_WWWAuthenticate = [], af_Response = None\<rparr>
          else case result of
                 AvResponse resp \<Rightarrow> Rejected \<lparr>af_Status = rs_Status resp, af_WWWAuthenticate = [], af_Response = Some resp\<rparr>
               | _ \<Rightarrow> Accepted result)"

definition evalClaims :: "('e, 'n, 'o, 'ip) auth_api \<Rightarrow> request \<Rightarrow> 'e option \<Rightarrow> bool" where
  "evalClaims api r claims =
     (case claims of
        None \<Rightarrow> True
      | Some expr \<Rightarrow>
          (case aa_eval api expr r of
             Inl _ \<Rightarrow> False
           | Inr (result, diags) \<Rightarrow> \<not> HasErrors diags \<and> result = AvBool True))"

definition AuthMethodField :: string where "AuthMethodField = ''method''"

definition rejectReservedAuthKeys :: "(string \<rightharpoonup> 'a auth_value) \<Rightarrow> bool" where
  "rejectReservedAuthKeys vals \<longleftrightarrow> vals AuthMethodField \<noteq> None"

definition withMethod :: "'a auth_value \<Rightarrow> string \<Rightarrow> 'a auth_value" where
  "withMethod val mech = (case val of AvObject vals \<Rightarrow> AvObject (vals(AuthMethodField \<mapsto> AvString mech)) | _ \<Rightarrow> val)"

section \<open>Claiming and judging\<close>

definition basic_challenge :: "('e, 'n, 'o, 'ip) auth_api \<Rightarrow> string \<Rightarrow> string" where
  "basic_challenge api realm = ''Basic realm='' @ aa_Quote api realm"

text \<open>An identity of a user known by name only.\<close>

definition plain_identity :: "string \<Rightarrow> 'a auth_value \<Rightarrow> 'a auth_value" where
  "plain_identity user claims =
     AvObject [''username'' \<mapsto> AvString user, ''subject'' \<mapsto> AvString user, ''claims'' \<mapsto> claims]"

definition expected_password :: "'a auth_value \<Rightarrow> string \<Rightarrow> string option" where
  "expected_password creds user =
     (case (case creds of AvObject m \<Rightarrow> m user | AvMap m \<Rightarrow> m user | _ \<Rightarrow> None) of
        Some (AvString p) \<Rightarrow> Some p
      | _ \<Rightarrow> None)"

definition basic_authenticate ::
  "('e, 'n, 'o, 'ip) auth_api \<Rightarrow> string \<Rightarrow> 'e option \<Rightarrow> 'e option \<Rightarrow> request \<Rightarrow> ('e, 'n, 'o) judged" where
  "basic_authenticate api realm credentials action r =
     (let rejected = Rejected \<lparr>af_Status = 401, af_WWWAuthenticate = basic_challenge api realm, af_Response = None\<rparr>
      in case aa_BasicAuth api r of
           None \<Rightarrow> rejected
         | Some (username, password) \<Rightarrow>
             (case credentials of
                Some expr \<Rightarrow>
                  (let (creds, diags) = aa_config api expr
                   in if HasErrors diags then Failed ''evaluating auth credentials''
                      else case creds of
                             AvObject _ \<Rightarrow>
                               if expected_password creds username = Some password
                               then Accepted (plain_identity username (AvUnset False)) else rejected
                           | AvMap _ \<Rightarrow>
                               if expected_password creds username = Some password
                               then Accepted (plain_identity username (AvUnset False)) else rejected
                           | AvUnset True \<Rightarrow> rejected
                           | _ \<Rightarrow> Failed ''auth credentials must be an object or map'')
              | None \<Rightarrow>
                  (case evalAuthAction api r (the action) of
                     Accepted (AvObject vals) \<Rightarrow>
                       if rejectReservedAuthKeys vals then Failed ''an auth action may not return method''
                       else
                         let vals1 = vals(''username'' \<mapsto> AvString username);
                             vals2 = (if vals1 ''subject'' = None then vals1(''subject'' \<mapsto> AvString username) else vals1);
                             vals3 = (if vals2 ''claims'' = None then vals2(''claims'' \<mapsto> AvUnset False) else vals2)
                         in Accepted (AvObject vals3)
                   | Accepted _ \<Rightarrow> rejected
                   | other \<Rightarrow> other)))"

definition custom_authenticate ::
  "('e, 'n, 'o, 'ip) auth_api \<Rightarrow> 'e \<Rightarrow> request \<Rightarrow> ('e, 'n, 'o) judged" where
  "custom_authenticate api action r =
     (case evalAuthAction api r action of
        Accepted (AvObject vals) \<Rightarrow>
          if rejectReservedAuthKeys vals then Failed ''an auth action may not return method'' else Accepted (AvObject vals)
      | Accepted (AvMap vals) \<Rightarrow> Accepted (AvMap vals)
      | Accepted _ \<Rightarrow> Rejected \<lparr>af_Status = 401, af_WWWAuthenticate = [], af_Response = None\<rparr>
      | other \<Rightarrow> other)"

definition proxy_claims :: "('e, 'n, 'o, 'ip) auth_api \<Rightarrow> 'n proxyAuthenticator \<Rightarrow> request \<Rightarrow> 'a auth_value" where
  "proxy_claims api p r =
     (let email = header_first r (px_emailHeader p);
          groups = comma_items api (header_first r (px_groupsHeader p));
          c1 = (if email \<noteq> [] then [''email'' \<mapsto> AvString email] else Map.empty);
          c2 = (if groups \<noteq> [] then c1(''groups'' \<mapsto> AvList (map AvString groups)) else c1)
      in if email \<noteq> [] \<or> groups \<noteq> [] then AvObject c2 else AvUnset False)"

definition proxy_authenticate ::
  "('e, 'n, 'o, 'ip) auth_api \<Rightarrow> 'n proxyAuthenticator \<Rightarrow> request \<Rightarrow> ('e, 'n, 'o) judged" where
  "proxy_authenticate api p r =
     (if \<not> TrustsPeer api (px_trusted p) r then Rejected \<lparr>af_Status = 403, af_WWWAuthenticate = [], af_Response = None\<rparr>
      else
        let user = header_first r (px_userHeader p)
        in if user = [] then Rejected \<lparr>af_Status = 401, af_WWWAuthenticate = [], af_Response = None\<rparr>
           else Accepted (plain_identity user (proxy_claims api p r)))"

fun Method :: "('e, 'n, 'o, 'ip) auth_api \<Rightarrow> ('e, 'n, 'o) authenticator \<Rightarrow> string" where
  "Method api (BasicAuth realm creds action) = ''basic''"
| "Method api (CustomAuth action claims) = ''custom''"
| "Method api (ProxyAuth p) = ''proxy''"
| "Method api (OtherAuth a) = aa_Method api a"

fun Claims :: "('e, 'n, 'o, 'ip) auth_api \<Rightarrow> ('e, 'n, 'o) authenticator \<Rightarrow> request \<Rightarrow> bool" where
  "Claims api (BasicAuth realm creds action) r = (aa_BasicAuth api r \<noteq> None)"
| "Claims api (CustomAuth action claims) r = evalClaims api r claims"
| "Claims api (ProxyAuth p) r = (TrustsPeer api (px_trusted p) r \<and> header_first r (px_userHeader p) \<noteq> [])"
| "Claims api (OtherAuth a) r = aa_Claims api a r"

fun Challenge :: "('e, 'n, 'o, 'ip) auth_api \<Rightarrow> ('e, 'n, 'o) authenticator \<Rightarrow> string" where
  "Challenge api (BasicAuth realm creds action) = basic_challenge api realm"
| "Challenge api (CustomAuth action claims) = []"
| "Challenge api (ProxyAuth p) = []"
| "Challenge api (OtherAuth a) = aa_Challenge api a"

fun Authenticate :: "('e, 'n, 'o, 'ip) auth_api \<Rightarrow> ('e, 'n, 'o) authenticator \<Rightarrow> request \<Rightarrow> ('e, 'n, 'o) judged" where
  "Authenticate api (BasicAuth realm creds action) r = basic_authenticate api realm creds action r"
| "Authenticate api (CustomAuth action claims) r = custom_authenticate api action r"
| "Authenticate api (ProxyAuth p) r = proxy_authenticate api p r"
| "Authenticate api (OtherAuth a) r = aa_Authenticate api a r"

section \<open>Policies\<close>

record 'a AuthPolicy =
  ap_Authenticators :: "'a list"
  ap_AllowAnonymous :: bool
  ap_Names :: "string list"

definition Enforced :: "'a AuthPolicy option \<Rightarrow> bool" where
  "Enforced p \<longleftrightarrow> (case p of None \<Rightarrow> False | Some q \<Rightarrow> ap_Authenticators q \<noteq> [])"

type_synonym 'a auth_ref = "string \<times> 'a option \<times> authRefKind"

fun collect_refs :: "'a auth_value list \<Rightarrow> 'a auth_ref list option" where
  "collect_refs [] = Some []"
| "collect_refs (AvRef name a k # vs) = map_option (\<lambda>rs. (name, a, k) # rs) (collect_refs vs)"
| "collect_refs (_ # vs) = None"

text \<open>The loop over the references; \<open>None\<close> where \<open>auth.anonymous\<close> is not last.\<close>

fun add_refs :: "'a AuthPolicy \<Rightarrow> 'a auth_ref list \<Rightarrow> 'a AuthPolicy option" where
  "add_refs p [] = Some p"
| "add_refs p ((name, a, k) # refs) =
     (let p1 = p\<lparr>ap_Names := ap_Names p @ [name]\<rparr>
      in case k of
           RefDisabled \<Rightarrow> add_refs p1 refs
         | RefAnonymous \<Rightarrow> if refs \<noteq> [] then None else add_refs (p1\<lparr>ap_AllowAnonymous := True\<rparr>) refs
         | RefReal \<Rightarrow>
             (case a of
                None \<Rightarrow> add_refs p1 refs
              | Some x \<Rightarrow> add_refs (p1\<lparr>ap_Authenticators := ap_Authenticators p1 @ [x]\<rparr>) refs))"

definition policy_of_refs :: "'a auth_ref list \<Rightarrow> 'a AuthPolicy option \<times> diag list" where
  "policy_of_refs refs =
     (case add_refs \<lparr>ap_Authenticators = [], ap_AllowAnonymous = False, ap_Names = []\<rparr> refs of
        None \<Rightarrow> (None, [DiagError ''auth.anonymous must be last''])
      | Some p \<Rightarrow> (Some (if ap_Authenticators p = [] then p\<lparr>ap_AllowAnonymous := True\<rparr> else p), []))"

definition ResolveAuth ::
  "('e, 'n, 'o, 'ip) auth_api \<Rightarrow> 'e option \<Rightarrow> ('e, 'n, 'o) authenticator AuthPolicy option \<times> diag list" where
  "ResolveAuth api expr =
     (case expr of
        None \<Rightarrow> (None, [])
      | Some e \<Rightarrow>
          let (val, diags) = aa_config api e
          in if HasErrors diags then (None, diags)
             else case val of
                    AvRef name a k \<Rightarrow> policy_of_refs [(name, a, k)]
                  | AvList vs \<Rightarrow>
                      (case collect_refs vs of
                         None \<Rightarrow> (None, [DiagError ''Invalid auth reference''])
                       | Some refs \<Rightarrow> policy_of_refs refs)
                  | _ \<Rightarrow> (None, [DiagError ''Invalid auth reference'']))"

section \<open>The middleware\<close>

text \<open>A request is served with an identity or without, or answered.\<close>

datatype 'a outcome =
    Served "'a auth_value option"
  | Answered int "string list"
  | AnsweredWith response

definition claimant ::
  "('e, 'n, 'o, 'ip) auth_api \<Rightarrow> ('e, 'n, 'o) authenticator AuthPolicy \<Rightarrow> request \<Rightarrow> ('e, 'n, 'o) authenticator option" where
  "claimant api p r = find (\<lambda>a. Claims api a r) (ap_Authenticators p)"

definition writeUnclaimed ::
  "('e, 'n, 'o, 'ip) auth_api \<Rightarrow> ('e, 'n, 'o) authenticator AuthPolicy \<Rightarrow> ('e, 'n, 'o) authenticator outcome" where
  "writeUnclaimed api p = Answered 401 (filter (\<lambda>c. c \<noteq> []) (map (Challenge api) (ap_Authenticators p)))"

definition writeFailure :: "AuthFailure \<Rightarrow> 'a outcome" where
  "writeFailure f =
     (case af_Response f of
        Some resp \<Rightarrow> AnsweredWith resp
      | None \<Rightarrow> Answered (af_Status f) (if af_WWWAuthenticate f \<noteq> [] then [af_WWWAuthenticate f] else []))"

definition NewAuthMiddleware ::
  "('e, 'n, 'o, 'ip) auth_api \<Rightarrow> ('e, 'n, 'o) authenticator AuthPolicy option \<Rightarrow> request \<Rightarrow> ('e, 'n, 'o) authenticator outcome" where
  "NewAuthMiddleware api policy r =
     (case policy of
        None \<Rightarrow> Served None
      | Some p \<Rightarrow>
          if \<not> Enforced policy \<and> ap_AllowAnonymous p then Served None
          else case claimant api p r of
                 None \<Rightarrow> if ap_AllowAnonymous p then Served None else writeUnclaimed api p
               | Some a \<Rightarrow>
                   (case Authenticate api a r of
                      Failed e \<Rightarrow> Answered 500 []
                    | Rejected f \<Rightarrow> writeFailure f
                    | Accepted v \<Rightarrow> Served (Some (withMethod v (Method api a)))))"

section \<open>Blocks\<close>

text \<open>The bodies of the mechanisms.\<close>

definition processBasicAuth ::
  "string \<Rightarrow> string \<Rightarrow> 'e option \<Rightarrow> 'e option \<Rightarrow> ('e, 'n, 'o) authenticator option \<times> diag list" where
  "processBasicAuth label realm credentials action =
     (if credentials \<noteq> None \<and> action \<noteq> None then (None, [DiagError ''Conflicting auth attributes''])
      else if credentials = None \<and> action = None then (None, [DiagError ''Missing auth attribute''])
      else (Some (BasicAuth (if realm = [] then label else realm) credentials action), []))"

definition headerOr :: "string \<Rightarrow> string \<Rightarrow> string" where
  "headerOr configured fallback = (if configured = [] then fallback else configured)"

definition processProxyAuth ::
  "('e, 'n, 'o, 'ip) auth_api \<Rightarrow> string list \<Rightarrow> string \<Rightarrow> string \<Rightarrow> string \<Rightarrow> ('e, 'n, 'o) authenticator option \<times> diag list" where
  "processProxyAuth api entries user email groups =
     (let (trusted, diags) = ParseTrustedProxies api entries
      in if HasErrors diags then (None, diags)
         else (Some (ProxyAuth \<lparr>px_trusted = the trusted, px_userHeader = headerOr user ''X-Forwarded-User'',
                 px_emailHeader = headerOr email ''X-Forwarded-Email'', px_groupsHeader = headerOr groups ''X-Forwarded-Groups''\<rparr>), []))"

text \<open>An \<open>auth\<close> block with where it is and what its decoding gave. \<open>reg\<close> is the registry of processors.\<close>

record auth_block =
  bk_type :: string
  bk_name :: string
  bk_pos :: nat
  bk_disabled :: bool
  bk_decode :: "diag list"

record 'a auth_namespace =
  ns_refs :: "string \<rightharpoonup> 'a auth_ref"
  ns_blocks :: "string \<rightharpoonup> auth_block"

definition AuthAnonymousName :: string where "AuthAnonymousName = ''anonymous''"
definition AuthDisabledName :: string where "AuthDisabledName = ''disabled''"

definition initAuthNamespace :: "'a auth_namespace" where
  "initAuthNamespace =
     \<lparr>ns_refs = [AuthAnonymousName \<mapsto> (AuthAnonymousName, None, RefAnonymous),
                 AuthDisabledName \<mapsto> (AuthDisabledName, None, RefDisabled)], ns_blocks = Map.empty\<rparr>"

definition is_real :: "'a auth_ref option \<Rightarrow> bool" where
  "is_real ref = (case ref of Some (_, _, RefReal) \<Rightarrow> True | _ \<Rightarrow> False)"

definition bind :: "'a auth_ref \<Rightarrow> auth_block option \<Rightarrow> 'a auth_namespace \<Rightarrow> 'a auth_namespace" where
  "bind ref block ns =
     (let ns1 = ns\<lparr>ns_refs := (ns_refs ns)(fst ref \<mapsto> ref)\<rparr>
      in case block of None \<Rightarrow> ns1 | Some b \<Rightarrow> ns1\<lparr>ns_blocks := (ns_blocks ns1)(fst ref \<mapsto> b)\<rparr>)"

definition bindDisabled :: "string \<Rightarrow> 'a auth_namespace \<Rightarrow> 'a auth_namespace" where
  "bindDisabled name ns = (if is_real (ns_refs ns name) then ns else bind (name, None, RefDisabled) None ns)"

definition enabledDeclaration :: "string \<Rightarrow> 'a auth_namespace \<Rightarrow> auth_block option" where
  "enabledDeclaration name ns = (if is_real (ns_refs ns name) then ns_blocks ns name else None)"

definition Auth_Process ::
  "(string \<rightharpoonup> (auth_block \<Rightarrow> 'a option \<times> diag list)) \<Rightarrow> auth_block \<Rightarrow> 'a auth_namespace \<Rightarrow> 'a auth_namespace \<times> diag list" where
  "Auth_Process reg block ns =
     (if HasErrors (bk_decode block) then (ns, bk_decode block)
      else if bk_disabled block then (bindDisabled (bk_name block) ns, [])
      else case reg (bk_type block) of
             None \<Rightarrow> (ns, [DiagError ''Unknown auth type''])
           | Some processor \<Rightarrow>
               if enabledDeclaration (bk_name block) ns \<noteq> None then (ns, [DiagError ''Duplicate auth name''])
               else let (a, diags) = processor block
                    in if HasErrors diags then (ns, diags)
                       else (bind (bk_name block, a, RefReal) (Some block) ns, []))"

text \<open>Before that: the names that are taken, and the order of the declarations of a name.\<close>

definition Auth_Preprocess :: "auth_block \<Rightarrow> auth_block list \<Rightarrow> auth_block list \<times> diag list" where
  "Auth_Preprocess block decls =
     (if bk_name block = AuthAnonymousName \<or> bk_name block = AuthDisabledName
      then (decls, [DiagError ''Reserved auth name'']) else (decls @ [block], []))"

datatype auth_dep = AuthId string | AuthDeclId string nat

definition named :: "string \<Rightarrow> auth_block list \<Rightarrow> auth_block list" where
  "named name decls = filter (\<lambda>b. bk_name b = name) decls"

definition authDeclID :: "auth_block \<Rightarrow> auth_dep" where
  "authDeclID block = AuthDeclId (bk_name block) (bk_pos block)"

definition Auth_GetBlockDependencyId :: "auth_block list \<Rightarrow> auth_block \<Rightarrow> auth_dep" where
  "Auth_GetBlockDependencyId decls block =
     (let ds = named (bk_name block) decls
      in if ds \<noteq> [] \<and> last ds \<noteq> block then authDeclID block else AuthId (bk_name block))"

definition Auth_GetBlockDependencies :: "auth_block list \<Rightarrow> auth_dep list \<Rightarrow> auth_block \<Rightarrow> auth_dep list" where
  "Auth_GetBlockDependencies decls own block =
     (let ds = named (bk_name block) decls
      in if 1 < length ds \<and> last ds = block then own @ map authDeclID (butlast ds) else own)"

section \<open>The real address of a request\<close>

definition reads_untrusted :: "('e, 'n, 'o, 'ip) auth_api \<Rightarrow> 'n list \<Rightarrow> string \<Rightarrow> bool" where
  "reads_untrusted api trusted a \<longleftrightarrow> aa_ParseIP api a \<noteq> None \<and> \<not> Trusts api trusted (aa_ParseIP api a)"

lemma find_split:
  "find P xs = Some a \<Longrightarrow> \<exists>pre post. xs = pre @ a # post \<and> P a \<and> list_all (\<lambda>x. \<not> P x) pre"
proof (induction xs)
  case (Cons x xs)
  show ?case
  proof (cases "P x")
    case True
    then have "x # xs = [] @ a # xs \<and> P a \<and> list_all (\<lambda>x. \<not> P x) []" using Cons.prems by simp
    then show ?thesis by blast
  next
    case False
    then obtain pre post where "xs = pre @ a # post" "P a" "list_all (\<lambda>x. \<not> P x) pre" using Cons by auto
    then show ?thesis using False by (intro exI[of _ "x # pre"] exI[of _ post]) simp
  qed
qed simp

lemma find_split_iff:
  "find P xs = Some a \<longleftrightarrow> (\<exists>pre post. xs = pre @ a # post \<and> P a \<and> list_all (\<lambda>x. \<not> P x) pre)"
proof
  assume "\<exists>pre post. xs = pre @ a # post \<and> P a \<and> list_all (\<lambda>x. \<not> P x) pre"
  then obtain pre post where split: "xs = pre @ a # post" "P a" "list_all (\<lambda>x. \<not> P x) pre" by blast
  from split(2,3) have "find P (pre @ a # post) = Some a" by (induction pre) auto
  then show "find P xs = Some a" using split(1) by simp
qed (rule find_split)

lemma find_rev_split:
  assumes "find P (rev xs) = Some a"
  shows "\<exists>pre post. xs = pre @ a # post \<and> P a \<and> list_all (\<lambda>x. \<not> P x) post"
proof -
  obtain pre post where split: "rev xs = pre @ a # post" "P a" "list_all (\<lambda>x. \<not> P x) pre"
    using assms by (auto simp: find_split_iff)
  have "rev (rev xs) = rev (pre @ a # post)" by (simp only: split(1))
  then have "xs = rev post @ a # rev pre" by simp
  then show ?thesis using split by (intro exI[of _ "rev post"] exI[of _ "rev pre"]) simp
qed

lemma walk_find: "walk api trusted as = find (reads_untrusted api trusted) as"
  by (induction as) (auto simp: reads_untrusted_def split: option.split)

lemma forwarded_nonempty: "a \<in> set (forwarded api vals) \<Longrightarrow> a \<noteq> []"
  by (auto simp: forwarded_def comma_items_def)

text \<open>C29: The address a request is taken to come from: for a peer that is not a trusted proxy the forwarded header
  has no influence; for a trusted one with \<open>recursive\<close> it is an entry of the header to the right of which
  there are only trusted or unreadable entries, and it is not trusted itself, or else no entry is
  untrusted and it is the leftmost.\<close>

theorem real_ip_sound:
  "(\<not> Trusts api (rr_trusted rr) (peer_ip api req) \<longrightarrow> wrap api rr req = req) \<and>
   (rr_recursive rr \<and> resolve api rr req \<noteq> [] \<longrightarrow>
      (\<exists>pre post. forwarded api (rq_Header req (rr_header rr)) = pre @ rq_RemoteAddr (wrap api rr req) # post \<and>
         (reads_untrusted api (rr_trusted rr) (rq_RemoteAddr (wrap api rr req)) \<and>
            list_all (\<lambda>a. \<not> reads_untrusted api (rr_trusted rr) a) post \<or>
          pre = [] \<and> list_all (\<lambda>a. \<not> reads_untrusted api (rr_trusted rr) a) (forwarded api (rq_Header req (rr_header rr))))))"
proof (intro conjI impI)
  assume "\<not> Trusts api (rr_trusted rr) (peer_ip api req)"
  then show "wrap api rr req = req" by (simp add: wrap_def resolve_def)
next
  let ?as = "forwarded api (rq_Header req (rr_header rr))" and ?u = "reads_untrusted api (rr_trusted rr)"
  assume rec: "rr_recursive rr \<and> resolve api rr req \<noteq> []"
  then have addr: "rq_RemoteAddr (wrap api rr req) = (case find ?u (rev ?as) of Some a \<Rightarrow> a | None \<Rightarrow> hd ?as)"
    and nonempty: "?as \<noteq> []"
    by (auto simp: wrap_def resolve_def walk_find Let_def split: if_splits)
  show "\<exists>pre post. ?as = pre @ rq_RemoteAddr (wrap api rr req) # post \<and>
         (?u (rq_RemoteAddr (wrap api rr req)) \<and> list_all (\<lambda>a. \<not> ?u a) post \<or> pre = [] \<and> list_all (\<lambda>a. \<not> ?u a) ?as)"
  proof (cases "find ?u (rev ?as)")
    case None
    then have "list_all (\<lambda>a. \<not> ?u a) ?as" by (simp add: find_None_iff list_all_iff)
    moreover have "?as = [] @ hd ?as # tl ?as" using nonempty by simp
    ultimately show ?thesis using None addr by (metis option.case(1))
  next
    case (Some a)
    then show ?thesis using find_rev_split[OF Some] addr by auto
  qed
qed

text \<open>An entry that is not an address is passed over. A client behind a proxy that adds such entries chooses the
  address it is taken to have, that of a trusted proxy included.\<close>

lemma unreadable_entry_spoofs:
  assumes "rr_recursive rr" and "Trusts api (rr_trusted rr) (peer_ip api req)"
    and "forwarded api (rq_Header req (rr_header rr)) = [a, b]" and "aa_ParseIP api b = None"
    and "Trusts api (rr_trusted rr) (aa_ParseIP api a)" and "aa_SplitHostPort api a = None"
  shows "TrustsPeer api (rr_trusted rr) (wrap api rr req)"
proof -
  have "a \<noteq> []" using forwarded_nonempty[of a api] assms(3) by (metis list.set_intros(1))
  then have "wrap api rr req = req\<lparr>rq_RemoteAddr := a\<rparr>"
    using assms by (auto simp: wrap_def resolve_def walk_find reads_untrusted_def)
  then show ?thesis using assms(5,6) by (simp add: TrustsPeer_def peer_ip_def)
qed

text \<open>The other side of rewriting the address first: the proxy that passed the request on is no longer seen by the
  mechanism that trusts it.\<close>

lemma proxy_unseen_after_real_ip:
  assumes "Trusts api (rr_trusted rr) (peer_ip api req)" and "resolve api rr req = a" "a \<noteq> []"
    and "aa_SplitHostPort api a = None" and "\<not> Trusts api (px_trusted p) (aa_ParseIP api a)"
  shows "\<not> Claims api (ProxyAuth p) (wrap api rr req)"
  using assms by (simp add: wrap_def TrustsPeer_def peer_ip_def)

section \<open>What a policy lets pass\<close>

definition real_ones :: "'a auth_ref list \<Rightarrow> 'a list" where
  "real_ones refs = concat (map (\<lambda>(_, a, k). if k = RefReal then case_option [] (\<lambda>x. [x]) a else []) refs)"

lemma real_ones_simps [simp]:
  "real_ones [] = []"
  "real_ones ((name, a, k) # refs) = (if k = RefReal then case_option [] (\<lambda>x. [x]) a else []) @ real_ones refs"
  by (simp_all add: real_ones_def)

definition misplaced :: "'a auth_ref list \<Rightarrow> bool" where
  "misplaced refs \<longleftrightarrow> list_ex (\<lambda>(_, _, k). k = RefAnonymous) (butlast refs)"

definition names_anonymous :: "'a auth_ref list \<Rightarrow> bool" where
  "names_anonymous refs \<longleftrightarrow> list_ex (\<lambda>(_, _, k). k = RefAnonymous) refs"

lemma add_refs_exact:
  "add_refs p refs =
     (if misplaced refs then None
      else Some (p\<lparr>ap_Authenticators := ap_Authenticators p @ real_ones refs,
                   ap_AllowAnonymous := (ap_AllowAnonymous p \<or> names_anonymous refs),
                   ap_Names := ap_Names p @ map fst refs\<rparr>))"
  by (induction p refs rule: add_refs.induct)
     (auto simp: misplaced_def names_anonymous_def Let_def split: authRefKind.splits option.splits)

lemma policy_of_refs_exact:
  "policy_of_refs refs =
     (if misplaced refs then (None, [DiagError ''auth.anonymous must be last''])
      else (Some \<lparr>ap_Authenticators = real_ones refs, ap_AllowAnonymous = (names_anonymous refs \<or> real_ones refs = []),
                  ap_Names = map fst refs\<rparr>, []))"
  by (simp add: policy_of_refs_def add_refs_exact)

text \<open>The policy of a list of references: refused exactly when \<open>auth.anonymous\<close> stands before another one;
  otherwise it enforces the enabled mechanisms in their order, a disabled one leaving the others as they
  are, and lets unclaimed requests pass exactly when anonymous is named or no mechanism is left.\<close>

theorem auth_policy_exact:
  "policy_of_refs refs =
     (if misplaced refs then (None, [DiagError ''auth.anonymous must be last''])
      else (Some \<lparr>ap_Authenticators = real_ones refs, ap_AllowAnonymous = (names_anonymous refs \<or> real_ones refs = []),
                  ap_Names = map fst refs\<rparr>, []))"
  by (rule policy_of_refs_exact)

lemma policy_of_refs_real:
  "policy_of_refs refs = (Some p, ds) \<Longrightarrow> ap_Authenticators p = real_ones refs \<and>
     (ap_AllowAnonymous p \<longleftrightarrow> names_anonymous refs \<or> real_ones refs = [])"
  by (auto simp: policy_of_refs_def add_refs_exact split: if_splits)

text \<open>C28: The gate of a route: behind a policy that names an enabled mechanism and not \<open>auth.anonymous\<close>, a request is
  served exactly when the first mechanism that claims it accepts it, with that mechanism's identity and
  name; the verdict of the first claimant is final, whatever a later mechanism would say.\<close>

theorem auth_gate:
  assumes "policy_of_refs refs = (Some p, [])" and "real_ones refs \<noteq> []" and "\<not> names_anonymous refs"
  shows "NewAuthMiddleware api (Some p) r = Served x \<longleftrightarrow>
           (\<exists>pre a post v. real_ones refs = pre @ a # post \<and> list_all (\<lambda>b. \<not> Claims api b r) pre \<and>
              Claims api a r \<and> Authenticate api a r = Accepted v \<and> x = Some (withMethod v (Method api a)))"
proof -
  have p: "ap_Authenticators p = real_ones refs" "\<not> ap_AllowAnonymous p" using policy_of_refs_real[OF assms(1)] assms(2,3) by auto
  have mid: "NewAuthMiddleware api (Some p) r =
      (case find (\<lambda>a. Claims api a r) (real_ones refs) of
         None \<Rightarrow> writeUnclaimed api p
       | Some a \<Rightarrow> (case Authenticate api a r of
            Failed e \<Rightarrow> Answered 500 [] | Rejected f \<Rightarrow> writeFailure f
          | Accepted v \<Rightarrow> Served (Some (withMethod v (Method api a)))))"
    using p by (simp add: NewAuthMiddleware_def claimant_def)
  show ?thesis
  proof (cases "find (\<lambda>a. Claims api a r) (real_ones refs)")
    case None
    then have "\<forall>a \<in> set (real_ones refs). \<not> Claims api a r" by (simp add: find_None_iff)
    then show ?thesis unfolding mid None by (auto simp: writeUnclaimed_def)
  next
    case (Some a)
    then have first: "a = b" if "real_ones refs = pre @ b # post" "list_all (\<lambda>b. \<not> Claims api b r) pre" "Claims api b r" for pre b post
      using that find_split_iff[of "\<lambda>a. Claims api a r" "real_ones refs" b] by auto
    obtain pre post where split: "real_ones refs = pre @ a # post" "list_all (\<lambda>b. \<not> Claims api b r) pre" "Claims api a r"
      using Some by (auto simp: find_split_iff)
    show ?thesis unfolding mid Some
      using first split by (auto simp: writeFailure_def split: judged.split option.split)
  qed
qed

text \<open>The name of the mechanism in an identity that is an object is that of the mechanism which accepted the
  request, whatever its expression returned.\<close>

theorem identity_names_mechanism:
  assumes "NewAuthMiddleware api (Some p) r = Served (Some (AvObject m))"
  shows "\<exists>a \<in> set (ap_Authenticators p). Claims api a r \<and> m ''method'' = Some (AvString (Method api a))"
proof -
  obtain a v where a: "claimant api p r = Some a" and v: "withMethod v (Method api a) = AvObject m"
    using assms by (auto simp: NewAuthMiddleware_def writeUnclaimed_def writeFailure_def
        split: if_splits option.splits judged.splits)
  have "a \<in> set (ap_Authenticators p)" "Claims api a r" using a by (auto simp: claimant_def find_split_iff)
  moreover have "m ''method'' = Some (AvString (Method api a))"
    using v by (auto simp: withMethod_def AuthMethodField_def split: auth_value.splits)
  ultimately show ?thesis by blast
qed

text \<open>For a map it is not: the reserved key is only looked for in objects, and only objects are stamped.\<close>

lemma custom_map_forges_method:
  assumes "aa_eval api action r = Inr (AvMap [''method'' \<mapsto> AvString forged], [])" and "evalClaims api r claims"
  shows "NewAuthMiddleware api (Some \<lparr>ap_Authenticators = [CustomAuth action claims], ap_AllowAnonymous = False, ap_Names = ns\<rparr>) r =
           Served (Some (AvMap [''method'' \<mapsto> AvString forged]))"
  using assms by (simp add: NewAuthMiddleware_def Enforced_def claimant_def custom_authenticate_def evalAuthAction_def withMethod_def)

text \<open>A name that is not to be written by an author, but can be: it leaves the route open.\<close>

lemma disabled_is_writable:
  assumes "aa_config api e = (AvRef AuthDisabledName None RefDisabled, [])"
  shows "NewAuthMiddleware api (fst (ResolveAuth api (Some e))) r = Served None"
  using assms by (simp add: ResolveAuth_def policy_of_refs_exact misplaced_def names_anonymous_def NewAuthMiddleware_def Enforced_def)

section \<open>What a name is bound to\<close>

definition declared :: "string \<Rightarrow> auth_block list \<Rightarrow> bool" where
  "declared name bs \<longleftrightarrow> named name bs \<noteq> []"

definition enabled_of :: "string \<Rightarrow> auth_block list \<Rightarrow> auth_block list" where
  "enabled_of name bs = filter (\<lambda>b. \<not> bk_disabled b) (named name bs)"

definition bound :: "(auth_block \<Rightarrow> 'a) \<Rightarrow> auth_block list \<Rightarrow> string \<Rightarrow> 'a auth_ref option" where
  "bound build bs name =
     (case enabled_of name bs of
        b # _ \<Rightarrow> Some (name, Some (build b), RefReal)
      | [] \<Rightarrow> if declared name bs then Some (name, None, RefDisabled) else None)"

lemma enabled_snoc [simp]:
  "enabled_of name (bs @ [b]) = enabled_of name bs @ (if bk_name b = name \<and> \<not> bk_disabled b then [b] else [])"
  "declared name (bs @ [b]) \<longleftrightarrow> declared name bs \<or> bk_name b = name"
  by (auto simp: enabled_of_def declared_def named_def)

definition buildable :: "(string \<rightharpoonup> (auth_block \<Rightarrow> 'a option \<times> diag list)) \<Rightarrow> (auth_block \<Rightarrow> 'a) \<Rightarrow> auth_block \<Rightarrow> bool" where
  "buildable reg build b \<longleftrightarrow>
     \<not> HasErrors (bk_decode b) \<and> bk_name b \<notin> {AuthAnonymousName, AuthDisabledName} \<and>
     (case reg (bk_type b) of None \<Rightarrow> False | Some f \<Rightarrow> f b = (Some (build b), []))"

definition unreserved :: "string \<Rightarrow> bool" where
  "unreserved name \<longleftrightarrow> name \<notin> {AuthAnonymousName, AuthDisabledName}"

definition bound_inv :: "(auth_block \<Rightarrow> 'a) \<Rightarrow> auth_block list \<Rightarrow> 'a auth_namespace \<Rightarrow> bool" where
  "bound_inv build bs ns \<longleftrightarrow>
     (\<forall>name. unreserved name \<longrightarrow> ns_refs ns name = bound build bs name \<and>
        (enabled_of name bs \<noteq> [] \<longrightarrow> ns_blocks ns name \<noteq> None))"

lemma bound_real: "is_real (bound build bs name) \<longleftrightarrow> enabled_of name bs \<noteq> []"
  by (auto simp: bound_def is_real_def split: list.split)

lemma process_bound:
  assumes "bound_inv build bs ns" and "buildable reg build b"
  shows "bound_inv build (bs @ [b]) (fst (Auth_Process reg b ns))"
    and "HasErrors (snd (Auth_Process reg b ns)) \<longleftrightarrow> \<not> bk_disabled b \<and> enabled_of (bk_name b) bs \<noteq> []"
proof -
  have res: "unreserved (bk_name b)" using assms(2) by (simp add: buildable_def unreserved_def)
  have ref: "ns_refs ns (bk_name b) = bound build bs (bk_name b)"
    and blk: "enabled_of (bk_name b) bs \<noteq> [] \<Longrightarrow> ns_blocks ns (bk_name b) \<noteq> None"
    using assms(1) res by (simp_all add: bound_inv_def)
  obtain f where f: "reg (bk_type b) = Some f" "f b = (Some (build b), [])" and dec: "\<not> HasErrors (bk_decode b)"
    using assms(2) by (auto simp: buildable_def split: option.splits)
  have step: "Auth_Process reg b ns =
      (if bk_disabled b
       then (if enabled_of (bk_name b) bs \<noteq> [] then ns else bind (bk_name b, None, RefDisabled) None ns, [])
       else if enabled_of (bk_name b) bs \<noteq> [] then (ns, [DiagError ''Duplicate auth name''])
       else (bind (bk_name b, Some (build b), RefReal) (Some b) ns, []))"
    using f dec blk by (auto simp: Auth_Process_def enabledDeclaration_def bindDisabled_def ref bound_real)
  show "HasErrors (snd (Auth_Process reg b ns)) \<longleftrightarrow> \<not> bk_disabled b \<and> enabled_of (bk_name b) bs \<noteq> []"
    by (simp add: step)
  show "bound_inv build (bs @ [b]) (fst (Auth_Process reg b ns))"
    using assms(1) ref
    by (auto simp: step bound_inv_def bind_def Let_def bound_def split: list.splits)
qed

lemma run_bound:
  "list_all (buildable reg build) bs \<Longrightarrow>
     bound_inv build bs (fst (run_ops (Auth_Process reg) bs initAuthNamespace)) \<and>
     (HasErrors (snd (run_ops (Auth_Process reg) bs initAuthNamespace)) \<longleftrightarrow> (\<exists>name. 1 < length (enabled_of name bs)))"
proof (induction bs rule: rev_induct)
  case Nil
  then show ?case
    by (auto simp: bound_inv_def initAuthNamespace_def unreserved_def bound_def enabled_of_def declared_def named_def run_ops.simps)
next
  case (snoc b bs)
  let ?ns = "fst (run_ops (Auth_Process reg) bs initAuthNamespace)"
  have IH: "bound_inv build bs ?ns"
    "HasErrors (snd (run_ops (Auth_Process reg) bs initAuthNamespace)) \<longleftrightarrow> (\<exists>name. 1 < length (enabled_of name bs))"
    using snoc by simp_all
  have b: "buildable reg build b" using snoc.prems by simp
  have dup: "(\<exists>name. 1 < length (enabled_of name (bs @ [b]))) \<longleftrightarrow>
      (\<exists>name. 1 < length (enabled_of name bs)) \<or> \<not> bk_disabled b \<and> enabled_of (bk_name b) bs \<noteq> []"
    by (auto split: if_splits) (use less_SucI in blast)+
  show ?case using process_bound[OF IH(1) b] IH(2) dup by (simp add: run_ops_append_fst run_ops_append_snd run_ops.simps)
qed

text \<open>Several blocks may share a name: whatever their order, a name is bound to its enabled declaration when
  there is one and else to the disabled sentinel, and processing them is an error exactly when some name
  has two enabled declarations.\<close>

theorem auth_binding:
  assumes "list_all (buildable reg build) bs"
  shows "(HasErrors (snd (run_ops (Auth_Process reg) bs initAuthNamespace)) \<longleftrightarrow> (\<exists>name. 1 < length (enabled_of name bs))) \<and>
         (unreserved name \<longrightarrow> ns_refs (fst (run_ops (Auth_Process reg) bs initAuthNamespace)) name = bound build bs name)"
  using run_bound[OF assms] by (simp add: bound_inv_def)

section \<open>Examples\<close>

text \<open>Addresses are their text, a network is one address, and the credentials of every expression are those of
  one user.\<close>

definition plain_api :: "(string, string, unit, string) auth_api" where
  "plain_api = \<lparr>aa_SplitHostPort = (\<lambda>_. None), aa_ParseIP = (\<lambda>s. if s = [] then None else Some s), aa_ParseCIDR = Some,
     aa_host = id, aa_Contains = (=), aa_TrimSpace = id, aa_Quote = id,
     aa_BasicAuth = (\<lambda>r. case rq_Header r ''Authorization'' of [] \<Rightarrow> None | p # _ \<Rightarrow> Some (''alice'', p)),
     aa_eval = (\<lambda>_ _. Inl ''none''), aa_config = (\<lambda>_. (AvObject [''alice'' \<mapsto> AvString ''secret''], [])),
     aa_Method = (\<lambda>_. ''oidc''), aa_Claims = (\<lambda>_ _. True), aa_Challenge = (\<lambda>_. []),
     aa_Authenticate = (\<lambda>_ _. Failed ''offline'')\<rparr>"

definition via_proxy :: request where
  "via_proxy = \<lparr>rq_RemoteAddr = ''p'', rq_Header = (\<lambda>k. if k = ''X-Forwarded-For'' then [''c,p''] else [])\<rparr>"

definition plain_real_ip :: "string realIPResolver" where
  "plain_real_ip = \<lparr>rr_trusted = [''p''], rr_header = ''X-Forwarded-For'', rr_recursive = True\<rparr>"

lemma plain_resolve: "resolve plain_api plain_real_ip via_proxy = ''c''"
  by (simp add: resolve_def Trusts_def peer_ip_def forwarded_def comma_items_def plain_api_def plain_real_ip_def via_proxy_def)

theorem real_ip_sound_witness:
  "\<exists>pre post. forwarded plain_api (rq_Header via_proxy ''X-Forwarded-For'') =
     pre @ rq_RemoteAddr (wrap plain_api plain_real_ip via_proxy) # post"
proof -
  have "rr_recursive plain_real_ip" "rr_header plain_real_ip = ''X-Forwarded-For''" by (simp_all add: plain_real_ip_def)
  then show ?thesis using real_ip_sound[of plain_api plain_real_ip via_proxy] plain_resolve by auto
qed

definition basic_policy :: "(string, string, unit) authenticator auth_ref list" where
  "basic_policy = [(''ops'', Some (BasicAuth ''ops'' (Some ''users'') None), RefReal), (''old'', None, RefDisabled)]"

definition with_password :: "string \<Rightarrow> request" where
  "with_password p = \<lparr>rq_RemoteAddr = ''c'', rq_Header = (\<lambda>k. if k = ''Authorization'' then [p] else [])\<rparr>"

lemma basic_policy_resolved:
  "policy_of_refs basic_policy =
     (Some \<lparr>ap_Authenticators = [BasicAuth ''ops'' (Some ''users'') None], ap_AllowAnonymous = False, ap_Names = [''ops'', ''old'']\<rparr>, [])"
  by (simp add: policy_of_refs_exact basic_policy_def misplaced_def names_anonymous_def)

lemmas plain_simps = NewAuthMiddleware_def Enforced_def claimant_def basic_authenticate_def expected_password_def
  plain_api_def with_password_def

theorem auth_gate_witness:
  "\<forall>x. NewAuthMiddleware plain_api (fst (policy_of_refs basic_policy)) (with_password ''wrong'') \<noteq> Served x"
proof
  fix x
  have "Authenticate plain_api (BasicAuth ''ops'' (Some ''users'') None) (with_password ''wrong'') \<noteq> Accepted v" for v
    by (simp add: plain_simps Let_def)
  then show "NewAuthMiddleware plain_api (fst (policy_of_refs basic_policy)) (with_password ''wrong'') \<noteq> Served x"
    unfolding basic_policy_resolved fst_conv
    using auth_gate[OF basic_policy_resolved, of plain_api "with_password ''wrong''" x]
    by (auto simp: basic_policy_def names_anonymous_def Cons_eq_append_conv)
qed

theorem identity_names_mechanism_witness:
  "\<exists>m. NewAuthMiddleware plain_api (fst (policy_of_refs basic_policy)) (with_password ''secret'') = Served (Some (AvObject m)) \<and>
     m ''method'' = Some (AvString ''basic'')"
proof -
  have "\<exists>m. NewAuthMiddleware plain_api (fst (policy_of_refs basic_policy)) (with_password ''secret'') = Served (Some (AvObject m))"
    by (simp add: basic_policy_resolved plain_simps Let_def plain_identity_def withMethod_def)
  then show ?thesis unfolding basic_policy_resolved fst_conv by (fastforce dest: identity_names_mechanism)
qed

theorem auth_binding_witness:
  "ns_refs (fst (run_ops (Auth_Process (\<lambda>_. Some (\<lambda>b. (Some (bk_pos b), []))))
      [\<lparr>bk_type = ''oidc'', bk_name = ''site'', bk_pos = 0, bk_disabled = False, bk_decode = []\<rparr>,
       \<lparr>bk_type = ''basic'', bk_name = ''site'', bk_pos = 9, bk_disabled = True, bk_decode = []\<rparr>] initAuthNamespace)) ''site''
     = Some (''site'', Some 0, RefReal)"
proof -
  let ?bs = "[\<lparr>bk_type = ''oidc'', bk_name = ''site'', bk_pos = 0, bk_disabled = False, bk_decode = []\<rparr>,
       \<lparr>bk_type = ''basic'', bk_name = ''site'', bk_pos = 9, bk_disabled = True, bk_decode = []\<rparr>]"
  have "list_all (buildable (\<lambda>_. Some (\<lambda>b. (Some (bk_pos b), []))) bk_pos) ?bs"
    by (simp add: buildable_def AuthAnonymousName_def AuthDisabledName_def)
  from auth_binding[OF this, of "''site''"] show ?thesis
    by (simp add: unreserved_def AuthAnonymousName_def AuthDisabledName_def bound_def enabled_of_def named_def)
qed

end
