(* ===== verification/Spec2Isabelle.thy ===== *)
theory Spec2Isabelle
  imports Cond_Flipflop Proc_Spec Suggest Watchdog Interval At_Time Fsm_Block Variable Shutdown Health_Http Ack Partition Line_Editor Http_Request Server_Auth
begin

text \<open>
  Vinculum is a server configured by HCL files: blocks declare clients, servers, triggers,
  conditions and procedures, expressions wire them together, and watchable values notify the
  expressions that depend on them. This development models the parts that carry the program's own
  logic, and shows what a configuration can rely on.

  \<^bold>\<open>Parts and how they interact.\<close> Configuration loading sorts the blocks by the references between
  them and processes them in that order, in passes that end at the first with an error; procedures are
  compiled to functions beforehand. A server starts what a configuration declares, and at its end tears
  it down in phases that empty the pipeline first. A variable is a watchable value with a type. A condition
  is a watchable boolean: its subtype (timer, threshold, counter, flipflop) turns what its sources
  report into calls of one shared state machine, whose output changes are the edges its watchers and
  its hooks see. A watchdog is a trigger fed by \<open>set\<close> and fired by its own timer; interval and at
  triggers act again and again, are armed by \<open>set\<close> and put to sleep by \<open>reset\<close>. A block of a state
  machine is parsed to a definition for the machine, whose reactive events follow the edges of their
  expressions. Health contributors
  and check blocks decide the probes that endpoints answer and the watchable \<open>sys.ready\<close>. Messages
  reach a subscriber through a queue that keeps the order of a partition key, and are settled within a
  deadline. A request to a server is attributed to an address and judged by the policy of its route; a
  request of the HTTP client is put together from the client, the call and the body, carries a cached
  credential and is retried. Line editors are functions over
  files below a base directory. Diagnostics offer near misses of unknown names.

  \<^bold>\<open>Theories.\<close>
  \<^item> \<open>Vinculum_Prelude\<close>: time, 64-bit integers, edges and chains of edges, runs of operations,
    diagnostics, and the interfaces \<open>notifying\<close> (operations report a chain of edges from the old output
    to the new; \<open>notifying_when\<close> for one that is live only later), \<open>invariant_machine\<close> (operations keep
    an invariant) and \<open>implements\<close> (a machine answers every run as its specification does).
  \<^item> \<open>Cond_State\<close>: \<open>conditions/state.go\<close> and \<open>conditions/common.go\<close>. The record \<open>StateMachine\<close> has the
    struct's fields and its clock; one definition per method, named as in the source, returning the
    new machine and the edges it notifies.
  \<^item> \<open>Cond_Machine\<close>: runs of that machine as lists of operations, the passage of time, the expiry of a
    scheduled callback and its later execution being operations of their own, and the invariant
    \<open>config_inv\<close>. Both interfaces are interpreted here.
  \<^item> \<open>Cond_Safety\<close>: what holds under every interleaving (progress of waiting states, alternation of
    edges, latch, inhibit, clear). \<open>Cond_Timing\<close>: what holds when callbacks run as they expire (quiet
    period, on-delay, retentive accumulation), and what a late callback can do instead.
  \<^item> \<open>Cond_Common\<close>: the values conditions receive, reactive expressions (\<open>config/reactive.go\<close>), hooks
    (\<open>conditions/hooks.go\<close>), block attributes, and the interface \<open>wrapper\<close> of a subtype around the
    machine, from which \<open>notifying\<close> follows by \<open>sublocale\<close>. Each of \<open>Cond_Timer\<close>,
    \<open>Cond_Threshold\<close>, \<open>Cond_Counter\<close> and \<open>Cond_Flipflop\<close> models the file of its name, with the
    processing of its block, and interprets \<open>wrapper\<close>.
  \<^item> \<open>Block_Deps\<close>: \<open>config/dep.go\<close>, the references of a block and the stable topological sort; the
    result is ordered, a permutation, and fails exactly on cycles.
  \<^item> \<open>Loader\<close>: the passes of \<open>Build\<close> in \<open>config/config.go\<close> over the blocks, as runs of the operations of their
    handlers. \<open>Fsm_Block\<close>: \<open>config/fsm.go\<close> and the backend dependencies of \<open>config/blocks.go\<close>; the handler
    interprets \<open>invariant_machine\<close>, and the edges of a \<open>when\<close> expression interpret \<open>one_shot\<close>.
  \<^item> \<open>Variable\<close>: \<open>types/variable.go\<close> and \<open>config/variable.go\<close>: the container, whose calls interpret
    \<open>invariant_machine\<close> twice (what it can hold, and which changes its watchers are told), and the variables a
    configuration declares.
  \<^item> \<open>Shutdown\<close>: the life of a server in \<open>cmd/serve.go\<close>, \<open>cmd/startup.go\<close>, \<open>config/startup.go\<close> and
    \<open>config/discard.go\<close>: the start of the components, the phases of a shutdown, when the pipeline counts as
    empty, and the time all this takes.
  \<^item> \<open>Proc_Scope\<close>, \<open>Proc_Interp\<close>, \<open>Proc_Compiler\<close>, \<open>Proc_Spec\<close>: the package \<open>procedure\<close> and
    \<open>config/procedure.go\<close>. Scopes (interface \<open>scope_discipline\<close>), statements and their interpreter,
    the compiler from HCL bodies with all its diagnostics, the \<open>spec\<close> block, the binding of call
    arguments, and the extraction of all procedures of a configuration.
  \<^item> \<open>Suggest\<close>: \<open>internal/suggest\<close>, related to the least number of edits.
  \<^item> \<open>Values\<close>: \<open>float64\<close>, views of values and \<open>ParseDurationFromValue\<close> of \<open>config/util.go\<close>.
  \<^item> \<open>Watchdog\<close>: \<open>triggers/watchdog\<close>, the goroutine and its callers as an inductive step relation.
    \<open>Trigger_Runs\<close>: labelled runs and the interfaces \<open>wakeable\<close> (asleep until a waking call) and
    \<open>one_shot\<close> (as many actions as calls that allow them). \<open>Interval\<close> and \<open>At_Time\<close>: \<open>triggers/interval\<close> and
    \<open>triggers/at\<close>, whose step relations interpret both.
  \<^item> \<open>Health\<close>: the aggregator of \<open>config/health.go\<close>, with an evaluation in flight as two steps; what a
    read reports, what a pushed report corrects, since when a verdict holds, and the edges of
    \<open>sys.ready\<close>. \<open>Health_Http\<close>: \<open>config/check.go\<close>, \<open>config/healthhttp.go\<close>, \<open>config/healthmetrics.go\<close> and
    \<open>functions/health.go\<close>.
  \<^item> \<open>Ack\<close>: \<open>config/ack.go\<close>, \<open>config/settle.go\<close> and \<open>functions/inbound.go\<close>: the policy and the deadline of
    a delivery, under every interleaving of its callers and its timer. \<open>Partition\<close>:
    \<open>config/partition.go\<close> and the queue part of \<open>config/subs.go\<close>.
  \<^item> \<open>Safe_Path\<close>: \<open>config/pathutil.go\<close> over the lexical path functions of the standard library.
    \<open>Line_Editor\<close>: \<open>editors/line\<close>: rules, string mode, and file mode with every call that can fail.
  \<^item> \<open>Http_Auth\<close>: \<open>clients/http/auth.go\<close> and \<open>sendOnceWithAuth\<close> of \<open>functions/http.go\<close>: the credential
    cache, which interprets \<open>implements\<close>, and the second try after a 401. \<open>Http_Retry\<close>:
    \<open>clients/http/retry.go\<close> and \<open>runRetryLoop\<close>, whose attempts are events of a trace. \<open>Http_Request\<close>: the rest
    of \<open>functions/http.go\<close> up to the prepared request, the headers and redirects of \<open>clients/http/http.go\<close> and
    \<open>CoerceBodyToBytes\<close> of \<open>types/httpresponse.go\<close>; where each header and parameter comes from.
  \<^item> \<open>Server_Auth\<close>: \<open>config/trustedproxies.go\<close>, \<open>servers/http/realip.go\<close>, \<open>config/auth.go\<close>,
    \<open>config/authblock.go\<close> and the middleware and mechanisms of \<open>servers/auth\<close>.

  \<^bold>\<open>Atomicity, time and fuel.\<close> A method that holds its mutex throughout is one step. Callbacks of
  \<open>time.AfterFunc\<close> are first taken off the schedule and run in a later step, since \<open>Stop\<close> cannot
  recall a callback that has expired; the watchdog's action runs between two steps for the same
  reason. The goroutines of the interval and at triggers are taken apart wherever they release the lock,
  evaluate an expression or choose among ready channels, and evaluation may give any result. Times are integers of nanoseconds. Only iterations of \<open>while\<close> use fuel: with enough of it
  the result no longer depends on it, and a loop with a falling variant needs a bounded amount.
  Counts of the counter are 64-bit integers with their wrap-around. Health, the deadline of a delivery
  and the credential cache hold their mutex for a whole step, except for the evaluation of the
  contributors, which is taken apart. The retry loop ends because the number of the attempt grows; the
  editor works on one file at a time, with names of temporary files that are not in use. A call on a
  variable writes in one step and tells the watchers in another. The readings of the pipeline at a shutdown are
  taken until its deadline, which bounds their number.

  \<^bold>\<open>Parameters.\<close> Code outside the repository is an argument: HCL expression evaluation and cty values
  (\<open>hcl_api\<close>), the HCL parser (\<open>hcl_syntax\<close>), constant evaluation and the capsule behind \<open>required\<close>
  (\<open>spec_api\<close>), duration parsing, and the case folding of a rune. Comparisons of numbers in
  thresholds are those of an arbitrary linear order. Further arguments are the outcomes of a
  contributor's \<open>Ready\<close>, the settler of the bus, the attributes a key reads, regular expressions and
  values of an editor (\<open>editor_api\<close>) and its failing calls (\<open>faults\<close>), the world of an HTTP request
  (\<open>http_world\<close>, \<open>retry_world\<close>) with the arithmetic of \<open>float64\<close>, addresses, expressions and token
  verification of a server (\<open>auth_api\<close>), times read from values and random numbers, the package of state
  machines (\<open>fsm_package\<close>), the type constraints of the functy language (\<open>var_api\<close>, \<open>var_world\<close>), the URLs of
  \<open>net/url\<close>, what components answer when they are started and stopped, and the handlers of a build where
  only their order matters.

  \<^bold>\<open>Not modelled.\<close> The other clients, the servers and wire protocols (they call third-party libraries and
  do I/O), the transport of a request (connections, TLS, cookie jars, tracing), the other functions of the
  library (thin wrappers of packages), tracing and metrics, the schema generator, and the command line apart
  from the life of a server. Source positions in diagnostics are left out, as is logging, except
  where a property is about it.
\<close>

end
